(* ===== verification/Prelude.thy ===== *)
theory Prelude
  imports Complex_Main "HOL-Library.AList" "HOL-Library.Char_ord" "HOL-Library.List_Lexorder"
begin

text \<open>
  Shared vocabulary of the development: the exceptions of the Python sources as a datatype, results
  and state-passing actions that may raise, insertion-ordered dictionaries as association lists, the
  string operations the sources use, time stamps, and the generic lemmas every component relies on.

  A \<open>string\<close> is a list of characters with code points below 256; \<open>strip\<close> and \<open>lower\<close> follow
  Python's \<open>str\<close> methods on that range.  A \<open>uuid\<close> is the number of the UUID: the text of a UUID has
  fixed width, so ordering by \<open>str\<close> is ordering by number.
\<close>

named_theorems model_defs \<open>definitions that evaluation proofs unfold\<close>
named_theorems preserve_intros \<open>rules that show that an action keeps a predicate\<close>

section \<open>Exceptions, results and actions\<close>

datatype py_error =
    ValueError string
  | ValidationError string
  | OrderStateError string
  | IdempotencyConflict string
  | EventIdempotencyConflict string
  | KeyError string
  | RuntimeError string
  | AmbiguousAcknowledgement
  | InvalidOperation string
  | ZeroDivisionError
  | PermissionError string

type_synonym 'a res = "py_error + 'a"
type_synonym ('s, 'a) action = "'s \<Rightarrow> 'a res \<times> 's"

definition is_ok :: "'a res \<Rightarrow> bool" where
  "is_ok r = (case r of Inl _ \<Rightarrow> False | Inr _ \<Rightarrow> True)"

definition rbind :: "'a res \<Rightarrow> ('a \<Rightarrow> 'b res) \<Rightarrow> 'b res" where
  "rbind r f = (case r of Inl e \<Rightarrow> Inl e | Inr x \<Rightarrow> f x)"

definition sreturn :: "'a \<Rightarrow> ('s, 'a) action" where
  "sreturn x = (\<lambda>s. (Inr x, s))"

definition sraise :: "py_error \<Rightarrow> ('s, 'a) action" where
  "sraise e = (\<lambda>s. (Inl e, s))"

definition sbind :: "('s, 'a) action \<Rightarrow> ('a \<Rightarrow> ('s, 'b) action) \<Rightarrow> ('s, 'b) action" where
  "sbind m f = (\<lambda>s. case m s of (Inl e, s') \<Rightarrow> (Inl e, s') | (Inr x, s') \<Rightarrow> f x s')"

definition spure :: "('s \<Rightarrow> 'a res) \<Rightarrow> ('s, 'a) action" where
  "spure f = (\<lambda>s. (f s, s))"

definition smodify :: "('s \<Rightarrow> 's) \<Rightarrow> ('s, unit) action" where
  "smodify f = (\<lambda>s. (Inr (), f s))"

definition sget :: "('s \<Rightarrow> 'a) \<Rightarrow> ('s, 'a) action" where
  "sget f = (\<lambda>s. (Inr (f s), s))"

lemma is_ok_simps [simp]: "\<not> is_ok (Inl e)" "is_ok (Inr x)"
  by (simp_all add: is_ok_def)

definition the_ok :: "'a res \<Rightarrow> 'a" where
  "the_ok r = (case r of Inr x \<Rightarrow> x)"

lemma is_ok_the_ok: "is_ok r \<Longrightarrow> r = Inr (the_ok r)"
  by (cases r) (simp_all add: the_ok_def)

lemma rbind_simps [simp]: "rbind (Inl e) f = Inl e" "rbind (Inr x) f = f x"
  by (simp_all add: rbind_def)

lemma rbind_eq_Inr: "rbind r f = Inr y \<longleftrightarrow> (\<exists>x. r = Inr x \<and> f x = Inr y)"
  by (cases r) auto

lemma action_simps [simp, code]:
  "sreturn x s = (Inr x, s)"
  "sraise e s = (Inl e, s)"
  "smodify g s = (Inr (), g s)"
  "sget h s = (Inr (h s), s)"
  "spure k s = (k s, s)"
  by (simp_all add: sreturn_def sraise_def smodify_def sget_def spure_def)

lemma sbind_apply [code]:
  "sbind m f s = (case m s of (Inl e, s') \<Rightarrow> (Inl e, s') | (Inr x, s') \<Rightarrow> f x s')"
  by (simp add: sbind_def)

lemma sbind_simps [simp]:
  "sbind (sreturn x) f = f x"
  "sbind (sraise e) f = sraise e"
  "sbind (smodify g) k s = k () (g s)"
  "sbind (sget h) k' s = k' (h s) s"
  by (auto simp: sbind_def fun_eq_iff)

lemma sbind_Pair [simp]: "sbind (Pair (Inr x)) f = f x" "sbind (Pair (Inl e)) f = Pair (Inl e)"
  by (auto simp: sbind_def)

lemma sbind_spure [simp]:
  "sbind (spure h) f s = (case h s of Inl e \<Rightarrow> (Inl e, s) | Inr x \<Rightarrow> f x s)"
  by (auto simp: sbind_def split: sum.splits)

lemma sbind_ok: "m s = (Inr x, s') \<Longrightarrow> sbind m f s = f x s'"
  by (simp add: sbind_def)

lemma sbind_err: "m s = (Inl e, s') \<Longrightarrow> sbind m f s = (Inl e, s')"
  by (simp add: sbind_def)

lemma sbind_eq_Inr:
  "sbind m f s = (Inr y, t) \<longleftrightarrow> (\<exists>x s'. m s = (Inr x, s') \<and> f x s' = (Inr y, t))"
  by (auto simp: sbind_def split: prod.splits sum.splits)

lemma sbind_assoc: "sbind (sbind m f) g = sbind m (\<lambda>x. sbind (f x) g)"
  by (auto simp: sbind_def fun_eq_iff split: prod.splits sum.splits)

subsection \<open>Predicates that actions keep\<close>

text \<open>
  \<open>keeps P m\<close>: whatever \<open>m\<close> does, errors included, it leads from states with \<open>P\<close> to states with \<open>P\<close>.
  \<open>moves R m\<close> is the relational version, for facts about the state before and after.
\<close>

definition keeps :: "('s \<Rightarrow> bool) \<Rightarrow> ('s, 'a) action \<Rightarrow> bool" where
  "keeps P m \<longleftrightarrow> (\<forall>s. P s \<longrightarrow> P (snd (m s)))"

definition moves :: "('s \<Rightarrow> 's \<Rightarrow> bool) \<Rightarrow> ('s, 'a) action \<Rightarrow> bool" where
  "moves R m \<longleftrightarrow> (\<forall>s. R s (snd (m s)))"

lemma keepsI: "(\<And>s. P s \<Longrightarrow> P (snd (m s))) \<Longrightarrow> keeps P m"
  by (simp add: keeps_def)

lemma keepsD: "keeps P m \<Longrightarrow> P s \<Longrightarrow> m s = (r, s') \<Longrightarrow> P s'"
  by (metis keeps_def snd_conv)

lemma movesI: "(\<And>s. R s (snd (m s))) \<Longrightarrow> moves R m"
  by (simp add: moves_def)

lemma movesD: "moves R m \<Longrightarrow> m s = (r, s') \<Longrightarrow> R s s'"
  by (metis moves_def snd_conv)

lemma keeps_basic [preserve_intros, simp]:
  "keeps P (sreturn x)" "keeps P (sraise e)" "keeps P (sget h)" "keeps P (spure k)"
  by (simp_all add: keeps_def)

lemma keeps_sbind [preserve_intros]:
  "keeps P m \<Longrightarrow> (\<And>x. keeps P (f x)) \<Longrightarrow> keeps P (sbind m f)"
  by (fastforce simp: keeps_def sbind_def split: prod.splits sum.splits)

lemma keeps_if [preserve_intros]:
  "(b \<Longrightarrow> keeps P m) \<Longrightarrow> (\<not> b \<Longrightarrow> keeps P m') \<Longrightarrow> keeps P (if b then m else m')"
  by simp

lemma keeps_option [preserve_intros]:
  "(v = None \<Longrightarrow> keeps P m) \<Longrightarrow> (\<And>x. v = Some x \<Longrightarrow> keeps P (f x)) \<Longrightarrow>
   keeps P (case v of None \<Rightarrow> m | Some x \<Rightarrow> f x)"
  by (cases v) auto

lemma moves_basic [preserve_intros, simp]:
  "reflp R \<Longrightarrow> moves R (sreturn x)" "reflp R \<Longrightarrow> moves R (sraise e)"
  "reflp R \<Longrightarrow> moves R (sget h)" "reflp R \<Longrightarrow> moves R (spure k)"
  by (simp_all add: moves_def reflp_def)

lemma moves_sbind:
  "transp R \<Longrightarrow> moves R m \<Longrightarrow> (\<And>x. moves R (f x)) \<Longrightarrow> moves R (sbind m f)"
  unfolding moves_def sbind_def transp_def
  by (auto split: prod.split sum.split) (metis snd_conv)+

section \<open>Insertion-ordered dictionaries\<close>

text \<open>
  A Python \<open>dict\<close> is an association list in insertion order: assignment to a present key keeps its
  place (\<open>AList.update\<close>), to a new key appends, \<open>pop\<close> removes the entry.
\<close>

type_synonym ('k, 'v) dict = "('k \<times> 'v) list"

abbreviation dict_set :: "'k \<Rightarrow> 'v \<Rightarrow> ('k, 'v) dict \<Rightarrow> ('k, 'v) dict" where
  "dict_set \<equiv> AList.update"

abbreviation dict_pop :: "'k \<Rightarrow> ('k, 'v) dict \<Rightarrow> ('k, 'v) dict" where
  "dict_pop \<equiv> AList.delete"

definition dict_get :: "('k, 'v) dict \<Rightarrow> 'k \<Rightarrow> 'v \<Rightarrow> 'v" where
  "dict_get d k v = (case map_of d k of None \<Rightarrow> v | Some x \<Rightarrow> x)"

definition dict_has :: "('k, 'v) dict \<Rightarrow> 'k \<Rightarrow> bool" where
  "dict_has d k = (map_of d k \<noteq> None)"

definition dict_ok :: "('k, 'v) dict \<Rightarrow> bool" where
  "dict_ok d = distinct (map fst d)"

lemma map_of_dict_set [simp]: "map_of (dict_set k v d) = (map_of d)(k \<mapsto> v)"
  by (rule update_conv')

lemma map_of_dict_pop [simp]: "map_of (dict_pop k d) = (map_of d)(k := None)"
  by (rule delete_conv')

lemma dict_ok_set [simp, intro]: "dict_ok d \<Longrightarrow> dict_ok (dict_set k v d)"
  by (simp add: dict_ok_def distinct_update)

lemma dict_ok_pop [simp, intro]: "dict_ok d \<Longrightarrow> dict_ok (dict_pop k d)"
  by (simp add: dict_ok_def distinct_delete)

lemma dict_ok_Nil [simp]: "dict_ok []"
  by (simp add: dict_ok_def)

lemma set_dict_set: "(j, w) \<in> set (dict_set k v d) \<Longrightarrow> (j, w) = (k, v) \<or> (j, w) \<in> set d"
  by (induction d) (auto split: if_splits)

lemma dict_set_same: "map_of d k = Some v \<Longrightarrow> dict_set k v d = d"
  by (induction d) (auto split: if_splits)

lemma dict_set_new: "map_of d k = None \<Longrightarrow> dict_set k v d = d @ [(k, v)]"
  by (induction d) (auto split: if_splits)

lemma dict_ok_set_iff:
  "dict_ok d \<Longrightarrow> (j, w) \<in> set (dict_set k v d) \<longleftrightarrow> (if j = k then w = v else (j, w) \<in> set d)"
  by (metis dict_ok_def distinct_update map_of_dict_set map_of_eq_Some_iff fun_upd_apply option.inject)

lemma dict_ok_pop_iff:
  "(j, w) \<in> set (dict_pop k d) \<longleftrightarrow> j \<noteq> k \<and> (j, w) \<in> set d"
  by (auto simp: AList.delete_eq)

lemma dict_has_iff: "dict_has d k \<longleftrightarrow> k \<in> fst ` set d"
  by (simp add: dict_has_def map_of_eq_None_iff)

lemma dict_get_eq: "dict_ok d \<Longrightarrow> (k, x) \<in> set d \<Longrightarrow> dict_get d k v = x"
  by (simp add: dict_get_def dict_ok_def)

lemma dict_get_cases: "dict_get d k v = v \<or> (k, dict_get d k v) \<in> set d"
  by (auto simp: dict_get_def dest: map_of_SomeD split: option.splits)

lemma map_of_sort_key: "distinct (map fst xs) \<Longrightarrow> map_of (sort_key fst xs) = map_of xs"
  by (subst map_of_inject_set) (auto simp: distinct_map inj_on_def)

text \<open>\<open>tuple(dict.fromkeys(xs))\<close>: the first occurrences, in order.\<close>

fun fromkeys :: "'a list \<Rightarrow> 'a list" where
  "fromkeys [] = []"
| "fromkeys (x # xs) = x # filter (\<lambda>y. y \<noteq> x) (fromkeys xs)"

lemma set_fromkeys [simp]: "set (fromkeys xs) = set xs"
  by (induction xs) auto

lemma distinct_fromkeys [simp]: "distinct (fromkeys xs)"
  by (induction xs) auto

lemma fromkeys_Nil_iff [simp]: "fromkeys xs = [] \<longleftrightarrow> xs = []"
  by (cases xs) auto

section \<open>Strings\<close>

definition is_space :: "char \<Rightarrow> bool" where
  "is_space c = (let n = of_char c :: nat in
     9 \<le> n \<and> n \<le> 13 \<or> 28 \<le> n \<and> n \<le> 32 \<or> n = 133 \<or> n = 160)"

definition strip :: "string \<Rightarrow> string" where
  "strip s = rev (dropWhile is_space (rev (dropWhile is_space s)))"

definition is_upper :: "char \<Rightarrow> bool" where
  "is_upper c = (let n = of_char c :: nat in
     65 \<le> n \<and> n \<le> 90 \<or> 192 \<le> n \<and> n \<le> 222 \<and> n \<noteq> 215)"

definition lower_char :: "char \<Rightarrow> char" where
  "lower_char c = (if is_upper c then char_of ((of_char c :: nat) + 32) else c)"

definition lower :: "string \<Rightarrow> string" where
  "lower s = map lower_char s"

text \<open>
  \<open>str.upper\<close> on the characters of the model: the sharp s has a capital of two letters; the capitals of the
  micro sign and of y with diaeresis are not characters of the model, so the two are kept.
\<close>

definition upper_char :: "char \<Rightarrow> string" where
  "upper_char c = (let n = of_char c :: nat in
     if n = 223 then ''SS''
     else if 97 \<le> n \<and> n \<le> 122 \<or> 224 \<le> n \<and> n \<le> 254 \<and> n \<noteq> 247 then [char_of (n - 32)] else [c])"

definition upper_case :: "string \<Rightarrow> string" where
  "upper_case s = concat (map upper_char s)"

definition blank :: "string \<Rightarrow> bool" where
  "blank s = (strip s = [])"

lemma dropWhile_all: "(\<forall>x \<in> set (dropWhile P xs). P x) \<longleftrightarrow> (\<forall>x \<in> set xs. P x)"
  by (induction xs) auto

lemma blank_iff: "blank s \<longleftrightarrow> (\<forall>c \<in> set s. is_space c)"
  by (simp add: blank_def strip_def dropWhile_eq_Nil_conv dropWhile_all)

lemma dropWhile_id: "xs = [] \<or> \<not> P (hd xs) \<Longrightarrow> dropWhile P xs = xs"
  by (cases xs) auto

lemma dropWhile_hd: "dropWhile P xs = [] \<or> \<not> P (hd (dropWhile P xs))"
  using hd_dropWhile by blast

lemma strip_no_lead: "strip s = [] \<or> \<not> is_space (hd (strip s)) \<and> \<not> is_space (last (strip s))"
proof (cases "strip s = []")
  case False
  define t where "t = dropWhile is_space s"
  define u where "u = dropWhile is_space (rev t)"
  have strip: "strip s = rev u" and ne: "u \<noteq> []"
    using False by (simp_all add: strip_def t_def u_def)
  have "\<not> is_space (hd u)"
    using ne dropWhile_hd [of is_space "rev t"] unfolding u_def by blast
  moreover have "rev t = takeWhile is_space (rev t) @ u"
    by (simp add: u_def)
  then have "t = rev u @ rev (takeWhile is_space (rev t))"
    by (metis rev_append rev_rev_ident)
  then have "hd t = hd (rev u)" and "t \<noteq> []"
    using ne by (metis hd_append2 rev_is_Nil_conv, auto)
  then have "\<not> is_space (hd (rev u))"
    using dropWhile_hd [of is_space s] unfolding t_def [symmetric] by auto
  ultimately show ?thesis
    using ne by (simp add: strip last_rev)
qed simp

lemma strip_id: "s = [] \<or> \<not> is_space (hd s) \<and> \<not> is_space (last s) \<Longrightarrow> strip s = s"
  by (auto simp: strip_def dropWhile_id hd_rev)

lemma strip_idem [simp]: "strip (strip s) = strip s"
  by (rule strip_id) (use strip_no_lead [of s] in blast)

lemma blank_strip [simp]: "blank (strip s) = blank s"
  by (simp add: blank_def)

text \<open>Texts that are joined by a separator the first part does not contain.\<close>

lemma split_at_first:
  "a @ c # x = b @ c # y \<Longrightarrow> c \<notin> set a \<Longrightarrow> c \<notin> set b \<Longrightarrow> a = b \<and> x = y"
  by (induction a arbitrary: b) (auto simp: append_eq_Cons_conv Cons_eq_append_conv)

text \<open>\<open>sep.join(xs)\<close>.\<close>

fun join :: "string \<Rightarrow> string list \<Rightarrow> string" where
  "join sep [] = ''''"
| "join sep [x] = x"
| "join sep (x # y # xs) = x @ sep @ join sep (y # xs)"

definition is_hex_digit :: "char \<Rightarrow> bool" where
  "is_hex_digit c = (c \<in> set ''0123456789abcdef'')"

definition is_digest :: "string \<Rightarrow> bool" where
  "is_digest s = (length s = 64 \<and> list_all is_hex_digit s)"

section \<open>Identifiers and time\<close>

type_synonym uuid = nat
type_synonym utc = int

definition hex_char :: "nat \<Rightarrow> char" where
  "hex_char n = ''0123456789abcdef'' ! n"

fun hex_fixed :: "nat \<Rightarrow> nat \<Rightarrow> string" where
  "hex_fixed 0 n = ''''"
| "hex_fixed (Suc k) n = hex_fixed k (n div 16) @ [hex_char (n mod 16)]"

text \<open>\<open>str\<close> of a UUID: 32 hexadecimal digits in groups of 8, 4, 4, 4 and 12.\<close>

definition uuid_str :: "uuid \<Rightarrow> string" where
  "uuid_str u = (let h = hex_fixed 32 u in
     take 8 h @ ''-'' @ take 4 (drop 8 h) @ ''-'' @ take 4 (drop 12 h) @ ''-'' @
     take 4 (drop 16 h) @ ''-'' @ drop 20 h)"

lemma hex_fixed_length [simp]: "length (hex_fixed k n) = k"
  by (induction k arbitrary: n) simp_all

lemma hex_char_digit: "n < 16 \<Longrightarrow> hex_char n \<in> set ''0123456789abcdef''"
  unfolding hex_char_def by (rule nth_mem) simp

lemma hex_fixed_set: "(\<And>n. n < 16 \<Longrightarrow> hex_char n \<in> D) \<Longrightarrow> c \<in> set (hex_fixed k n) \<Longrightarrow> c \<in> D"
  by (induction k arbitrary: n) auto

lemma hex_fixed_digits: "c \<in> set (hex_fixed k n) \<Longrightarrow> c \<in> set ''0123456789abcdef''"
  using hex_char_digit by (rule hex_fixed_set)

lemma hex_char_inj: "m < 16 \<Longrightarrow> n < 16 \<Longrightarrow> hex_char m = hex_char n \<Longrightarrow> m = n"
  unfolding hex_char_def by (subst (asm) nth_eq_iff_index_eq) simp_all

lemma hex_fixed_inj: "hex_fixed k m = hex_fixed k n \<Longrightarrow> m < 16 ^ k \<Longrightarrow> n < 16 ^ k \<Longrightarrow> m = n"
proof (induction k arbitrary: m n)
  case (Suc k)
  then have "hex_fixed k (m div 16) = hex_fixed k (n div 16)" "hex_char (m mod 16) = hex_char (n mod 16)" by simp_all
  moreover have "m div 16 < 16 ^ k" "n div 16 < 16 ^ k" using Suc.prems by (simp_all add: less_mult_imp_div_less mult.commute)
  ultimately have "m div 16 = n div 16" "m mod 16 = n mod 16" using Suc.IH hex_char_inj by simp_all
  then show ?case by (metis div_mult_mod_eq)
qed simp

lemma uuid_no_colon [simp]: "CHR '':'' \<notin> set (uuid_str u)"
proof
  assume "CHR '':'' \<in> set (uuid_str u)"
  then have "CHR '':'' \<in> set (hex_fixed 32 u)"
    unfolding uuid_str_def Let_def by (auto dest: in_set_takeD in_set_dropD simp del: hex_fixed.simps)
  then show False using hex_fixed_digits by fastforce
qed

lemma uuid_str_inj: "uuid_str u = uuid_str v \<Longrightarrow> u < 2 ^ 128 \<Longrightarrow> v < 2 ^ 128 \<Longrightarrow> u = v"
proof -
  assume eq: "uuid_str u = uuid_str v" and u: "u < 2 ^ 128" "v < 2 ^ 128"
  have parts: "h = take 8 h @ take 4 (drop 8 h) @ take 4 (drop 12 h) @ take 4 (drop 16 h) @ drop 20 h" for h :: string
    using append_take_drop_id [of 8 h] append_take_drop_id [of 4 "drop 8 h"] append_take_drop_id [of 4 "drop 12 h"]
      append_take_drop_id [of 4 "drop 16 h"] by simp
  have "hex_fixed 32 u = hex_fixed 32 v"
    using eq unfolding uuid_str_def Let_def
    by (subst parts [of "hex_fixed 32 u"], subst parts [of "hex_fixed 32 v"]) (simp del: hex_fixed.simps)
  then show ?thesis
    by (rule hex_fixed_inj) (use u in simp_all)
qed

text \<open>
  A \<open>datetime\<close> value: naive, or aware with its instant (microseconds since the epoch, in UTC) and its
  UTC offset.  \<open>require_aware\<close> is the validator every component repeats: it rejects a naive value and
  converts an aware one to UTC.
\<close>

datatype pydatetime = Naive int | Aware utc int

definition aware :: "string \<Rightarrow> pydatetime \<Rightarrow> utc res" where
  "aware msg t = (case t of Naive _ \<Rightarrow> Inl (ValueError msg) | Aware u _ \<Rightarrow> Inr u)"

lemma aware_simps [simp]:
  "aware msg (Naive n) = Inl (ValueError msg)" "aware msg (Aware u off) = Inr u"
  by (simp_all add: aware_def)

lemma aware_eq_Inr: "aware msg t = Inr u \<longleftrightarrow> (\<exists>off. t = Aware u off)"
  by (cases t) auto

text \<open>Python's binary \<open>max\<close> on integers and times.\<close>

definition opt_all :: "('a \<Rightarrow> bool) \<Rightarrow> 'a option \<Rightarrow> bool" where
  "opt_all P v = (case v of None \<Rightarrow> True | Some x \<Rightarrow> P x)"

lemma opt_all_simps [simp]: "opt_all P None" "opt_all P (Some x) = P x"
  by (simp_all add: opt_all_def)

end
