(* ===== verification/PyDecimal.thy ===== *)
theory PyDecimal
  imports Prelude
begin

text \<open>
  Python's \<open>decimal.Decimal\<close> as the sources use it: a coefficient and an exponent, arithmetic in the
  default context (28 significant digits, rounding half to even), comparison by value.  \<open>dval\<close> reads a
  decimal as a rational and \<open>rnd\<close> is the rounding of the context on rationals; the lemmas \<open>dval_dadd\<close> and
  its companions say that every operation is the exact one followed by \<open>rnd\<close>.  The locale \<open>rounding\<close>
  collects what the components rely on (monotone, odd, exact on short numbers) and is interpreted on \<open>rnd\<close>.

  Raw numbers that a caller passes may be infinite or NaN; the sources test \<open>is_finite\<close> first everywhere,
  so \<open>raw_dec\<close> has one value for all of them.  The sign of a zero and the exponent limits of the
  context (one million) are not modelled.
\<close>

section \<open>Representation and arithmetic\<close>

datatype dec = Dec (coeff: int) (expo: int)

datatype raw_dec = Finite dec | NotFinite

definition is_finite :: "raw_dec \<Rightarrow> bool" where
  "is_finite v = (case v of Finite _ \<Rightarrow> True | NotFinite \<Rightarrow> False)"

fun ndigits :: "nat \<Rightarrow> nat" where
  "ndigits n = (if n < 10 then 1 else Suc (ndigits (n div 10)))"

declare ndigits.simps [simp del]

text \<open>Rounding \<open>n / d\<close> half to even, and to 28 digits with the exponent adjusted.\<close>

definition rhe :: "int \<Rightarrow> int \<Rightarrow> int" where
  "rhe n d = (let q = n div d; r = n mod d in
     if 2 * r < d then q else if 2 * r > d then q + 1 else if even q then q else q + 1)"

definition rfrac :: "int \<Rightarrow> int \<Rightarrow> int \<Rightarrow> dec" where
  "rfrac n d e =
     (let s = ndigits (nat (\<bar>n\<bar> div d)) - 28; c = rhe n (d * 10 ^ s)
      in if \<bar>c\<bar> = 10 ^ 28 then Dec (c div 10) (e + int s + 1) else Dec c (e + int s))"

definition dround :: "dec \<Rightarrow> dec" where
  "dround a = rfrac (coeff a) 1 (expo a)"

definition scaled :: "dec \<Rightarrow> int \<Rightarrow> int" where
  "scaled a e = coeff a * 10 ^ nat (expo a - e)"

definition dadd :: "dec \<Rightarrow> dec \<Rightarrow> dec" where
  "dadd a b = (let e = min (expo a) (expo b) in dround (Dec (scaled a e + scaled b e) e))"

definition dsub :: "dec \<Rightarrow> dec \<Rightarrow> dec" where
  "dsub a b = dadd a (Dec (- coeff b) (expo b))"

definition dmul :: "dec \<Rightarrow> dec \<Rightarrow> dec" where
  "dmul a b = dround (Dec (coeff a * coeff b) (expo a + expo b))"

definition dneg :: "dec \<Rightarrow> dec" where
  "dneg a = dround (Dec (- coeff a) (expo a))"

definition dabs :: "dec \<Rightarrow> dec" where
  "dabs a = dround (Dec \<bar>coeff a\<bar> (expo a))"

text \<open>An exact quotient loses trailing zeros until its exponent is the difference of the operands'.\<close>

fun strip_zeros :: "nat \<Rightarrow> int \<Rightarrow> int \<Rightarrow> dec" where
  "strip_zeros 0 c e = Dec c e"
| "strip_zeros (Suc k) c e = (if 10 dvd c then strip_zeros k (c div 10) (e + 1) else Dec c e)"

definition div_shift :: "dec \<Rightarrow> dec \<Rightarrow> int" where
  "div_shift a b = int (ndigits (nat \<bar>coeff b\<bar>)) - int (ndigits (nat \<bar>coeff a\<bar>)) + 29"

definition ddiv :: "dec \<Rightarrow> dec \<Rightarrow> dec" where
  "ddiv a b =
     (if coeff a = 0 then Dec 0 (expo a - expo b)
      else let sh = div_shift a b;
               n = coeff a * sgn (coeff b) * 10 ^ nat sh;
               d = \<bar>coeff b\<bar> * 10 ^ nat (- sh);
               e = expo a - expo b - sh
           in if n mod d = 0 then dround (strip_zeros (nat sh) (n div d) e) else rfrac n d e)"

definition dle :: "dec \<Rightarrow> dec \<Rightarrow> bool" where
  "dle a b = (let e = min (expo a) (expo b) in scaled a e \<le> scaled b e)"

definition dlt :: "dec \<Rightarrow> dec \<Rightarrow> bool" where
  "dlt a b = (let e = min (expo a) (expo b) in scaled a e < scaled b e)"

definition deq :: "dec \<Rightarrow> dec \<Rightarrow> bool" where
  "deq a b = (let e = min (expo a) (expo b) in scaled a e = scaled b e)"

definition dec_of_int :: "int \<Rightarrow> dec" where
  "dec_of_int n = Dec n 0"

abbreviation d0 :: dec where "d0 \<equiv> Dec 0 0"
abbreviation d1 :: dec where "d1 \<equiv> Dec 1 0"

definition dmax :: "dec \<Rightarrow> dec \<Rightarrow> dec" where
  "dmax a b = (if dlt a b then b else a)"

definition dmin :: "dec \<Rightarrow> dec \<Rightarrow> dec" where
  "dmin a b = (if dlt b a then b else a)"

text \<open>
  Evaluation counts digits on binary integers and waits for the operands: the equations match on them, so
  that the arithmetic is not unfolded on symbolic ones.
\<close>

definition idigits :: "int \<Rightarrow> nat" where
  "idigits k = ndigits (nat k)"

lemma idigits_code [code]: "idigits k = (if k < 10 then 1 else Suc (idigits (k div 10)))"
  unfolding idigits_def by (subst ndigits.simps) (auto simp: nat_div_distrib)

lemma rfrac_code [code]:
  "rfrac n d e =
     (let s = idigits (\<bar>n\<bar> div d) - 28; c = rhe n (d * 10 ^ s)
      in if \<bar>c\<bar> = 10 ^ 28 then Dec (c div 10) (e + int s + 1) else Dec c (e + int s))"
  by (simp add: rfrac_def idigits_def)

lemma div_shift_code [code]: "div_shift a b = int (idigits \<bar>coeff b\<bar>) - int (idigits \<bar>coeff a\<bar>) + 29"
  by (simp add: div_shift_def idigits_def)

lemma dec_code [code]:
  "dadd (Dec c e) (Dec k f) = (let m = min e f in dround (Dec (scaled (Dec c e) m + scaled (Dec k f) m) m))"
  "dsub (Dec c e) (Dec k f) = dadd (Dec c e) (Dec (- k) f)"
  "dmul (Dec c e) (Dec k f) = dround (Dec (c * k) (e + f))"
  "dneg (Dec c e) = dround (Dec (- c) e)"
  "dabs (Dec c e) = dround (Dec \<bar>c\<bar> e)"
  "dround (Dec c e) = rfrac c 1 e"
  "ddiv (Dec c e) (Dec k f) =
     (if c = 0 then Dec 0 (e - f)
      else let sh = div_shift (Dec c e) (Dec k f); n = c * sgn k * 10 ^ nat sh; d = \<bar>k\<bar> * 10 ^ nat (- sh); g = e - f - sh
           in if n mod d = 0 then dround (strip_zeros (nat sh) (n div d) g) else rfrac n d g)"
  "dle (Dec c e) (Dec k f) = (let m = min e f in scaled (Dec c e) m \<le> scaled (Dec k f) m)"
  "dlt (Dec c e) (Dec k f) = (let m = min e f in scaled (Dec c e) m < scaled (Dec k f) m)"
  "deq (Dec c e) (Dec k f) = (let m = min e f in scaled (Dec c e) m = scaled (Dec k f) m)"
  by (simp_all add: dadd_def dsub_def dmul_def dneg_def dabs_def dround_def ddiv_def dle_def dlt_def deq_def)

text \<open>\<open>sum\<close> starts from the integer 0, which Decimal addition converts; \<open>max\<close> of an iterable.\<close>

definition dsum :: "dec list \<Rightarrow> dec" where
  "dsum xs = foldl dadd d0 xs"

definition dmax_default :: "dec \<Rightarrow> dec list \<Rightarrow> dec" where
  "dmax_default v xs = (case xs of [] \<Rightarrow> v | x # ys \<Rightarrow> foldl dmax x ys)"

text \<open>\<open>str\<close> of a decimal: the scientific string of the decimal specification.\<close>

fun nat_str :: "nat \<Rightarrow> string" where
  "nat_str n = (if n < 10 then [char_of (48 + n)] else nat_str (n div 10) @ [char_of (48 + n mod 10)])"

declare nat_str.simps [simp del]

definition int_str :: "int \<Rightarrow> string" where
  "int_str n = (if n < 0 then ''-'' @ nat_str (nat (- n)) else nat_str (nat n))"

definition dec_str :: "dec \<Rightarrow> string" where
  "dec_str a =
     (let ds = nat_str (nat \<bar>coeff a\<bar>);
          leftdigits = expo a + int (length ds);
          dotplace = (if expo a \<le> 0 \<and> leftdigits > - 6 then leftdigits else 1);
          body = (if dotplace \<le> 0 then ''0.'' @ replicate (nat (- dotplace)) (CHR ''0'') @ ds
                  else if dotplace \<ge> int (length ds)
                  then ds @ replicate (nat (dotplace - int (length ds))) (CHR ''0'')
                  else take (nat dotplace) ds @ ''.'' @ drop (nat dotplace) ds);
          x = leftdigits - dotplace
      in (if coeff a < 0 then ''-'' else '''') @ body @
         (if x = 0 then '''' else if x < 0 then ''E'' @ int_str x else ''E+'' @ int_str x))"

section \<open>Digits\<close>

lemma ndigits_bounds: "n < 10 ^ ndigits n \<and> (0 < n \<longrightarrow> 10 ^ (ndigits n - 1) \<le> n)"
proof (induction n rule: ndigits.induct)
  case (1 n)
  show ?case
  proof (cases "n < 10")
    case True
    then show ?thesis by (simp add: ndigits.simps [of n])
  next
    case False
    with "1.IH" have *: "n div 10 < 10 ^ ndigits (n div 10)" "10 ^ (ndigits (n div 10) - 1) \<le> n div 10"
      by auto
    have "0 < ndigits (n div 10)" by (subst ndigits.simps) simp
    then have "(10::nat) ^ ndigits (n div 10) = 10 * 10 ^ (ndigits (n div 10) - 1)"
      by (metis Suc_diff_1 power_Suc)
    with * False show ?thesis
      by (simp add: ndigits.simps [of n]) linarith
  qed
qed

lemma ndigits_pos: "0 < ndigits n"
  by (subst ndigits.simps) simp

lemma ndigits_ub: "n < 10 ^ ndigits n"
  by (simp add: ndigits_bounds)

lemma ndigits_lb: "0 < n \<Longrightarrow> 10 ^ (ndigits n - 1) \<le> n"
  using ndigits_bounds by blast

lemma ndigits_le: assumes "n < 10 ^ k" "0 < k" shows "ndigits n \<le> k"
proof (rule ccontr)
  assume "\<not> ndigits n \<le> k"
  then have le: "k \<le> ndigits n - 1" and "1 < ndigits n" using assms(2) by auto
  then have "0 < n" by (metis ndigits.simps less_irrefl neq0_conv zero_less_numeral)
  then have "10 ^ k \<le> n"
    using ndigits_lb [of n] power_increasing [OF le, of "10::nat"] by linarith
  with assms(1) show False by simp
qed

section \<open>Rounding on rationals\<close>

definition dval :: "dec \<Rightarrow> rat" where
  "dval a = of_int (coeff a) * 10 powi expo a"

definition rhe_rat :: "rat \<Rightarrow> int" where
  "rhe_rat x = (let q = \<lfloor>x\<rfloor>; f = x - of_int q in
     if 2 * f < 1 then q else if 2 * f > 1 then q + 1 else if even q then q else q + 1)"

lemma rhe_eq: assumes "0 < d" shows "rhe n d = rhe_rat (of_int n / of_int d)"
proof -
  have fl: "\<lfloor>of_int n / of_int d :: rat\<rfloor> = n div d" by (rule floor_divide_of_int_eq)
  have "of_int n = (of_int (n div d) * of_int d + of_int (n mod d) :: rat)"
    by (metis div_mult_mod_eq of_int_add of_int_mult)
  then have fr: "of_int n / of_int d - of_int (n div d) = (of_int (n mod d) / of_int d :: rat)"
    using assms by (simp add: field_simps)
  have "(2 * (of_int (n mod d) / of_int d) < (1::rat)) = (2 * (n mod d) < d)"
    "(2 * (of_int (n mod d) / of_int d) > (1::rat)) = (2 * (n mod d) > d)"
    using assms by (simp_all add: field_simps flip: of_int_mult of_int_add, linarith+)
  then show ?thesis unfolding rhe_def rhe_rat_def Let_def fl fr by presburger
qed

lemma rhe_rat_int [simp]: "rhe_rat (of_int n) = n"
  by (simp add: rhe_rat_def)

lemma rhe_rat_floor: "rhe_rat x = \<lfloor>x\<rfloor> \<or> rhe_rat x = \<lfloor>x\<rfloor> + 1"
  by (auto simp: rhe_rat_def Let_def)

lemma rhe_rat_mono: assumes "x \<le> y" shows "rhe_rat x \<le> rhe_rat y"
proof (cases "\<lfloor>x\<rfloor> = \<lfloor>y\<rfloor>")
  case True
  with assms show ?thesis by (auto simp: rhe_rat_def Let_def)
next
  case False
  with floor_mono [OF assms] have "\<lfloor>x\<rfloor> + 1 \<le> \<lfloor>y\<rfloor>" by simp
  with rhe_rat_floor [of x] rhe_rat_floor [of y] show ?thesis by linarith
qed

lemma rhe_rat_neg: "rhe_rat (- x) = - rhe_rat x"
proof (cases "x = of_int \<lfloor>x\<rfloor>")
  case True
  then show ?thesis by (metis of_int_minus rhe_rat_int)
next
  case False
  then have "\<lfloor>- x\<rfloor> = - \<lfloor>x\<rfloor> - 1" by linarith
  then show ?thesis by (auto simp: rhe_rat_def Let_def)
qed

lemma rhe_rat_le: "x \<le> of_int n \<Longrightarrow> rhe_rat x \<le> n"
  using rhe_rat_mono [of x "of_int n"] by simp

lemma rhe_rat_ge: "of_int n \<le> x \<Longrightarrow> n \<le> rhe_rat x"
  using rhe_rat_mono [of "of_int n" x] by simp

text \<open>The decade of a positive rational, and rounding to 28 significant digits.\<close>

lemma powi_Suc: "(10::rat) powi (k + 1) = 10 * 10 powi k"
  by (simp add: power_int_add)

lemma powi_nat: "(10::rat) powi (e + int n) = 10 ^ n * 10 powi e"
  by (simp add: power_int_add)

lemma powi_pos [simp]: "0 < (10::rat) powi k"
  by simp

lemma powi_less: "(10::rat) powi j < 10 powi k \<longleftrightarrow> j < k"
  by (metis linorder_cases one_less_numeral_iff order.asym order.irrefl
      power_int_strict_increasing semiring_norm(76))

lemma powi_le: "(10::rat) powi j \<le> 10 powi k \<longleftrightarrow> j \<le> k"
  by (meson linorder_not_less powi_less)

lemma decade_ex_ge1: assumes "1 \<le> (x::rat)" shows "\<exists>k. 10 powi k \<le> x \<and> x < 10 powi (k + 1)"
proof -
  obtain m where "x < of_nat m" using reals_Archimedean2 by blast
  moreover have "m \<le> 10 ^ m" by (rule less_imp_le [OF less_le_trans [OF less_exp]]) (simp add: power_mono)
  then have "(of_nat m :: rat) \<le> 10 ^ m" by (metis of_nat_le_iff of_nat_numeral of_nat_power)
  ultimately have ex: "\<exists>m. x < 10 ^ m" by (meson less_le_trans)
  define n where "n = (LEAST m. x < 10 ^ m)"
  have lt: "x < 10 ^ n" unfolding n_def using ex by (rule LeastI_ex)
  have "n \<noteq> 0" using lt assms by (cases n) auto
  then obtain j where j: "n = Suc j" by (cases n) auto
  have "\<not> x < 10 ^ j" using not_less_Least [of j "\<lambda>m. x < 10 ^ m"] j by (simp add: n_def)
  then show ?thesis using lt j by (intro exI [of _ "int j"]) (simp add: power_int_add)
qed

lemma decade_ex: assumes "0 < (x::rat)" shows "\<exists>k. 10 powi k \<le> x \<and> x < 10 powi (k + 1)"
proof (cases "1 \<le> x")
  case True
  then show ?thesis by (rule decade_ex_ge1)
next
  case False
  then have "1 \<le> 1 / x" using assms by simp
  then obtain k where k: "10 powi k \<le> 1 / x" "1 / x < 10 powi (k + 1)"
    using decade_ex_ge1 by blast
  have inv: "(10::rat) powi (- k) = 1 / 10 powi k" "(10::rat) powi (- k - 1) = 1 / 10 powi (k + 1)"
    by (simp_all add: power_int_minus_divide power_int_diff power_int_add)
  show ?thesis
  proof (cases "x = 10 powi (- k)")
    case True
    then show ?thesis by (intro exI [of _ "- k"]) (simp add: powi_less)
  next
    case False
    then have "x < 10 powi (- k)" using k(1) assms unfolding inv
      by (simp add: field_simps less_le)
    moreover have "10 powi (- k - 1) \<le> x" using k(2) assms unfolding inv
      by (simp add: field_simps)
    ultimately show ?thesis by (intro exI [of _ "- k - 1"]) simp
  qed
qed

definition decade :: "rat \<Rightarrow> int" where
  "decade x = (THE k. 10 powi k \<le> \<bar>x\<bar> \<and> \<bar>x\<bar> < 10 powi (k + 1))"

lemma decade_eq: assumes "10 powi k \<le> \<bar>x\<bar>" "\<bar>x\<bar> < 10 powi (k + 1)" shows "decade x = k"
  unfolding decade_def
proof (rule the_equality)
  fix j :: int assume j: "10 powi j \<le> \<bar>x\<bar> \<and> \<bar>x\<bar> < 10 powi (j + 1)"
  have "j < k + 1" "k < j + 1" using j assms by (meson le_less_trans powi_less)+
  then show "j = k" by simp
qed (use assms in simp)

lemma decade_bounds: assumes "x \<noteq> 0" shows "10 powi decade x \<le> \<bar>x\<bar>" "\<bar>x\<bar> < 10 powi (decade x + 1)"
proof -
  obtain k where "10 powi k \<le> \<bar>x\<bar>" "\<bar>x\<bar> < 10 powi (k + 1)" using decade_ex [of "\<bar>x\<bar>"] assms by auto
  moreover from this have "decade x = k" by (rule decade_eq)
  ultimately show "10 powi decade x \<le> \<bar>x\<bar>" "\<bar>x\<bar> < 10 powi (decade x + 1)" by simp_all
qed

definition rnd :: "rat \<Rightarrow> rat" where
  "rnd x = (if x = 0 then 0
     else let e = decade x - 27 in of_int (rhe_rat (x / 10 powi e)) * 10 powi e)"

lemma rnd_0 [simp]: "rnd 0 = 0"
  by (simp add: rnd_def)

lemma rnd_neg: "rnd (- x) = - rnd x"
  by (simp add: rnd_def decade_def rhe_rat_neg Let_def flip: minus_divide_left)

lemma rnd_exact:
  assumes x: "x = of_int c * 10 powi e" and c: "\<bar>c\<bar> \<le> 10 ^ 28" shows "rnd x = x"
proof (cases "x = 0")
  case False
  define f where "f = decade x - 27"
  have ab: "\<bar>x\<bar> = of_int \<bar>c\<bar> * 10 powi e" by (simp add: x abs_mult)
  have le: "(of_int \<bar>c\<bar> :: rat) \<le> 10 ^ 28" using c by (metis of_int_le_iff of_int_numeral of_int_power)
  then have "\<bar>x\<bar> \<le> 10 powi (e + int 28)" unfolding ab powi_nat by (intro mult_right_mono) simp_all
  then have "(10::rat) powi decade x \<le> 10 powi (e + 28)" using decade_bounds(1) [OF False] by simp
  then have dec: "decade x \<le> e + 28" by (simp add: powi_le)
  have "\<exists>m. x / 10 powi f = of_int m"
  proof (cases "decade x = e + 28")
    case True
    then have "10 ^ 28 * 10 powi e \<le> \<bar>x\<bar>" using decade_bounds(1) [OF False] powi_nat [of e 28] by simp
    then have "(10::rat) ^ 28 \<le> of_int \<bar>c\<bar>" unfolding ab using mult_le_cancel_right_pos [OF powi_pos] by blast
    with le have "(of_int \<bar>c\<bar> :: rat) = of_int (10 ^ 28)" by (simp add: of_int_power)
    then have "\<bar>c\<bar> = 10 ^ 28" by (simp only: of_int_eq_iff)
    then have "c = 10 ^ 28 \<or> c = - (10 ^ 28)" by linarith
    then have c27: "c = c div 10 * 10" by (elim disjE) simp_all
    have "x = of_int (c div 10) * (10 * 10 powi e)" unfolding x by (subst c27) simp
    also have "10 * (10::rat) powi e = 10 powi f" using True by (simp add: f_def add.commute powi_Suc [symmetric])
    finally show ?thesis by auto
  next
    case False
    then have "e = f + int (nat (e - f))" using dec by (simp add: f_def)
    then have "x = of_int c * (10 ^ nat (e - f) * 10 powi f)" unfolding x by (metis powi_nat)
    then have "x / 10 powi f = of_int (c * 10 ^ nat (e - f))" by simp
    then show ?thesis by blast
  qed
  then obtain m where m: "x / 10 powi f = of_int m" by blast
  then have "x = of_int m * 10 powi f" by (simp add: field_simps)
  moreover have "rnd x = of_int (rhe_rat (x / 10 powi f)) * 10 powi f"
    using False by (simp add: rnd_def Let_def f_def)
  ultimately show ?thesis using m by simp
qed simp

lemma rnd_at:
  assumes "x \<noteq> 0" "10 powi (e + 27) \<le> \<bar>x\<bar>" "\<bar>x\<bar> < 10 powi (e + 28)"
  shows "rnd x = of_int (rhe_rat (x / 10 powi e)) * 10 powi e"
proof -
  have "decade x = e + 27" by (rule decade_eq) (use assms in \<open>simp_all add: algebra_simps\<close>)
  then show ?thesis using assms(1) by (simp add: rnd_def)
qed

lemma rnd_pos_bounds:
  assumes "0 < x" shows "10 powi decade x \<le> rnd x" "rnd x \<le> 10 powi (decade x + 1)"
proof -
  define e where "e = decade x - 27"
  have b: "10 powi (e + int 27) \<le> x" "x < 10 powi (e + int 28)"
    using decade_bounds [of x] assms by (simp_all add: e_def algebra_simps)
  have r: "rnd x = of_int (rhe_rat (x / 10 powi e)) * 10 powi e" using assms by (simp add: rnd_def e_def Let_def)
  have "of_int (10 ^ 27) \<le> x / 10 powi e" "x / 10 powi e \<le> of_int (10 ^ 28)"
    using b unfolding powi_nat by (simp_all add: field_simps)
  then have "10 ^ 27 \<le> rhe_rat (x / 10 powi e)" "rhe_rat (x / 10 powi e) \<le> 10 ^ 28"
    by (simp_all only: rhe_rat_ge rhe_rat_le)
  then have "(10 ^ 27 :: rat) \<le> of_int (rhe_rat (x / 10 powi e))" "of_int (rhe_rat (x / 10 powi e)) \<le> (10 ^ 28 :: rat)"
    by (simp_all only: of_int_le_iff [symmetric, where ?'a = rat] of_int_power of_int_numeral)
  then have "10 powi (e + int 27) \<le> rnd x" "rnd x \<le> 10 powi (e + int 28)"
    unfolding r powi_nat by (intro mult_right_mono, simp_all)+
  then show "10 powi decade x \<le> rnd x" "rnd x \<le> 10 powi (decade x + 1)" by (simp_all add: e_def algebra_simps)
qed

lemma rnd_pos: "0 < x \<Longrightarrow> 0 < rnd x"
  using rnd_pos_bounds(1) powi_pos by (meson less_le_trans)

lemma rnd_mono_pos: assumes "0 < x" "x \<le> y" shows "rnd x \<le> rnd y"
proof (cases "decade x = decade y")
  case True
  with assms show ?thesis
    by (auto simp: rnd_def Let_def intro!: rhe_rat_mono divide_right_mono)
next
  case False
  have "10 powi decade x < (10::rat) powi (decade y + 1)"
    using decade_bounds(1) [of x] decade_bounds(2) [of y] assms by simp
  with False have "decade x + 1 \<le> decade y" by (simp add: powi_less)
  then have "(10::rat) powi (decade x + 1) \<le> 10 powi decade y" by (simp add: powi_le)
  with rnd_pos_bounds(2) [of x] rnd_pos_bounds(1) [of y] assms show ?thesis by simp
qed

lemma rnd_mono: assumes "x \<le> y" shows "rnd x \<le> rnd y"
proof (cases "0 < x")
  case True
  then show ?thesis using assms by (rule rnd_mono_pos)
next
  case False
  have neg: "rnd u \<le> 0" if "u \<le> 0" for u :: rat
    using that rnd_pos [of "- u"] by (cases "u = 0") (auto simp: rnd_neg)
  show ?thesis
  proof (cases "y < 0")
    case True
    then have "rnd (- y) \<le> rnd (- x)" using assms by (intro rnd_mono_pos) simp_all
    then show ?thesis by (simp add: rnd_neg)
  next
    case False
    then have "0 \<le> rnd y" using rnd_pos [of y] by (cases "y = 0") auto
    with neg [of x] \<open>\<not> 0 < x\<close> show ?thesis by simp
  qed
qed

section \<open>Every operation is exact arithmetic followed by rounding\<close>

lemma powi_nat_diff: "j \<le> k \<Longrightarrow> (10::rat) ^ nat (k - j) * 10 powi j = 10 powi k"
  by (metis diff_ge_0_iff_ge int_nat_eq add.commute diff_add_cancel powi_nat)

lemma scaled_val: "e \<le> expo a \<Longrightarrow> of_int (scaled a e) * 10 powi e = dval a"
  by (simp add: scaled_def dval_def powi_nat_diff mult.assoc)

lemma int_div_bounds: assumes "0 < (d::int)" shows "n div d * d \<le> n" "n < (n div d + 1) * d"
proof -
  have "n = n div d * d + n mod d" "0 \<le> n mod d" "n mod d < d" using assms by simp_all
  then show "n div d * d \<le> n" "n < (n div d + 1) * d" unfolding distrib_right by linarith+
qed

lemma rfrac_val:
  assumes d: "0 < d" and big: "d = 1 \<or> 10 ^ 27 \<le> \<bar>n\<bar> div d"
  shows "dval (rfrac n d e) = rnd (of_int n / of_int d * 10 powi e)"
proof -
  define m where "m = nat (\<bar>n\<bar> div d)"
  define s where "s = ndigits m - 28"
  define x where "x = (of_int n / of_int d * 10 powi e :: rat)"
  define c where "c = rhe n (d * 10 ^ s)"
  have "dval (rfrac n d e) = of_int c * 10 powi (e + int s)"
  proof (cases "\<bar>c\<bar> = 10 ^ 28")
    case True
    then have "c = 10 ^ 28 \<or> c = - (10 ^ 28)" by linarith
    then have "of_int c = (of_int (c div 10) * 10 :: rat)" by (elim disjE) simp_all
    then show ?thesis using True
      by (simp add: rfrac_def Let_def m_def [symmetric] s_def [symmetric] c_def [symmetric] dval_def powi_Suc)
  qed (simp add: rfrac_def Let_def m_def [symmetric] s_def [symmetric] c_def [symmetric] dval_def)
  moreover have "c = rhe_rat (x / 10 powi (e + int s))"
    unfolding c_def x_def using d by (simp add: rhe_eq powi_nat field_simps)
  ultimately have val: "dval (rfrac n d e) = of_int (rhe_rat (x / 10 powi (e + int s))) * 10 powi (e + int s)"
    by simp
  show ?thesis
  proof (cases "d = 1 \<and> ndigits m \<le> 28")
    case True
    then have s0: "s = 0" and d1: "d = 1" by (simp_all add: s_def)
    have "m < 10 ^ 28" using True ndigits_ub [of m] power_increasing [of "ndigits m" 28 "10::nat"] by linarith
    then have "\<bar>n\<bar> \<le> 10 ^ 28" using d1 by (simp add: m_def)
    then have "rnd x = x" by (intro rnd_exact [of x n e]) (simp_all add: x_def d1)
    then show ?thesis using val by (simp add: s0 x_def d1)
  next
    case False
    have m_pos: "0 < m" and dig: "28 \<le> ndigits m"
    proof -
      have "10 ^ 27 \<le> m" if "10 ^ 27 \<le> \<bar>n\<bar> div d" using that by (simp add: m_def)
      then have "ndigits m \<ge> 28" if "10 ^ 27 \<le> \<bar>n\<bar> div d"
        using that ndigits_ub [of m] power_increasing [of "ndigits m" 27 "10::nat"] by (cases "ndigits m \<le> 27") auto
      with False big show "28 \<le> ndigits m" by auto
      then show "0 < m" by (cases "m = 0") (auto simp: ndigits.simps)
    qed
    have dg: "ndigits m - 1 = s + 27" "ndigits m = s + 28" using dig by (simp_all add: s_def)
    have lb: "(10::int) ^ (s + 27) \<le> \<bar>n\<bar> div d" and ub: "\<bar>n\<bar> div d < 10 ^ (s + 28)"
      using ndigits_lb [OF m_pos] ndigits_ub [of m] d unfolding dg
      by (simp_all add: m_def nat_less_iff le_nat_iff pos_imp_zdiv_nonneg_iff add.commute)
    have xabs: "\<bar>x\<bar> = of_int \<bar>n\<bar> / of_int d * 10 powi e" using d by (simp add: x_def abs_mult)
    have "(10::int) ^ (s + 27) * d \<le> \<bar>n\<bar> div d * d" using lb d by (intro mult_right_mono) simp_all
    also have "\<dots> \<le> \<bar>n\<bar>" using d by (rule int_div_bounds)
    finally have lo: "(10 ^ (s + 27) * of_int d :: rat) \<le> of_int \<bar>n\<bar>"
      by (metis of_int_le_iff of_int_mult of_int_numeral of_int_power)
    have "\<bar>n\<bar> < (\<bar>n\<bar> div d + 1) * d" using d by (rule int_div_bounds)
    also have "\<dots> \<le> 10 ^ (s + 28) * d" using ub d by (intro mult_right_mono) simp_all
    finally have "\<bar>n\<bar> < 10 ^ (s + 28) * d" .
    then have hi: "of_int \<bar>n\<bar> < (10 ^ (s + 28) * of_int d :: rat)"
      by (metis of_int_less_iff of_int_mult of_int_numeral of_int_power)
    have "10 ^ (s + 27) * 10 powi e \<le> \<bar>x\<bar>" "\<bar>x\<bar> < 10 ^ (s + 28) * 10 powi e"
      using lo hi d unfolding xabs by (simp_all add: field_simps)
    then have b: "10 powi (e + int s + 27) \<le> \<bar>x\<bar>" "\<bar>x\<bar> < 10 powi (e + int s + 28)"
      using powi_nat [of e "s + 27"] powi_nat [of e "s + 28"] by (simp_all add: algebra_simps)
    then have "x \<noteq> 0" using powi_pos [of "e + int s + 27"] by (metis abs_zero less_le_not_le)
    then show ?thesis using rnd_at [OF _ b] val by (simp add: x_def)
  qed
qed

lemma dval_Dec: "dval (Dec c e) = of_int c * 10 powi e"
  by (simp add: dval_def)

lemma dval_dround: "dval (dround a) = rnd (dval a)"
  unfolding dround_def by (subst rfrac_val) (simp_all add: dval_def)

lemma dval_times: "dval (Dec (coeff a * coeff b) (expo a + expo b)) = dval a * dval b"
  by (simp add: dval_def power_int_add)

lemma dval_abs_coeff: "dval (Dec \<bar>coeff a\<bar> (expo a)) = \<bar>dval a\<bar>"
  by (simp add: dval_def abs_mult)

lemma dval_dadd: "dval (dadd a b) = rnd (dval a + dval b)"
  by (simp add: dadd_def Let_def dval_dround dval_Dec distrib_right scaled_val)

lemma dval_minus_coeff: "dval (Dec (- coeff a) (expo a)) = - dval a"
  by (simp add: dval_def)

lemma dval_dsub: "dval (dsub a b) = rnd (dval a - dval b)"
  by (simp add: dsub_def dval_dadd dval_minus_coeff)

lemma dval_dmul: "dval (dmul a b) = rnd (dval a * dval b)"
  by (simp add: dmul_def dval_dround dval_times)

lemma dval_dneg: "dval (dneg a) = rnd (- dval a)"
  by (simp add: dneg_def dval_dround dval_minus_coeff)

lemma dval_dabs: "dval (dabs a) = rnd \<bar>dval a\<bar>"
  by (simp add: dabs_def dval_dround dval_abs_coeff)

lemma dval_strip_zeros: "dval (strip_zeros k c e) = dval (Dec c e)"
proof (induction k c e rule: strip_zeros.induct)
  case (2 k c e)
  show ?case
  proof (cases "10 dvd c")
    case True
    then have "of_int c = (of_int (c div 10) * 10 :: rat)"
      by (metis dvd_div_mult_self of_int_mult of_int_numeral)
    with True 2 show ?thesis by (simp add: dval_def powi_Suc)
  qed simp
qed simp

lemma div_shift_big:
  assumes "coeff a \<noteq> 0" "coeff b \<noteq> 0"
  shows "10 ^ 27 \<le> \<bar>coeff a * sgn (coeff b) * 10 ^ nat (div_shift a b)\<bar>
           div (\<bar>coeff b\<bar> * 10 ^ nat (- div_shift a b))"
proof -
  define A where "A = nat \<bar>coeff a\<bar>"
  define B where "B = nat \<bar>coeff b\<bar>"
  define sh where "sh = div_shift a b"
  have A: "10 ^ (ndigits A - 1) \<le> A" using assms by (intro ndigits_lb) (simp add: A_def)
  have B: "B < 10 ^ ndigits B" by (rule ndigits_ub)
  have sh: "int (ndigits B) + 29 = int (ndigits A) + sh" by (simp add: sh_def div_shift_def A_def B_def)
  have "10 ^ 27 * (B * 10 ^ nat (- sh)) \<le> (10::nat) ^ 27 * (10 ^ ndigits B * 10 ^ nat (- sh))"
    using B by simp
  also have "\<dots> = 10 ^ (27 + ndigits B + nat (- sh))" by (simp add: power_add)
  also have "\<dots> \<le> 10 ^ (ndigits A - 1 + nat sh)"
    using sh ndigits_pos [of A] by (intro power_increasing) (auto simp: nat_le_iff)
  also have "\<dots> \<le> A * 10 ^ nat sh" using A by (simp add: power_add)
  finally have "10 ^ 27 * (B * 10 ^ nat (- sh)) \<le> A * 10 ^ nat sh" .
  then have "int (10 ^ 27 * (B * 10 ^ nat (- sh))) \<le> int (A * 10 ^ nat sh)" by (simp only: of_nat_le_iff)
  then have le: "10 ^ 27 * (\<bar>coeff b\<bar> * 10 ^ nat (- sh)) \<le> \<bar>coeff a\<bar> * 10 ^ nat sh"
    by (simp add: A_def B_def)
  have "0 < \<bar>coeff b\<bar> * 10 ^ nat (- sh)" using assms by simp
  with zdiv_mono1 [OF le this]
  have "10 ^ 27 \<le> \<bar>coeff a\<bar> * 10 ^ nat sh div (\<bar>coeff b\<bar> * 10 ^ nat (- sh))"
    by (simp only: nonzero_mult_div_cancel_right less_imp_neq not_sym)
  then show ?thesis using assms by (simp add: abs_mult sh_def)
qed

lemma dval_ddiv: assumes "coeff b \<noteq> 0" shows "dval (ddiv a b) = rnd (dval a / dval b)"
proof (cases "coeff a = 0")
  case True
  then show ?thesis by (simp add: ddiv_def dval_def)
next
  case False
  define sh where "sh = div_shift a b"
  define n where "n = coeff a * sgn (coeff b) * 10 ^ nat sh"
  define d where "d = \<bar>coeff b\<bar> * 10 ^ nat (- sh)"
  define e where "e = expo a - expo b - sh"
  have d: "0 < d" using assms by (simp add: d_def)
  have big: "10 ^ 27 \<le> \<bar>n\<bar> div d" using div_shift_big [OF False assms] by (simp add: n_def d_def sh_def)
  have sg: "of_int (coeff a * sgn (coeff b)) / of_int \<bar>coeff b\<bar> = (of_int (coeff a) / of_int (coeff b) :: rat)"
    using assms by (auto simp: sgn_if)
  have p: "(10 ^ nat sh / 10 ^ nat (- sh) :: rat) = 10 powi sh"
  proof (cases "0 \<le> sh")
    case False
    then have "(10::rat) powi sh = inverse 10 ^ nat (- sh)" unfolding power_int_def by simp
    then show ?thesis using False by (simp add: power_one_over)
  qed (simp add: power_int_def)
  have "of_int n / of_int d * 10 powi e
      = of_int (coeff a * sgn (coeff b)) / of_int \<bar>coeff b\<bar> * (10 ^ nat sh / 10 ^ nat (- sh)) * (10 powi e :: rat)"
    unfolding n_def d_def of_int_mult of_int_power of_int_numeral by (simp only: times_divide_times_eq)
  also have "\<dots> = of_int (coeff a) / of_int (coeff b) * (10 powi sh * 10 powi e)"
    unfolding sg p by simp
  also have "(10::rat) powi sh * 10 powi e = 10 powi expo a / 10 powi expo b"
  proof -
    have "(10::rat) powi sh * 10 powi e = 10 powi (sh + e)" by (simp add: power_int_add)
    also have "sh + e = expo a - expo b" by (simp add: e_def)
    finally show ?thesis by (simp add: power_int_diff)
  qed
  finally have v: "of_int n / of_int d * 10 powi e = dval a / dval b" by (simp add: dval_def)
  show ?thesis
  proof (cases "n mod d = 0")
    case True
    then have "of_int n = (of_int (n div d) * of_int d :: rat)"
      by (metis add.right_neutral div_mult_mod_eq of_int_mult)
    then have "of_int (n div d) * 10 powi e = (of_int n / of_int d * 10 powi e :: rat)" using d by simp
    then show ?thesis using True \<open>coeff a \<noteq> 0\<close> v
      by (simp add: ddiv_def Let_def sh_def [symmetric] n_def [symmetric] d_def [symmetric] e_def [symmetric]
          dval_dround dval_strip_zeros dval_Dec)
  next
    case False
    then show ?thesis using \<open>coeff a \<noteq> 0\<close> rfrac_val [OF d, of n e] big v
      by (simp add: ddiv_def Let_def sh_def [symmetric] n_def [symmetric] d_def [symmetric] e_def [symmetric])
  qed
qed

text \<open>Comparison is by value.\<close>

lemma scaled_cancel:
  "of_int (scaled a e) * 10 powi e = (u :: rat) \<Longrightarrow> of_int (scaled a e) = u / 10 powi e"
  by (simp add: field_simps)

lemma dle_iff: "dle a b \<longleftrightarrow> dval a \<le> dval b"
proof -
  let ?e = "min (expo a) (expo b)"
  have "dle a b \<longleftrightarrow> (of_int (scaled a ?e) :: rat) \<le> of_int (scaled b ?e)" by (simp add: dle_def Let_def)
  also have "\<dots> \<longleftrightarrow> of_int (scaled a ?e) * 10 powi ?e \<le> (of_int (scaled b ?e) * 10 powi ?e :: rat)"
    by (simp add: mult_le_cancel_right_pos)
  finally show ?thesis by (simp add: scaled_val)
qed

lemma dlt_iff: "dlt a b \<longleftrightarrow> dval a < dval b"
proof -
  have "dlt a b \<longleftrightarrow> \<not> dle b a" by (auto simp: dlt_def dle_def Let_def min.commute)
  then show ?thesis by (simp add: dle_iff not_le)
qed

lemma deq_iff: "deq a b \<longleftrightarrow> dval a = dval b"
proof -
  have "deq a b \<longleftrightarrow> dle a b \<and> dle b a" by (auto simp: deq_def dle_def Let_def min.commute)
  then show ?thesis by (auto simp: dle_iff)
qed

lemma dval_dmax: "dval (dmax a b) = max (dval a) (dval b)"
  by (simp add: dmax_def dlt_iff)

lemma dval_dmin: "dval (dmin a b) = min (dval a) (dval b)"
  by (simp add: dmin_def dlt_iff)

lemma dval_0 [simp]: "dval (Dec 0 e) = 0"
  by (simp add: dval_def)

lemma dval_1 [simp]: "dval d1 = 1"
  by (simp add: dval_def)

lemma dval_eq_0 [simp]: "dval a = 0 \<longleftrightarrow> coeff a = 0"
  by (simp add: dval_def)

lemma dval_le_0: "dval a \<le> 0 \<longleftrightarrow> coeff a \<le> 0"
  using mult_le_cancel_right_pos [OF powi_pos [of "expo a"], of "of_int (coeff a)" 0]
  unfolding dval_def by simp

lemma dval_less_0: "dval a < 0 \<longleftrightarrow> coeff a < 0"
  using mult_less_cancel_right_pos [OF powi_pos [of "expo a"], of "of_int (coeff a)" 0]
  unfolding dval_def by simp

lemma dval_of_int [simp]: "dval (dec_of_int n) = of_int n"
  by (simp add: dec_of_int_def dval_def)

lemmas dval_ops = dval_dadd dval_dsub dval_dmul dval_dneg dval_dabs dval_dmax dval_dmin
lemmas dcmp = dle_iff dlt_iff deq_iff

section \<open>The contract of a rounding\<close>

text \<open>
  What the accounting and risk arithmetic needs of the decimal context: it is monotone, odd, and exact on
  the numbers that fit.  Sums, absolute values and quotients then keep signs and bounds.
\<close>

locale rounding =
  fixes round :: "rat \<Rightarrow> rat" and fits :: "rat \<Rightarrow> bool"
  assumes round_mono: "x \<le> y \<Longrightarrow> round x \<le> round y"
    and round_neg: "round (- x) = - round x"
    and round_fits: "fits x \<Longrightarrow> round x = x"
    and fits_0: "fits 0"
    and fits_1: "fits 1"
begin

lemma round_0: "round 0 = 0"
  using round_fits fits_0 by blast

lemma round_nonneg: "0 \<le> x \<Longrightarrow> 0 \<le> round x"
  using round_mono [of 0 x] by (simp add: round_0)

lemma round_nonpos: "x \<le> 0 \<Longrightarrow> round x \<le> 0"
  using round_mono [of x 0] by (simp add: round_0)

lemma round_abs: "round \<bar>x\<bar> = \<bar>round x\<bar>"
  using round_nonneg [of x] round_nonpos [of x] round_neg [of x] by (cases "0 \<le> x") auto

lemma round_le_fits: "x \<le> y \<Longrightarrow> fits y \<Longrightarrow> round x \<le> y"
  using round_mono [of x y] by (simp add: round_fits)

lemma round_ge_fits: "y \<le> x \<Longrightarrow> fits y \<Longrightarrow> y \<le> round x"
  using round_mono [of y x] by (simp add: round_fits)

lemma round_ratio: "0 \<le> x \<Longrightarrow> x \<le> y \<Longrightarrow> round (x / y) \<le> 1"
  by (rule round_le_fits) (auto simp: fits_1 divide_le_eq_1)

end

definition dec_fits :: "rat \<Rightarrow> bool" where
  "dec_fits x = (\<exists>c e. x = of_int c * 10 powi e \<and> \<bar>c\<bar> \<le> 10 ^ 28)"

lemma dec_fits_int: "\<bar>n\<bar> \<le> 10 ^ 28 \<Longrightarrow> dec_fits (of_int n)"
  unfolding dec_fits_def by (intro exI [of _ n] exI [of _ 0]) simp

interpretation ctx: rounding rnd dec_fits
proof unfold_locales
  show "dec_fits 0" "dec_fits 1" using dec_fits_int [of 0] dec_fits_int [of 1] by simp_all
  show "dec_fits x \<Longrightarrow> rnd x = x" for x by (auto simp: dec_fits_def intro: rnd_exact)
qed (simp_all add: rnd_mono rnd_neg)

lemma rnd_int: "\<bar>n\<bar> \<le> 10 ^ 28 \<Longrightarrow> rnd (of_int n) = of_int n"
  by (rule ctx.round_fits [OF dec_fits_int])

lemma rnd_dec_fits: "dec_fits (rnd x)"
proof -
  have pos: "dec_fits (rnd y)" if "0 < y" for y
  proof -
    define e where "e = decade y - 27"
    have r: "rnd y = of_int (rhe_rat (y / 10 powi e)) * 10 powi e" using that by (simp add: rnd_def e_def Let_def)
    have "rnd y \<le> 10 powi (e + int 28)" using rnd_pos_bounds(2) [OF that] by (simp add: e_def algebra_simps)
    then have "of_int (rhe_rat (y / 10 powi e)) \<le> (10 ^ 28 :: rat)"
      unfolding r powi_nat by (simp add: mult_le_cancel_right_pos)
    then have "rhe_rat (y / 10 powi e) \<le> 10 ^ 28" by (metis of_int_le_iff of_int_numeral of_int_power)
    moreover have "0 \<le> rhe_rat (y / 10 powi e)" using that by (intro rhe_rat_ge) simp
    ultimately show ?thesis unfolding dec_fits_def r by (metis abs_of_nonneg)
  qed
  have neg: "dec_fits (- z) \<Longrightarrow> dec_fits z" for z
    unfolding dec_fits_def by (metis abs_minus_cancel minus_minus mult_minus_left of_int_minus)
  show ?thesis
    using pos [of x] pos [of "- x"] neg [of "rnd x"] ctx.fits_0
    by (cases x "0 :: rat" rule: linorder_cases) (auto simp: rnd_neg)
qed

lemma rnd_idem [simp]: "rnd (rnd x) = rnd x"
  by (rule ctx.round_fits [OF rnd_dec_fits])

lemma rnd_nonneg_iff: "0 \<le> rnd x \<longleftrightarrow> 0 \<le> x"
  using rnd_pos [of "- x"] ctx.round_nonneg [of x] by (cases "0 \<le> x") (auto simp: rnd_neg)

lemma rnd_eq_0_iff [simp]: "rnd x = 0 \<longleftrightarrow> x = 0"
  using rnd_pos [of x] rnd_pos [of "- x"] by (cases x "0 :: rat" rule: linorder_cases) (auto simp: rnd_neg)

lemma dsum_Nil [simp]: "dsum [] = d0"
  by (simp add: dsum_def)

lemma dsum_snoc: "dsum (xs @ [x]) = dadd (dsum xs) x"
  by (simp add: dsum_def)

lemma dsum_nonneg: "\<forall>x \<in> set xs. 0 \<le> dval x \<Longrightarrow> 0 \<le> dval (dsum xs)"
  by (induction xs rule: rev_induct) (auto simp: dsum_snoc dval_dadd intro!: ctx.round_nonneg)

text \<open>A sum of non-negative terms is at least each of them, up to rounding.\<close>

lemma dsum_ge_member:
  assumes "\<forall>x \<in> set xs. 0 \<le> dval x" "y \<in> set xs" shows "rnd (dval y) \<le> dval (dsum xs)"
  using assms
proof (induction xs rule: rev_induct)
  case (snoc x xs)
  have s: "0 \<le> dval (dsum xs)" using snoc.prems by (intro dsum_nonneg) simp
  show ?case
  proof (cases "y \<in> set xs")
    case True
    then have "rnd (dval y) \<le> dval (dsum xs)" using snoc by simp
    then have "rnd (rnd (dval y)) \<le> rnd (dval (dsum xs) + dval x)"
      using snoc.prems(1) by (intro rnd_mono) simp
    then show ?thesis by (simp add: dsum_snoc dval_dadd)
  next
    case False
    then have "y = x" using snoc.prems by simp
    then show ?thesis using s by (auto simp: dsum_snoc dval_dadd intro!: rnd_mono)
  qed
qed simp

text \<open>The relative error of one rounding.\<close>

lemma rnd_error: "\<bar>rnd x - x\<bar> \<le> \<bar>x\<bar> / 10 ^ 27"
proof (cases "x = 0")
  case False
  define u where "u = (10 :: rat) powi (decade x - 27)"
  have u: "0 < u" by (simp add: u_def)
  have r: "rnd x = of_int (rhe_rat (x / u)) * u" using False by (simp add: rnd_def u_def Let_def)
  have "\<bar>of_int (rhe_rat (x / u)) - x / u\<bar> \<le> 1"
    using rhe_rat_floor [of "x / u"] floor_correct [of "x / u"] by auto
  then have "\<bar>(of_int (rhe_rat (x / u)) - x / u) * u\<bar> \<le> 1 * u"
    unfolding abs_mult using u by (intro mult_mono) auto
  then have "\<bar>rnd x - x\<bar> \<le> u" using u by (simp add: r algebra_simps)
  moreover have "u * 10 ^ 27 = 10 powi decade x"
    using powi_nat [of "decade x - 27" 27] by (simp add: u_def mult.commute)
  then have "u * 10 ^ 27 \<le> \<bar>x\<bar>" using decade_bounds(1) [OF False] by simp
  ultimately show ?thesis by (simp add: field_simps)
qed simp

section \<open>Digit strings\<close>

definition digits_val :: "string \<Rightarrow> nat" where
  "digits_val s = foldl (\<lambda>n c. 10 * n + (of_char c - 48)) 0 s"

lemma nat_str_val: "digits_val (nat_str n) = n"
proof (induction n rule: nat_str.induct)
  case (1 n)
  show ?case
  proof (cases "n < 10")
    case False
    then have "digits_val (nat_str (n div 10)) = n div 10" using 1 by simp
    then show ?thesis using False by (subst nat_str.simps) (simp add: digits_val_def)
  qed (subst nat_str.simps, simp add: digits_val_def)
qed

lemma nat_str_inj [simp]: "nat_str m = nat_str n \<longleftrightarrow> m = n"
  by (metis nat_str_val)

lemma nat_str_digits: "c \<in> set (nat_str n) \<Longrightarrow> \<exists>k < 10 :: nat. c = char_of (48 + k)"
proof (induction n rule: nat_str.induct)
  case (1 n)
  show ?case
  proof (cases "n < 10")
    case True
    then have "c = char_of (48 + n)" using 1(2) by (subst (asm) nat_str.simps) simp
    then show ?thesis using True by blast
  next
    case False
    then have "c \<in> set (nat_str (n div 10)) \<or> c = char_of (48 + n mod 10)"
      using 1(2) by (subst (asm) nat_str.simps) auto
    then show ?thesis using 1(1) False by (metis mod_less_divisor zero_less_numeral)
  qed
qed

lemma nat_str_no_colon [simp]: "CHR '':'' \<notin> set (nat_str n)"
proof
  assume "CHR '':'' \<in> set (nat_str n)"
  then obtain k :: nat where "k < 10" "CHR '':'' = char_of (48 + k)" using nat_str_digits by blast
  then have "of_char (CHR '':'') = (48 + k) mod 256" by simp
  then show False using \<open>k < 10\<close> by simp
qed

end
