(* ===== verification/Contracts.thy ===== *)
theory Contracts
  imports PyDecimal
begin

text \<open>
  The immutable artifacts of the decision chain (\<open>src/advisorai/contracts/core.py\<close>).  Each class is a
  record that extends \<open>artifact\<close>; each constructor \<open>mk_\<dots>\<close> is the class's validation: it takes the raw
  values a caller passes (possibly naive times, possibly non-finite numbers, unstripped text), applies the
  field validators and then the model validator in the source's order, and returns the validated record or
  the error.  Pydantic rejects non-finite \<open>Decimal\<close> fields and strips text before it checks lengths.
\<close>

section \<open>Field validators\<close>

definition contract_version :: string where
  "contract_version = ''v3.0''"

definition require_current_contract :: "string \<Rightarrow> string res" where
  "require_current_contract v =
     (if v \<noteq> contract_version then Inl (ValidationError ''artifacts must use the contract version'') else Inr v)"

definition require_digest :: "string \<Rightarrow> string res" where
  "require_digest v =
     (if length v \<noteq> 64 \<or> \<not> list_all is_hex_digit v
      then Inl (ValidationError ''must be a lowercase SHA-256 digest'') else Inr v)"

definition optional_digest :: "string option \<Rightarrow> string option res" where
  "optional_digest v = (case v of None \<Rightarrow> Inr None | Some d \<Rightarrow> rbind (require_digest d) (Inr \<circ> Some))"

definition require_finite_decimal :: "raw_dec \<Rightarrow> dec res" where
  "require_finite_decimal v =
     (case v of Finite a \<Rightarrow> Inr a | NotFinite \<Rightarrow> Inl (ValidationError ''must be finite''))"

definition optional_finite_decimal :: "raw_dec option \<Rightarrow> dec option res" where
  "optional_finite_decimal v =
     (case v of None \<Rightarrow> Inr None | Some a \<Rightarrow> rbind (require_finite_decimal a) (Inr \<circ> Some))"

definition require_aware :: "pydatetime \<Rightarrow> utc res" where
  "require_aware t =
     (case t of Naive _ \<Rightarrow> Inl (ValidationError ''timestamps must include a timezone'') | Aware u _ \<Rightarrow> Inr u)"

definition optional_aware :: "pydatetime option \<Rightarrow> utc option res" where
  "optional_aware t = (case t of None \<Rightarrow> Inr None | Some d \<Rightarrow> rbind (require_aware d) (Inr \<circ> Some))"

text \<open>The declared bounds of a \<open>Field\<close>: \<open>min_length\<close>, \<open>gt\<close>, \<open>ge\<close>, \<open>le\<close>.\<close>

definition field_min1 :: "string \<Rightarrow> string res" where
  "field_min1 v = (if strip v = [] then Inl (ValidationError ''too short'') else Inr (strip v))"

definition field_gt0 :: "raw_dec \<Rightarrow> dec res" where
  "field_gt0 v = rbind (require_finite_decimal v)
     (\<lambda>a. if dlt d0 a then Inr a else Inl (ValidationError ''must be greater than zero''))"

definition field_ge0 :: "raw_dec \<Rightarrow> dec res" where
  "field_ge0 v = rbind (require_finite_decimal v)
     (\<lambda>a. if dle d0 a then Inr a else Inl (ValidationError ''must not be negative''))"

definition field_unit :: "raw_dec \<Rightarrow> dec res" where
  "field_unit v = rbind (field_ge0 v)
     (\<lambda>a. if dle a d1 then Inr a else Inl (ValidationError ''must be at most one''))"

definition optional_gt0 :: "raw_dec option \<Rightarrow> dec option res" where
  "optional_gt0 v = (case v of None \<Rightarrow> Inr None | Some a \<Rightarrow> rbind (field_gt0 a) (Inr \<circ> Some))"

definition check :: "bool \<Rightarrow> string \<Rightarrow> unit res" where
  "check ok msg = (if ok then Inr () else Inl (ValidationError msg))"

lemma check_simps [simp]: "check ok msg = Inr u \<longleftrightarrow> ok" "check True msg = Inr ()"
  by (simp_all add: check_def)

lemma rbind_check [simp]: "rbind (check ok msg) f = (if ok then f () else Inl (ValidationError msg))"
  by (simp add: check_def)

lemma field_gt0_Inr: "field_gt0 v = Inr a \<longleftrightarrow> v = Finite a \<and> 0 < dval a"
  by (cases v) (auto simp: field_gt0_def require_finite_decimal_def dcmp)

lemma field_ge0_Inr: "field_ge0 v = Inr a \<longleftrightarrow> v = Finite a \<and> 0 \<le> dval a"
  by (cases v) (auto simp: field_ge0_def require_finite_decimal_def dcmp)

lemma field_unit_Inr: "field_unit v = Inr a \<longleftrightarrow> v = Finite a \<and> 0 \<le> dval a \<and> dval a \<le> 1"
  unfolding field_unit_def rbind_eq_Inr field_ge0_Inr by (auto simp: dcmp split: if_splits)

lemma optional_gt0_Inr: "optional_gt0 v = Inr w \<longleftrightarrow> (v = None \<and> w = None \<or> (\<exists>a. v = Some (Finite a) \<and> w = Some a \<and> 0 < dval a))"
  by (cases v) (auto simp: optional_gt0_def rbind_eq_Inr field_gt0_Inr)

lemma field_min1_Inr: "field_min1 v = Inr w \<longleftrightarrow> w = strip v \<and> \<not> blank v"
  by (auto simp: field_min1_def blank_def)

lemma require_digest_Inr: "require_digest v = Inr w \<longleftrightarrow> w = v \<and> is_digest v"
  by (auto simp: require_digest_def is_digest_def)

lemma require_aware_Inr: "require_aware t = Inr u \<longleftrightarrow> (\<exists>off. t = Aware u off)"
  by (cases t) (auto simp: require_aware_def)

lemmas field_Inr = field_gt0_Inr field_ge0_Inr field_unit_Inr optional_gt0_Inr field_min1_Inr
  require_digest_Inr require_aware_Inr

section \<open>Base artifact and instrument identity\<close>

record artifact =
  artifact_id :: uuid
  created_at :: utc

datatype asset_class = Crypto | Equity | Fx | Future | Option | Fund | OtherAsset
datatype artifact_tier = Bronze | Silver | Gold
datatype source_grade = ExecutionGrade | ResearchGrade | ContextOnly

record instrument = artifact +
  canonical_id :: string
  asset_class :: asset_class
  inst_venue :: "string option"
  venue_symbol :: "string option"
  base_asset :: "string option"
  quote_asset :: "string option"
  valid_from :: "utc option"
  valid_to :: "utc option"

definition mk_instrument ::
  "uuid \<Rightarrow> pydatetime \<Rightarrow> string \<Rightarrow> asset_class \<Rightarrow> string option \<Rightarrow> string option \<Rightarrow> string option \<Rightarrow>
   string option \<Rightarrow> pydatetime option \<Rightarrow> pydatetime option \<Rightarrow> instrument res" where
  "mk_instrument aid created cid cls venue symbol base quote vfrom vto =
     rbind (require_aware created) (\<lambda>ca. rbind (field_min1 cid) (\<lambda>c.
     rbind (optional_aware vfrom) (\<lambda>vf. rbind (optional_aware vto) (\<lambda>vt.
     rbind (check (case (vf, vt) of (Some f, Some t) \<Rightarrow> f < t | _ \<Rightarrow> True) ''valid_to must be after valid_from'') (\<lambda>_.
       Inr \<lparr>artifact_id = aid, created_at = ca, canonical_id = c, asset_class = cls,
            inst_venue = map_option strip venue, venue_symbol = map_option strip symbol,
            base_asset = map_option strip base, quote_asset = map_option strip quote,
            valid_from = vf, valid_to = vt\<rparr>)))))"

record artifact_reference = artifact +
  ref_tier :: artifact_tier
  ref_uri :: string
  ref_content_hash :: string
  ref_dataset :: string
  ref_first_available_at :: utc
  ref_parser_version :: "string option"

definition mk_artifact_reference ::
  "uuid \<Rightarrow> pydatetime \<Rightarrow> artifact_tier \<Rightarrow> string \<Rightarrow> string \<Rightarrow> string \<Rightarrow> pydatetime \<Rightarrow> string option \<Rightarrow>
   artifact_reference res" where
  "mk_artifact_reference aid created tier uri hash dataset available parser =
     rbind (require_aware created) (\<lambda>ca. rbind (field_min1 uri) (\<lambda>u.
     rbind (require_digest (strip hash)) (\<lambda>h. rbind (field_min1 dataset) (\<lambda>ds.
     rbind (require_aware available) (\<lambda>av.
       Inr \<lparr>artifact_id = aid, created_at = ca, ref_tier = tier, ref_uri = u, ref_content_hash = h,
            ref_dataset = ds, ref_first_available_at = av, ref_parser_version = map_option strip parser\<rparr>)))))"

section \<open>Orders, fills and execution plans\<close>

datatype order_state =
    CREATED | RISK_APPROVED | ROUTED | ACKNOWLEDGED | PARTIALLY_FILLED | FILLED
  | CANCEL_PENDING | CANCELLED | REJECTED | EXPIRED | RECONCILED

definition order_state_value :: "order_state \<Rightarrow> string" where
  "order_state_value s = (case s of
     CREATED \<Rightarrow> ''created'' | RISK_APPROVED \<Rightarrow> ''risk_approved'' | ROUTED \<Rightarrow> ''routed''
   | ACKNOWLEDGED \<Rightarrow> ''acknowledged'' | PARTIALLY_FILLED \<Rightarrow> ''partially_filled'' | FILLED \<Rightarrow> ''filled''
   | CANCEL_PENDING \<Rightarrow> ''cancel_pending'' | CANCELLED \<Rightarrow> ''cancelled'' | REJECTED \<Rightarrow> ''rejected''
   | EXPIRED \<Rightarrow> ''expired'' | RECONCILED \<Rightarrow> ''reconciled'')"

lemma order_state_value_inj: "order_state_value s = order_state_value t \<longleftrightarrow> s = t"
  by (cases s; cases t) (simp_all add: order_state_value_def)

record order = artifact +
  parent_intent_id :: uuid
  execution_plan_id :: uuid
  ord_instrument :: instrument
  ord_side :: string
  ord_quantity :: dec
  order_type :: string
  ord_price :: "dec option"
  time_in_force :: string
  idempotency_key :: string
  ord_state :: order_state

definition execution_token :: "string \<Rightarrow> string res" where
  "execution_token v =
     (if blank v then Inl (ValidationError ''execution tokens must be non-empty strings'') else Inr (lower (strip v)))"

definition mk_order ::
  "uuid \<Rightarrow> pydatetime \<Rightarrow> uuid \<Rightarrow> uuid \<Rightarrow> instrument \<Rightarrow> string \<Rightarrow> raw_dec \<Rightarrow> string \<Rightarrow> raw_dec option \<Rightarrow>
   string \<Rightarrow> string \<Rightarrow> order_state \<Rightarrow> order res" where
  "mk_order aid created parent plan inst side quantity otype price tif ikey st =
     rbind (require_aware created) (\<lambda>ca. rbind (execution_token side) (\<lambda>sd.
     rbind (field_gt0 quantity) (\<lambda>q. rbind (execution_token otype) (\<lambda>ot.
     rbind (optional_gt0 price) (\<lambda>p. rbind (execution_token tif) (\<lambda>tf. rbind (field_min1 ikey) (\<lambda>ik.
     rbind (check (lower sd \<in> {''buy'', ''sell''}) ''order side must be buy or sell'') (\<lambda>_.
     rbind (check (\<not> blank ot) ''order type is required'') (\<lambda>_.
     rbind (check (\<not> blank tf) ''time in force is required'') (\<lambda>_.
     rbind (check (\<not> (lower ot \<in> {''limit'', ''passive_limit''} \<and> p = None)) ''limit orders require a positive price'') (\<lambda>_.
       Inr \<lparr>artifact_id = aid, created_at = ca, parent_intent_id = parent, execution_plan_id = plan,
            ord_instrument = inst, ord_side = sd, ord_quantity = q, order_type = ot, ord_price = p,
            time_in_force = tf, idempotency_key = ik, ord_state = st\<rparr>)))))))))))"

record fill = artifact +
  fill_order_id :: uuid
  venue_fill_id :: string
  fill_quantity :: dec
  fill_price :: dec
  fill_fee :: dec
  fill_occurred_at :: utc

definition mk_fill ::
  "uuid \<Rightarrow> pydatetime \<Rightarrow> uuid \<Rightarrow> string \<Rightarrow> raw_dec \<Rightarrow> raw_dec \<Rightarrow> raw_dec \<Rightarrow> pydatetime \<Rightarrow> fill res" where
  "mk_fill aid created oid vfid quantity price fee occurred =
     rbind (require_aware created) (\<lambda>ca. rbind (field_min1 vfid) (\<lambda>v.
     rbind (field_gt0 quantity) (\<lambda>q. rbind (field_gt0 price) (\<lambda>p. rbind (field_ge0 fee) (\<lambda>f.
     rbind (require_aware occurred) (\<lambda>t.
       Inr \<lparr>artifact_id = aid, created_at = ca, fill_order_id = oid, venue_fill_id = v,
            fill_quantity = q, fill_price = p, fill_fee = f, fill_occurred_at = t\<rparr>))))))"

record execution_plan = artifact +
  plan_risk_decision_id :: uuid
  plan_target_portfolio_id :: uuid
  plan_policy_version :: string
  plan_instructions :: "string list"
  plan_expires_at :: utc

definition mk_execution_plan ::
  "uuid \<Rightarrow> pydatetime \<Rightarrow> uuid \<Rightarrow> uuid \<Rightarrow> string \<Rightarrow> string list \<Rightarrow> pydatetime \<Rightarrow> execution_plan res" where
  "mk_execution_plan aid created rd tp version instructions expires =
     rbind (require_aware created) (\<lambda>ca. rbind (require_aware expires) (\<lambda>ex.
     rbind (check (\<not> blank version) ''execution plan policy version is required'') (\<lambda>_.
     rbind (check (instructions \<noteq> [] \<and> list_all (\<lambda>i. \<not> blank i) instructions)
              ''execution plan requires non-empty instructions'') (\<lambda>_.
     rbind (check (ca < ex) ''execution plan must expire after it is created'') (\<lambda>_.
       Inr \<lparr>artifact_id = aid, created_at = ca, plan_risk_decision_id = rd, plan_target_portfolio_id = tp,
            plan_policy_version = strip version, plan_instructions = map strip instructions,
            plan_expires_at = ex\<rparr>)))))"

section \<open>Target portfolios, risk policies and risk decisions\<close>

record target_position = artifact +
  pos_instrument :: instrument
  target_quantity :: dec
  expected_return_after_costs :: "dec option"
  rationale_artifact_ids :: "uuid list"

definition mk_target_position ::
  "uuid \<Rightarrow> pydatetime \<Rightarrow> instrument \<Rightarrow> raw_dec \<Rightarrow> raw_dec option \<Rightarrow> uuid list \<Rightarrow> target_position res" where
  "mk_target_position aid created inst quantity expected rationale =
     rbind (require_aware created) (\<lambda>ca. rbind (require_finite_decimal quantity) (\<lambda>q.
     rbind (optional_finite_decimal expected) (\<lambda>e.
       Inr \<lparr>artifact_id = aid, created_at = ca, pos_instrument = inst, target_quantity = q,
            expected_return_after_costs = e, rationale_artifact_ids = rationale\<rparr>)))"

record target_portfolio = artifact +
  tp_snapshot_id :: uuid
  tp_positions :: "target_position list"
  cash_target :: dec
  construction_method :: string
  expected_cost :: dec
  risk_constraints_version :: string
  no_trade_comparison :: string

abbreviation pos_id :: "target_position \<Rightarrow> string" where
  "pos_id p \<equiv> canonical_id (pos_instrument p)"

definition mk_target_portfolio ::
  "uuid \<Rightarrow> pydatetime \<Rightarrow> uuid \<Rightarrow> target_position list \<Rightarrow> raw_dec \<Rightarrow> string \<Rightarrow> raw_dec \<Rightarrow> string \<Rightarrow> string \<Rightarrow>
   target_portfolio res" where
  "mk_target_portfolio aid created snap positions cash meth cost version comparison =
     rbind (require_aware created) (\<lambda>ca. rbind (require_finite_decimal cash) (\<lambda>c.
     rbind (field_ge0 cost) (\<lambda>k.
     rbind (check (distinct (map pos_id positions)) ''target portfolio cannot contain duplicate instruments'') (\<lambda>_.
     rbind (check (\<not> blank meth) ''target portfolio construction_method is required'') (\<lambda>_.
     rbind (check (\<not> blank version) ''target portfolio risk constraints version is required'') (\<lambda>_.
     rbind (check (\<not> blank comparison) ''target portfolio requires a no-trade comparison'') (\<lambda>_.
       Inr \<lparr>artifact_id = aid, created_at = ca, tp_snapshot_id = snap, tp_positions = positions,
            cash_target = c, construction_method = strip meth, expected_cost = k,
            risk_constraints_version = strip version, no_trade_comparison = strip comparison\<rparr>)))))))"

record risk_limit = artifact +
  limit_name :: string
  limit_value :: dec
  limit_unit :: string

definition mk_risk_limit :: "uuid \<Rightarrow> pydatetime \<Rightarrow> string \<Rightarrow> raw_dec \<Rightarrow> string \<Rightarrow> risk_limit res" where
  "mk_risk_limit aid created name limit unit_name =
     rbind (require_aware created) (\<lambda>ca.
     rbind (check (\<not> blank name) ''risk limits require a name and unit'') (\<lambda>_.
     rbind (field_ge0 limit) (\<lambda>l. rbind (field_min1 unit_name) (\<lambda>u.
       Inr \<lparr>artifact_id = aid, created_at = ca, limit_name = strip name, limit_value = l, limit_unit = u\<rparr>))))"

record risk_policy = artifact +
  policy_version :: string
  effective_at :: utc
  hard_limits :: "risk_limit list"
  approved_by :: string

definition mk_risk_policy ::
  "uuid \<Rightarrow> pydatetime \<Rightarrow> string \<Rightarrow> pydatetime \<Rightarrow> risk_limit list \<Rightarrow> string \<Rightarrow> risk_policy res" where
  "mk_risk_policy aid created version effective limits approver =
     rbind (require_aware created) (\<lambda>ca. rbind (require_aware effective) (\<lambda>ef.
     rbind (check (\<not> blank version \<and> \<not> blank approver) ''risk policy version and approver are required'') (\<lambda>_.
     rbind (check (distinct (map limit_name limits)) ''risk limit names must be unique'') (\<lambda>_.
       Inr \<lparr>artifact_id = aid, created_at = ca, policy_version = strip version, effective_at = ef,
            hard_limits = limits, approved_by = strip approver\<rparr>))))"

datatype risk_outcome = APPROVED | REDUCED | RISK_REJECTED

record risk_decision = artifact +
  dec_target_portfolio_id :: uuid
  dec_risk_policy_id :: uuid
  dec_outcome :: risk_outcome
  dec_state_hash :: string
  dec_reasons :: "string list"
  dec_reduced_positions :: "target_position list"

definition mk_risk_decision ::
  "uuid \<Rightarrow> pydatetime \<Rightarrow> uuid \<Rightarrow> uuid \<Rightarrow> risk_outcome \<Rightarrow> string \<Rightarrow> string list \<Rightarrow> target_position list \<Rightarrow>
   risk_decision res" where
  "mk_risk_decision aid created tp pol outcome hash reasons reduced =
     rbind (require_aware created) (\<lambda>ca. rbind (require_digest (strip hash)) (\<lambda>h.
     rbind (check (\<not> (outcome = RISK_REJECTED \<and> reasons = [])) ''rejected risk decisions require reasons'') (\<lambda>_.
     rbind (check (\<not> (outcome = REDUCED \<and> reduced = [])) ''reduced risk decisions require reduced positions'') (\<lambda>_.
     rbind (check (\<not> (outcome = APPROVED \<and> reduced \<noteq> [])) ''approved risk decisions cannot contain reduced positions'') (\<lambda>_.
     rbind (check (distinct (map pos_id reduced)) ''reduced risk decisions cannot contain duplicate instruments'') (\<lambda>_.
     rbind (check (list_all (\<lambda>r. \<not> blank r) reasons) ''risk decision reasons cannot be blank'') (\<lambda>_.
     rbind (check (distinct (map strip reasons)) ''risk decision reasons must be unique'') (\<lambda>_.
       Inr \<lparr>artifact_id = aid, created_at = ca, dec_target_portfolio_id = tp, dec_risk_policy_id = pol,
            dec_outcome = outcome, dec_state_hash = h, dec_reasons = map strip reasons,
            dec_reduced_positions = reduced\<rparr>))))))))"

record order_risk_check =
  chk_approved :: bool
  chk_reasons :: "string list"
  chk_state_hash :: "string option"
  chk_policy_id :: "uuid option"

section \<open>Reconciliation\<close>

record reconciliation = artifact +
  rec_as_of :: utc
  rec_account_state_hash :: string
  rec_order_ids :: "uuid list"
  rec_fill_ids :: "uuid list"
  rec_reconciled :: bool
  rec_discrepancies :: "string list"

definition mk_reconciliation ::
  "uuid \<Rightarrow> pydatetime \<Rightarrow> pydatetime \<Rightarrow> string \<Rightarrow> uuid list \<Rightarrow> uuid list \<Rightarrow> bool \<Rightarrow> string list \<Rightarrow>
   reconciliation res" where
  "mk_reconciliation aid created as_of hash order_ids fill_ids reconciled discrepancies =
     rbind (require_aware created) (\<lambda>ca. rbind (require_aware as_of) (\<lambda>t.
     rbind (require_digest (strip hash)) (\<lambda>h.
     rbind (check (distinct order_ids) ''reconciliation order IDs must be unique'') (\<lambda>_.
     rbind (check (distinct fill_ids) ''reconciliation fill IDs must be unique'') (\<lambda>_.
     rbind (check (\<not> (reconciled \<and> discrepancies \<noteq> [])) ''a reconciled record cannot contain discrepancies'') (\<lambda>_.
     rbind (check (\<not> (\<not> reconciled \<and> discrepancies = [])) ''an unreconciled record must identify discrepancies'') (\<lambda>_.
       Inr \<lparr>artifact_id = aid, created_at = ca, rec_as_of = t, rec_account_state_hash = h,
            rec_order_ids = order_ids, rec_fill_ids = fill_ids, rec_reconciled = reconciled,
            rec_discrepancies = map strip discrepancies\<rparr>)))))))"

text \<open>What every validated order and fill satisfies.\<close>

definition order_valid :: "order \<Rightarrow> bool" where
  "order_valid r \<longleftrightarrow> ord_side r \<in> {''buy'', ''sell''} \<and> 0 < dval (ord_quantity r) \<and>
     opt_all (\<lambda>p. 0 < dval p) (ord_price r) \<and> \<not> blank (idempotency_key r) \<and>
     (order_type r \<in> {''limit'', ''passive_limit''} \<longrightarrow> ord_price r \<noteq> None)"

definition fill_valid :: "fill \<Rightarrow> bool" where
  "fill_valid f \<longleftrightarrow> \<not> blank (venue_fill_id f) \<and> 0 < dval (fill_quantity f) \<and> 0 < dval (fill_price f) \<and>
     0 \<le> dval (fill_fee f)"

lemma lower_char_idem [simp]: "lower_char (lower_char c) = lower_char c"
proof (cases "is_upper c")
  case True
  then have "of_char c + (32::nat) < 256"
    by (auto simp: is_upper_def Let_def)
  then show ?thesis using True
    by (auto simp: lower_char_def is_upper_def Let_def)
qed (simp add: lower_char_def)

lemma lower_idem [simp]: "lower (lower s) = lower s"
  by (simp add: lower_def)

theorem mk_order_valid: "mk_order aid created parent plan inst side quantity otype price tif ikey st = Inr r \<Longrightarrow>
  order_valid r \<and> ord_state r = st \<and> artifact_id r = aid"
  by (auto simp: mk_order_def rbind_eq_Inr field_Inr order_valid_def execution_token_def
      split: if_splits)

theorem mk_fill_valid: "mk_fill aid created oid vfid quantity price fee occurred = Inr f \<Longrightarrow>
  fill_valid f \<and> fill_order_id f = oid"
  by (auto simp: mk_fill_def rbind_eq_Inr field_Inr fill_valid_def)

end
