(* ===== verification/Gate_Records.thy ===== *)
theory Gate_Records
  imports Contracts
begin

text \<open>
  The immutable records of the admission gates with their validators: the evidence and the record of a phase
  gate (\<open>src/advisorai/gates.py\<close>), the samples of a paper soak and its gate (\<open>src/advisorai/soak/controller.py\<close>),
  the authorization and the status of live operation (\<open>src/advisorai/live/guard.py\<close>).  They are values of the
  ledgers' payloads.  These models do not strip text before they check its length.
\<close>

section \<open>Phase gates\<close>

datatype evidence_kind = LOCAL_TEST | EXTERNAL_TIMED | OPERATIONAL | HUMAN_APPROVAL
datatype gate_decision = GATE_PENDING | GATE_PASSED | GATE_FAILED

record gate_evidence =
  gv_id :: uuid
  gv_name :: string
  gv_kind :: evidence_kind
  gv_passed :: bool
  gv_hash :: "string option"
  gv_source :: string
  gv_verified_by :: string
  gv_observed_at :: utc
  gv_expires_at :: "utc option"
  gv_details :: string

definition evidence_hash :: "string option \<Rightarrow> string option res" where
  "evidence_hash h = (case h of None \<Rightarrow> Inr None
     | Some v \<Rightarrow> if is_digest (lower (strip v)) then Inr (Some (lower (strip v)))
         else Inl (ValidationError ''gate evidence artifact_hash must be a lowercase SHA-256 digest''))"

definition mk_gate_evidence ::
  "uuid \<Rightarrow> string \<Rightarrow> evidence_kind \<Rightarrow> bool \<Rightarrow> string option \<Rightarrow> string \<Rightarrow> string \<Rightarrow> pydatetime \<Rightarrow> pydatetime option \<Rightarrow>
   string \<Rightarrow> gate_evidence res" where
  "mk_gate_evidence gid name kind passed hash source verifier observed expires details =
     rbind (check (name \<noteq> [] \<and> source \<noteq> [] \<and> verifier \<noteq> []) ''too short'') (\<lambda>_.
     rbind (evidence_hash hash) (\<lambda>h. rbind (require_aware observed) (\<lambda>ob. rbind (optional_aware expires) (\<lambda>ex.
     rbind (check (\<not> blank name \<and> \<not> blank source \<and> \<not> blank verifier) ''gate evidence requires a name, source, and verifier'') (\<lambda>_.
     rbind (check (\<not> (passed \<and> h = None)) ''passed gate evidence requires an artifact hash'') (\<lambda>_.
     rbind (check (opt_all (\<lambda>x. ob < x) ex) ''gate evidence expiry must be after observation'') (\<lambda>_.
       Inr \<lparr>gv_id = gid, gv_name = strip name, gv_kind = kind, gv_passed = passed, gv_hash = h, gv_source = strip source,
            gv_verified_by = strip verifier, gv_observed_at = ob, gv_expires_at = ex, gv_details = strip details\<rparr>)))))))"

definition evidence_valid_at :: "gate_evidence \<Rightarrow> utc \<Rightarrow> bool" where
  "evidence_valid_at e t \<longleftrightarrow> gv_observed_at e \<le> t \<and> opt_all (\<lambda>x. t < x) (gv_expires_at e)"

record phase_gate =
  pg_id :: uuid
  pg_phase :: nat
  pg_name :: string
  pg_decision :: gate_decision
  pg_required :: "string list"
  pg_evidence :: "gate_evidence list"
  pg_prerequisite :: "nat option"
  pg_recorded_by :: string
  pg_recorded_at :: utc
  pg_reasons :: "string list"

text \<open>The dictionary of the evidence by its name; a later entry replaces an earlier one.\<close>

definition available :: "gate_evidence list \<Rightarrow> string \<Rightarrow> gate_evidence option" where
  "available es n = map_of (rev (map (\<lambda>e. (gv_name e, e)) es)) n"

definition evidence_holds :: "gate_evidence list \<Rightarrow> utc \<Rightarrow> string \<Rightarrow> bool" where
  "evidence_holds es t n = (case available es n of None \<Rightarrow> False | Some e \<Rightarrow> gv_passed e \<and> evidence_valid_at e t)"

definition has_kind :: "gate_evidence list \<Rightarrow> string list \<Rightarrow> evidence_kind \<Rightarrow> bool" where
  "has_kind es required k =
     list_ex (\<lambda>n. case available es n of None \<Rightarrow> False | Some e \<Rightarrow> gv_kind e = k) required"

definition gate_tokens :: "string list \<Rightarrow> string list res" where
  "gate_tokens xs = (let ys = map strip xs in
     if list_ex (\<lambda>y. y = []) ys \<or> \<not> distinct ys then Inl (ValidationError ''phase gate tokens must be unique and non-blank'')
     else Inr ys)"

definition phase_number :: "int \<Rightarrow> nat res" where
  "phase_number p = (if p < 0 \<or> 10 < p then Inl (ValidationError ''phase out of range'') else Inr (nat p))"

definition passed_gate_ok :: "phase_gate \<Rightarrow> unit res" where
  "passed_gate_ok g =
     rbind (check (pg_required g \<noteq> []) ''a passed phase gate requires named evidence'') (\<lambda>_.
     rbind (check (list_all (\<lambda>n. available (pg_evidence g) n \<noteq> None) (pg_required g)) ''passed phase gate is missing evidence'') (\<lambda>_.
     rbind (check (list_all (evidence_holds (pg_evidence g) (pg_recorded_at g)) (pg_required g))
              ''passed phase gate has invalid evidence'') (\<lambda>_.
     rbind (check (\<not> (pg_phase g \<in> {0, 7} \<and> \<not> has_kind (pg_evidence g) (pg_required g) EXTERNAL_TIMED))
              ''requires external timed evidence before admission'') (\<lambda>_.
     rbind (check (\<not> (pg_phase g = 10 \<and> \<not> has_kind (pg_evidence g) (pg_required g) HUMAN_APPROVAL))
              ''Phase 10 requires explicit human approval evidence'') (\<lambda>_.
     check (pg_reasons g = []) ''a passed phase gate cannot retain blocking reasons'')))))"

definition mk_phase_gate ::
  "uuid \<Rightarrow> int \<Rightarrow> string \<Rightarrow> gate_decision \<Rightarrow> string list \<Rightarrow> gate_evidence list \<Rightarrow> int option \<Rightarrow> string \<Rightarrow> pydatetime \<Rightarrow>
   string list \<Rightarrow> phase_gate res" where
  "mk_phase_gate gid phase name decision required evidence prerequisite recorder recorded reasons =
     rbind (phase_number phase) (\<lambda>ph. rbind (check (\<not> blank name \<and> \<not> blank recorder) ''phase gate identity fields cannot be blank'') (\<lambda>_.
     rbind (gate_tokens required) (\<lambda>rq.
     rbind (case prerequisite of None \<Rightarrow> Inr None | Some p \<Rightarrow> rbind (phase_number p) (Inr \<circ> Some)) (\<lambda>pre.
     rbind (require_aware recorded) (\<lambda>rt. rbind (gate_tokens reasons) (\<lambda>rs.
     rbind (check (opt_all (\<lambda>p. p < ph) pre) ''phase gate prerequisite must be an earlier phase'') (\<lambda>_.
     rbind (check (\<not> (0 < ph \<and> pre \<notin> {None, Some (ph - 1)})) ''phase gates must depend on the immediately preceding phase'') (\<lambda>_.
     rbind (check (distinct (map gv_name evidence)) ''phase gate evidence names must be unique'') (\<lambda>_.
     let g = \<lparr>pg_id = gid, pg_phase = ph, pg_name = strip name, pg_decision = decision, pg_required = rq,
            pg_evidence = evidence, pg_prerequisite = pre, pg_recorded_by = strip recorder, pg_recorded_at = rt, pg_reasons = rs\<rparr>
     in rbind (case decision of
            GATE_PASSED \<Rightarrow> passed_gate_ok g
          | GATE_PENDING \<Rightarrow> check (rs \<noteq> []) ''a pending phase gate must explain what remains''
          | GATE_FAILED \<Rightarrow> check (rs \<noteq> []) ''a failed phase gate must explain the failure'') (\<lambda>_. Inr g))))))))))"

definition gate_valid_at :: "phase_gate \<Rightarrow> utc \<Rightarrow> bool" where
  "gate_valid_at g t \<longleftrightarrow> pg_decision g = GATE_PASSED \<and> list_all (evidence_holds (pg_evidence g) t) (pg_required g)"

text \<open>What the validators leave of a record.\<close>

definition gate_ok :: "phase_gate \<Rightarrow> bool" where
  "gate_ok g \<longleftrightarrow> pg_phase g \<le> 10 \<and> opt_all (\<lambda>q. Suc q = pg_phase g) (pg_prerequisite g) \<and>
     (pg_decision g = GATE_PASSED \<longrightarrow> passed_gate_ok g = Inr ())"

lemma mk_phase_gate_ok:
  assumes "mk_phase_gate gid phase name decision required evidence prerequisite recorder recorded reasons = Inr g"
  shows "gate_ok g"
proof -
  have "pg_phase g \<le> 10" "opt_all (\<lambda>p. p < pg_phase g) (pg_prerequisite g)"
    "0 < pg_phase g \<Longrightarrow> pg_prerequisite g \<in> {None, Some (pg_phase g - 1)}"
    "pg_decision g = GATE_PASSED \<Longrightarrow> passed_gate_ok g = Inr ()"
    using assms by (auto simp: mk_phase_gate_def rbind_eq_Inr phase_number_def Let_def split: if_splits gate_decision.splits)
  then show ?thesis
    by (cases "pg_prerequisite g") (auto simp: gate_ok_def)
qed

section \<open>Soak samples\<close>

datatype failure_scenario =
    PRICE_GAP | VOLATILITY_JUMP | CORRELATION_BREAKDOWN | SPREAD_DEPTH_COLLAPSE | HALT_DELIST
  | FUNDING_LIQUIDATION_CASCADE | STABLECOIN_DEPEG | VENUE_OUTAGE | WITHDRAWAL_FREEZE | COUNTERPARTY_FAILURE
  | STALE_DUPLICATE_DATA | CLOCK_DRIFT | DUPLICATE_PARTIAL_FILL

primrec scenario_value :: "failure_scenario \<Rightarrow> string" where
  "scenario_value PRICE_GAP = ''price_gap''"
| "scenario_value VOLATILITY_JUMP = ''volatility_jump''"
| "scenario_value CORRELATION_BREAKDOWN = ''correlation_breakdown''"
| "scenario_value SPREAD_DEPTH_COLLAPSE = ''spread_depth_collapse''"
| "scenario_value HALT_DELIST = ''halt_delist''"
| "scenario_value FUNDING_LIQUIDATION_CASCADE = ''funding_liquidation_cascade''"
| "scenario_value STABLECOIN_DEPEG = ''stablecoin_depeg''"
| "scenario_value VENUE_OUTAGE = ''venue_outage''"
| "scenario_value WITHDRAWAL_FREEZE = ''withdrawal_freeze''"
| "scenario_value COUNTERPARTY_FAILURE = ''counterparty_failure''"
| "scenario_value STALE_DUPLICATE_DATA = ''stale_duplicate_data''"
| "scenario_value CLOCK_DRIFT = ''clock_drift''"
| "scenario_value DUPLICATE_PARTIAL_FILL = ''duplicate_partial_fill''"

record ('n, 't, 'c) soak_sample =
  ss_id :: uuid
  ss_at :: 't
  ss_decisions :: 'c
  ss_trades :: 'c
  ss_utility :: 'n
  ss_resource_stable :: bool
  ss_reconciliation_clean :: bool
  ss_safety_clean :: bool
  ss_scenarios :: "failure_scenario list"
  ss_data_ok :: bool
  ss_model_ok :: bool
  ss_agent_ok :: bool
  ss_risk_ok :: bool
  ss_execution_ok :: bool
  ss_headroom :: "'n option"
  ss_no_trade_utility :: "'n option"
  ss_benchmark_utility :: "'n option"

type_synonym sample = "(dec, utc, nat) soak_sample"
type_synonym raw_sample = "(raw_dec, pydatetime, int) soak_sample"

definition count_field :: "int \<Rightarrow> nat res" where
  "count_field n = (if n < 0 then Inl (ValidationError ''must not be negative'') else Inr (nat n))"

definition mk_soak_sample :: "raw_sample \<Rightarrow> sample res" where
  "mk_soak_sample r =
     rbind (require_aware (ss_at r)) (\<lambda>t. rbind (count_field (ss_decisions r)) (\<lambda>d. rbind (count_field (ss_trades r)) (\<lambda>k.
     rbind (require_finite_decimal (ss_utility r)) (\<lambda>u. rbind (optional_finite_decimal (ss_headroom r)) (\<lambda>h.
     rbind (optional_finite_decimal (ss_no_trade_utility r)) (\<lambda>nt. rbind (optional_finite_decimal (ss_benchmark_utility r)) (\<lambda>b.
     rbind (check (k \<le> d) ''soak trades cannot exceed decisions'') (\<lambda>_.
     rbind (check (distinct (ss_scenarios r)) ''soak adverse scenarios must be unique per sample'') (\<lambda>_.
     rbind (check (opt_all (\<lambda>v. \<not> dlt v d0) h) ''soak headroom cannot be negative'') (\<lambda>_.
       Inr \<lparr>ss_id = ss_id r, ss_at = t, ss_decisions = d, ss_trades = k, ss_utility = u, ss_resource_stable = ss_resource_stable r,
            ss_reconciliation_clean = ss_reconciliation_clean r, ss_safety_clean = ss_safety_clean r,
            ss_scenarios = ss_scenarios r, ss_data_ok = ss_data_ok r, ss_model_ok = ss_model_ok r, ss_agent_ok = ss_agent_ok r,
            ss_risk_ok = ss_risk_ok r, ss_execution_ok = ss_execution_ok r, ss_headroom = h, ss_no_trade_utility = nt,
            ss_benchmark_utility = b\<rparr>))))))))))"

record soak_gate =
  sg_days :: int
  sg_decisions :: nat
  sg_trades :: nat
  sg_scenarios :: "failure_scenario list"
  sg_resources_stable :: bool
  sg_unresolved_reconciliation :: bool
  sg_unresolved_safety :: bool
  sg_utility :: dec
  sg_passed :: bool
  sg_reasons :: "string list"
  sg_headroom :: dec

definition mk_soak_gate :: "soak_gate \<Rightarrow> soak_gate res" where
  "mk_soak_gate g =
     rbind (check (0 \<le> sg_days g) ''must not be negative'') (\<lambda>_.
     rbind (check (\<not> dlt (sg_headroom g) (Dec 15 (- 1))) ''minimum headroom'') (\<lambda>_.
     rbind (check (distinct (sg_scenarios g)) ''soak adverse scenarios must be unique'') (\<lambda>_.
     rbind (check (\<not> (sg_passed g \<and> sg_days g < 60)) ''a passed soak gate requires at least 60 calendar days'') (\<lambda>_.
     rbind (check (\<not> (sg_passed g \<and> (sg_decisions g < 1 \<or> sg_trades g < 1))) ''a passed soak gate requires a meaningful sample'') (\<lambda>_.
     rbind (check (\<not> (sg_passed g \<and> sg_scenarios g = [])) ''a passed soak gate requires adverse-condition evidence'') (\<lambda>_.
     rbind (check (\<not> (sg_passed g \<and> (\<not> sg_resources_stable g \<or> sg_unresolved_reconciliation g \<or> sg_unresolved_safety g \<or>
              dle (sg_utility g) d0 \<or> sg_reasons g \<noteq> []))) ''a passed soak gate cannot contain unresolved failures'') (\<lambda>_.
       Inr g)))))))"

section \<open>Live operation\<close>

record ('n, 't) live_authorization =
  la_id :: uuid
  la_approver :: string
  la_approved_at :: 't
  la_instruments :: "string list"
  la_loss_budget :: 'n
  la_max_notional :: 'n
  la_policy_hash :: string
  la_rollback :: string
  la_no_expansion :: bool
  la_ai_stoppable :: bool
  la_owner :: "string option"
  la_venue :: "string option"
  la_expires_at :: "'t option"
  la_reference :: "string option"

type_synonym authorization = "(dec, utc) live_authorization"
type_synonym raw_authorization = "(raw_dec, pydatetime) live_authorization"

definition optional_identity :: "string option \<Rightarrow> string option res" where
  "optional_identity v = (case v of None \<Rightarrow> Inr None
     | Some s \<Rightarrow> if blank s then Inl (ValidationError ''live authorization identity fields cannot be blank'') else Inr (Some (strip s)))"

definition live_instruments :: "string list \<Rightarrow> string list res" where
  "live_instruments xs = (let ys = map strip xs in
     if list_ex (\<lambda>y. y = []) ys then Inl (ValidationError ''live approval instruments cannot be blank'')
     else if \<not> distinct ys then Inl (ValidationError ''live approval instruments must be unique'')
     else Inr ys)"

definition mk_live_authorization :: "raw_authorization \<Rightarrow> authorization res" where
  "mk_live_authorization r =
     rbind (require_aware (la_approved_at r)) (\<lambda>t. rbind (live_instruments (la_instruments r)) (\<lambda>ins.
     rbind (field_gt0 (la_loss_budget r)) (\<lambda>b. rbind (field_gt0 (la_max_notional r)) (\<lambda>m.
     rbind (require_digest (la_policy_hash r)) (\<lambda>h. rbind (optional_identity (la_owner r)) (\<lambda>ow.
     rbind (optional_identity (la_venue r)) (\<lambda>ve. rbind (optional_aware (la_expires_at r)) (\<lambda>ex.
     rbind (optional_identity (la_reference r)) (\<lambda>re.
     rbind (check (\<not> blank (la_approver r)) ''live approval requires a named human approver'') (\<lambda>_.
     rbind (check (ins \<noteq> []) ''live approval must name at least one instrument'') (\<lambda>_.
     rbind (check (\<not> blank (la_rollback r)) ''live approval requires a rollback condition'') (\<lambda>_.
     rbind (check (opt_all (\<lambda>x. t < x) ex) ''live authorization expiry must be after approval'') (\<lambda>_.
       Inr \<lparr>la_id = la_id r, la_approver = la_approver r, la_approved_at = t, la_instruments = ins, la_loss_budget = b,
            la_max_notional = m, la_policy_hash = h, la_rollback = la_rollback r, la_no_expansion = la_no_expansion r,
            la_ai_stoppable = la_ai_stoppable r, la_owner = ow, la_venue = ve, la_expires_at = ex, la_reference = re\<rparr>)))))))))))))"

definition effective_owner :: "authorization \<Rightarrow> string" where
  "effective_owner a = (case la_owner a of Some v \<Rightarrow> if v = [] then la_approver a else v | None \<Rightarrow> la_approver a)"

definition authorization_valid_at :: "authorization \<Rightarrow> utc \<Rightarrow> bool" where
  "authorization_valid_at a t \<longleftrightarrow> la_approved_at a \<le> t \<and> opt_all (\<lambda>x. t < x) (la_expires_at a)"

datatype live_state = LIVE_PAPER | LIVE_READY | LIVE_ACTIVE | LIVE_ROLLED_BACK

primrec live_state_value :: "live_state \<Rightarrow> string" where
  "live_state_value LIVE_PAPER = ''paper''"
| "live_state_value LIVE_READY = ''ready''"
| "live_state_value LIVE_ACTIVE = ''active''"
| "live_state_value LIVE_ROLLED_BACK = ''rolled_back''"

record live_status =
  lc_state :: live_state
  lc_authorization :: "uuid option"
  lc_changed_at :: utc
  lc_reason :: "string option"

definition mk_live_status :: "live_state \<Rightarrow> uuid option \<Rightarrow> pydatetime \<Rightarrow> string option \<Rightarrow> live_status res" where
  "mk_live_status st auth changed reason =
     rbind (require_aware changed) (\<lambda>t.
     rbind (check (opt_all (\<lambda>v. \<not> blank v) reason) ''rollback reason cannot be blank'') (\<lambda>_.
     rbind (check (\<not> (st = LIVE_ROLLED_BACK \<and> reason = None)) ''rolled-back live status requires a reason'') (\<lambda>_.
     rbind (check (\<not> (st \<noteq> LIVE_ROLLED_BACK \<and> reason \<noteq> None)) ''only rolled-back live status may contain a rollback reason'') (\<lambda>_.
       Inr \<lparr>lc_state = st, lc_authorization = auth, lc_changed_at = t, lc_reason = map_option strip reason\<rparr>))))"

end
