(* ===== verification/Runtime_Records.thy ===== *)
theory Runtime_Records
  imports Contracts
begin

text \<open>
  The records of the paper runtime (\<open>src/advisorai/runtime/paper.py\<close>) that its ledger entries carry: the
  stages of a decision cycle and the cycle itself with its validators.
\<close>

datatype runtime_stage =
    STAGE_STARTED | STAGE_ABSTAINED | STAGE_RISK_REJECTED | STAGE_NO_TRADE | STAGE_ORDERS_ROUTED | STAGE_RECONCILIATION_FAILED | STAGE_COMPLETE | STAGE_FAILED

definition stage_value :: "runtime_stage \<Rightarrow> string" where
  "stage_value st = (case st of
     STAGE_STARTED \<Rightarrow> ''started'' | STAGE_ABSTAINED \<Rightarrow> ''abstained'' | STAGE_RISK_REJECTED \<Rightarrow> ''risk_rejected'' | STAGE_NO_TRADE \<Rightarrow> ''no_trade''
   | STAGE_ORDERS_ROUTED \<Rightarrow> ''orders_routed'' | STAGE_RECONCILIATION_FAILED \<Rightarrow> ''reconciliation_failed''
   | STAGE_COMPLETE \<Rightarrow> ''complete'' | STAGE_FAILED \<Rightarrow> ''failed'')"

lemma stage_value_inj [simp]: "stage_value a = stage_value b \<longleftrightarrow> a = b"
  by (cases a; cases b) (simp_all add: stage_value_def)

record runtime_cycle =
  cy_id :: uuid
  cy_run_id :: string
  cy_cutoff :: utc
  cy_stage :: runtime_stage
  cy_snapshot_id :: "uuid option"
  cy_decision_id :: "uuid option"
  cy_risk_decision_id :: "uuid option"
  cy_order_ids :: "uuid list"
  cy_reasons :: "string list"
  cy_created_at :: utc

definition mk_runtime_cycle :: "uuid \<Rightarrow> string \<Rightarrow> pydatetime \<Rightarrow> runtime_stage \<Rightarrow> pydatetime \<Rightarrow> runtime_cycle res" where
  "mk_runtime_cycle cid run cutoff stage created =
     rbind (check (run \<noteq> []) ''too short'') (\<lambda>_. rbind (require_aware cutoff) (\<lambda>c. rbind (require_aware created) (\<lambda>t.
       Inr \<lparr>cy_id = cid, cy_run_id = run, cy_cutoff = c, cy_stage = stage, cy_snapshot_id = None, cy_decision_id = None,
            cy_risk_decision_id = None, cy_order_ids = [], cy_reasons = [], cy_created_at = t\<rparr>)))"

end
