(* ===== verification/Learning_Records.thy ===== *)
theory Learning_Records
  imports Gate_Records
begin

text \<open>
  The records of the paper learning loop (\<open>src/advisorai/learning/paper.py\<close>), of incidents
  (\<open>src/advisorai/observability/incidents.py\<close>) and of scorecards (\<open>src/advisorai/memory/scorecards.py\<close>), with
  the checks their validators make.  Their ledger entries carry them.
\<close>

section \<open>Enumerations\<close>

datatype problem_kind =
    DATA_AVAILABILITY | LINEAGE | CALIBRATION | EVIDENCE_INDEPENDENCE | TARGET_CONSTRUCTION | RISK_REJECTION
  | EXECUTION_COST | VENUE_API | RECONCILIATION | RESOURCES | OPERATOR_PROCESS

definition problem_kind_value :: "problem_kind \<Rightarrow> string" where
  "problem_kind_value k = (case k of
     DATA_AVAILABILITY \<Rightarrow> ''data_availability_quality'' | LINEAGE \<Rightarrow> ''lineage'' | CALIBRATION \<Rightarrow> ''calibration''
   | EVIDENCE_INDEPENDENCE \<Rightarrow> ''evidence_independence'' | TARGET_CONSTRUCTION \<Rightarrow> ''target_construction''
   | RISK_REJECTION \<Rightarrow> ''risk_rejection'' | EXECUTION_COST \<Rightarrow> ''execution_cost'' | VENUE_API \<Rightarrow> ''venue_api''
   | RECONCILIATION \<Rightarrow> ''reconciliation'' | RESOURCES \<Rightarrow> ''resources'' | OPERATOR_PROCESS \<Rightarrow> ''operator_process'')"

datatype incident_severity = SEVERITY_LOW | SEVERITY_MEDIUM | SEVERITY_HIGH | SEVERITY_CRITICAL

definition min_length :: "nat \<Rightarrow> string \<Rightarrow> string res" where
  "min_length n v = (if length v < n then Inl (ValidationError ''too short'') else Inr v)"

lemma min_length_Inr [simp]: "min_length n v = Inr w \<longleftrightarrow> w = v \<and> n \<le> length v"
  by (auto simp: min_length_def)

definition zoned :: "pydatetime \<Rightarrow> utc res" where
  "zoned t = (case t of Naive _ \<Rightarrow> Inl (ValidationError ''timestamp must include a timezone'') | Aware u _ \<Rightarrow> Inr u)"

lemma zoned_simps [simp]: "zoned (Aware u off) = Inr u" "zoned t = Inr u \<longleftrightarrow> (\<exists>off. t = Aware u off)"
  by (auto simp: zoned_def split: pydatetime.splits)

section \<open>Decisions\<close>

record paper_decision =
  pd_decision_id :: uuid
  pd_mission_id :: uuid
  pd_snapshot_id :: uuid
  pd_quality_report_ids :: "uuid list"
  pd_evidence_ids :: "uuid list"
  pd_forecast_ids :: "uuid list"
  pd_target_id :: "uuid option"
  pd_risk_decision_id :: "uuid option"
  pd_order_ids :: "uuid list"
  pd_fill_ids :: "uuid list"
  pd_reconciliation_id :: "uuid option"
  pd_tca_id :: "uuid option"
  pd_attribution_id :: "uuid option"
  pd_subject :: string
  pd_subject_version :: string
  pd_role :: string
  pd_asset :: string
  pd_horizon :: string
  pd_regime :: string
  pd_cutoff :: utc
  pd_horizon_end :: utc
  pd_recorded_at :: utc

text \<open>
  The validators of a decision record: \<open>min_length\<close> looks at the text as given, then the text is stripped.
  The validators are given the record with the times it is built from.
\<close>

definition mk_paper_decision :: "paper_decision \<Rightarrow> pydatetime \<Rightarrow> pydatetime \<Rightarrow> pydatetime \<Rightarrow> paper_decision res" where
  "mk_paper_decision d cutoff horizon_end recorded =
     rbind (min_length 1 (pd_subject d)) (\<lambda>su. rbind (min_length 1 (pd_subject_version d)) (\<lambda>sv.
     rbind (min_length 1 (pd_role d)) (\<lambda>ro. rbind (min_length 1 (pd_asset d)) (\<lambda>a. rbind (min_length 1 (pd_horizon d)) (\<lambda>h.
     rbind (min_length 1 (pd_regime d)) (\<lambda>re. rbind (zoned cutoff) (\<lambda>c. rbind (zoned horizon_end) (\<lambda>he. rbind (zoned recorded) (\<lambda>t.
     rbind (check (c < he) ''forecast horizon must close after decision cutoff'') (\<lambda>_.
       Inr (d\<lparr>pd_subject := strip su, pd_subject_version := strip sv, pd_role := strip ro, pd_asset := strip a,
              pd_horizon := strip h, pd_regime := strip re, pd_cutoff := c, pd_horizon_end := he, pd_recorded_at := t\<rparr>)))))))))))"

section \<open>Problems and replays\<close>

record problem =
  pb_id :: uuid
  pb_decision_id :: uuid
  pb_kind :: problem_kind
  pb_severity :: incident_severity
  pb_summary :: string
  pb_evidence_ids :: "uuid list"
  pb_detected_at :: utc
  pb_incident_id :: "uuid option"
  pb_replay_required :: bool
  pb_replay_id :: "uuid option"
  pb_corrective_test :: "string option"

definition mk_problem :: "problem \<Rightarrow> pydatetime \<Rightarrow> problem res" where
  "mk_problem p detected =
     rbind (min_length 3 (pb_summary p)) (\<lambda>su. rbind (zoned detected) (\<lambda>t.
     rbind (check (\<not> (pb_replay_required p \<and> pb_replay_id p = None \<and> pb_corrective_test p \<noteq> None))
       ''a corrective test cannot be claimed before replay'') (\<lambda>_.
       Inr (p\<lparr>pb_summary := strip su, pb_detected_at := t\<rparr>))))"

record replay_result =
  rr_id :: uuid
  rr_problem_id :: uuid
  rr_passed :: bool
  rr_output_hash :: string
  rr_regression_test :: string
  rr_details :: "string list"
  rr_replayed_at :: utc

definition replay_hash :: "string \<Rightarrow> string res" where
  "replay_hash v =
     (if length v \<noteq> 64 then Inl (ValidationError ''digest length'')
      else let h = strip (lower v)
        in if length h \<noteq> 64 \<or> \<not> list_all is_hex_digit h
           then Inl (ValidationError ''replay output_hash must be a lowercase SHA-256 digest'') else Inr h)"

definition mk_replay_result :: "replay_result \<Rightarrow> pydatetime \<Rightarrow> replay_result res" where
  "mk_replay_result r replayed =
     rbind (replay_hash (rr_output_hash r)) (\<lambda>h. rbind (min_length 1 (rr_regression_test r)) (\<lambda>_. rbind (zoned replayed) (\<lambda>t.
       Inr (r\<lparr>rr_output_hash := h, rr_replayed_at := t\<rparr>))))"

section \<open>Outcomes and scorecards\<close>

record 'n outcome =
  oc_decision_id :: uuid
  oc_forecast :: "'n option"
  oc_realized :: "'n option"
  oc_net_utility :: 'n
  oc_cost_usd :: 'n
  oc_fill_quality :: 'n
  oc_data_reliability :: 'n
  oc_latency_ms :: int
  oc_failure_rate :: 'n

record paper_outcome = "dec outcome" +
  oc_as_of :: utc

definition mk_outcome :: "raw_dec outcome \<Rightarrow> pydatetime \<Rightarrow> paper_outcome res" where
  "mk_outcome x as_of =
     rbind (zoned as_of) (\<lambda>t. rbind (optional_finite_decimal (oc_forecast x)) (\<lambda>f.
     rbind (optional_finite_decimal (oc_realized x)) (\<lambda>r. rbind (require_finite_decimal (oc_net_utility x)) (\<lambda>u.
     rbind (field_ge0 (oc_cost_usd x)) (\<lambda>c. rbind (field_unit (oc_fill_quality x)) (\<lambda>q.
     rbind (field_unit (oc_data_reliability x)) (\<lambda>d. rbind (check (0 \<le> oc_latency_ms x) ''must not be negative'') (\<lambda>_.
     rbind (field_unit (oc_failure_rate x)) (\<lambda>fr.
       Inr \<lparr>oc_decision_id = oc_decision_id x, oc_forecast = f, oc_realized = r, oc_net_utility = u, oc_cost_usd = c,
            oc_fill_quality = q, oc_data_reliability = d, oc_latency_ms = oc_latency_ms x, oc_failure_rate = fr,
            oc_as_of = t\<rparr>)))))))))"

record scorecard =
  sc_id :: uuid
  sc_subject :: string
  sc_subject_version :: string
  sc_role :: string
  sc_asset :: string
  sc_horizon :: string
  sc_regime :: string
  sc_factual_precision :: dec
  sc_calibration :: dec
  sc_abstention_quality :: dec
  sc_contradiction_detection :: dec
  sc_net_utility :: dec
  sc_latency_ms :: int
  sc_api_cost_usd :: dec
  sc_failure_rate :: dec
  sc_eligible :: bool
  sc_recorded_at :: utc

definition identity_field :: "string \<Rightarrow> string res" where
  "identity_field v = (if v = [] then Inl (ValidationError ''too short'')
     else if blank v then Inl (ValidationError ''scorecard identity fields cannot be blank'') else Inr (strip v))"

definition mk_scorecard :: "scorecard \<Rightarrow> pydatetime \<Rightarrow> scorecard res" where
  "mk_scorecard s recorded =
     rbind (identity_field (sc_subject s)) (\<lambda>su. rbind (identity_field (sc_subject_version s)) (\<lambda>sv.
     rbind (identity_field (sc_role s)) (\<lambda>ro. rbind (identity_field (sc_asset s)) (\<lambda>a.
     rbind (identity_field (sc_horizon s)) (\<lambda>h. rbind (identity_field (sc_regime s)) (\<lambda>re.
     rbind (field_unit (Finite (sc_factual_precision s))) (\<lambda>_. rbind (field_unit (Finite (sc_calibration s))) (\<lambda>_.
     rbind (field_unit (Finite (sc_abstention_quality s))) (\<lambda>_. rbind (field_unit (Finite (sc_contradiction_detection s))) (\<lambda>_.
     rbind (check (0 \<le> sc_latency_ms s) ''must not be negative'') (\<lambda>_. rbind (field_ge0 (Finite (sc_api_cost_usd s))) (\<lambda>_.
     rbind (field_unit (Finite (sc_failure_rate s))) (\<lambda>_. rbind (zoned recorded) (\<lambda>t.
       Inr (s\<lparr>sc_subject := su, sc_subject_version := sv, sc_role := ro, sc_asset := a, sc_horizon := h, sc_regime := re,
              sc_recorded_at := t\<rparr>)))))))))))))))"

section \<open>Incidents\<close>

record incident =
  in_id :: uuid
  in_severity :: incident_severity
  in_owner :: string
  in_summary :: string
  in_runbook :: string
  in_evidence_ids :: "uuid list"
  in_timeline :: "string list"
  in_containment :: string
  in_reconciliation :: string
  in_root_cause :: "string option"
  in_corrective_test :: "string option"
  in_rollback_link :: "string option"
  in_opened_at :: utc
  in_closed_at :: "utc option"

definition optional_text_ok :: "string option \<Rightarrow> bool" where
  "optional_text_ok v = opt_all (\<lambda>t. \<not> blank t) v"

definition stated :: "string option \<Rightarrow> bool" where
  "stated v = (case v of None \<Rightarrow> False | Some t \<Rightarrow> t \<noteq> [])"

text \<open>The checks on an incident that was opened and closed at the given times.\<close>

definition incident_checks :: "utc \<Rightarrow> utc option \<Rightarrow> incident \<Rightarrow> unit res" where
  "incident_checks opened closing i =
     rbind (check (opt_all (\<lambda>t. opened \<le> t) closing) ''incident cannot close before it opens'') (\<lambda>_.
     rbind (check (\<not> blank (in_owner i) \<and> \<not> blank (in_summary i) \<and> \<not> blank (in_runbook i) \<and> \<not> blank (in_containment i) \<and>
         \<not> blank (in_reconciliation i)) ''incidents require an owner, summary, runbook, and reconciliation'') (\<lambda>_.
     rbind (check (list_all (\<lambda>t. \<not> blank t) (in_timeline i)) ''incident timeline entries cannot be blank'') (\<lambda>_.
     rbind (check (distinct (in_evidence_ids i)) ''incident evidence IDs must be unique'') (\<lambda>_.
     rbind (check (optional_text_ok (in_root_cause i)) ''incident root cause cannot be blank'') (\<lambda>_.
     rbind (check (optional_text_ok (in_corrective_test i)) ''incident corrective test cannot be blank'') (\<lambda>_.
     rbind (check (optional_text_ok (in_rollback_link i)) ''incident rollback link cannot be blank'') (\<lambda>_.
     rbind (check (closing = None \<or> stated (in_root_cause i) \<and> stated (in_corrective_test i) \<and> stated (in_rollback_link i))
       ''closed incidents require root cause, corrective test, and rollback link'') (\<lambda>_.
     check (closing = None \<or> lower (strip (in_reconciliation i)) \<noteq> ''pending'')
       ''closed incidents require a completed reconciliation status''))))))))"

definition mk_incident :: "incident \<Rightarrow> pydatetime \<Rightarrow> pydatetime option \<Rightarrow> incident res" where
  "mk_incident i opened closing =
     rbind (zoned opened) (\<lambda>t.
     rbind (case closing of None \<Rightarrow> Inr None | Some c \<Rightarrow> rbind (zoned c) (Inr \<circ> Some)) (\<lambda>c.
     rbind (incident_checks t c i) (\<lambda>_. Inr (i\<lparr>in_opened_at := t, in_closed_at := c\<rparr>))))"

definition revalidate_incident :: "incident \<Rightarrow> incident res" where
  "revalidate_incident i = mk_incident i (Aware (in_opened_at i) 0) (map_option (\<lambda>t. Aware t 0) (in_closed_at i))"

definition incident_valid :: "incident \<Rightarrow> bool" where
  "incident_valid i \<longleftrightarrow> is_ok (incident_checks (in_opened_at i) (in_closed_at i) i)"

lemma incident_checks_times [simp]: "incident_checks t c (i\<lparr>in_opened_at := t', in_closed_at := c'\<rparr>) = incident_checks t c i"
  by (simp add: incident_checks_def)

lemma mk_incident_valid: "mk_incident i opened closing = Inr j \<Longrightarrow> incident_valid j"
  by (auto simp: mk_incident_def incident_valid_def rbind_eq_Inr is_ok_def)

lemma revalidate_incident_eq:
  "revalidate_incident i = rbind (incident_checks (in_opened_at i) (in_closed_at i) i) (\<lambda>_. Inr i)"
proof -
  have closing: "(case map_option (\<lambda>t. Aware t 0) (in_closed_at i) of None \<Rightarrow> Inr None | Some c \<Rightarrow> rbind (zoned c) (Inr \<circ> Some)) =
      Inr (in_closed_at i)"
    by (cases "in_closed_at i") simp_all
  have same: "i\<lparr>in_opened_at := in_opened_at i, in_closed_at := in_closed_at i\<rparr> = i" by simp
  show ?thesis
    unfolding revalidate_incident_def mk_incident_def closing zoned_simps rbind_simps same ..
qed

lemma revalidate_incident_valid: "revalidate_incident i = Inr j \<longleftrightarrow> j = i \<and> incident_valid i"
  by (auto simp: revalidate_incident_eq incident_valid_def rbind_eq_Inr is_ok_def split: sum.splits)

text \<open>A closed incident has its postmortem.\<close>

lemma closed_incident:
  "incident_valid i \<Longrightarrow> in_closed_at i = Some t \<Longrightarrow>
   in_opened_at i \<le> t \<and> stated (in_root_cause i) \<and> stated (in_corrective_test i) \<and> stated (in_rollback_link i) \<and>
   lower (strip (in_reconciliation i)) \<noteq> ''pending''"
  by (auto simp: incident_valid_def incident_checks_def is_ok_def check_def opt_all_def rbind_def split: if_splits)

end
