(* ===== verification/Ledger.thy ===== *)
theory Ledger
  imports Gate_Records Runtime_Records Learning_Records
begin

text \<open>
  The authoritative ledgers (\<open>src/advisorai/ledger/sqlite.py\<close>): one append-only table of events per
  namespace, with unique event identifiers and unique idempotency keys.  \<open>append\<close> returns the stored
  event when the key is retried with the same content and raises otherwise.  The source looks the key up
  and inserts in two statements; \<open>append_race\<close> keeps the two apart, so that another writer may have
  changed the table in between, and \<open>append\<close> is the case without interference.

  The payload of an event is a dictionary of values whose JSON text is canonical (sorted keys).  A value
  stands for its text: \<open>PDec\<close> for \<open>str\<close> of a decimal, \<open>PTime\<close> for \<open>isoformat\<close>, \<open>PUuid\<close> for \<open>str\<close> of a
  UUID, \<open>PDict\<close> for a nested object, the artifacts for their round-trip dumps; all of these are injective.
\<close>

datatype ledger_namespace = NS_ACCOUNT | NS_ORDER | NS_MISSION | NS_MODEL | NS_CAPABILITY | NS_INCIDENT

text \<open>The namespaces are finite, so the ledgers (a table for each of them) have a decidable equality.\<close>

instantiation ledger_namespace :: enum
begin

definition "enum_ledger_namespace = [NS_ACCOUNT, NS_ORDER, NS_MISSION, NS_MODEL, NS_CAPABILITY, NS_INCIDENT]"
definition "enum_all_ledger_namespace P = list_all P [NS_ACCOUNT, NS_ORDER, NS_MISSION, NS_MODEL, NS_CAPABILITY, NS_INCIDENT]"
definition "enum_ex_ledger_namespace P = list_ex P [NS_ACCOUNT, NS_ORDER, NS_MISSION, NS_MODEL, NS_CAPABILITY, NS_INCIDENT]"

instance
proof
  have all: "x \<in> {NS_ACCOUNT, NS_ORDER, NS_MISSION, NS_MODEL, NS_CAPABILITY, NS_INCIDENT}" for x
    by (cases x) simp_all
  show "(UNIV :: ledger_namespace set) = set enum_class.enum" using all by (auto simp: enum_ledger_namespace_def)
  show "distinct (enum_class.enum :: ledger_namespace list)" by (simp add: enum_ledger_namespace_def)
  show "enum_class.enum_all P = Ball UNIV P" "enum_class.enum_ex P = Bex UNIV P" for P :: "ledger_namespace \<Rightarrow> bool"
    using all by (auto simp: enum_all_ledger_namespace_def enum_ex_ledger_namespace_def) metis+
qed

end

datatype pval =
    PText string
  | PDec dec
  | PTime pydatetime
  | PUuid uuid
  | POrder order
  | PFill fill
  | PRecon reconciliation
  | PGate phase_gate
  | PSample sample
  | PAuth authorization
  | PLive live_status
  | PCycle runtime_cycle
  | PDecision paper_decision
  | PProblem problem
  | PReplay replay_result
  | POutcome paper_outcome
  | PScorecard scorecard
  | PIncident incident
  | PDict "(string \<times> pval) list"

type_synonym payload = "(string \<times> pval) list"

record ledger_event =
  event_id :: uuid
  ev_namespace :: ledger_namespace
  event_type :: string
  ev_key :: string
  ev_occurred_at :: utc
  ev_payload :: payload

type_synonym ledgers = "ledger_namespace \<Rightarrow> ledger_event list"

definition payload_json :: "payload \<Rightarrow> payload" where
  "payload_json p = sort_key fst p"

definition mk_ledger_event ::
  "uuid \<Rightarrow> ledger_namespace \<Rightarrow> string \<Rightarrow> string \<Rightarrow> pydatetime \<Rightarrow> payload \<Rightarrow> ledger_event res" where
  "mk_ledger_event eid ns etype key occurred p =
     (if blank etype \<or> blank key
      then Inl (ValueError ''ledger event type and idempotency key cannot be blank'')
      else if p = [] then Inl (ValueError ''ledger events require a payload'')
      else rbind (aware ''occurred_at must include a timezone'' occurred) (\<lambda>t.
        Inr \<lparr>event_id = eid, ev_namespace = ns, event_type = strip etype, ev_key = strip key,
             ev_occurred_at = t, ev_payload = p\<rparr>))"

definition find_key :: "string \<Rightarrow> ledger_event list \<Rightarrow> ledger_event option" where
  "find_key k rows = find (\<lambda>r. ev_key r = k) rows"

definition find_id :: "uuid \<Rightarrow> ledger_event list \<Rightarrow> ledger_event option" where
  "find_id i rows = find (\<lambda>r. event_id r = i) rows"

definition stored :: "ledger_event \<Rightarrow> ledger_event" where
  "stored ev = ev\<lparr>ev_payload := payload_json (ev_payload ev)\<rparr>"

definition same_content :: "ledger_event \<Rightarrow> ledger_event \<Rightarrow> bool" where
  "same_content row ev \<longleftrightarrow>
     event_type row = event_type ev \<and> ev_payload row = payload_json (ev_payload ev)"

definition matching_prior :: "ledger_event \<Rightarrow> ledger_event \<Rightarrow> ledger_event res" where
  "matching_prior row ev =
     (if \<not> same_content row ev
      then Inl (IdempotencyConflict ''idempotency key already records different content'')
      else Inr row)"

definition append_race ::
  "ledger_event \<Rightarrow> ledger_event list \<Rightarrow> ledger_event list \<Rightarrow> ledger_event res \<times> ledger_event list" where
  "append_race ev seen rows =
     (case find_key (ev_key ev) seen of
        Some row \<Rightarrow> (matching_prior row ev, rows)
      | None \<Rightarrow>
        (case find_id (event_id ev) seen of
           Some _ \<Rightarrow> (Inl (IdempotencyConflict ''event ID is already recorded with different content''), rows)
         | None \<Rightarrow>
           (case (find_key (ev_key ev) rows, find_id (event_id ev) rows) of
              (None, None) \<Rightarrow> (Inr ev, rows @ [stored ev])
            | (None, Some _) \<Rightarrow>
                (Inl (IdempotencyConflict ''event ID is already recorded with different content''), rows)
            | (Some row, _) \<Rightarrow> (matching_prior row ev, rows))))"

definition append_rows :: "ledger_event \<Rightarrow> (ledger_event list, ledger_event) action" where
  "append_rows ev rows = append_race ev rows rows"

definition ledger_append :: "ledger_event \<Rightarrow> (ledgers, ledger_event) action" where
  "ledger_append ev L =
     (let (r, rows) = append_rows ev (L (ev_namespace ev)) in (r, L(ev_namespace ev := rows)))"

definition ledger_events :: "ledgers \<Rightarrow> ledger_namespace \<Rightarrow> ledger_event list" where
  "ledger_events L ns = L ns"

definition empty_ledgers :: ledgers where
  "empty_ledgers = (\<lambda>_. [])"

section \<open>The table invariant\<close>

definition rows_ok :: "ledger_event list \<Rightarrow> bool" where
  "rows_ok rows \<longleftrightarrow> distinct (map ev_key rows) \<and> distinct (map event_id rows)"

lemma find_key_None: "find_key k rows = None \<longleftrightarrow> k \<notin> ev_key ` set rows"
  by (auto simp: find_key_def find_None_iff)

lemma find_id_None: "find_id i rows = None \<longleftrightarrow> i \<notin> event_id ` set rows"
  by (auto simp: find_id_def find_None_iff)

lemma find_key_SomeD: "find_key k rows = Some r \<Longrightarrow> r \<in> set rows \<and> ev_key r = k"
  by (auto simp: find_key_def find_Some_iff)

lemma find_key_append: "find_key k (xs @ ys) = (case find_key k xs of None \<Rightarrow> find_key k ys | Some r \<Rightarrow> Some r)"
  by (induction xs) (auto simp: find_key_def)

lemma find_key_rows_ok: "rows_ok rows \<Longrightarrow> r \<in> set rows \<Longrightarrow> find_key (ev_key r) rows = Some r"
  by (metis distinct_map find_key_None find_key_SomeD image_eqI inj_onD not_None_eq rows_ok_def)

lemma stored_simps [simp]:
  "ev_key (stored e) = ev_key e" "event_id (stored e) = event_id e"
  "event_type (stored e) = event_type e" "ev_namespace (stored e) = ev_namespace e"
  "ev_payload (stored e) = payload_json (ev_payload e)" "ev_occurred_at (stored e) = ev_occurred_at e"
  by (simp_all add: stored_def)

lemma payload_json_idem [simp]: "payload_json (payload_json p) = payload_json p"
  by (simp add: payload_json_def sort_key_id_if_sorted)

lemma same_content_stored [simp]: "same_content (stored e) e"
  by (simp add: same_content_def)

lemma append_rows_eq:
  "append_rows ev rows =
     (case find_key (ev_key ev) rows of
        Some row \<Rightarrow> (matching_prior row ev, rows)
      | None \<Rightarrow> if find_id (event_id ev) rows \<noteq> None
          then (Inl (IdempotencyConflict ''event ID is already recorded with different content''), rows)
          else (Inr ev, rows @ [stored ev]))"
  by (auto simp: append_rows_def append_race_def split: option.splits)

text \<open>Whatever another writer did between the lookup and the insert, the table stays well formed.\<close>

lemma append_race_rows:
  "append_race ev seen rows = (r, rows') \<Longrightarrow>
   rows' = rows \<or> r = Inr ev \<and> rows' = rows @ [stored ev] \<and>
     ev_key ev \<notin> ev_key ` set rows \<and> event_id ev \<notin> event_id ` set rows"
  by (auto simp: append_race_def matching_prior_def find_key_None find_id_None split: option.splits if_splits)

lemma append_race_ok: "rows_ok rows \<Longrightarrow> append_race ev seen rows = (r, rows') \<Longrightarrow> rows_ok rows'"
  by (drule append_race_rows) (auto simp: rows_ok_def)

lemma append_rows_cases:
  assumes "append_rows ev rows = (r, rows')"
  obtains (prior) row where "r = Inr row" "rows' = rows" "row \<in> set rows" "ev_key row = ev_key ev" "same_content row ev"
  | (new) "r = Inr ev" "rows' = rows @ [stored ev]" "ev_key ev \<notin> ev_key ` set rows" "event_id ev \<notin> event_id ` set rows"
  | (conflict) msg where "r = Inl (IdempotencyConflict msg)" "rows' = rows"
proof (cases "find_key (ev_key ev) rows")
  case None
  with assms that show thesis
    by (cases "find_id (event_id ev) rows") (auto simp: append_rows_eq find_key_None find_id_None)
next
  case (Some row)
  with assms that find_key_SomeD [OF Some] show thesis
    by (cases "same_content row ev") (auto simp: append_rows_eq matching_prior_def)
qed

lemma append_rows_prefix: "append_rows ev rows = (r, rows') \<Longrightarrow> \<exists>ys. rows' = rows @ ys"
  by (elim append_rows_cases) auto

lemma append_rows_ok: "rows_ok rows \<Longrightarrow> append_rows ev rows = (r, rows') \<Longrightarrow> rows_ok rows'"
  unfolding append_rows_def by (rule append_race_ok)

section \<open>The contract of an idempotent log\<close>

text \<open>
  What the order manager, the account ledger and the event publishers rely on: entries are only added, at
  most one per key; a retry with the same content changes nothing, different content is refused.
\<close>

locale idempotent_log =
  fixes put :: "'e \<Rightarrow> ('s, 'r) action"
    and log :: "'s \<Rightarrow> 'x list"
    and key :: "'e \<Rightarrow> 'k"
    and xkey :: "'x \<Rightarrow> 'k"
    and same :: "'x \<Rightarrow> 'e \<Rightarrow> bool"
    and inv :: "'s \<Rightarrow> bool"
  assumes put_inv: "inv s \<Longrightarrow> put e s = (r, s') \<Longrightarrow> inv s'"
    and put_cases: "inv s \<Longrightarrow> put e s = (r, s') \<Longrightarrow>
      s' = s \<or> is_ok r \<and> (\<exists>x. xkey x = key e \<and> same x e \<and> key e \<notin> xkey ` set (log s) \<and> log s' = log s @ [x])"
    and put_stored: "inv s \<Longrightarrow> put e s = (Inr v, s') \<Longrightarrow> \<exists>x \<in> set (log s'). xkey x = key e \<and> same x e"
    and put_again: "inv s \<Longrightarrow> x \<in> set (log s) \<Longrightarrow> xkey x = key e \<Longrightarrow> same x e \<Longrightarrow> \<exists>v. put e s = (Inr v, s)"
    and put_conflict: "inv s \<Longrightarrow> x \<in> set (log s) \<Longrightarrow> xkey x = key e \<Longrightarrow> \<not> same x e \<Longrightarrow> \<exists>err. put e s = (Inl err, s)"
begin

lemma put_prefix: "inv s \<Longrightarrow> put e s = (r, s') \<Longrightarrow> \<exists>ys. log s' = log s @ ys"
  by (metis append_Nil2 put_cases)

lemma put_err_unchanged: "inv s \<Longrightarrow> put e s = (Inl err, s') \<Longrightarrow> s' = s"
  using put_cases by fastforce

text \<open>Publishing a list of entries, stopping at the first error, as the callers' loops do.\<close>

fun put_all :: "'e list \<Rightarrow> ('s, unit) action" where
  "put_all [] s = (Inr (), s)"
| "put_all (e # es) s = (case put e s of (Inl x, s') \<Rightarrow> (Inl x, s') | (Inr _, s') \<Rightarrow> put_all es s')"

lemma put_all_prefix: "inv s \<Longrightarrow> put_all es s = (r, s') \<Longrightarrow> inv s' \<and> (\<exists>ys. log s' = log s @ ys)"
proof (induction es arbitrary: s)
  case (Cons e es)
  obtain v s1 where p: "put e s = (v, s1)" by (cases "put e s")
  with Cons.prems put_inv put_prefix obtain ys where "inv s1" "log s1 = log s @ ys" by blast
  with Cons p show ?case by (cases v) fastforce+
qed simp

lemma put_all_stored: "inv s \<Longrightarrow> put_all es s = (Inr u, s') \<Longrightarrow> e \<in> set es \<Longrightarrow>
  \<exists>x \<in> set (log s'). xkey x = key e \<and> same x e"
proof (induction es arbitrary: s)
  case (Cons f es)
  from Cons.prems obtain v s1 where p: "put f s = (Inr v, s1)" and q: "put_all es s1 = (Inr u, s')"
    by (auto split: prod.splits sum.splits)
  have i1: "inv s1" using p Cons.prems(1) put_inv by blast
  show ?case
  proof (cases "e = f")
    case True
    with put_stored [OF Cons.prems(1) p] put_all_prefix [OF i1 q] show ?thesis by auto
  next
    case False
    with Cons i1 q show ?thesis by simp
  qed
qed simp

text \<open>Replaying a whole batch that has been stored (a restart after a crash) changes nothing.\<close>

lemma replay_noop:
  "inv s \<Longrightarrow> \<forall>e \<in> set es. \<exists>x \<in> set (log s). xkey x = key e \<and> same x e \<Longrightarrow> put_all es s = (Inr (), s)"
proof (induction es)
  case (Cons e es)
  then obtain v where "put e s = (Inr v, s)" using put_again by fastforce
  with Cons show ?case by simp
qed simp

lemma put_all_twice: "inv s \<Longrightarrow> put_all es s = (Inr u, s') \<Longrightarrow> put_all es s' = (Inr (), s')"
  using put_all_prefix put_all_stored by (intro replay_noop) blast+

end

interpretation rows: idempotent_log append_rows "\<lambda>s. s" ev_key ev_key same_content rows_ok
proof unfold_locales
  fix s s' :: "ledger_event list" and e :: ledger_event and r
  assume "rows_ok s" "append_rows e s = (r, s')"
  then show "rows_ok s'" by (rule append_rows_ok)
next
  fix s s' :: "ledger_event list" and e :: ledger_event and r
  assume "append_rows e s = (r, s')"
  then show "s' = s \<or> is_ok r \<and> (\<exists>x. ev_key x = ev_key e \<and> same_content x e \<and> ev_key e \<notin> ev_key ` set s \<and> s' = s @ [x])"
    by (elim append_rows_cases) auto
next
  fix s s' :: "ledger_event list" and e :: ledger_event and v
  assume "append_rows e s = (Inr v, s')"
  then show "\<exists>x\<in>set s'. ev_key x = ev_key e \<and> same_content x e"
    by (elim append_rows_cases) auto
next
  fix s :: "ledger_event list" and x e :: ledger_event
  assume *: "rows_ok s" "x \<in> set s" "ev_key x = ev_key e"
  then have "find_key (ev_key e) s = Some x" using find_key_rows_ok by metis
  then show "same_content x e \<Longrightarrow> \<exists>v. append_rows e s = (Inr v, s)"
    and "\<not> same_content x e \<Longrightarrow> \<exists>err. append_rows e s = (Inl err, s)"
    by (simp_all add: append_rows_eq matching_prior_def)
qed

section \<open>Ledgers of all namespaces\<close>

definition ledgers_ok :: "ledgers \<Rightarrow> bool" where
  "ledgers_ok L \<longleftrightarrow> (\<forall>ns. rows_ok (L ns))"

lemma ledger_append_ok: "ledgers_ok L \<Longrightarrow> ledger_append ev L = (r, L') \<Longrightarrow> ledgers_ok L'"
  unfolding ledgers_ok_def ledger_append_def by (auto split: prod.splits) (metis append_rows_ok)

lemma ledgers_ok_empty [simp]: "ledgers_ok empty_ledgers"
  by (simp add: ledgers_ok_def empty_ledgers_def rows_ok_def)

lemma ledger_append_cases:
  assumes "ledger_append ev L = (r, L')"
  obtains (prior) row where "r = Inr row" "L' = L" "row \<in> set (L (ev_namespace ev))"
      "ev_key row = ev_key ev" "same_content row ev"
  | (new) "r = Inr ev" "L' = L(ev_namespace ev := L (ev_namespace ev) @ [stored ev])"
      "ev_key ev \<notin> ev_key ` set (L (ev_namespace ev))" "event_id ev \<notin> event_id ` set (L (ev_namespace ev))"
  | (conflict) msg where "r = Inl (IdempotencyConflict msg)" "L' = L"
proof -
  obtain q rows where a: "append_rows ev (L (ev_namespace ev)) = (q, rows)" by (cases "append_rows ev (L (ev_namespace ev))")
  then have rL: "r = q" "L' = L(ev_namespace ev := rows)" using assms by (auto simp: ledger_append_def)
  from a show thesis
    by (cases rule: append_rows_cases) (use rL that in auto)
qed

lemma ledger_append_prefix: "ledger_append ev L = (r, L') \<Longrightarrow> \<exists>ys. L' ns = L ns @ ys"
  by (elim ledger_append_cases) auto

end
