(* ===== verification/Outbox.thy ===== *)
theory Outbox
  imports Ledger
begin

text \<open>
  The durable event outbox (\<open>src/advisorai/ledger/outbox.py\<close>) and the envelope it carries
  (\<open>EventEnvelope\<close> of \<open>src/advisorai/ports.py\<close>).  Publishing the same envelope twice is idempotent, reusing
  an event identifier for other content is an error; consumers replay by time and acknowledge delivery.
  As for the ledger, \<open>publish_race\<close> keeps the lookup and the insert of the source apart.
\<close>

record envelope =
  env_event_id :: uuid
  env_event_type :: string
  env_occurred_at :: utc
  env_artifact_ids :: "uuid list"
  env_payload_ref :: "string option"

definition mk_envelope ::
  "uuid \<Rightarrow> string \<Rightarrow> pydatetime \<Rightarrow> uuid list \<Rightarrow> string option \<Rightarrow> envelope res" where
  "mk_envelope eid etype occurred aids ref =
     rbind (aware ''event timestamp must include a timezone'' occurred) (\<lambda>t.
     if blank etype then Inl (ValueError ''event_type cannot be blank'')
     else if (case ref of None \<Rightarrow> False | Some p \<Rightarrow> blank p) then Inl (ValueError ''payload_ref cannot be blank'')
     else if \<not> distinct aids then Inl (ValueError ''event artifact IDs must be unique'')
     else Inr \<lparr>env_event_id = eid, env_event_type = strip etype, env_occurred_at = t,
               env_artifact_ids = aids, env_payload_ref = ref\<rparr>)"

record outbox_row =
  ob_envelope :: envelope
  ob_delivered_at :: "utc option"

type_synonym outbox = "outbox_row list"

abbreviation row_event_id :: "outbox_row \<Rightarrow> uuid" where
  "row_event_id r \<equiv> env_event_id (ob_envelope r)"

definition find_row :: "uuid \<Rightarrow> outbox \<Rightarrow> outbox_row option" where
  "find_row i rows = find (\<lambda>r. row_event_id r = i) rows"

definition same_envelope :: "outbox_row \<Rightarrow> envelope \<Rightarrow> bool" where
  "same_envelope r e \<longleftrightarrow>
     env_event_type (ob_envelope r) = env_event_type e \<and> env_occurred_at (ob_envelope r) = env_occurred_at e \<and>
     env_artifact_ids (ob_envelope r) = env_artifact_ids e \<and> env_payload_ref (ob_envelope r) = env_payload_ref e"

definition check_row :: "outbox_row \<Rightarrow> envelope \<Rightarrow> unit res" where
  "check_row r e =
     (if \<not> same_envelope r e then Inl (EventIdempotencyConflict ''event ID was reused for different content'')
      else Inr ())"

definition publish_race :: "envelope \<Rightarrow> outbox \<Rightarrow> outbox \<Rightarrow> unit res \<times> outbox" where
  "publish_race e seen rows =
     (case find_row (env_event_id e) seen of
        Some r \<Rightarrow> (check_row r e, rows)
      | None \<Rightarrow>
        (case find_row (env_event_id e) rows of
           None \<Rightarrow> (Inr (), rows @ [\<lparr>ob_envelope = e, ob_delivered_at = None\<rparr>])
         | Some r \<Rightarrow> (check_row r e, rows)))"

definition publish :: "envelope \<Rightarrow> (outbox, unit) action" where
  "publish e rows = publish_race e rows rows"

definition replay :: "string option \<Rightarrow> bool \<Rightarrow> outbox \<Rightarrow> envelope list" where
  "replay etype pending_only rows =
     map ob_envelope (sort_key (\<lambda>r. env_occurred_at (ob_envelope r))
       (filter (\<lambda>r. (case etype of None \<Rightarrow> True | Some t \<Rightarrow> env_event_type (ob_envelope r) = t) \<and>
                    (pending_only \<longrightarrow> ob_delivered_at r = None)) rows))"

definition pending :: "string option \<Rightarrow> outbox \<Rightarrow> envelope list" where
  "pending etype rows = replay etype True rows"

text \<open>\<open>now\<close> is the clock reading used when no delivery time is passed.\<close>

definition mark_delivered :: "utc \<Rightarrow> uuid \<Rightarrow> pydatetime option \<Rightarrow> (outbox, unit) action" where
  "mark_delivered now i delivered rows =
     (case aware ''delivered_at must include a timezone'' (case delivered of None \<Rightarrow> Aware now 0 | Some d \<Rightarrow> d) of
        Inl err \<Rightarrow> (Inl err, rows)
      | Inr t \<Rightarrow>
        let n = length (filter (\<lambda>r. row_event_id r = i) rows);
            rows' = map (\<lambda>r. if row_event_id r = i then r\<lparr>ob_delivered_at := Some t\<rparr> else r) rows
        in if n \<noteq> 1 then (Inl (KeyError (uuid_str i)), rows) else (Inr (), rows'))"

definition outbox_ok :: "outbox \<Rightarrow> bool" where
  "outbox_ok rows \<longleftrightarrow> distinct (map row_event_id rows)"

lemma find_row_None: "find_row i rows = None \<longleftrightarrow> i \<notin> row_event_id ` set rows"
  by (auto simp: find_row_def find_None_iff)

lemma find_row_SomeD: "find_row i rows = Some r \<Longrightarrow> r \<in> set rows \<and> row_event_id r = i"
  by (auto simp: find_row_def find_Some_iff)

lemma find_row_ok: "outbox_ok rows \<Longrightarrow> r \<in> set rows \<Longrightarrow> find_row (row_event_id r) rows = Some r"
  by (induction rows) (auto simp: outbox_ok_def find_row_def)

lemma publish_race_ok: "outbox_ok rows \<Longrightarrow> publish_race e seen rows = (r, rows') \<Longrightarrow> outbox_ok rows'"
  by (auto simp: publish_race_def outbox_ok_def find_row_None split: option.splits)

lemma publish_eq:
  "publish e rows = (case find_row (env_event_id e) rows of
     None \<Rightarrow> (Inr (), rows @ [\<lparr>ob_envelope = e, ob_delivered_at = None\<rparr>]) | Some r \<Rightarrow> (check_row r e, rows))"
  by (simp add: publish_def publish_race_def split: option.splits)

interpretation bus: idempotent_log publish "\<lambda>s. s" env_event_id row_event_id same_envelope outbox_ok
proof unfold_locales
  fix s s' :: outbox and e :: envelope and r
  assume "outbox_ok s" "publish e s = (r, s')"
  then show "outbox_ok s'" unfolding publish_def by (rule publish_race_ok)
next
  fix s s' :: outbox and e :: envelope and r
  assume "publish e s = (r, s')"
  then show "s' = s \<or> is_ok r \<and> (\<exists>x. row_event_id x = env_event_id e \<and> same_envelope x e \<and>
      env_event_id e \<notin> row_event_id ` set s \<and> s' = s @ [x])"
    by (auto simp: publish_eq same_envelope_def find_row_None split: option.splits)
next
  fix s s' :: outbox and e :: envelope and v
  assume "publish e s = (Inr v, s')"
  then show "\<exists>x\<in>set s'. row_event_id x = env_event_id e \<and> same_envelope x e"
    by (auto simp: publish_eq check_row_def same_envelope_def split: option.splits if_splits dest: find_row_SomeD)
next
  fix s :: outbox and x and e :: envelope
  assume "outbox_ok s" "x \<in> set s" "row_event_id x = env_event_id e"
  then have "find_row (env_event_id e) s = Some x" using find_row_ok by metis
  then show "same_envelope x e \<Longrightarrow> \<exists>v. publish e s = (Inr v, s)"
    and "\<not> same_envelope x e \<Longrightarrow> \<exists>err. publish e s = (Inl err, s)"
    by (simp_all add: publish_eq check_row_def)
qed

lemma set_replay: "set (replay etype po rows) =
  ob_envelope ` {r \<in> set rows. (case etype of None \<Rightarrow> True | Some t \<Rightarrow> env_event_type (ob_envelope r) = t) \<and>
     (po \<longrightarrow> ob_delivered_at r = None)}"
  by (simp add: replay_def)

lemma replay_sorted: "sorted (map env_occurred_at (replay etype po rows))"
  using sorted_sort_key [of "\<lambda>r. env_occurred_at (ob_envelope r)"] by (simp add: replay_def o_def)

lemma mark_delivered_pending:
  assumes "outbox_ok rows" "mark_delivered now i d rows = (Inr (), rows')"
  shows "outbox_ok rows' \<and> set (pending None rows') = {e \<in> set (pending None rows). env_event_id e \<noteq> i} \<and>
    set (replay None False rows') = set (replay None False rows)"
proof -
  obtain t where rows': "rows' = map (\<lambda>r. if row_event_id r = i then r\<lparr>ob_delivered_at := Some t\<rparr> else r) rows"
    using assms(2) by (auto simp: mark_delivered_def Let_def split: sum.splits if_splits)
  have "map row_event_id rows' = map row_event_id rows" by (simp add: rows')
  then have "outbox_ok rows'" using assms(1) by (simp add: outbox_ok_def)
  moreover have "set (pending None rows') = {e \<in> set (pending None rows). env_event_id e \<noteq> i}"
    unfolding pending_def set_replay rows' by force
  moreover have "set (replay None False rows') = set (replay None False rows)"
  proof -
    have "map ob_envelope rows' = map ob_envelope rows" by (simp add: rows')
    then have "ob_envelope ` set rows' = ob_envelope ` set rows" by (metis list.set_map)
    then show ?thesis by (simp add: set_replay)
  qed
  ultimately show ?thesis by simp
qed

end
