(* ===== verification/Paper_Venue.thy ===== *)
theory Paper_Venue
  imports Outbox
begin

text \<open>
  The deterministic paper venue (\<open>src/advisorai/execution/paper.py\<close>): acknowledgements by idempotency key,
  with an injectable outage and an injectable lost response.  The fingerprint of an order is a digest of its
  payload without identity and creation time; the digest is the parameter \<open>sha\<close>.  The locale \<open>venue\<close> is
  what a caller may rely on: a retry of an accepted submission is harmless, and a submission whose response
  was lost is known to the venue under the caller's order.
\<close>

record ack =
  ack_order_id :: uuid
  venue_order_id :: string
  ack_accepted :: bool

definition mk_ack :: "uuid \<Rightarrow> string \<Rightarrow> bool \<Rightarrow> ack res" where
  "mk_ack oid vid accepted =
     (if blank vid then Inl (ValueError ''venue acknowledgement requires an order ID'')
      else Inr \<lparr>ack_order_id = oid, venue_order_id = vid, ack_accepted = accepted\<rparr>)"

definition logical_order :: "order \<Rightarrow> order" where
  "logical_order r = r\<lparr>artifact_id := 0, created_at := 0\<rparr>"

record paper_venue =
  pv_venue :: string
  pv_strict :: bool
  pv_orders :: "(string, ack) dict"
  pv_fingerprints :: "(string, string) dict"
  pv_ambiguous_once :: "string list"
  pv_outage_once :: bool

definition new_paper_venue :: "string \<Rightarrow> bool \<Rightarrow> paper_venue res" where
  "new_paper_venue venue strict =
     (if blank venue then Inl (ValueError ''paper venue name is required'')
      else Inr \<lparr>pv_venue = venue, pv_strict = strict, pv_orders = [], pv_fingerprints = [],
                pv_ambiguous_once = [], pv_outage_once = False\<rparr>)"

definition inject_ambiguous_ack_once :: "string \<Rightarrow> (paper_venue, unit) action" where
  "inject_ambiguous_ack_once k v =
     (if blank k then (Inl (ValueError ''idempotency key is required''), v)
      else (Inr (), v\<lparr>pv_ambiguous_once := List.insert k (pv_ambiguous_once v)\<rparr>))"

definition inject_outage_once :: "(paper_venue, unit) action" where
  "inject_outage_once v = (Inr (), v\<lparr>pv_outage_once := True\<rparr>)"

definition paper_ack :: "order \<Rightarrow> ack" where
  "paper_ack r = \<lparr>ack_order_id = artifact_id r, venue_order_id = ''paper-'' @ uuid_str (artifact_id r), ack_accepted = True\<rparr>"

definition paper_store :: "(order \<Rightarrow> string) \<Rightarrow> order \<Rightarrow> paper_venue \<Rightarrow> paper_venue" where
  "paper_store sha r v = v\<lparr>pv_orders := dict_set (idempotency_key r) (paper_ack r) (pv_orders v),
     pv_fingerprints := dict_set (idempotency_key r) (sha (logical_order r)) (pv_fingerprints v)\<rparr>"

definition paper_submit :: "(order \<Rightarrow> string) \<Rightarrow> order \<Rightarrow> (paper_venue, ack) action" where
  "paper_submit sha r v =
     (if pv_strict v \<and> inst_venue (ord_instrument r) \<notin> {None, Some (pv_venue v)}
      then (Inl (ValueError ''order instrument venue does not match paper venue''), v)
      else if pv_outage_once v then (Inl (RuntimeError ''paper venue outage''), v\<lparr>pv_outage_once := False\<rparr>)
      else case map_of (pv_orders v) (idempotency_key r) of
        Some prior \<Rightarrow>
          if map_of (pv_fingerprints v) (idempotency_key r) \<noteq> Some (sha (logical_order r))
          then (Inl (ValueError ''idempotency key was reused for a different order''), v)
          else (Inr prior, v)
      | None \<Rightarrow>
          if idempotency_key r \<in> set (pv_ambiguous_once v)
          then (Inl AmbiguousAcknowledgement,
                paper_store sha r (v\<lparr>pv_ambiguous_once := remove1 (idempotency_key r) (pv_ambiguous_once v)\<rparr>))
          else (Inr (paper_ack r), paper_store sha r v))"

definition paper_open_orders :: "paper_venue \<Rightarrow> ack list" where
  "paper_open_orders v = map snd (pv_orders v)"

definition paper_cancel :: "order \<Rightarrow> (paper_venue, bool) action" where
  "paper_cancel r v =
     (case map_of (pv_orders v) (idempotency_key r) of
        None \<Rightarrow> (Inr False, v)
      | Some a \<Rightarrow>
          if ack_order_id a \<noteq> artifact_id r
          then (Inl (ValueError ''paper venue order identity does not match cancellation''), v)
          else (Inr (ack_accepted a), v))"

definition paper_venue_ok :: "paper_venue \<Rightarrow> bool" where
  "paper_venue_ok v \<longleftrightarrow> dict_ok (pv_orders v) \<and> dict_ok (pv_fingerprints v) \<and>
     dom (map_of (pv_orders v)) = dom (map_of (pv_fingerprints v)) \<and>
     (\<forall>a \<in> set (paper_open_orders v). ack_accepted a)"

section \<open>The contract of a venue\<close>

locale venue =
  fixes submit :: "order \<Rightarrow> ('v, ack) action"
    and open_orders :: "'v \<Rightarrow> ack list"
    and inv :: "'v \<Rightarrow> bool"
  assumes submit_inv: "inv v \<Longrightarrow> submit r v = (res, v') \<Longrightarrow> inv v'"
    and submit_grows: "inv v \<Longrightarrow> submit r v = (res, v') \<Longrightarrow> set (open_orders v) \<subseteq> set (open_orders v')"
    and submit_retry: "inv v \<Longrightarrow> submit r v = (Inr a, v') \<Longrightarrow> submit r v' = (Inr a, v') \<and> a \<in> set (open_orders v')"
    and submit_lost: "inv v \<Longrightarrow> submit r v = (Inl AmbiguousAcknowledgement, v') \<Longrightarrow>
      \<exists>a. ack_order_id a = artifact_id r \<and> a \<in> set (open_orders v') \<and> submit r v' = (Inr a, v')"
    and open_accepted: "inv v \<Longrightarrow> a \<in> set (open_orders v) \<Longrightarrow> ack_accepted a"
begin

text \<open>
  However often an order whose response was lost or received is submitted again, the venue answers with
  one acknowledgement and does not change: no second order is created.
\<close>

fun resubmit :: "nat \<Rightarrow> order \<Rightarrow> 'v \<Rightarrow> ack res list \<times> 'v" where
  "resubmit 0 r v = ([], v)"
| "resubmit (Suc n) r v = (let (a, v1) = submit r v; (rest, v2) = resubmit n r v1 in (a # rest, v2))"

lemma resubmit_stable: "submit r v = (Inr a, v) \<Longrightarrow> resubmit n r v = (replicate n (Inr a), v)"
  by (induction n) auto

lemma retry_after_lost:
  assumes "inv v" "submit r v = (Inl AmbiguousAcknowledgement, v')"
  shows "\<exists>a. ack_order_id a = artifact_id r \<and> resubmit n r v' = (replicate n (Inr a), v')"
  using submit_lost [OF assms] resubmit_stable by blast

lemma retry_after_ack:
  assumes "inv v" "submit r v = (Inr a, v')" shows "resubmit n r v' = (replicate n (Inr a), v')"
  using submit_retry [OF assms] resubmit_stable by blast

end

lemma paper_store_fields [simp]:
  "pv_strict (paper_store sha r v) = pv_strict v" "pv_venue (paper_store sha r v) = pv_venue v"
  "pv_outage_once (paper_store sha r v) = pv_outage_once v"
  "map_of (pv_orders (paper_store sha r v)) (idempotency_key r) = Some (paper_ack r)"
  "map_of (pv_fingerprints (paper_store sha r v)) (idempotency_key r) = Some (sha (logical_order r))"
  "pv_orders (v\<lparr>pv_ambiguous_once := xs\<rparr>) = pv_orders v"
  by (simp_all add: paper_store_def)

lemma paper_store_resubmit:
  "\<not> (pv_strict v \<and> inst_venue (ord_instrument r) \<notin> {None, Some (pv_venue v)}) \<Longrightarrow> \<not> pv_outage_once v \<Longrightarrow>
   paper_submit sha r (paper_store sha r v) = (Inr (paper_ack r), paper_store sha r v)"
  by (auto simp: paper_submit_def)

lemma paper_store_open: "paper_ack r \<in> set (paper_open_orders (paper_store sha r v))"
  using map_of_SomeD [OF paper_store_fields(4)] by (force simp: paper_open_orders_def)

lemma paper_store_grows:
  "map_of (pv_orders v) (idempotency_key r) = None \<Longrightarrow>
   set (paper_open_orders v) \<subseteq> set (paper_open_orders (paper_store sha r v))"
  by (auto simp: paper_open_orders_def paper_store_def dict_set_new)

lemma paper_store_ok: "paper_venue_ok v \<Longrightarrow> paper_venue_ok (paper_store sha r v)"
  by (auto simp: paper_venue_ok_def paper_store_def paper_open_orders_def paper_ack_def dest!: set_dict_set)

lemma paper_venue_ok_flags [simp]:
  "paper_venue_ok (v\<lparr>pv_ambiguous_once := ks\<rparr>) = paper_venue_ok v"
  "paper_venue_ok (v\<lparr>pv_outage_once := b\<rparr>) = paper_venue_ok v"
  by (simp_all add: paper_venue_ok_def paper_open_orders_def)

lemma paper_submit_cases:
  assumes "paper_submit sha r v = (res, v')"
  obtains (refused) err where "res = Inl err" "err \<noteq> AmbiguousAcknowledgement"
      "v' = v \<or> pv_outage_once v \<and> v' = v\<lparr>pv_outage_once := False\<rparr>"
  | (known) a where "res = Inr a" "v' = v" "map_of (pv_orders v) (idempotency_key r) = Some a"
  | (lost) ks where "res = Inl AmbiguousAcknowledgement" "v' = paper_store sha r (v\<lparr>pv_ambiguous_once := ks\<rparr>)"
      "map_of (pv_orders v) (idempotency_key r) = None" "\<not> pv_outage_once v"
      "\<not> (pv_strict v \<and> inst_venue (ord_instrument r) \<notin> {None, Some (pv_venue v)})"
  | (fresh) "res = Inr (paper_ack r)" "v' = paper_store sha r v"
      "map_of (pv_orders v) (idempotency_key r) = None" "\<not> pv_outage_once v"
      "\<not> (pv_strict v \<and> inst_venue (ord_instrument r) \<notin> {None, Some (pv_venue v)})"
  using assms that unfolding paper_submit_def by (force split: if_splits option.splits)

interpretation paper: venue "paper_submit sha" paper_open_orders paper_venue_ok
proof unfold_locales
  fix v v' r res
  assume ok: "paper_venue_ok v" and s: "paper_submit sha r v = (res, v')"
  from s show "paper_venue_ok v'"
    by (cases rule: paper_submit_cases) (use ok in \<open>auto simp: paper_store_ok\<close>)
  from s show "set (paper_open_orders v) \<subseteq> set (paper_open_orders v')"
  proof (cases rule: paper_submit_cases)
    case (lost ks)
    then show ?thesis using paper_store_grows [of "v\<lparr>pv_ambiguous_once := ks\<rparr>"] by (simp add: paper_open_orders_def)
  next
    case fresh
    then show ?thesis using paper_store_grows by blast
  qed (auto simp: paper_open_orders_def)
next
  fix v v' r a
  assume s: "paper_submit sha r v = (Inr a, v')"
  then show "paper_submit sha r v' = (Inr a, v') \<and> a \<in> set (paper_open_orders v')"
  proof (cases rule: paper_submit_cases)
    case known
    then show ?thesis using s by (force simp: paper_open_orders_def dest: map_of_SomeD)
  qed (auto simp: paper_store_resubmit paper_store_open)
next
  fix v v' r
  assume "paper_submit sha r v = (Inl AmbiguousAcknowledgement, v')"
  then show "\<exists>a. ack_order_id a = artifact_id r \<and> a \<in> set (paper_open_orders v') \<and> paper_submit sha r v' = (Inr a, v')"
  proof (cases rule: paper_submit_cases)
    case (lost ks)
    then show ?thesis
      by (intro exI [of _ "paper_ack r"])
         (simp add: paper_store_resubmit paper_store_open, simp add: paper_ack_def)
  qed simp_all
next
  fix v a
  assume "paper_venue_ok v" "a \<in> set (paper_open_orders v)"
  then show "ack_accepted a" by (simp add: paper_venue_ok_def)
qed

end
