(* ===== verification/Oms.thy ===== *)
theory Oms
  imports Paper_Venue
begin

text \<open>
  The order manager (\<open>src/advisorai/execution/oms.py\<close>): the life cycle of an order, its ledger records, the
  conversation with the venue and the recovery of the projection from the ledger.

  The manager's collaborators are the record \<open>oms_env\<close>: the venue operations (those the source finds with
  \<open>getattr\<close> are optional), the event bus, and the entropy of the process (the identifier and the clock
  reading of the n-th ledger event).  The state holds the ledgers, the venue, the bus, the projection
  (orders, fills, ambiguous orders) and the number of draws made.  Every method is an action on that state;
  an exception leaves the state as far as the method had changed it.
\<close>

section \<open>States and transitions\<close>

definition allowed_transitions :: "order_state \<Rightarrow> order_state list" where
  "allowed_transitions s = (case s of
     CREATED \<Rightarrow> [RISK_APPROVED, REJECTED, EXPIRED]
   | RISK_APPROVED \<Rightarrow> [ROUTED, REJECTED, EXPIRED]
   | ROUTED \<Rightarrow> [ACKNOWLEDGED, REJECTED, EXPIRED]
   | ACKNOWLEDGED \<Rightarrow> [PARTIALLY_FILLED, FILLED, CANCEL_PENDING, EXPIRED]
   | PARTIALLY_FILLED \<Rightarrow> [PARTIALLY_FILLED, FILLED, CANCEL_PENDING]
   | CANCEL_PENDING \<Rightarrow> [CANCELLED, PARTIALLY_FILLED, FILLED]
   | FILLED \<Rightarrow> [RECONCILED]
   | CANCELLED \<Rightarrow> [RECONCILED]
   | REJECTED \<Rightarrow> [RECONCILED]
   | EXPIRED \<Rightarrow> [RECONCILED]
   | RECONCILED \<Rightarrow> [])"

datatype rval = RNone | RBool bool | RInt int | RText string

datatype venue_response = NoResponse | NotMapping | Response "(string, rval) dict"

record ('v, 'b) oms_env =
  v_submit :: "order \<Rightarrow> ('v, ack) action"
  v_open_orders :: "'v \<Rightarrow> ack list"
  v_cancel :: "(order \<Rightarrow> ('v, bool option) action) option"
  v_reconcile :: "(order \<Rightarrow> ('v, venue_response) action) option"
  v_bind :: "(order \<Rightarrow> ('v, unit) action) option"
  b_publish :: "(envelope \<Rightarrow> ('b, unit) action) option"
  e_uuid :: "nat \<Rightarrow> uuid"
  e_now :: "nat \<Rightarrow> utc"

record ('v, 'b) oms =
  om_ledgers :: ledgers
  om_venue :: 'v
  om_bus :: 'b
  om_orders :: "(uuid, order) dict"
  om_fills :: "(string, fill) dict"
  om_ambiguous :: "uuid list"
  om_draws :: nat

definition on_venue :: "('v, 'a) action \<Rightarrow> (('v, 'b) oms, 'a) action" where
  "on_venue m s = (let (r, v) = m (om_venue s) in (r, s\<lparr>om_venue := v\<rparr>))"

definition on_bus :: "('b, 'a) action \<Rightarrow> (('v, 'b) oms, 'a) action" where
  "on_bus m s = (let (r, b) = m (om_bus s) in (r, s\<lparr>om_bus := b\<rparr>))"

definition on_ledgers :: "(ledgers, 'a) action \<Rightarrow> (('v, 'b) oms, 'a) action" where
  "on_ledgers m s = (let (r, L) = m (om_ledgers s) in (r, s\<lparr>om_ledgers := L\<rparr>))"

text \<open>A block whose exceptions are turned into one error.\<close>

definition catch_as :: "py_error \<Rightarrow> ('s, 'a) action \<Rightarrow> ('s, 'a) action" where
  "catch_as err m s = (case m s of (Inl _, s') \<Rightarrow> (Inl err, s') | (Inr x, s') \<Rightarrow> (Inr x, s'))"

section \<open>Ledger records and notifications\<close>

definition logical_fill :: "fill \<Rightarrow> fill" where
  "logical_fill f = f\<lparr>artifact_id := 0, created_at := 0\<rparr>"

definition order_event_type :: "order_state \<Rightarrow> string" where
  "order_event_type st = ''order_'' @ order_state_value st"

definition order_key :: "order \<Rightarrow> string \<Rightarrow> string" where
  "order_key r etype = ''order:'' @ idempotency_key r @ '':'' @ etype"

definition fill_key :: "string \<Rightarrow> string" where
  "fill_key vid = ''fill:'' @ vid"

definition publish_event ::
  "('v, 'b) oms_env \<Rightarrow> ledger_event \<Rightarrow> string \<Rightarrow> uuid \<Rightarrow> (('v, 'b) oms, unit) action" where
  "publish_event E ev etype aid =
     (case b_publish E of
        None \<Rightarrow> sreturn ()
      | Some pub \<Rightarrow>
        sbind (spure (\<lambda>_. mk_envelope (event_id ev) etype (Aware (ev_occurred_at ev) 0) [aid]
                (Some (''ledger://order/'' @ uuid_str (event_id ev)))))
          (\<lambda>e. on_bus (pub e)))"

definition republish_key ::
  "('v, 'b) oms_env \<Rightarrow> string \<Rightarrow> string \<Rightarrow> uuid \<Rightarrow> (('v, 'b) oms, unit) action" where
  "republish_key E k etype aid =
     (case b_publish E of
        None \<Rightarrow> sreturn ()
      | Some _ \<Rightarrow>
        sbind (sget (\<lambda>s. find_key k (ledger_events (om_ledgers s) NS_ORDER)))
          (\<lambda>ev. case ev of None \<Rightarrow> sreturn () | Some e \<Rightarrow> publish_event E e etype aid))"

text \<open>The event of an artifact: identifier and time are drawn from the process.\<close>

definition artifact_event :: "('v, 'b) oms_env \<Rightarrow> uuid \<Rightarrow> pval \<Rightarrow> string \<Rightarrow> string \<Rightarrow> nat \<Rightarrow> ledger_event" where
  "artifact_event E aid v etype k n =
     \<lparr>event_id = e_uuid E n, ev_namespace = NS_ORDER, event_type = etype, ev_key = k,
      ev_occurred_at = e_now E n, ev_payload = [(''artifact'', v), (''artifact_id'', PUuid aid)]\<rparr>"

definition record_artifact ::
  "('v, 'b) oms_env \<Rightarrow> uuid \<Rightarrow> pval \<Rightarrow> string \<Rightarrow> string \<Rightarrow> (('v, 'b) oms, ledger_event) action" where
  "record_artifact E aid v etype k =
     sbind (sget om_draws) (\<lambda>n.
     sbind (smodify (\<lambda>s. s\<lparr>om_draws := Suc n\<rparr>)) (\<lambda>_.
       on_ledgers (ledger_append (artifact_event E aid v etype k n))))"

definition record_order :: "('v, 'b) oms_env \<Rightarrow> order \<Rightarrow> string \<Rightarrow> (('v, 'b) oms, ledger_event) action" where
  "record_order E r etype = record_artifact E (artifact_id r) (POrder r) etype (order_key r etype)"

definition record_fill_event :: "('v, 'b) oms_env \<Rightarrow> fill \<Rightarrow> (('v, 'b) oms, ledger_event) action" where
  "record_fill_event E f =
     record_artifact E (artifact_id f) (PFill f) ''fill_recorded'' (fill_key (venue_fill_id f))"

section \<open>Operations\<close>

definition get_order :: "uuid \<Rightarrow> (('v, 'b) oms, order) action" where
  "get_order oid = spure (\<lambda>s. case map_of (om_orders s) oid of
     None \<Rightarrow> Inl (OrderStateError ''unknown order'') | Some r \<Rightarrow> Inr r)"

definition set_order :: "uuid \<Rightarrow> order \<Rightarrow> (('v, 'b) oms, unit) action" where
  "set_order oid r = smodify (\<lambda>s. s\<lparr>om_orders := dict_set oid r (om_orders s)\<rparr>)"

definition bind_order :: "('v, 'b) oms_env \<Rightarrow> order \<Rightarrow> (('v, 'b) oms, unit) action" where
  "bind_order E r = (case v_bind E of None \<Rightarrow> sreturn () | Some bnd \<Rightarrow> on_venue (bnd r))"

definition create_order :: "('v, 'b) oms_env \<Rightarrow> order \<Rightarrow> (('v, 'b) oms, order) action" where
  "create_order E r =
     sbind (sget (\<lambda>s. map_of (om_orders s) (artifact_id r))) (\<lambda>existing. case existing of
       Some x \<Rightarrow>
         if logical_order x \<noteq> logical_order r then sraise (OrderStateError ''order artifact ID is immutable'')
         else sbind (republish_key E (order_key x ''order_created'') ''order_created'' (artifact_id x)) (\<lambda>_. sreturn x)
     | None \<Rightarrow>
         sbind (sget (\<lambda>s. find (\<lambda>p. idempotency_key p = idempotency_key r) (map snd (om_orders s)))) (\<lambda>prior. case prior of
           Some x \<Rightarrow>
             if logical_order x \<noteq> logical_order r
             then sraise (OrderStateError ''idempotency key reused for different order'')
             else sbind (republish_key E (order_key r ''order_created'') ''order_created'' (artifact_id x)) (\<lambda>_. sreturn x)
         | None \<Rightarrow>
             sbind (record_order E r ''order_created'') (\<lambda>ev.
             sbind (bind_order E r) (\<lambda>_.
             sbind (set_order (artifact_id r) r) (\<lambda>_.
             sbind (publish_event E ev ''order_created'' (artifact_id r)) (\<lambda>_. sreturn r))))))"

definition transition :: "('v, 'b) oms_env \<Rightarrow> uuid \<Rightarrow> order_state \<Rightarrow> (('v, 'b) oms, order) action" where
  "transition E oid st =
     sbind (get_order oid) (\<lambda>r.
       if st = ord_state r
       then sbind (republish_key E (order_key r (order_event_type st)) (order_event_type st) (artifact_id r))
              (\<lambda>_. sreturn r)
       else if st \<notin> set (allowed_transitions (ord_state r))
       then sraise (OrderStateError ''invalid order transition'')
       else let u = r\<lparr>ord_state := st\<rparr> in
         sbind (record_order E u (order_event_type st)) (\<lambda>ev.
         sbind (set_order oid u) (\<lambda>_.
         sbind (publish_event E ev (order_event_type st) (artifact_id u)) (\<lambda>_. sreturn u))))"

definition approve_risk ::
  "('v, 'b) oms_env \<Rightarrow> uuid \<Rightarrow> risk_decision \<Rightarrow> order_risk_check option \<Rightarrow> (('v, 'b) oms, order) action" where
  "approve_risk E oid decision order_check =
     (if dec_outcome decision \<noteq> APPROVED
      then sraise (OrderStateError ''OMS cannot risk-approve a rejected or reduced decision'')
      else case order_check of
        None \<Rightarrow> sraise (OrderStateError ''OMS requires a deterministic order-level risk check'')
      | Some c \<Rightarrow>
        if \<not> chk_approved c
        then sraise (OrderStateError ''OMS cannot risk-approve an order rejected by the deterministic risk check'')
        else if chk_state_hash c = None
        then sraise (OrderStateError ''order-level risk check must bind authoritative state'')
        else if chk_policy_id c \<noteq> None \<and> Some (dec_risk_policy_id decision) \<noteq> chk_policy_id c
        then sraise (OrderStateError ''risk decision policy does not match order-level risk check'')
        else if Some (dec_state_hash decision) \<noteq> chk_state_hash c
        then sraise (OrderStateError ''risk decision state hash does not match order-level check'')
        else transition E oid RISK_APPROVED)"

definition route :: "('v, 'b) oms_env \<Rightarrow> uuid \<Rightarrow> (('v, 'b) oms, ack option) action" where
  "route E oid =
     sbind (sget om_ambiguous) (\<lambda>amb.
       if oid \<in> set amb
       then sraise (OrderStateError ''ambiguous acknowledgement requires venue reconciliation before retry'')
       else sbind (get_order oid) (\<lambda>r0.
         if ord_state r0 = ROUTED
         then sraise (OrderStateError ''routed order requires venue reconciliation before retry'')
         else sbind (transition E oid ROUTED) (\<lambda>r. (\<lambda>s.
           case on_venue (v_submit E r) s of
             (Inl AmbiguousAcknowledgement, s1) \<Rightarrow>
               sbind (smodify (\<lambda>s. s\<lparr>om_ambiguous := List.insert (artifact_id r) (om_ambiguous s)\<rparr>)) (\<lambda>_.
               sbind (record_order E r ''order_ack_ambiguous'') (\<lambda>ev.
               sbind (publish_event E ev ''order_ack_ambiguous'' (artifact_id r)) (\<lambda>_. sreturn None))) s1
           | (Inl err, s1) \<Rightarrow> (Inl err, s1)
           | (Inr a, s1) \<Rightarrow>
               (if ack_order_id a \<noteq> artifact_id r
                then sraise (OrderStateError ''venue acknowledgement references a different order'')
                else sbind (transition E (artifact_id r) (if ack_accepted a then ACKNOWLEDGED else REJECTED))
                       (\<lambda>_. sreturn (Some a))) s1))))"

subsection \<open>Venue queries\<close>

definition rval_str :: "rval \<Rightarrow> string" where
  "rval_str v = (case v of RNone \<Rightarrow> ''None'' | RBool b \<Rightarrow> (if b then ''True'' else ''False'')
     | RInt n \<Rightarrow> int_str n | RText t \<Rightarrow> t)"

definition client_id_conflict :: "(string, rval) dict \<Rightarrow> order \<Rightarrow> bool" where
  "client_id_conflict resp r =
     list_ex (\<lambda>k. case map_of resp k of None \<Rightarrow> False | Some RNone \<Rightarrow> False
                 | Some v \<Rightarrow> strip (rval_str v) \<noteq> idempotency_key r)
       [''client_order_id'', ''clientOrderId'', ''clordid'', ''origClientOrderId'']"

definition response_venue_id :: "(string, rval) dict \<Rightarrow> string" where
  "response_venue_id resp =
     strip (rval_str (dict_get resp ''venue_order_id'' (dict_get resp ''id'' (dict_get resp ''orderId'' (RText '''')))))"

definition response_accepted :: "(string, rval) dict \<Rightarrow> bool res" where
  "response_accepted resp = (case map_of resp ''accepted'' of
     Some (RBool b) \<Rightarrow> Inr b
   | _ \<Rightarrow> let state = lower (strip (rval_str (dict_get resp ''state'' (dict_get resp ''status'' (RText '''')))))
          in if state \<in> {''rejected'', ''reject'', ''cancelled'', ''canceled'', ''expired''} then Inr False
             else if state \<in> {''accepted'', ''acknowledged'', ''open'', ''partially_filled'', ''partial'', ''filled''}
             then Inr True
             else Inl (OrderStateError ''venue order query has no admitted order state''))"

definition read_response :: "(string, rval) dict \<Rightarrow> order \<Rightarrow> uuid \<Rightarrow> ack res" where
  "read_response resp r oid =
     (if client_id_conflict resp r
      then Inl (OrderStateError ''venue order query references a different client order'')
      else if response_venue_id resp = []
      then Inl (OrderStateError ''venue order query is missing a venue order identity'')
      else rbind (response_accepted resp) (\<lambda>acc. mk_ack oid (response_venue_id resp) acc))"

definition query_venue_acknowledgement :: "('v, 'b) oms_env \<Rightarrow> uuid \<Rightarrow> (('v, 'b) oms, ack option) action" where
  "query_venue_acknowledgement E oid =
     (case v_reconcile E of
        None \<Rightarrow> sreturn None
      | Some q \<Rightarrow>
        sbind (get_order oid) (\<lambda>r.
        sbind (on_venue (q r)) (\<lambda>resp. case resp of
          NoResponse \<Rightarrow> sreturn None
        | NotMapping \<Rightarrow> sraise (OrderStateError ''venue order query returned a non-object response'')
        | Response d \<Rightarrow> sbind (spure (\<lambda>_. read_response d r oid)) (\<lambda>a. sreturn (Some a)))))"

text \<open>The acknowledgement of a query, or else the first matching open order.\<close>

definition resolve_acknowledgement :: "('v, 'b) oms_env \<Rightarrow> uuid \<Rightarrow> string \<Rightarrow> (('v, 'b) oms, ack) action" where
  "resolve_acknowledgement E oid msg =
     sbind (query_venue_acknowledgement E oid) (\<lambda>a. case a of
       Some x \<Rightarrow> sreturn x
     | None \<Rightarrow>
       spure (\<lambda>s. case filter (\<lambda>x. ack_order_id x = oid) (v_open_orders E (om_venue s)) of
         [] \<Rightarrow> Inl (OrderStateError msg) | x # _ \<Rightarrow> Inr x))"

definition reconcile_ambiguous :: "('v, 'b) oms_env \<Rightarrow> uuid \<Rightarrow> (('v, 'b) oms, ack) action" where
  "reconcile_ambiguous E oid =
     sbind (sget om_ambiguous) (\<lambda>amb.
       if oid \<notin> set amb
       then sraise (OrderStateError ''order is not awaiting ambiguous acknowledgement reconciliation'')
       else sbind (resolve_acknowledgement E oid
                ''venue has no matching order; operator must investigate before retry'') (\<lambda>a.
         sbind (transition E oid (if ack_accepted a then ACKNOWLEDGED else REJECTED)) (\<lambda>_.
         sbind (smodify (\<lambda>s. s\<lparr>om_ambiguous := removeAll oid (om_ambiguous s)\<rparr>)) (\<lambda>_. sreturn a))))"

definition reconcile_routed :: "('v, 'b) oms_env \<Rightarrow> uuid \<Rightarrow> (('v, 'b) oms, ack) action" where
  "reconcile_routed E oid =
     sbind (get_order oid) (\<lambda>r.
       if ord_state r \<noteq> ROUTED
       then sraise (OrderStateError ''only routed orders require reconnect reconciliation'')
       else sbind (resolve_acknowledgement E oid ''venue has no matching routed order'') (\<lambda>a.
         sbind (transition E oid (if ack_accepted a then ACKNOWLEDGED else REJECTED)) (\<lambda>_. sreturn a)))"

definition expire_unacknowledged :: "('v, 'b) oms_env \<Rightarrow> uuid \<Rightarrow> (('v, 'b) oms, order) action" where
  "expire_unacknowledged E oid =
     sbind (get_order oid) (\<lambda>r.
       if ord_state r \<noteq> ROUTED
       then sraise (OrderStateError ''only routed orders may be expired as unacknowledged'')
       else transition E oid EXPIRED)"

subsection \<open>Fills and cancellation\<close>

definition order_fills :: "uuid \<Rightarrow> (string, fill) dict \<Rightarrow> fill list" where
  "order_fills oid fills = filter (\<lambda>f. fill_order_id f = oid) (map snd fills)"

definition filled_quantity :: "uuid \<Rightarrow> (string, fill) dict \<Rightarrow> dec" where
  "filled_quantity oid fills = dsum (map fill_quantity (order_fills oid fills))"

text \<open>The admission of a fill: which state the order goes to, or the error.\<close>

definition admit_fill :: "fill \<Rightarrow> string \<Rightarrow> ('v, 'b) oms \<Rightarrow> (order \<times> order_state \<times> bool) res" where
  "admit_fill f side0 s =
     (let side = lower side0; prior = map_of (om_fills s) (venue_fill_id f) in
      if side \<notin> {''buy'', ''sell''} then Inl (OrderStateError ''fill side must be buy or sell'')
      else if (case find (\<lambda>x. artifact_id x = artifact_id f) (map snd (om_fills s)) of
                 None \<Rightarrow> False | Some x \<Rightarrow> logical_fill x \<noteq> logical_fill f)
      then Inl (OrderStateError ''fill artifact ID is immutable'')
      else if (case prior of None \<Rightarrow> False | Some p \<Rightarrow> logical_fill p \<noteq> logical_fill f)
      then Inl (OrderStateError ''venue fill ID reused for different fill content'')
      else case map_of (om_orders s) (fill_order_id f) of
        None \<Rightarrow> Inl (OrderStateError ''unknown order'')
      | Some r \<Rightarrow>
        if ord_side r \<noteq> side then Inl (OrderStateError ''fill side does not match the canonical order'')
        else let fq = filled_quantity (artifact_id r) (om_fills s);
                 eff = (if prior \<noteq> None then fq else dadd fq (fill_quantity f))
             in if dlt (ord_quantity r) eff then Inl (OrderStateError ''fills exceed order quantity'')
                else let st = (if deq eff (ord_quantity r) then FILLED else PARTIALLY_FILLED)
                  in if prior = None \<and> ord_state r \<notin> {ACKNOWLEDGED, PARTIALLY_FILLED, CANCEL_PENDING}
                     then Inl (OrderStateError ''cannot fill order in this state'')
                     else Inr (r, st, prior = None))"

definition record_fill :: "('v, 'b) oms_env \<Rightarrow> fill \<Rightarrow> string \<Rightarrow> (('v, 'b) oms, order) action" where
  "record_fill E f side =
     sbind (spure (admit_fill f side)) (\<lambda>(r, st, new).
     sbind (if new
            then sbind (record_fill_event E f) (\<lambda>ev.
                 sbind (smodify (\<lambda>s. s\<lparr>om_fills := dict_set (venue_fill_id f) f (om_fills s)\<rparr>)) (\<lambda>_. sreturn ev))
            else spure (\<lambda>s. case find_key (fill_key (venue_fill_id f)) (ledger_events (om_ledgers s) NS_ORDER) of
                   None \<Rightarrow> Inl (OrderStateError ''in-memory fill is missing its durable ledger event'')
                 | Some ev \<Rightarrow> Inr ev)) (\<lambda>ev.
     sbind (transition E (artifact_id r) st) (\<lambda>_.
     sbind (publish_event E ev ''fill_recorded'' (artifact_id f)) (\<lambda>_.
       get_order (artifact_id r)))))"

definition cancel_order :: "('v, 'b) oms_env \<Rightarrow> uuid \<Rightarrow> (('v, 'b) oms, order) action" where
  "cancel_order E oid =
     sbind (get_order oid) (\<lambda>r.
     sbind (transition E oid CANCEL_PENDING) (\<lambda>pending. case v_cancel E of
       None \<Rightarrow> sraise (OrderStateError ''venue adapter does not expose cancellation'')
     | Some c \<Rightarrow>
       sbind (catch_as (OrderStateError ''venue cancellation acknowledgement is ambiguous'') (on_venue (c r))) (\<lambda>acc.
         case acc of
           None \<Rightarrow> sraise (OrderStateError ''venue cancellation acknowledgement must be boolean'')
         | Some b \<Rightarrow> if \<not> b then sraise (OrderStateError ''venue rejected cancellation'') else sreturn pending)))"

definition acknowledge_cancel :: "('v, 'b) oms_env \<Rightarrow> uuid \<Rightarrow> (('v, 'b) oms, order) action" where
  "acknowledge_cancel E oid = transition E oid CANCELLED"

definition reconcile_order :: "('v, 'b) oms_env \<Rightarrow> uuid \<Rightarrow> (('v, 'b) oms, order) action" where
  "reconcile_order E oid =
     sbind (get_order oid) (\<lambda>r.
       if ord_state r \<notin> {FILLED, CANCELLED, REJECTED, EXPIRED}
       then sraise (OrderStateError ''order must be terminal before reconciliation'')
       else transition E oid RECONCILED)"

section \<open>Recovery from the ledger\<close>

definition starts_order :: "string \<Rightarrow> bool" where
  "starts_order t = (take 6 t = ''order_'')"

definition hydrate_order :: "('v, 'b) oms_env \<Rightarrow> string \<Rightarrow> order \<Rightarrow> (('v, 'b) oms, unit) action" where
  "hydrate_order E etype r =
     sbind (spure (\<lambda>s. case map_of (om_orders s) (artifact_id r) of
         None \<Rightarrow>
           if etype \<noteq> ''order_created''
           then Inl (OrderStateError ''order ledger contains a transition before order creation'')
           else if ord_state r \<noteq> CREATED
           then Inl (OrderStateError ''order creation ledger entry has a non-created state'')
           else Inr ()
       | Some p \<Rightarrow>
           if etype \<noteq> ''order_ack_ambiguous'' \<and> ord_state r \<notin> set (allowed_transitions (ord_state p))
           then Inl (OrderStateError ''order ledger contains invalid transition'')
           else Inr ())) (\<lambda>_.
     sbind (bind_order E r) (\<lambda>_.
     sbind (set_order (artifact_id r) r) (\<lambda>_.
     smodify (\<lambda>s.
       if etype = ''order_ack_ambiguous''
       then s\<lparr>om_ambiguous := List.insert (artifact_id r) (om_ambiguous s)\<rparr>
       else if etype = ''order_acknowledged''
       then s\<lparr>om_ambiguous := removeAll (artifact_id r) (om_ambiguous s)\<rparr>
       else s))))"

definition hydrate_fill :: "fill \<Rightarrow> (('v, 'b) oms, unit) action" where
  "hydrate_fill f =
     sbind (sget (\<lambda>s. map_of (om_orders s) (fill_order_id f))) (\<lambda>r.
       if r = None then sraise (OrderStateError ''fill ledger entry precedes its order'')
       else smodify (\<lambda>s. s\<lparr>om_fills := dict_set (venue_fill_id f) f (om_fills s)\<rparr>))"

definition hydrate_error :: py_error where
  "hydrate_error = OrderStateError ''order ledger contains an invalid artifact''"

text \<open>
  An event whose payload has no artifact object is skipped.  An artifact of another class does not validate
  as an order or a fill, which is the same error.
\<close>

definition hydrate_event :: "('v, 'b) oms_env \<Rightarrow> ledger_event \<Rightarrow> (('v, 'b) oms, unit) action" where
  "hydrate_event E ev =
     (let art = map_of (ev_payload ev) ''artifact'';
          body = (if starts_order (event_type ev)
                  then (case art of Some (POrder r) \<Rightarrow> hydrate_order E (event_type ev) r
                                  | _ \<Rightarrow> sraise (ValidationError ''order''))
                  else if event_type ev = ''fill_recorded''
                  then (case art of Some (PFill f) \<Rightarrow> hydrate_fill f | _ \<Rightarrow> sraise (ValidationError ''fill''))
                  else sreturn ())
      in case art of
        Some (POrder _) \<Rightarrow> catch_as hydrate_error body
      | Some (PFill _) \<Rightarrow> catch_as hydrate_error body
      | Some (PRecon _) \<Rightarrow> catch_as hydrate_error body
      | _ \<Rightarrow> sreturn ())"

fun hydrate_events :: "('v, 'b) oms_env \<Rightarrow> ledger_event list \<Rightarrow> (('v, 'b) oms, unit) action" where
  "hydrate_events E [] = sreturn ()"
| "hydrate_events E (ev # evs) = sbind (hydrate_event E ev) (\<lambda>_. hydrate_events E evs)"

definition new_order_manager :: "('v, 'b) oms_env \<Rightarrow> ledgers \<Rightarrow> 'v \<Rightarrow> 'b \<Rightarrow> nat \<Rightarrow> unit res \<times> ('v, 'b) oms" where
  "new_order_manager E L v b n =
     hydrate_events E (ledger_events L NS_ORDER)
       \<lparr>om_ledgers = L, om_venue = v, om_bus = b, om_orders = [], om_fills = [], om_ambiguous = [], om_draws = n\<rparr>"

end
