(* ===== verification/Oms_Spec.thy ===== *)
theory Oms_Spec
  imports Oms
begin

text \<open>
  The specification of the order manager: a step relation on its state with one rule per durable effect
  (an order appears, an order moves along an allowed transition, a fill is admitted, a response is lost, a
  lost response is resolved), and the proof that every method of the source is a path of these steps,
  whatever the venue and the bus do and wherever an exception interrupts it.

  With \<open>calm\<close> the relation admits fewer steps: orders appear in state \<open>CREATED\<close>, and no order goes back
  from \<open>CANCEL_PENDING\<close> to \<open>PARTIALLY_FILLED\<close>.
\<close>

section \<open>Steps\<close>

definition same_core :: "('v, 'b) oms \<Rightarrow> ('v, 'b) oms \<Rightarrow> bool" where
  "same_core s t \<longleftrightarrow> om_ledgers t NS_ORDER = om_ledgers s NS_ORDER \<and> om_orders t = om_orders s \<and>
     om_fills t = om_fills s \<and> om_ambiguous t = om_ambiguous s \<and> om_draws t = om_draws s"

inductive oms_step :: "('v, 'b) oms_env \<Rightarrow> bool \<Rightarrow> ('v, 'b) oms \<Rightarrow> ('v, 'b) oms \<Rightarrow> bool"
  for E :: "('v, 'b) oms_env" and calm :: bool where
  outside: "same_core s s' \<Longrightarrow> oms_step E calm s s'"
| refused: "oms_step E calm s (s\<lparr>om_draws := Suc (om_draws s)\<rparr>)"
| created: "\<lbrakk>map_of (om_orders s) (artifact_id r) = None;
     idempotency_key r \<notin> idempotency_key ` snd ` set (om_orders s);
     calm \<longrightarrow> ord_state r = CREATED; record_order E r ''order_created'' s = (Inr ev, s1)\<rbrakk>
   \<Longrightarrow> oms_step E calm s (s1\<lparr>om_orders := dict_set (artifact_id r) r (om_orders s1)\<rparr>)"
| orphaned: "\<lbrakk>v_bind E \<noteq> None; map_of (om_orders s) (artifact_id r) = None;
     record_order E r ''order_created'' s = (Inr ev, s1)\<rbrakk> \<Longrightarrow> oms_step E calm s s1"
| moved: "\<lbrakk>map_of (om_orders s) oid = Some r; st \<in> set (allowed_transitions (ord_state r)); st \<noteq> ord_state r;
     calm \<longrightarrow> \<not> (ord_state r = CANCEL_PENDING \<and> st = PARTIALLY_FILLED);
     record_order E (r\<lparr>ord_state := st\<rparr>) (order_event_type st) s = (Inr ev, s1)\<rbrakk>
   \<Longrightarrow> oms_step E calm s (s1\<lparr>om_orders := dict_set oid (r\<lparr>ord_state := st\<rparr>) (om_orders s1)\<rparr>)"
| lost: "\<lbrakk>map_of (om_orders s) oid = Some r; ord_state r = ROUTED;
     record_order E r ''order_ack_ambiguous''
       (s\<lparr>om_ambiguous := List.insert (artifact_id r) (om_ambiguous s)\<rparr>) = (res, s1)\<rbrakk>
   \<Longrightarrow> oms_step E calm s s1"
| resolved: "oms_step E calm s (s\<lparr>om_ambiguous := removeAll oid (om_ambiguous s)\<rparr>)"
| filled: "\<lbrakk>admit_fill f side s = Inr (r, st, True); record_fill_event E f s = (Inr ev, s1)\<rbrakk>
   \<Longrightarrow> oms_step E calm s (s1\<lparr>om_fills := dict_set (venue_fill_id f) f (om_fills s1)\<rparr>)"

abbreviation oms_path :: "('v, 'b) oms_env \<Rightarrow> bool \<Rightarrow> ('v, 'b) oms \<Rightarrow> ('v, 'b) oms \<Rightarrow> bool" where
  "oms_path E calm \<equiv> (oms_step E calm)\<^sup>*\<^sup>*"

lemma same_core_refl [simp]: "same_core s s"
  by (simp add: same_core_def)

lemma same_core_reflp [simp]: "reflp same_core"
  by (simp add: reflp_def)

lemma same_core_transp [simp]: "transp same_core"
  by (auto simp: transp_def same_core_def)

lemma same_core_fields:
  "same_core s t \<Longrightarrow> om_ledgers t NS_ORDER = om_ledgers s NS_ORDER \<and> om_orders t = om_orders s \<and>
     om_fills t = om_fills s \<and> om_ambiguous t = om_ambiguous s \<and> om_draws t = om_draws s"
  by (simp add: same_core_def)

section \<open>Calls\<close>

text \<open>
  The public methods as data, so that a run is a list of calls.  \<open>Outside\<close> is what happens between calls:
  the venue and the bus move on, and other components write to the other ledgers.
\<close>

datatype ('v, 'b) oms_call =
    Create order
  | Transition uuid order_state
  | ApproveRisk uuid risk_decision "order_risk_check option"
  | Route uuid
  | ReconcileAmbiguous uuid
  | ReconcileRouted uuid
  | ExpireUnacknowledged uuid
  | RecordFill fill string
  | Cancel uuid
  | AcknowledgeCancel uuid
  | Reconcile uuid
  | Outside "'v \<Rightarrow> 'v" "'b \<Rightarrow> 'b" "ledgers \<Rightarrow> ledgers"

primrec perform :: "('v, 'b) oms_env \<Rightarrow> ('v, 'b) oms_call \<Rightarrow> ('v, 'b) oms \<Rightarrow> ('v, 'b) oms" where
  "perform E (Create r) s = snd (create_order E r s)"
| "perform E (Transition i st) s = snd (transition E i st s)"
| "perform E (ApproveRisk i d c) s = snd (approve_risk E i d c s)"
| "perform E (Route i) s = snd (route E i s)"
| "perform E (ReconcileAmbiguous i) s = snd (reconcile_ambiguous E i s)"
| "perform E (ReconcileRouted i) s = snd (reconcile_routed E i s)"
| "perform E (ExpireUnacknowledged i) s = snd (expire_unacknowledged E i s)"
| "perform E (RecordFill f side) s = snd (record_fill E f side s)"
| "perform E (Cancel i) s = snd (cancel_order E i s)"
| "perform E (AcknowledgeCancel i) s = snd (acknowledge_cancel E i s)"
| "perform E (Reconcile i) s = snd (reconcile_order E i s)"
| "perform E (Outside v b L) s = s\<lparr>om_venue := v (om_venue s), om_bus := b (om_bus s),
     om_ledgers := (L (om_ledgers s))(NS_ORDER := om_ledgers s NS_ORDER)\<rparr>"

primrec perform_all :: "('v, 'b) oms_env \<Rightarrow> ('v, 'b) oms_call list \<Rightarrow> ('v, 'b) oms \<Rightarrow> ('v, 'b) oms" where
  "perform_all E [] s = s"
| "perform_all E (c # cs) s = perform_all E cs (perform E c s)"

text \<open>The calls of a calm run.\<close>

definition calm_call :: "('v, 'b) oms_call \<Rightarrow> ('v, 'b) oms \<Rightarrow> bool" where
  "calm_call c s = (case c of
     Create r \<Rightarrow> ord_state r = CREATED
   | Transition i st \<Rightarrow>
       \<not> (st = PARTIALLY_FILLED \<and> map_option ord_state (map_of (om_orders s) i) = Some CANCEL_PENDING)
   | RecordFill f side \<Rightarrow> (case admit_fill f side s of
       Inl _ \<Rightarrow> True | Inr (r, st, _) \<Rightarrow> \<not> (ord_state r = CANCEL_PENDING \<and> st = PARTIALLY_FILLED))
   | _ \<Rightarrow> True)"

fun calm_run :: "('v, 'b) oms_env \<Rightarrow> ('v, 'b) oms_call list \<Rightarrow> ('v, 'b) oms \<Rightarrow> bool" where
  "calm_run E [] s = True"
| "calm_run E (c # cs) s = (calm_call c s \<and> calm_run E cs (perform E c s))"

section \<open>What the parts of the methods change\<close>

lemma moves_same_core_on_venue [simp]: "moves same_core (on_venue m)"
  by (auto intro!: movesI simp: on_venue_def same_core_def split: prod.splits)

lemma moves_same_core_on_bus [simp]: "moves same_core (on_bus m)"
  by (auto intro!: movesI simp: on_bus_def same_core_def split: prod.splits)

lemma moves_publish_event [simp]: "moves same_core (publish_event E ev etype aid)"
  unfolding publish_event_def by (auto split: option.split intro!: moves_sbind)

lemma moves_republish_key [simp]: "moves same_core (republish_key E k etype aid)"
  unfolding republish_key_def by (auto split: option.split intro!: moves_sbind)

lemma moves_bind_order [simp]: "moves same_core (bind_order E r)"
  unfolding bind_order_def by (auto split: option.split)

lemma moves_get_order [simp]: "moves same_core (get_order oid)"
  unfolding get_order_def by simp

lemma moves_query [simp]: "moves same_core (query_venue_acknowledgement E oid)"
  unfolding query_venue_acknowledgement_def
  by (auto split: option.split venue_response.split intro!: moves_sbind)

lemma moves_resolve [simp]: "moves same_core (resolve_acknowledgement E oid msg)"
  unfolding resolve_acknowledgement_def by (auto split: option.split intro!: moves_sbind)

lemma record_artifact_eq:
  "record_artifact E aid v etype k s =
     (let (r, L) = ledger_append (artifact_event E aid v etype k (om_draws s)) (om_ledgers s)
      in (r, s\<lparr>om_draws := Suc (om_draws s), om_ledgers := L\<rparr>))"
  by (simp add: record_artifact_def on_ledgers_def split: prod.splits)

lemma record_artifact_err:
  assumes "record_artifact E aid v etype k s = (Inl err, s')"
  shows "s' = s\<lparr>om_draws := Suc (om_draws s)\<rparr>"
proof -
  obtain r L where a: "ledger_append (artifact_event E aid v etype k (om_draws s)) (om_ledgers s) = (r, L)"
    by (cases "ledger_append (artifact_event E aid v etype k (om_draws s)) (om_ledgers s)")
  from a show ?thesis
    by (cases rule: ledger_append_cases) (use assms a in \<open>auto simp: record_artifact_eq\<close>)
qed

lemmas record_defs = record_order_def record_fill_event_def

lemma transition_cases:
  assumes "transition E oid st s = (res, s')"
  obtains (same) "same_core s s'" "\<And>x. res = Inr x \<Longrightarrow> map_of (om_orders s) oid = Some x \<and> ord_state x = st"
  | (refused) err where "same_core (s\<lparr>om_draws := Suc (om_draws s)\<rparr>) s'" "res = Inl err"
  | (moved) r ev s1 where "map_of (om_orders s) oid = Some r" "st \<in> set (allowed_transitions (ord_state r))"
      "st \<noteq> ord_state r" "record_order E (r\<lparr>ord_state := st\<rparr>) (order_event_type st) s = (Inr ev, s1)"
      "same_core (s1\<lparr>om_orders := dict_set oid (r\<lparr>ord_state := st\<rparr>) (om_orders s1)\<rparr>) s'"
      "\<And>x. res = Inr x \<Longrightarrow> x = r\<lparr>ord_state := st\<rparr>"
proof (cases "map_of (om_orders s) oid")
  case None
  with assms have "same_core s s'" "\<not> is_ok res" by (auto simp: transition_def get_order_def)
  with None show thesis by (intro same) auto
next
  case (Some r)
  show thesis
  proof (cases "st = ord_state r")
    case True
    have "moves same_core (sbind (republish_key E (order_key r (order_event_type st)) (order_event_type st) (artifact_id r)) (\<lambda>_. sreturn r))"
      by (intro moves_sbind) auto
    then have "same_core s s'"
      using assms Some True by (auto simp: transition_def get_order_def dest: movesD)
    moreover have "x = r" if "res = Inr x" for x
      using assms Some True that by (auto simp: transition_def get_order_def sbind_eq_Inr)
    ultimately show thesis using Some True by (intro same) auto
  next
    case ne: False
    show thesis
    proof (cases "st \<in> set (allowed_transitions (ord_state r))")
      case False
      then show thesis using assms Some ne by (intro same) (auto simp: transition_def get_order_def)
    next
      case True
      obtain a s1 where rec: "record_order E (r\<lparr>ord_state := st\<rparr>) (order_event_type st) s = (a, s1)" by fastforce
      show thesis
      proof (cases a)
        case (Inl err)
        then have "s1 = s\<lparr>om_draws := Suc (om_draws s)\<rparr>"
          using rec record_artifact_err by (auto simp: record_defs)
        then show thesis using assms Some ne True rec Inl
          by (intro refused [of err]) (auto simp: transition_def get_order_def Let_def sbind_err)
      next
        case (Inr ev)
        let ?u = "r\<lparr>ord_state := st\<rparr>"
        let ?t = "s1\<lparr>om_orders := dict_set oid ?u (om_orders s1)\<rparr>"
        have "moves same_core (sbind (publish_event E ev (order_event_type st) (artifact_id ?u)) (\<lambda>_. sreturn ?u))"
          by (intro moves_sbind) auto
        moreover have "sbind (publish_event E ev (order_event_type st) (artifact_id ?u)) (\<lambda>_. sreturn ?u) ?t = (res, s')"
          using assms Some ne True rec Inr
          by (simp add: transition_def get_order_def Let_def set_order_def sbind_apply [of "record_order E u t" for u t])
        ultimately have "same_core ?t s'" by (rule movesD)
        moreover have "x = ?u" if "res = Inr x" for x
          using assms Some ne True that by (auto simp: transition_def get_order_def Let_def sbind_eq_Inr)
        ultimately show thesis using Some True ne rec Inr by (intro moved) auto
      qed
    qed
  qed
qed

section \<open>Every method is a path of steps\<close>

lemma path_same_core: "same_core s s' \<Longrightarrow> oms_path E calm s s'"
  by (rule r_into_rtranclp) (rule oms_step.outside)

lemma path_step: "oms_step E calm s s1 \<Longrightarrow> same_core s1 s' \<Longrightarrow> oms_path E calm s s'"
  by (meson converse_rtranclp_into_rtranclp path_same_core)

lemma moves_path: "moves same_core m \<Longrightarrow> moves (oms_path E calm) m"
  by (simp add: moves_def path_same_core)

lemma path_transp: "transp (oms_path E calm)" and path_reflp: "reflp (oms_path E calm)"
  by (auto simp: transp_def reflp_def)

lemmas path_intros = moves_sbind [OF path_transp] moves_basic [OF path_reflp]

lemma transition_path:
  assumes "transition E oid st s = (res, s')"
    and "calm \<Longrightarrow> \<not> (st = PARTIALLY_FILLED \<and> map_option ord_state (map_of (om_orders s) oid) = Some CANCEL_PENDING)"
  shows "oms_path E calm s s'"
  using assms(1)
proof (cases rule: transition_cases)
  case (moved r ev s1)
  then show ?thesis
    using assms(2) by (intro path_step [OF oms_step.moved [of s oid r st calm E ev s1]]) auto
qed (auto intro: path_same_core path_step oms_step.refused)

lemma moves_transition: "st \<noteq> PARTIALLY_FILLED \<Longrightarrow> moves (oms_path E calm) (transition E oid st)"
  by (rule movesI) (metis prod.collapse transition_path)

lemma record_artifact_refused:
  "record_artifact E aid v etype k s = (Inl err, s') \<Longrightarrow> oms_path E calm s s'"
  using record_artifact_err oms_step.refused by (metis r_into_rtranclp)

lemma create_path:
  assumes "create_order E r s = (res, s')" and "calm \<Longrightarrow> ord_state r = CREATED"
  shows "oms_path E calm s s'"
proof (cases "map_of (om_orders s) (artifact_id r)")
  case (Some x)
  have "moves same_core (if logical_order x \<noteq> logical_order r then sraise (OrderStateError ''order artifact ID is immutable'')
     else sbind (republish_key E (order_key x ''order_created'') ''order_created'' (artifact_id x)) (\<lambda>_. sreturn x))"
    by (auto intro!: moves_sbind)
  then show ?thesis using assms(1) Some by (auto simp: create_order_def dest!: movesD intro: path_same_core)
next
  case None
  show ?thesis
  proof (cases "find (\<lambda>p. idempotency_key p = idempotency_key r) (map snd (om_orders s))")
    case (Some x)
    have "moves same_core (if logical_order x \<noteq> logical_order r
       then sraise (OrderStateError ''idempotency key reused for different order'')
       else sbind (republish_key E (order_key r ''order_created'') ''order_created'' (artifact_id x)) (\<lambda>_. sreturn x))"
      by (auto intro!: moves_sbind)
    then show ?thesis using assms(1) None Some
      by (auto simp: create_order_def dest!: movesD intro: path_same_core)
  next
    case new: None
    obtain a s1 where rec: "record_order E r ''order_created'' s = (a, s1)" by fastforce
    show ?thesis
    proof (cases a)
      case (Inl err)
      have "s' = s1" using assms(1) None new rec Inl
        by (auto simp: create_order_def sbind_apply [of "record_order E u t" for u t])
      then show ?thesis using rec Inl by (auto simp: record_defs intro: record_artifact_refused)
    next
      case (Inr ev)
      obtain b s2 where bind: "bind_order E r s1 = (b, s2)" by fastforce
      have c2: "same_core s1 s2" using bind moves_bind_order movesD by metis
      let ?s3 = "s2\<lparr>om_orders := dict_set (artifact_id r) r (om_orders s2)\<rparr>"
      have rest: "sbind (bind_order E r) (\<lambda>_. sbind (set_order (artifact_id r) r) (\<lambda>_.
          sbind (publish_event E ev ''order_created'' (artifact_id r)) (\<lambda>_. sreturn r))) s1 = (res, s')"
        using assms(1) None new rec Inr
        by (simp add: create_order_def sbind_apply [of "record_order E u t" for u t])
      show ?thesis
      proof (cases b)
        case (Inl err)
        then have "v_bind E \<noteq> None" using bind by (cases "v_bind E") (auto simp: bind_order_def)
        moreover have "s' = s2" using rest bind Inl by (simp add: sbind_err)
        ultimately show ?thesis
          using None rec Inr c2 by (intro path_step [OF oms_step.orphaned]) auto
      next
        case b: (Inr u)
        have "moves same_core (sbind (publish_event E ev ''order_created'' (artifact_id r)) (\<lambda>_. sreturn r))"
          by (intro moves_sbind) auto
        moreover have "sbind (publish_event E ev ''order_created'' (artifact_id r)) (\<lambda>_. sreturn r) ?s3 = (res, s')"
          using rest bind b by (simp add: sbind_apply [of "bind_order E r"] set_order_def)
        ultimately have "same_core ?s3 s'" by (rule movesD)
        then have fin: "same_core (s1\<lparr>om_orders := dict_set (artifact_id r) r (om_orders s1)\<rparr>) s'"
          using c2 by (simp add: same_core_def)
        have "idempotency_key r \<notin> idempotency_key ` snd ` set (om_orders s)"
          using new by (force simp: find_None_iff)
        then show ?thesis
          using None rec Inr assms(2) by (intro path_step [OF oms_step.created fin]) auto
      qed
    qed
  qed
qed

lemma transition_result:
  assumes "transition E oid st s = (Inr r, s')"
  shows "map_of (om_orders s') oid = Some r" "ord_state r = st"
  using assms by (cases rule: transition_cases; auto simp: same_core_def)+

text \<open>The part of \<open>route\<close> after the order has been marked as routed.\<close>

definition submit_routed :: "('v, 'b) oms_env \<Rightarrow> order \<Rightarrow> (('v, 'b) oms, ack option) action" where
  "submit_routed E r = (\<lambda>s. case on_venue (v_submit E r) s of
     (Inl AmbiguousAcknowledgement, s1) \<Rightarrow>
       sbind (smodify (\<lambda>s. s\<lparr>om_ambiguous := List.insert (artifact_id r) (om_ambiguous s)\<rparr>)) (\<lambda>_.
       sbind (record_order E r ''order_ack_ambiguous'') (\<lambda>ev.
       sbind (publish_event E ev ''order_ack_ambiguous'' (artifact_id r)) (\<lambda>_. sreturn None))) s1
   | (Inl err, s1) \<Rightarrow> (Inl err, s1)
   | (Inr a, s1) \<Rightarrow>
       (if ack_order_id a \<noteq> artifact_id r
        then sraise (OrderStateError ''venue acknowledgement references a different order'')
        else sbind (transition E (artifact_id r) (if ack_accepted a then ACKNOWLEDGED else REJECTED))
               (\<lambda>_. sreturn (Some a))) s1)"

lemma route_eq:
  "route E oid = sbind (sget om_ambiguous) (\<lambda>amb.
     if oid \<in> set amb
     then sraise (OrderStateError ''ambiguous acknowledgement requires venue reconciliation before retry'')
     else sbind (get_order oid) (\<lambda>r0.
       if ord_state r0 = ROUTED
       then sraise (OrderStateError ''routed order requires venue reconciliation before retry'')
       else sbind (transition E oid ROUTED) (submit_routed E)))"
  unfolding route_def submit_routed_def by (rule refl)

lemma submit_lost_path:
  assumes "sbind (smodify (\<lambda>s. s\<lparr>om_ambiguous := List.insert (artifact_id r) (om_ambiguous s)\<rparr>)) (\<lambda>_.
       sbind (record_order E r ''order_ack_ambiguous'') (\<lambda>ev.
       sbind (publish_event E ev ''order_ack_ambiguous'' (artifact_id r)) (\<lambda>_. sreturn (None :: ack option)))) s = (res, s')"
    and "map_of (om_orders s) oid = Some r" "ord_state r = ROUTED"
  shows "oms_path E calm s s'"
proof -
  let ?s1 = "s\<lparr>om_ambiguous := List.insert (artifact_id r) (om_ambiguous s)\<rparr>"
  obtain a s2 where rec: "record_order E r ''order_ack_ambiguous'' ?s1 = (a, s2)" by fastforce
  have st: "oms_step E calm s s2" using assms(2,3) rec by (rule oms_step.lost)
  show ?thesis
  proof (cases a)
    case (Inl e)
    then have "s' = s2" using assms(1) rec by (simp add: sbind_apply [of "record_order E u t" for u t])
    with st show ?thesis by (simp add: r_into_rtranclp)
  next
    case (Inr ev)
    have "moves same_core (sbind (publish_event E ev ''order_ack_ambiguous'' (artifact_id r)) (\<lambda>_. sreturn (None :: ack option)))"
      by (intro moves_sbind) auto
    moreover have "sbind (publish_event E ev ''order_ack_ambiguous'' (artifact_id r)) (\<lambda>_. sreturn None) s2 = (res, s')"
      using assms(1) rec Inr by (simp add: sbind_apply [of "record_order E u t" for u t])
    ultimately have "same_core s2 s'" by (rule movesD)
    with st show ?thesis by (rule path_step)
  qed
qed

lemma submit_routed_path:
  assumes sub: "submit_routed E r s = (res, s')" and r: "map_of (om_orders s) oid = Some r" "ord_state r = ROUTED"
  shows "oms_path E calm s s'"
proof -
  obtain a s1 where v: "on_venue (v_submit E r) s = (a, s1)" by fastforce
  have c: "same_core s s1" using v moves_same_core_on_venue movesD by metis
  have r1: "map_of (om_orders s1) oid = Some r" using c r(1) by (simp add: same_core_def)
  have "oms_path E calm s1 s'"
  proof (cases a)
    case (Inl e)
    show ?thesis
    proof (cases "e = AmbiguousAcknowledgement")
      case True
      with sub v Inl have "sbind (smodify (\<lambda>s. s\<lparr>om_ambiguous := List.insert (artifact_id r) (om_ambiguous s)\<rparr>)) (\<lambda>_.
         sbind (record_order E r ''order_ack_ambiguous'') (\<lambda>ev.
         sbind (publish_event E ev ''order_ack_ambiguous'' (artifact_id r)) (\<lambda>_. sreturn None))) s1 = (res, s')"
        by (simp add: submit_routed_def)
      then show ?thesis using r1 r(2) by (rule submit_lost_path)
    next
      case False
      with sub v Inl show ?thesis by (cases e) (auto simp: submit_routed_def)
    qed
  next
    case (Inr b)
    have "moves (oms_path E calm) (if ack_order_id b \<noteq> artifact_id r
        then sraise (OrderStateError ''venue acknowledgement references a different order'')
        else sbind (transition E (artifact_id r) (if ack_accepted b then ACKNOWLEDGED else REJECTED)) (\<lambda>_. sreturn (Some b)))"
      by (auto intro!: path_intros moves_transition)
    then show ?thesis using sub v Inr by (auto simp: submit_routed_def dest: movesD)
  qed
  then show ?thesis using path_same_core [OF c] by (rule rtranclp_trans [rotated])
qed

lemma moves_route: "moves (oms_path E calm) (route E oid)"
proof -
  have "moves (oms_path E calm) (sbind (transition E oid ROUTED) (submit_routed E))"
  proof (rule movesI)
    fix s
    obtain a s1 where t: "transition E oid ROUTED s = (a, s1)" by fastforce
    have p: "oms_path E calm s s1" using t moves_transition [of ROUTED] movesD by fastforce
    show "oms_path E calm s (snd (sbind (transition E oid ROUTED) (submit_routed E) s))"
    proof (cases a)
      case (Inl e)
      with t p show ?thesis by (simp add: sbind_err)
    next
      case (Inr r)
      obtain res s2 where u: "submit_routed E r s1 = (res, s2)" by fastforce
      have "oms_path E calm s1 s2"
        using u transition_result [OF t [unfolded Inr]] by (rule submit_routed_path)
      then show ?thesis using t Inr u p by (simp add: sbind_apply)
    qed
  qed
  then show ?thesis
    unfolding route_eq by (auto intro!: path_intros moves_path [OF moves_get_order])
qed

lemma moves_approve_risk: "moves (oms_path E calm) (approve_risk E oid d c)"
  unfolding approve_risk_def
  by (auto simp: path_reflp split: option.split intro: moves_transition)

lemma moves_drop_ambiguous: "moves (oms_path E calm) (smodify (\<lambda>s. s\<lparr>om_ambiguous := removeAll oid (om_ambiguous s)\<rparr>))"
  by (auto intro!: movesI r_into_rtranclp oms_step.resolved)

lemma moves_reconcile_ambiguous: "moves (oms_path E calm) (reconcile_ambiguous E oid)"
  unfolding reconcile_ambiguous_def
  by (auto intro!: path_intros moves_path [OF moves_resolve] moves_transition moves_drop_ambiguous split: if_splits)

lemma moves_reconcile_routed: "moves (oms_path E calm) (reconcile_routed E oid)"
  unfolding reconcile_routed_def
  by (auto intro!: path_intros moves_path [OF moves_resolve] moves_path [OF moves_get_order] moves_transition split: if_splits)

lemma moves_expire: "moves (oms_path E calm) (expire_unacknowledged E oid)"
  unfolding expire_unacknowledged_def
  by (auto intro!: path_intros moves_path [OF moves_get_order] moves_transition)

lemma moves_reconcile_order: "moves (oms_path E calm) (reconcile_order E oid)"
  unfolding reconcile_order_def
  by (auto intro!: path_intros moves_path [OF moves_get_order] moves_transition)

lemma moves_catch_as: "moves R m \<Longrightarrow> moves R (catch_as err m)"
  by (auto simp: moves_def catch_as_def split: prod.split sum.split) (metis snd_conv)+

lemma moves_cancel: "moves (oms_path E calm) (cancel_order E oid)"
  unfolding cancel_order_def
  by (auto intro!: path_intros moves_path [OF moves_get_order] moves_transition
        moves_path [OF moves_catch_as [OF moves_same_core_on_venue]] split: option.split)

text \<open>The part of \<open>record_fill\<close> after the fill is durable.\<close>

definition finish_fill ::
  "('v, 'b) oms_env \<Rightarrow> fill \<Rightarrow> order \<Rightarrow> order_state \<Rightarrow> ledger_event \<Rightarrow> (('v, 'b) oms, order) action" where
  "finish_fill E f r st ev =
     sbind (transition E (artifact_id r) st) (\<lambda>_.
     sbind (publish_event E ev ''fill_recorded'' (artifact_id f)) (\<lambda>_. get_order (artifact_id r)))"

lemma finish_fill_path:
  assumes "finish_fill E f r st ev s = (res, s')"
    and "calm \<Longrightarrow> \<not> (st = PARTIALLY_FILLED \<and> map_option ord_state (map_of (om_orders s) (artifact_id r)) = Some CANCEL_PENDING)"
  shows "oms_path E calm s s'"
proof -
  obtain a s1 where t: "transition E (artifact_id r) st s = (a, s1)" by fastforce
  have p: "oms_path E calm s s1" using t assms(2) by (rule transition_path)
  show ?thesis
  proof (cases a)
    case (Inl e)
    then show ?thesis using assms(1) t p by (simp add: finish_fill_def sbind_err)
  next
    case (Inr u)
    have "moves same_core (sbind (publish_event E ev ''fill_recorded'' (artifact_id f)) (\<lambda>_. get_order (artifact_id r)))"
      by (intro moves_sbind) auto
    then have "same_core s1 s'"
      using assms(1) t Inr by (auto simp: finish_fill_def sbind_apply [of "transition E i u" for i u] dest: movesD)
    then show ?thesis using p path_same_core by (meson rtranclp_trans)
  qed
qed

lemma record_fill_eq:
  "record_fill E f side = sbind (spure (admit_fill f side)) (\<lambda>(r, st, new).
     sbind (if new
            then sbind (record_fill_event E f) (\<lambda>ev.
                 sbind (smodify (\<lambda>s. s\<lparr>om_fills := dict_set (venue_fill_id f) f (om_fills s)\<rparr>)) (\<lambda>_. sreturn ev))
            else spure (\<lambda>s. case find_key (fill_key (venue_fill_id f)) (ledger_events (om_ledgers s) NS_ORDER) of
                   None \<Rightarrow> Inl (OrderStateError ''in-memory fill is missing its durable ledger event'')
                 | Some ev \<Rightarrow> Inr ev)) (finish_fill E f r st))"
  unfolding record_fill_def finish_fill_def by (rule refl)

lemma admit_fill_order:
  "admit_fill f side s = Inr (r, st, new) \<Longrightarrow> map_of (om_orders s) (fill_order_id f) = Some r"
  by (auto simp: admit_fill_def Let_def split: if_splits option.splits)

lemma record_artifact_core:
  "record_artifact E aid v etype k s = (res, s') \<Longrightarrow>
   om_orders s' = om_orders s \<and> om_fills s' = om_fills s \<and> om_ambiguous s' = om_ambiguous s \<and>
   om_venue s' = om_venue s \<and> om_bus s' = om_bus s"
  by (auto simp: record_artifact_eq split: prod.splits)

lemma record_fill_path:
  assumes f: "record_fill E f side s = (res, s')"
    and ids: "\<And>oid r. map_of (om_orders s) oid = Some r \<Longrightarrow> artifact_id r = oid"
    and calm: "calm \<Longrightarrow> calm_call (RecordFill f side) s"
  shows "oms_path E calm s s'"
proof (cases "admit_fill f side s")
  case (Inl e)
  then show ?thesis using f by (simp add: record_fill_eq)
next
  case (Inr y)
  obtain r st new where y: "y = (r, st, new)" by (cases y)
  have r: "map_of (om_orders s) (artifact_id r) = Some r"
    using admit_fill_order [OF Inr [unfolded y]] ids by metis
  have ok: "calm \<Longrightarrow> \<not> (st = PARTIALLY_FILLED \<and> map_option ord_state (map_of (om_orders s) (artifact_id r)) = Some CANCEL_PENDING)"
    using calm Inr y r by (auto simp: calm_call_def)
  show ?thesis
  proof (cases new)
    case False
    show ?thesis
    proof (cases "find_key (fill_key (venue_fill_id f)) (ledger_events (om_ledgers s) NS_ORDER)")
      case None
      then show ?thesis using f Inr y False by (simp add: record_fill_eq)
    next
      case (Some ev)
      then have "finish_fill E f r st ev s = (res, s')" using f Inr y False by (simp add: record_fill_eq)
      then show ?thesis using ok by (rule finish_fill_path)
    qed
  next
    case True
    obtain a s1 where rec: "record_fill_event E f s = (a, s1)" by fastforce
    show ?thesis
    proof (cases a)
      case (Inl e)
      then have "s' = s1" using f Inr y True rec
        by (simp add: record_fill_eq sbind_apply [of "record_fill_event E f"] sbind_apply [of "sbind m g" for m g])
      then show ?thesis using rec Inl by (auto simp: record_defs intro: record_artifact_refused)
    next
      case a: (Inr ev)
      let ?s2 = "s1\<lparr>om_fills := dict_set (venue_fill_id f) f (om_fills s1)\<rparr>"
      have fin: "finish_fill E f r st ev ?s2 = (res, s')" using f Inr y True rec a
        by (simp add: record_fill_eq sbind_apply [of "record_fill_event E f"] sbind_apply [of "sbind m g" for m g])
      have "om_orders s1 = om_orders s" using rec by (auto simp: record_defs dest: record_artifact_core)
      then have "oms_path E calm ?s2 s'" using ok by (intro finish_fill_path [OF fin]) auto
      moreover have "oms_step E calm s ?s2"
        using Inr y True rec a by (intro oms_step.filled) auto
      ultimately show ?thesis by (meson converse_rtranclp_into_rtranclp)
    qed
  qed
qed

text \<open>Each method refines the step relation.\<close>

lemma moves_apply: "moves R m \<Longrightarrow> R s (snd (m s))"
  by (simp add: moves_def)

lemmas method_paths =
  moves_approve_risk [THEN moves_apply] moves_route [THEN moves_apply]
  moves_reconcile_ambiguous [THEN moves_apply] moves_reconcile_routed [THEN moves_apply]
  moves_expire [THEN moves_apply] moves_cancel [THEN moves_apply] moves_reconcile_order [THEN moves_apply]
  moves_transition [of CANCELLED, simplified, THEN moves_apply]

lemma perform_path:
  assumes "\<And>oid r. map_of (om_orders s) oid = Some r \<Longrightarrow> artifact_id r = oid"
    and "calm \<Longrightarrow> calm_call c s"
  shows "oms_path E calm s (perform E c s)"
proof (cases c)
  case (Create r)
  have "create_order E r s = (fst (create_order E r s), snd (create_order E r s))" by simp
  then have "oms_path E calm s (snd (create_order E r s))"
    by (rule create_path) (use assms(2) Create in \<open>simp add: calm_call_def\<close>)
  then show ?thesis using Create by simp
next
  case (Transition i st)
  have "transition E i st s = (fst (transition E i st s), snd (transition E i st s))" by simp
  then have "oms_path E calm s (snd (transition E i st s))"
    by (rule transition_path) (use assms(2) Transition in \<open>simp add: calm_call_def\<close>)
  then show ?thesis using Transition by simp
next
  case (RecordFill f side)
  have "record_fill E f side s = (fst (record_fill E f side s), snd (record_fill E f side s))" by simp
  then have "oms_path E calm s (snd (record_fill E f side s))"
    by (rule record_fill_path) (use assms RecordFill in auto)
  then show ?thesis using RecordFill by simp
next
  case (Outside v b L)
  then show ?thesis by (auto intro: path_same_core simp: same_core_def)
qed (auto simp: acknowledge_cancel_def intro: method_paths)

end
