(* ===== verification/Oms_Invariant.thy ===== *)
theory Oms_Invariant
  imports Oms_Spec
begin

text \<open>
  Invariants of the order manager, by rule induction over its step relation, and what they give for every
  run of calls: identities and keys stay unique, no order is filled beyond its quantity, everything in the
  projection is on the ledger, the ledger only grows, an order changes in nothing but its state and only
  along allowed transitions.
\<close>

section \<open>Recording an artifact\<close>

definition art_payload :: "pval \<Rightarrow> uuid \<Rightarrow> payload" where
  "art_payload v aid = [(''artifact'', v), (''artifact_id'', PUuid aid)]"

lemma payload_json_art [simp]: "payload_json (art_payload v aid) = art_payload v aid"
  by (simp add: payload_json_def art_payload_def less_eq_char_def)

lemma artifact_event_fields [simp]:
  "ev_key (artifact_event E aid v etype k n) = k" "event_type (artifact_event E aid v etype k n) = etype"
  "event_id (artifact_event E aid v etype k n) = e_uuid E n"
  "ev_namespace (artifact_event E aid v etype k n) = NS_ORDER"
  "ev_payload (artifact_event E aid v etype k n) = art_payload v aid"
  by (simp_all add: artifact_event_def art_payload_def)

definition has_row :: "ledger_event list \<Rightarrow> string \<Rightarrow> string \<Rightarrow> pval \<Rightarrow> uuid \<Rightarrow> bool" where
  "has_row rows k etype v aid \<longleftrightarrow>
     (\<exists>row \<in> set rows. ev_key row = k \<and> event_type row = etype \<and> ev_payload row = art_payload v aid)"

lemma has_row_append: "has_row rows k etype v aid \<Longrightarrow> has_row (rows @ ys) k etype v aid"
  by (auto simp: has_row_def)

lemma record_artifact_cases:
  assumes "record_artifact E aid v etype k s = (res, s')"
  obtains (known) ev where "res = Inr ev" "om_ledgers s' = om_ledgers s" "om_draws s' = Suc (om_draws s)"
      "has_row (om_ledgers s NS_ORDER) k etype v aid"
  | (new) row where "res = Inr (artifact_event E aid v etype k (om_draws s))" "om_draws s' = Suc (om_draws s)"
      "om_ledgers s' = (om_ledgers s)(NS_ORDER := om_ledgers s NS_ORDER @ [row])"
      "row = stored (artifact_event E aid v etype k (om_draws s))"
      "k \<notin> ev_key ` set (om_ledgers s NS_ORDER)" "e_uuid E (om_draws s) \<notin> event_id ` set (om_ledgers s NS_ORDER)"
  | (refused) err where "res = Inl err" "s' = s\<lparr>om_draws := Suc (om_draws s)\<rparr>"
proof -
  let ?ev = "artifact_event E aid v etype k (om_draws s)"
  obtain r L where a: "ledger_append ?ev (om_ledgers s) = (r, L)" by (cases "ledger_append ?ev (om_ledgers s)")
  have s': "s' = s\<lparr>om_draws := Suc (om_draws s), om_ledgers := L\<rparr>" "res = r"
    using assms a by (simp_all add: record_artifact_eq)
  from a show thesis
  proof (cases rule: ledger_append_cases)
    case (prior row)
    then show thesis using s' by (intro known [of row]) (auto simp: has_row_def same_content_def)
  next
    case new
    then show thesis using s' by (intro that(2) [of "stored ?ev"]) auto
  next
    case (conflict msg)
    then show thesis using s' by (intro refused) auto
  qed
qed

lemma has_row_new: "has_row (rows @ [stored (artifact_event E aid v etype k n)]) k etype v aid"
  by (simp add: has_row_def)

lemma record_artifact_row:
  "record_artifact E aid v etype k s = (Inr ev, s') \<Longrightarrow> has_row (om_ledgers s' NS_ORDER) k etype v aid"
  by (erule record_artifact_cases) (auto intro: has_row_new)

lemma record_artifact_prefix:
  "record_artifact E aid v etype k s = (res, s') \<Longrightarrow> \<exists>ys. om_ledgers s' NS_ORDER = om_ledgers s NS_ORDER @ ys"
  by (erule record_artifact_cases) auto

lemma record_artifact_rows_ok:
  "record_artifact E aid v etype k s = (res, s') \<Longrightarrow> rows_ok (om_ledgers s NS_ORDER) \<Longrightarrow>
   rows_ok (om_ledgers s' NS_ORDER)"
  by (erule record_artifact_cases) (auto simp: rows_ok_def)

section \<open>The ledger only grows\<close>

lemma step_prefix: "oms_step E calm s s' \<Longrightarrow> \<exists>ys. om_ledgers s' NS_ORDER = om_ledgers s NS_ORDER @ ys"
  by (cases rule: oms_step.cases, assumption)
     (auto simp: same_core_def record_defs dest!: record_artifact_prefix)

lemma path_prefix: "oms_path E calm s s' \<Longrightarrow> \<exists>ys. om_ledgers s' NS_ORDER = om_ledgers s NS_ORDER @ ys"
  by (induction rule: rtranclp_induct) (auto dest: step_prefix)

section \<open>The books\<close>

definition oms_ids_ok :: "('v, 'b) oms \<Rightarrow> bool" where
  "oms_ids_ok s \<longleftrightarrow> dict_ok (om_orders s) \<and> dict_ok (om_fills s) \<and>
     (\<forall>(i, r) \<in> set (om_orders s). artifact_id r = i) \<and>
     distinct (map (idempotency_key \<circ> snd) (om_orders s)) \<and>
     (\<forall>(v, f) \<in> set (om_fills s). venue_fill_id f = v \<and> dict_has (om_orders s) (fill_order_id f))"

definition oms_durable :: "('v, 'b) oms \<Rightarrow> bool" where
  "oms_durable s \<longleftrightarrow> rows_ok (om_ledgers s NS_ORDER) \<and>
     (\<forall>(i, r) \<in> set (om_orders s). \<exists>k etype. has_row (om_ledgers s NS_ORDER) k etype (POrder r) (artifact_id r)) \<and>
     (\<forall>(v, f) \<in> set (om_fills s).
        has_row (om_ledgers s NS_ORDER) (fill_key v) ''fill_recorded'' (PFill f) (artifact_id f))"

definition oms_quantities_ok :: "('v, 'b) oms \<Rightarrow> bool" where
  "oms_quantities_ok s \<longleftrightarrow> (\<forall>i r. map_of (om_orders s) i = Some r \<longrightarrow> order_fills i (om_fills s) \<noteq> [] \<longrightarrow>
     dle (filled_quantity i (om_fills s)) (ord_quantity r))"

definition oms_ok :: "('v, 'b) oms \<Rightarrow> bool" where
  "oms_ok s \<longleftrightarrow> oms_ids_ok s \<and> oms_durable s \<and> oms_quantities_ok s"

lemma oms_ids: "oms_ids_ok s \<Longrightarrow> map_of (om_orders s) oid = Some r \<Longrightarrow> artifact_id r = oid"
  by (auto simp: oms_ids_ok_def dest!: map_of_SomeD)

lemma dict_set_keys_map:
  "dict_ok d \<Longrightarrow> map_of d k = Some x \<Longrightarrow> g y = g x \<Longrightarrow> map (g \<circ> snd) (dict_set k y d) = map (g \<circ> snd) d"
  by (induction d) (auto simp: dict_ok_def)

lemma dict_has_set [simp]: "dict_has (dict_set k v d) j \<longleftrightarrow> j = k \<or> dict_has d j"
  by (simp add: dict_has_def)

lemma ids_ok_core: "oms_ids_ok s \<Longrightarrow> om_orders t = om_orders s \<Longrightarrow> om_fills t = om_fills s \<Longrightarrow> oms_ids_ok t"
  by (simp add: oms_ids_ok_def)

lemma ids_ok_add_order:
  assumes "oms_ids_ok s" "map_of (om_orders s) (artifact_id r) = None"
    "idempotency_key r \<notin> idempotency_key ` snd ` set (om_orders s)"
    "om_orders t = dict_set (artifact_id r) r (om_orders s)" "om_fills t = om_fills s"
  shows "oms_ids_ok t"
  using assms by (auto simp: oms_ids_ok_def dict_set_new dict_ok_def map_of_eq_None_iff dict_has_def image_image)

lemma ids_ok_set_order:
  assumes "oms_ids_ok s" "map_of (om_orders s) i = Some r"
    "om_orders t = dict_set i (r\<lparr>ord_state := st\<rparr>) (om_orders s)" "om_fills t = om_fills s"
  shows "oms_ids_ok t"
proof -
  have "artifact_id (r\<lparr>ord_state := st\<rparr>) = i" using assms(1,2) oms_ids by auto
  moreover have "distinct (map (idempotency_key \<circ> snd) (dict_set i (r\<lparr>ord_state := st\<rparr>) (om_orders s)))"
    using assms(1,2) by (subst dict_set_keys_map) (auto simp: oms_ids_ok_def)
  ultimately show ?thesis
    using assms by (auto simp: oms_ids_ok_def dict_ok_set_iff split: if_splits)
qed

lemma ids_ok_add_fill:
  assumes "oms_ids_ok s" "dict_has (om_orders s) (fill_order_id f)"
    "om_orders t = om_orders s" "om_fills t = dict_set (venue_fill_id f) f (om_fills s)"
  shows "oms_ids_ok t"
  using assms by (auto simp: oms_ids_ok_def dict_ok_set_iff split: if_splits)

lemma admit_fill_has: "admit_fill f side s = Inr (r, st, new) \<Longrightarrow> dict_has (om_orders s) (fill_order_id f)"
  using admit_fill_order by (fastforce simp: dict_has_def)

lemma step_ids_ok:
  assumes "oms_step E calm s s'" "oms_ids_ok s" shows "oms_ids_ok s'"
  using assms(1)
proof cases
  case (created r ev s1)
  then have "om_orders s' = dict_set (artifact_id r) r (om_orders s)" "om_fills s' = om_fills s"
    by (auto simp: record_defs dest!: record_artifact_core)
  with assms(2) created(2,3) show ?thesis by (rule ids_ok_add_order)
next
  case (moved oid r st ev s1)
  then have "om_orders s' = dict_set oid (r\<lparr>ord_state := st\<rparr>) (om_orders s)" "om_fills s' = om_fills s"
    by (auto simp: record_defs dest!: record_artifact_core)
  with assms(2) moved(2) show ?thesis by (rule ids_ok_set_order)
next
  case (filled f side r st ev s1)
  then have "om_orders s' = om_orders s" "om_fills s' = dict_set (venue_fill_id f) f (om_fills s)"
    by (auto simp: record_defs dest!: record_artifact_core)
  with assms(2) admit_fill_has [OF filled(2)] show ?thesis by (rule ids_ok_add_fill)
qed (auto intro!: ids_ok_core [OF assms(2)] simp: same_core_def record_defs dest!: record_artifact_core)

lemma durable_mono:
  assumes "oms_durable s" "om_ledgers t NS_ORDER = om_ledgers s NS_ORDER @ ys" "rows_ok (om_ledgers t NS_ORDER)"
    "\<And>i r. (i, r) \<in> set (om_orders t) \<Longrightarrow> (i, r) \<in> set (om_orders s) \<or>
        (\<exists>k etype. has_row (om_ledgers t NS_ORDER) k etype (POrder r) (artifact_id r))"
    "\<And>v f. (v, f) \<in> set (om_fills t) \<Longrightarrow> (v, f) \<in> set (om_fills s) \<or>
        has_row (om_ledgers t NS_ORDER) (fill_key v) ''fill_recorded'' (PFill f) (artifact_id f)"
  shows "oms_durable t"
  unfolding oms_durable_def
proof (intro conjI ballI)
  show "rows_ok (om_ledgers t NS_ORDER)" by fact
next
  fix x assume "x \<in> set (om_orders t)"
  moreover obtain i r where "x = (i, r)" by (cases x)
  ultimately show "case x of (i, r) \<Rightarrow> \<exists>k etype. has_row (om_ledgers t NS_ORDER) k etype (POrder r) (artifact_id r)"
    using assms(1,2) assms(4) [of i r] by (fastforce simp: oms_durable_def intro: has_row_append)
next
  fix x assume "x \<in> set (om_fills t)"
  moreover obtain v f where "x = (v, f)" by (cases x)
  ultimately show "case x of (v, f) \<Rightarrow> has_row (om_ledgers t NS_ORDER) (fill_key v) ''fill_recorded'' (PFill f) (artifact_id f)"
    using assms(1,2) assms(5) [of v f] by (fastforce simp: oms_durable_def intro: has_row_append)
qed

lemma rows_ok_step: "oms_step E calm s s' \<Longrightarrow> rows_ok (om_ledgers s NS_ORDER) \<Longrightarrow> rows_ok (om_ledgers s' NS_ORDER)"
  by (cases rule: oms_step.cases, assumption)
     (auto simp: same_core_def record_defs dest: record_artifact_rows_ok)

lemma step_durable:
  assumes "oms_step E calm s s'" "oms_durable s" shows "oms_durable s'"
proof -
  obtain ys where ys: "om_ledgers s' NS_ORDER = om_ledgers s NS_ORDER @ ys" using step_prefix [OF assms(1)] by blast
  have ok: "rows_ok (om_ledgers s' NS_ORDER)" using rows_ok_step assms by (auto simp: oms_durable_def)
  from assms(1) show ?thesis
  proof cases
    case (created r ev s1)
    then show ?thesis using ys ok
      by (intro durable_mono [OF assms(2)])
         (auto simp: record_defs dest!: set_dict_set dest: record_artifact_row record_artifact_core)
  next
    case (moved oid r st ev s1)
    then have "has_row (om_ledgers s' NS_ORDER) (order_key (r\<lparr>ord_state := st\<rparr>) (order_event_type st))
        (order_event_type st) (POrder (r\<lparr>ord_state := st\<rparr>)) (artifact_id r)"
      by (auto simp: record_defs dest: record_artifact_row)
    then show ?thesis using ys ok moved
      by (intro durable_mono [OF assms(2)]) (auto simp: record_defs dest!: set_dict_set record_artifact_core)
  next
    case (filled f side r st ev s1)
    then show ?thesis using ys ok
      by (intro durable_mono [OF assms(2)])
         (auto simp: record_defs dest!: set_dict_set dest: record_artifact_row record_artifact_core)
  qed (use ys ok in \<open>auto intro!: durable_mono [OF assms(2)] simp: same_core_def record_defs dest!: record_artifact_core\<close>)
qed

lemma admit_fill_quantity:
  "admit_fill f side s = Inr (r, st, True) \<Longrightarrow>
   map_of (om_fills s) (venue_fill_id f) = None \<and>
   dle (dadd (filled_quantity (artifact_id r) (om_fills s)) (fill_quantity f)) (ord_quantity r)"
  by (auto simp: admit_fill_def Let_def dle_iff dlt_iff split: if_splits option.splits)

lemma order_fills_add:
  "map_of d (venue_fill_id f) = None \<Longrightarrow> order_fills i (dict_set (venue_fill_id f) f d) =
     order_fills i d @ (if fill_order_id f = i then [f] else [])"
  by (simp add: order_fills_def dict_set_new)

lemma filled_quantity_add:
  "map_of d (venue_fill_id f) = None \<Longrightarrow> fill_order_id f = i \<Longrightarrow>
   filled_quantity i (dict_set (venue_fill_id f) f d) = dadd (filled_quantity i d) (fill_quantity f)"
  by (simp add: filled_quantity_def order_fills_add dsum_def)

lemma quantities_core:
  "oms_quantities_ok s \<Longrightarrow> om_fills t = om_fills s \<Longrightarrow>
   (\<And>i r. map_of (om_orders t) i = Some r \<Longrightarrow> order_fills i (om_fills s) \<noteq> [] \<Longrightarrow>
      \<exists>r'. map_of (om_orders s) i = Some r' \<and> ord_quantity r' = ord_quantity r) \<Longrightarrow> oms_quantities_ok t"
  by (fastforce simp: oms_quantities_ok_def)

lemma no_fills: "oms_ids_ok s \<Longrightarrow> map_of (om_orders s) i = None \<Longrightarrow> order_fills i (om_fills s) = []"
  by (auto simp: oms_ids_ok_def order_fills_def filter_empty_conv dict_has_def)

lemma step_quantities:
  assumes "oms_step E calm s s'" "oms_ids_ok s" "oms_quantities_ok s" shows "oms_quantities_ok s'"
  using assms(1)
proof cases
  case (created r ev s1)
  then show ?thesis using no_fills [OF assms(2)]
    by (intro quantities_core [OF assms(3)])
       (auto simp: record_defs split: if_splits dest!: record_artifact_core)
next
  case (moved oid r st ev s1)
  then show ?thesis
    by (intro quantities_core [OF assms(3)])
       (auto simp: record_defs split: if_splits dest!: record_artifact_core)
next
  case (filled f side r st ev s1)
  have r: "map_of (om_orders s) (fill_order_id f) = Some r" "artifact_id r = fill_order_id f"
    using admit_fill_order [OF filled(2)] oms_ids [OF assms(2)] by auto
  show ?thesis
    using assms(3) admit_fill_quantity [OF filled(2)] filled r
    by (auto simp: oms_quantities_ok_def record_defs filled_quantity_add order_fills_add filled_quantity_def dsum_snoc
        split: if_splits dest!: record_artifact_core)
qed (auto intro!: quantities_core [OF assms(3)] simp: same_core_def record_defs dest!: record_artifact_core)

lemma step_oms_ok: "oms_step E calm s s' \<Longrightarrow> oms_ok s \<Longrightarrow> oms_ok s'"
  by (simp add: oms_ok_def step_ids_ok step_durable step_quantities)

lemma path_oms_ok: "oms_path E calm s s' \<Longrightarrow> oms_ok s \<Longrightarrow> oms_ok s'"
  by (induction rule: rtranclp_induct) (auto dest: step_oms_ok)

section \<open>Runs\<close>

lemma run_path:
  "oms_ok s \<Longrightarrow> (calm \<Longrightarrow> calm_run E cs s) \<Longrightarrow> oms_path E calm s (perform_all E cs s) \<and> oms_ok (perform_all E cs s)"
proof (induction cs arbitrary: s)
  case (Cons c cs)
  have p: "oms_path E calm s (perform E c s)"
    using Cons.prems oms_ids [of s] by (intro perform_path) (auto simp: oms_ok_def)
  then have "oms_ok (perform E c s)" using Cons.prems(1) path_oms_ok by blast
  then have "oms_path E calm (perform E c s) (perform_all E cs (perform E c s))" "oms_ok (perform_all E cs (perform E c s))"
    using Cons by auto
  then show ?case using p by (auto intro: rtranclp_trans)
qed simp

definition empty_manager :: "ledgers \<Rightarrow> 'v \<Rightarrow> 'b \<Rightarrow> nat \<Rightarrow> ('v, 'b) oms" where
  "empty_manager L v b n = \<lparr>om_ledgers = L, om_venue = v, om_bus = b, om_orders = [], om_fills = [],
     om_ambiguous = [], om_draws = n\<rparr>"

lemma new_order_manager_eq:
  "new_order_manager E L v b n = hydrate_events E (ledger_events L NS_ORDER) (empty_manager L v b n)"
  by (simp add: new_order_manager_def empty_manager_def)

lemma oms_ok_empty: "L NS_ORDER = [] \<Longrightarrow> oms_ok (empty_manager L v b n)"
  by (simp add: oms_ok_def oms_ids_ok_def oms_durable_def oms_quantities_ok_def empty_manager_def rows_ok_def)

section \<open>The life of an order\<close>

definition state_next :: "order_state \<Rightarrow> order_state \<Rightarrow> bool" where
  "state_next a b \<longleftrightarrow> b \<in> set (allowed_transitions a)"

definition evolves :: "(uuid, order) dict \<Rightarrow> (uuid, order) dict \<Rightarrow> bool" where
  "evolves d d' \<longleftrightarrow> (\<forall>i r. map_of d i = Some r \<longrightarrow>
     (\<exists>st. map_of d' i = Some (r\<lparr>ord_state := st\<rparr>) \<and> state_next\<^sup>*\<^sup>* (ord_state r) st))"

lemma same_order: "\<exists>st. r = r\<lparr>ord_state := st\<rparr> \<and> state_next\<^sup>*\<^sup>* (ord_state r) st" for r :: order
  by (rule exI [of _ "ord_state r"]) (cases r, simp)

lemma evolves_refl [simp]: "evolves d d"
  by (simp add: evolves_def same_order)

lemma evolves_add: "map_of d i = None \<Longrightarrow> evolves d (dict_set i r d)"
  by (auto simp: evolves_def same_order)

lemma evolves_move:
  assumes "map_of d i = Some r" "st \<in> set (allowed_transitions (ord_state r))"
  shows "evolves d (dict_set i (r\<lparr>ord_state := st\<rparr>) d)"
proof -
  have "state_next\<^sup>*\<^sup>* (ord_state r) st" using assms(2) by (simp add: state_next_def r_into_rtranclp)
  then show ?thesis using assms(1) by (auto simp: evolves_def same_order)
qed

lemma evolves_trans: "evolves a b \<Longrightarrow> evolves b c \<Longrightarrow> evolves a c"
  unfolding evolves_def by (fastforce intro: rtranclp_trans)

lemma step_evolves: "oms_step E calm s s' \<Longrightarrow> evolves (om_orders s) (om_orders s')"
  by (cases rule: oms_step.cases, assumption)
     (auto simp: same_core_def record_defs dest!: record_artifact_core intro: evolves_add evolves_move)

lemma path_evolves: "oms_path E calm s s' \<Longrightarrow> evolves (om_orders s) (om_orders s')"
  by (induction rule: rtranclp_induct) (auto dest: step_evolves intro: evolves_trans)

end
