(* ===== verification/Oms_Recovery.thy ===== *)
theory Oms_Recovery
  imports Oms_Invariant
begin

text \<open>
  Recovery of the order manager: in a calm run the projection that \<open>_hydrate\<close> rebuilds from the ledger is
  the projection that the run left, and an order that awaits reconciliation still does after the restart.
  The argument is a rank on order states: a calm run moves every order up, so that each transition has a
  key that the ledger has not seen.
\<close>

section \<open>Ranks and keys\<close>

definition rank :: "order_state \<Rightarrow> nat" where
  "rank st = (case st of CREATED \<Rightarrow> 0 | RISK_APPROVED \<Rightarrow> 1 | ROUTED \<Rightarrow> 2 | ACKNOWLEDGED \<Rightarrow> 3
     | PARTIALLY_FILLED \<Rightarrow> 4 | CANCEL_PENDING \<Rightarrow> 5 | FILLED \<Rightarrow> 6 | CANCELLED \<Rightarrow> 6 | REJECTED \<Rightarrow> 6
     | EXPIRED \<Rightarrow> 6 | RECONCILED \<Rightarrow> 7)"

lemma rank_moves:
  "st \<in> set (allowed_transitions a) \<Longrightarrow> st \<noteq> a \<Longrightarrow> \<not> (a = CANCEL_PENDING \<and> st = PARTIALLY_FILLED) \<Longrightarrow> rank a < rank st"
  by (cases a) (auto simp: allowed_transitions_def rank_def)

lemma order_event_type_inj [simp]: "order_event_type a = order_event_type b \<longleftrightarrow> a = b"
  by (cases a; cases b) (simp_all add: order_event_type_def order_state_value_def)

lemma order_event_type_facts [simp]:
  "order_event_type a \<noteq> ''order_ack_ambiguous''" "order_event_type a = ''order_created'' \<longleftrightarrow> a = CREATED"
  "order_event_type a = ''order_acknowledged'' \<longleftrightarrow> a = ACKNOWLEDGED"
  "starts_order (order_event_type a)" "CHR '':'' \<notin> set (order_event_type a)"
  "starts_order ''order_ack_ambiguous''" "\<not> starts_order ''fill_recorded''"
  by (cases a; simp add: order_event_type_def order_state_value_def starts_order_def)+

definition order_etype :: "string \<Rightarrow> order_state \<Rightarrow> bool" where
  "order_etype etype st \<longleftrightarrow> etype = order_event_type st \<or> etype = ''order_ack_ambiguous'' \<and> st = ROUTED"

lemma order_etype_simps [simp]:
  "order_etype (order_event_type a) st \<longleftrightarrow> a = st"
  "order_etype ''order_created'' st \<longleftrightarrow> st = CREATED"
  "order_etype ''order_ack_ambiguous'' st \<longleftrightarrow> st = ROUTED"
proof -
  show "order_etype (order_event_type a) st \<longleftrightarrow> a = st" by (auto simp: order_etype_def)
  show "order_etype ''order_created'' st \<longleftrightarrow> st = CREATED"
    by (cases st) (auto simp: order_etype_def order_event_type_def order_state_value_def)
  show "order_etype ''order_ack_ambiguous'' st \<longleftrightarrow> st = ROUTED"
    using order_event_type_facts(1) [of st, symmetric] by (auto simp: order_etype_def)
qed

lemma order_etype_no_colon: "order_etype etype st \<Longrightarrow> CHR '':'' \<notin> set etype"
  by (auto simp: order_etype_def)

lemma split_at_last:
  assumes "xs @ c # ys = xs' @ c # ys'" "c \<notin> set ys" "c \<notin> set ys'"
  shows "xs = xs' \<and> ys = ys'"
  using assms
proof (induction ys arbitrary: ys' rule: rev_induct)
  case Nil
  then show ?case by (cases ys' rule: rev_cases) auto
next
  case (snoc y ys)
  then show ?case by (cases ys' rule: rev_cases) (auto simp flip: append_assoc append_Cons)
qed

lemma order_key_inj:
  assumes "order_key r etype = order_key r' etype'" "order_etype etype st" "order_etype etype' st'"
  shows "idempotency_key r = idempotency_key r' \<and> etype = etype'"
  using assms split_at_last [of "idempotency_key r" "CHR '':''" etype "idempotency_key r'" etype']
  by (simp add: order_key_def order_etype_no_colon)

lemma order_key_not_fill [simp]: "order_key r etype \<noteq> fill_key v" "fill_key v \<noteq> order_key r etype"
  by (simp_all add: order_key_def fill_key_def)

lemma fill_key_inj [simp]: "fill_key v = fill_key w \<longleftrightarrow> v = w"
  by (simp add: fill_key_def)

section \<open>Replaying one event\<close>

definition proj :: "ledgers \<Rightarrow> 'v \<Rightarrow> 'b \<Rightarrow> nat \<Rightarrow> (uuid, order) dict \<Rightarrow> (string, fill) dict \<Rightarrow> uuid list \<Rightarrow> ('v, 'b) oms" where
  "proj L v b n d fs amb = \<lparr>om_ledgers = L, om_venue = v, om_bus = b, om_orders = d, om_fills = fs,
     om_ambiguous = amb, om_draws = n\<rparr>"

lemma empty_manager_proj: "empty_manager L v b n = proj L v b n [] [] []"
  by (simp add: empty_manager_def proj_def)

lemma map_of_art [simp]: "map_of (art_payload v aid) ''artifact'' = Some v"
  by (simp add: art_payload_def)

definition marked :: "string \<Rightarrow> uuid \<Rightarrow> uuid list \<Rightarrow> uuid list" where
  "marked etype i amb = (if etype = ''order_ack_ambiguous'' then List.insert i amb
     else if etype = ''order_acknowledged'' then removeAll i amb else amb)"

lemma hydrate_order_row:
  assumes "v_bind E = None" "order_etype (event_type row) (ord_state r)"
    "ev_payload row = art_payload (POrder r) (artifact_id r)"
    "case map_of d (artifact_id r) of
       None \<Rightarrow> event_type row = ''order_created'' \<and> ord_state r = CREATED
     | Some p \<Rightarrow> event_type row = ''order_ack_ambiguous'' \<or> ord_state r \<in> set (allowed_transitions (ord_state p))"
  shows "hydrate_event E row (proj L v b n d fs amb) =
    (Inr (), proj L v b n (dict_set (artifact_id r) r d) fs (marked (event_type row) (artifact_id r) amb))"
proof -
  have s: "starts_order (event_type row)" using assms(2) by (auto simp: order_etype_def)
  show ?thesis
    using assms s by (auto simp: hydrate_event_def catch_as_def hydrate_order_def bind_order_def set_order_def
        proj_def marked_def split: option.splits)
qed

lemma hydrate_fill_row:
  assumes "event_type row = ''fill_recorded''" "ev_payload row = art_payload (PFill f) (artifact_id f)"
    "map_of d (fill_order_id f) \<noteq> None"
  shows "hydrate_event E row (proj L v b n d fs amb) = (Inr (), proj L v b n d (dict_set (venue_fill_id f) f fs) amb)"
  using assms by (auto simp: hydrate_event_def catch_as_def hydrate_fill_def proj_def)

lemma hydrate_events_append:
  "hydrate_events E (xs @ ys) = sbind (hydrate_events E xs) (\<lambda>_. hydrate_events E ys)"
  by (induction xs) (simp_all add: sbind_assoc)

text \<open>The replay does not read the ledgers.\<close>

lemma hydrate_event_ledgers:
  "hydrate_event O' ev (s\<lparr>om_ledgers := L\<rparr>) = (let (r, t) = hydrate_event O' ev s in (r, t\<lparr>om_ledgers := L\<rparr>))"
  by (auto simp: hydrate_event_def hydrate_order_def hydrate_fill_def bind_order_def set_order_def on_venue_def
      catch_as_def sbind_apply Let_def split: option.splits pval.splits prod.splits sum.splits)

lemma hydrate_events_ledgers:
  "hydrate_events O' evs (s\<lparr>om_ledgers := L\<rparr>) = (let (r, t) = hydrate_events O' evs s in (r, t\<lparr>om_ledgers := L\<rparr>))"
  by (induction evs arbitrary: s) (auto simp: sbind_apply hydrate_event_ledgers split: prod.splits sum.splits)

section \<open>The invariant of calm runs\<close>

definition order_row :: "(uuid, order) dict \<Rightarrow> ledger_event \<Rightarrow> bool" where
  "order_row d row \<longleftrightarrow> (\<exists>r c. ev_payload row = art_payload (POrder r) (artifact_id r) \<and>
     order_etype (event_type row) (ord_state r) \<and> ev_key row = order_key r (event_type row) \<and>
     map_of d (artifact_id r) = Some c \<and> r = c\<lparr>ord_state := ord_state r\<rparr> \<and> rank (ord_state r) \<le> rank (ord_state c))"

definition fill_row :: "(string, fill) dict \<Rightarrow> ledger_event \<Rightarrow> bool" where
  "fill_row fs row \<longleftrightarrow> (\<exists>f. ev_payload row = art_payload (PFill f) (artifact_id f) \<and>
     event_type row = ''fill_recorded'' \<and> ev_key row = fill_key (venue_fill_id f) \<and>
     map_of fs (venue_fill_id f) = Some f)"

definition restores :: "('v, 'b) oms_env \<Rightarrow> ledger_event list \<Rightarrow> (uuid, order) dict \<Rightarrow> (string, fill) dict \<Rightarrow> uuid list \<Rightarrow> bool" where
  "restores E rows d fs amb \<longleftrightarrow>
     (\<forall>L v b n. hydrate_events E rows (empty_manager L v b n) = (Inr (), proj L v b n d fs amb))"

definition calm_inv :: "('v, 'b) oms_env \<Rightarrow> ('v, 'b) oms \<Rightarrow> bool" where
  "calm_inv E s \<longleftrightarrow> oms_ids_ok s \<and>
     (\<forall>row \<in> set (om_ledgers s NS_ORDER). (\<exists>n < om_draws s. event_id row = e_uuid E n) \<and>
        (order_row (om_orders s) row \<or> fill_row (om_fills s) row)) \<and>
     (\<exists>amb. restores E (om_ledgers s NS_ORDER) (om_orders s) (om_fills s) amb \<and>
        (\<forall>i \<in> set (om_ambiguous s). \<exists>r. map_of (om_orders s) i = Some r \<and> rank ROUTED \<le> rank (ord_state r) \<and>
           (ord_state r = ROUTED \<longrightarrow> i \<in> set amb)) \<and>
        (\<forall>row \<in> set (om_ledgers s NS_ORDER). \<forall>i r. event_type row = ''order_ack_ambiguous'' \<longrightarrow>
           map_of (om_orders s) i = Some r \<longrightarrow> ord_state r = ROUTED \<longrightarrow>
           ev_key row = order_key r ''order_ack_ambiguous'' \<longrightarrow> i \<in> set amb))"

lemma restores_order:
  assumes "restores E rows d fs amb" "v_bind E = None" "order_etype (event_type row) (ord_state r)"
    "ev_payload row = art_payload (POrder r) (artifact_id r)"
    "case map_of d (artifact_id r) of
       None \<Rightarrow> event_type row = ''order_created'' \<and> ord_state r = CREATED
     | Some p \<Rightarrow> event_type row = ''order_ack_ambiguous'' \<or> ord_state r \<in> set (allowed_transitions (ord_state p))"
  shows "restores E (rows @ [row]) (dict_set (artifact_id r) r d) fs (marked (event_type row) (artifact_id r) amb)"
  using assms(1) hydrate_order_row [OF assms(2-5)]
  by (simp add: restores_def hydrate_events_append sbind_apply)

lemma restores_fill:
  assumes "restores E rows d fs amb" "event_type row = ''fill_recorded''"
    "ev_payload row = art_payload (PFill f) (artifact_id f)" "map_of d (fill_order_id f) \<noteq> None"
  shows "restores E (rows @ [row]) d (dict_set (venue_fill_id f) f fs) amb"
  using assms(1) hydrate_fill_row [OF assms(2-4), where E = E]
  by (simp add: restores_def hydrate_events_append sbind_apply)

lemma set_state_trans: "r = c\<lparr>ord_state := a\<rparr> \<Longrightarrow> c = c'\<lparr>ord_state := b\<rparr> \<Longrightarrow> r = c'\<lparr>ord_state := a\<rparr>" for r :: order
  by simp

lemma set_state_ids:
  "r = c\<lparr>ord_state := a\<rparr> \<Longrightarrow> idempotency_key r = idempotency_key c \<and> artifact_id r = artifact_id c" for r :: order
  by simp

lemma order_row_mono:
  assumes "order_row d row"
    "\<And>i c. map_of d i = Some c \<Longrightarrow> \<exists>c'. map_of d' i = Some c' \<and> c = c'\<lparr>ord_state := ord_state c\<rparr> \<and>
        rank (ord_state c) \<le> rank (ord_state c')"
  shows "order_row d' row"
proof -
  obtain r c where r: "ev_payload row = art_payload (POrder r) (artifact_id r)"
      "order_etype (event_type row) (ord_state r)" "ev_key row = order_key r (event_type row)"
      "map_of d (artifact_id r) = Some c" "r = c\<lparr>ord_state := ord_state r\<rparr>" "rank (ord_state r) \<le> rank (ord_state c)"
    using assms(1) unfolding order_row_def by blast
  obtain c' where c': "map_of d' (artifact_id r) = Some c'" "c = c'\<lparr>ord_state := ord_state c\<rparr>"
      "rank (ord_state c) \<le> rank (ord_state c')"
    using assms(2) [OF r(4)] by blast
  have "r = c'\<lparr>ord_state := ord_state r\<rparr>" using r(5) c'(2) by (rule set_state_trans)
  then show ?thesis unfolding order_row_def using r c' by (meson order_trans)
qed

lemma same_order_state: "r\<lparr>ord_state := ord_state r\<rparr> = r" for r :: order
  by (cases r) simp

lemma fill_row_mono: "fill_row fs row \<Longrightarrow> (\<And>v f. map_of fs v = Some f \<Longrightarrow> map_of fs' v = Some f) \<Longrightarrow> fill_row fs' row"
  by (auto simp: fill_row_def)

text \<open>Identifiers are fresh, so an artifact is refused only by its key.\<close>

lemma fresh_id:
  assumes "inj (e_uuid E)" "calm_inv E s" shows "e_uuid E (om_draws s) \<notin> event_id ` set (om_ledgers s NS_ORDER)"
  using assms by (fastforce simp: calm_inv_def dest: injD)

text \<open>A row with the key of an order belongs to that order.\<close>

lemma key_order_row:
  assumes inv: "calm_inv E s" and row: "row \<in> set (om_ledgers s NS_ORDER)" "ev_key row = order_key r etype"
    and "order_etype etype st"
  obtains r' c where "ev_payload row = art_payload (POrder r') (artifact_id r')" "event_type row = etype"
    "order_etype etype (ord_state r')" "idempotency_key r' = idempotency_key r"
    "map_of (om_orders s) (artifact_id r') = Some c" "r' = c\<lparr>ord_state := ord_state r'\<rparr>"
    "rank (ord_state r') \<le> rank (ord_state c)"
proof -
  have "order_row (om_orders s) row"
    using inv row by (auto simp: calm_inv_def fill_row_def)
  then obtain r' c where r': "ev_payload row = art_payload (POrder r') (artifact_id r')"
      "order_etype (event_type row) (ord_state r')" "ev_key row = order_key r' (event_type row)"
      "map_of (om_orders s) (artifact_id r') = Some c" "r' = c\<lparr>ord_state := ord_state r'\<rparr>"
      "rank (ord_state r') \<le> rank (ord_state c)"
    unfolding order_row_def by blast
  moreover have "idempotency_key r' = idempotency_key r" "event_type row = etype"
    using order_key_inj [of r' "event_type row" r etype] r'(2,3) row(2) assms(4) by auto
  ultimately show thesis using that [of r' c] by simp
qed

lemma ids_key_unique:
  assumes "oms_ids_ok s" "map_of (om_orders s) i = Some r" "map_of (om_orders s) j = Some c"
    "idempotency_key r = idempotency_key c"
  shows "i = j \<and> r = c"
proof -
  have "(i, r) \<in> set (om_orders s)" "(j, c) \<in> set (om_orders s)" using assms(2,3) by (auto dest: map_of_SomeD)
  moreover have "inj_on (idempotency_key \<circ> snd) (set (om_orders s))" using assms(1) by (simp add: oms_ids_ok_def distinct_map)
  ultimately have "(i, r) = (j, c)"
    using inj_onD [of "idempotency_key \<circ> snd" "set (om_orders s)" "(i, r)" "(j, c)"] assms(4) by simp
  then show ?thesis by simp
qed

lemma created_key_fresh:
  assumes "calm_inv E s" "idempotency_key r \<notin> idempotency_key ` snd ` set (om_orders s)"
  shows "order_key r ''order_created'' \<notin> ev_key ` set (om_ledgers s NS_ORDER)"
proof
  assume "order_key r ''order_created'' \<in> ev_key ` set (om_ledgers s NS_ORDER)"
  then obtain row where "row \<in> set (om_ledgers s NS_ORDER)" "ev_key row = order_key r ''order_created''" by auto
  then obtain r' c where r': "idempotency_key r' = idempotency_key r" "map_of (om_orders s) (artifact_id r') = Some c"
      "r' = c\<lparr>ord_state := ord_state r'\<rparr>"
    using key_order_row [OF assms(1), of row r "''order_created''" CREATED] by (metis order_etype_simps(2))
  have "idempotency_key c = idempotency_key r" using set_state_ids [OF r'(3)] r'(1) by simp
  moreover have "idempotency_key c \<in> idempotency_key ` snd ` set (om_orders s)"
    using map_of_SomeD [OF r'(2)] by force
  ultimately show False using assms(2) by simp
qed

lemma moved_key_fresh:
  assumes inv: "calm_inv E s" and r: "map_of (om_orders s) oid = Some r" and up: "rank (ord_state r) < rank st"
  shows "order_key (r\<lparr>ord_state := st\<rparr>) (order_event_type st) \<notin> ev_key ` set (om_ledgers s NS_ORDER)"
proof
  let ?u = "r\<lparr>ord_state := st\<rparr>"
  assume "order_key ?u (order_event_type st) \<in> ev_key ` set (om_ledgers s NS_ORDER)"
  then obtain row where "row \<in> set (om_ledgers s NS_ORDER)" "ev_key row = order_key ?u (order_event_type st)" by auto
  then obtain r' c where r': "order_etype (order_event_type st) (ord_state r')" "idempotency_key r' = idempotency_key ?u"
      "map_of (om_orders s) (artifact_id r') = Some c" "r' = c\<lparr>ord_state := ord_state r'\<rparr>"
      "rank (ord_state r') \<le> rank (ord_state c)"
    using key_order_row [OF inv, of row ?u "order_event_type st" st] by (metis order_etype_simps(1))
  have "idempotency_key c = idempotency_key r" using set_state_ids [OF r'(4)] r'(2) by simp
  then have "c = r" using ids_key_unique [OF _ r r'(3)] inv by (simp add: calm_inv_def)
  then show False using r' up by simp
qed

lemma fill_key_fresh:
  assumes "calm_inv E s" "map_of (om_fills s) v = None" shows "fill_key v \<notin> ev_key ` set (om_ledgers s NS_ORDER)"
  using assms by (fastforce simp: calm_inv_def order_row_def fill_row_def)

text \<open>The row of a new artifact is appended when its key is fresh.\<close>

lemma record_artifact_fresh:
  assumes "record_artifact E aid v etype k s = (Inr ev, s')" "k \<notin> ev_key ` set (om_ledgers s NS_ORDER)"
  obtains row where "om_draws s' = Suc (om_draws s)" "om_ledgers s' NS_ORDER = om_ledgers s NS_ORDER @ [row]"
    "ev_key row = k" "event_type row = etype" "event_id row = e_uuid E (om_draws s)" "ev_payload row = art_payload v aid"
  using assms(1)
proof (cases rule: record_artifact_cases)
  case (known ev)
  then show thesis using assms(2) by (auto simp: has_row_def)
next
  case (new row)
  then show thesis using that by simp
qed simp

lemma calm_inv_row:
  assumes inv: "calm_inv E s"
    and L: "om_ledgers t NS_ORDER = om_ledgers s NS_ORDER @ [row]" "om_draws t = Suc (om_draws s)"
      "event_id row = e_uuid E (om_draws s)"
    and ids: "oms_ids_ok t"
    and old_orders: "\<And>i c. map_of (om_orders s) i = Some c \<Longrightarrow> \<exists>c'. map_of (om_orders t) i = Some c' \<and>
        c = c'\<lparr>ord_state := ord_state c\<rparr> \<and> rank (ord_state c) \<le> rank (ord_state c')"
    and old_fills: "\<And>v f. map_of (om_fills s) v = Some f \<Longrightarrow> map_of (om_fills t) v = Some f"
    and row: "order_row (om_orders t) row \<or> fill_row (om_fills t) row"
  shows "oms_ids_ok t \<and> (\<forall>row \<in> set (om_ledgers t NS_ORDER). (\<exists>n < om_draws t. event_id row = e_uuid E n) \<and>
     (order_row (om_orders t) row \<or> fill_row (om_fills t) row))"
proof (intro conjI ballI ids)
  fix x assume x: "x \<in> set (om_ledgers t NS_ORDER)"
  show "\<exists>n < om_draws t. event_id x = e_uuid E n"
    using x L inv by (auto simp: calm_inv_def less_Suc_eq)
  show "order_row (om_orders t) x \<or> fill_row (om_fills t) x"
  proof (cases "x = row")
    case True
    then show ?thesis using row by simp
  next
    case False
    then have "order_row (om_orders s) x \<or> fill_row (om_fills s) x" using x L inv by (auto simp: calm_inv_def)
    then show ?thesis using order_row_mono [OF _ old_orders] fill_row_mono [OF _ old_fills] by blast
  qed
qed

definition amb_inv :: "('v, 'b) oms \<Rightarrow> uuid list \<Rightarrow> bool" where
  "amb_inv s amb \<longleftrightarrow>
     (\<forall>i \<in> set (om_ambiguous s). \<exists>r. map_of (om_orders s) i = Some r \<and> rank ROUTED \<le> rank (ord_state r) \<and>
        (ord_state r = ROUTED \<longrightarrow> i \<in> set amb)) \<and>
     (\<forall>row \<in> set (om_ledgers s NS_ORDER). \<forall>i r. event_type row = ''order_ack_ambiguous'' \<longrightarrow>
        map_of (om_orders s) i = Some r \<longrightarrow> ord_state r = ROUTED \<longrightarrow>
        ev_key row = order_key r ''order_ack_ambiguous'' \<longrightarrow> i \<in> set amb)"

lemma calm_inv_iff:
  "calm_inv E s \<longleftrightarrow> oms_ids_ok s \<and>
     (\<forall>row \<in> set (om_ledgers s NS_ORDER). (\<exists>n < om_draws s. event_id row = e_uuid E n) \<and>
        (order_row (om_orders s) row \<or> fill_row (om_fills s) row)) \<and>
     (\<exists>amb. restores E (om_ledgers s NS_ORDER) (om_orders s) (om_fills s) amb \<and> amb_inv s amb)"
  unfolding calm_inv_def amb_inv_def by (rule refl)

lemma calm_inv_core: "same_core s t \<Longrightarrow> calm_inv E s \<Longrightarrow> calm_inv E t"
  by (simp add: calm_inv_def same_core_def oms_ids_ok_def)

lemma calm_inv_ids: "calm_inv E s \<Longrightarrow> oms_ids_ok s"
  by (simp add: calm_inv_def)

lemma unmoved:
  "map_of d i = Some c \<Longrightarrow> map_of d' i = map_of d i \<Longrightarrow>
   \<exists>c'. map_of d' i = Some c' \<and> c = c'\<lparr>ord_state := ord_state c\<rparr> \<and> rank (ord_state c) \<le> rank (ord_state c')"
  by (rule exI [of _ c]) (simp add: same_order_state)

lemma calm_filled:
  assumes inv: "calm_inv E s" and adm: "admit_fill f side s = Inr (r, st, True)"
    and rec: "record_fill_event E f s = (Inr ev, s1)"
  shows "calm_inv E (s1\<lparr>om_fills := dict_set (venue_fill_id f) f (om_fills s1)\<rparr>)" (is "calm_inv E ?t")
proof -
  have none: "map_of (om_fills s) (venue_fill_id f) = None" using admit_fill_quantity [OF adm] by simp
  have has: "map_of (om_orders s) (fill_order_id f) = Some r" using admit_fill_order [OF adm] .
  from rec obtain row where row: "om_draws s1 = Suc (om_draws s)" "om_ledgers s1 NS_ORDER = om_ledgers s NS_ORDER @ [row]"
      "ev_key row = fill_key (venue_fill_id f)" "event_type row = ''fill_recorded''"
      "event_id row = e_uuid E (om_draws s)" "ev_payload row = art_payload (PFill f) (artifact_id f)"
    unfolding record_fill_event_def by (rule record_artifact_fresh [OF _ fill_key_fresh [OF inv none]])
  have core: "om_orders s1 = om_orders s" "om_fills s1 = om_fills s" "om_ambiguous s1 = om_ambiguous s"
    using rec by (auto simp: record_defs dest!: record_artifact_core)
  have ids: "oms_ids_ok ?t"
    using has core by (intro ids_ok_add_fill [OF calm_inv_ids [OF inv], of f]) (auto simp: dict_has_def)
  have new_row: "fill_row (om_fills ?t) row" using row by (auto simp: fill_row_def)
  have rows: "oms_ids_ok ?t \<and> (\<forall>row \<in> set (om_ledgers ?t NS_ORDER). (\<exists>n < om_draws ?t. event_id row = e_uuid E n) \<and>
     (order_row (om_orders ?t) row \<or> fill_row (om_fills ?t) row))"
  proof (rule calm_inv_row [OF inv _ _ row(5) ids])
    show "om_ledgers ?t NS_ORDER = om_ledgers s NS_ORDER @ [row]" "om_draws ?t = Suc (om_draws s)"
      using row by simp_all
    show "\<exists>c'. map_of (om_orders ?t) i = Some c' \<and> c = c'\<lparr>ord_state := ord_state c\<rparr> \<and> rank (ord_state c) \<le> rank (ord_state c')"
      if "map_of (om_orders s) i = Some c" for i c
      by (rule unmoved [OF that]) (use that none core in auto)
    show "map_of (om_fills ?t) v = Some g" if "map_of (om_fills s) v = Some g" for v g
      using that none core by auto
    show "order_row (om_orders ?t) row \<or> fill_row (om_fills ?t) row" using new_row by simp
  qed
  obtain amb where amb: "restores E (om_ledgers s NS_ORDER) (om_orders s) (om_fills s) amb" "amb_inv s amb"
    using inv by (auto simp: calm_inv_iff)
  have "restores E (om_ledgers ?t NS_ORDER) (om_orders ?t) (om_fills ?t) amb"
    using restores_fill [OF amb(1) row(4,6)] has row(2) core by simp
  moreover have "amb_inv ?t amb" using amb(2) row(2,4) core by (auto simp: amb_inv_def)
  ultimately show ?thesis using rows unfolding calm_inv_iff by blast
qed

lemma calm_created:
  assumes inv: "calm_inv E s" and bind: "v_bind E = None" and none: "map_of (om_orders s) (artifact_id r) = None"
    and new: "idempotency_key r \<notin> idempotency_key ` snd ` set (om_orders s)" and st: "ord_state r = CREATED"
    and rec: "record_order E r ''order_created'' s = (Inr ev, s1)"
  shows "calm_inv E (s1\<lparr>om_orders := dict_set (artifact_id r) r (om_orders s1)\<rparr>)" (is "calm_inv E ?t")
proof -
  from rec obtain row where row: "om_draws s1 = Suc (om_draws s)" "om_ledgers s1 NS_ORDER = om_ledgers s NS_ORDER @ [row]"
      "ev_key row = order_key r ''order_created''" "event_type row = ''order_created''"
      "event_id row = e_uuid E (om_draws s)" "ev_payload row = art_payload (POrder r) (artifact_id r)"
    unfolding record_order_def by (rule record_artifact_fresh [OF _ created_key_fresh [OF inv new]])
  have core: "om_orders s1 = om_orders s" "om_fills s1 = om_fills s" "om_ambiguous s1 = om_ambiguous s"
    using rec by (auto simp: record_defs dest!: record_artifact_core)
  have ids: "oms_ids_ok ?t"
    using core by (intro ids_ok_add_order [OF calm_inv_ids [OF inv] none new]) auto
  have new_row: "order_row (om_orders ?t) row"
    unfolding order_row_def using row st core by (intro exI [of _ r]) (simp add: same_order_state)
  have rows: "oms_ids_ok ?t \<and> (\<forall>row \<in> set (om_ledgers ?t NS_ORDER). (\<exists>n < om_draws ?t. event_id row = e_uuid E n) \<and>
     (order_row (om_orders ?t) row \<or> fill_row (om_fills ?t) row))"
  proof (rule calm_inv_row [OF inv _ _ row(5) ids])
    show "om_ledgers ?t NS_ORDER = om_ledgers s NS_ORDER @ [row]" "om_draws ?t = Suc (om_draws s)"
      using row by simp_all
    show "\<exists>c'. map_of (om_orders ?t) i = Some c' \<and> c = c'\<lparr>ord_state := ord_state c\<rparr> \<and> rank (ord_state c) \<le> rank (ord_state c')"
      if "map_of (om_orders s) i = Some c" for i c
      by (rule unmoved [OF that]) (use that none core in auto)
    show "map_of (om_fills ?t) v = Some g" if "map_of (om_fills s) v = Some g" for v g
      using that none core by auto
    show "order_row (om_orders ?t) row \<or> fill_row (om_fills ?t) row" using new_row by simp
  qed
  obtain amb where amb: "restores E (om_ledgers s NS_ORDER) (om_orders s) (om_fills s) amb" "amb_inv s amb"
    using inv by (auto simp: calm_inv_iff)
  have "restores E (om_ledgers ?t NS_ORDER) (om_orders ?t) (om_fills ?t) amb"
    using restores_order [OF amb(1) bind, of row r] none st row core by (simp add: marked_def)
  moreover have "amb_inv ?t amb" using amb(2) row(2,4) core none st by (fastforce simp: amb_inv_def)
  ultimately show ?thesis using rows unfolding calm_inv_iff by blast
qed

lemma calm_moved:
  assumes inv: "calm_inv E s" and bind: "v_bind E = None" and r: "map_of (om_orders s) oid = Some r"
    and st: "st \<in> set (allowed_transitions (ord_state r))" "st \<noteq> ord_state r"
      "\<not> (ord_state r = CANCEL_PENDING \<and> st = PARTIALLY_FILLED)"
    and rec: "record_order E (r\<lparr>ord_state := st\<rparr>) (order_event_type st) s = (Inr ev, s1)"
  shows "calm_inv E (s1\<lparr>om_orders := dict_set oid (r\<lparr>ord_state := st\<rparr>) (om_orders s1)\<rparr>)" (is "calm_inv E ?t")
proof -
  let ?u = "r\<lparr>ord_state := st\<rparr>"
  have up: "rank (ord_state r) < rank st" using rank_moves [OF st] .
  have aid: "artifact_id ?u = oid" using oms_ids [OF calm_inv_ids [OF inv] r] by simp
  from rec obtain row where row: "om_draws s1 = Suc (om_draws s)" "om_ledgers s1 NS_ORDER = om_ledgers s NS_ORDER @ [row]"
      "ev_key row = order_key ?u (order_event_type st)" "event_type row = order_event_type st"
      "event_id row = e_uuid E (om_draws s)" "ev_payload row = art_payload (POrder ?u) (artifact_id ?u)"
    unfolding record_order_def by (rule record_artifact_fresh [OF _ moved_key_fresh [OF inv r up]])
  have core: "om_orders s1 = om_orders s" "om_fills s1 = om_fills s" "om_ambiguous s1 = om_ambiguous s"
    using rec by (auto simp: record_defs dest!: record_artifact_core)
  have ids: "oms_ids_ok ?t"
    using core by (intro ids_ok_set_order [OF calm_inv_ids [OF inv] r, of _ st]) auto
  have new_row: "order_row (om_orders ?t) row"
    unfolding order_row_def using row core aid by (intro exI [of _ ?u]) simp
  have rows: "oms_ids_ok ?t \<and> (\<forall>row \<in> set (om_ledgers ?t NS_ORDER). (\<exists>n < om_draws ?t. event_id row = e_uuid E n) \<and>
     (order_row (om_orders ?t) row \<or> fill_row (om_fills ?t) row))"
  proof (rule calm_inv_row [OF inv _ _ row(5) ids])
    show "om_ledgers ?t NS_ORDER = om_ledgers s NS_ORDER @ [row]" "om_draws ?t = Suc (om_draws s)"
      using row by simp_all
    show "\<exists>c'. map_of (om_orders ?t) i = Some c' \<and> c = c'\<lparr>ord_state := ord_state c\<rparr> \<and> rank (ord_state c) \<le> rank (ord_state c')"
      if "map_of (om_orders s) i = Some c" for i c
    proof (cases "i = oid")
      case True
      then show ?thesis using that r core up by (intro exI [of _ ?u]) (simp add: same_order_state)
    next
      case False
      then show ?thesis by (intro unmoved [OF that]) (simp add: core)
    qed
    show "map_of (om_fills ?t) v = Some g" if "map_of (om_fills s) v = Some g" for v g
      using that core by auto
    show "order_row (om_orders ?t) row \<or> fill_row (om_fills ?t) row" using new_row by simp
  qed
  obtain amb where amb: "restores E (om_ledgers s NS_ORDER) (om_orders s) (om_fills s) amb" "amb_inv s amb"
    using inv by (auto simp: calm_inv_iff)
  let ?amb = "marked (order_event_type st) oid amb"
  have "restores E (om_ledgers ?t NS_ORDER) (om_orders ?t) (om_fills ?t) ?amb"
    using restores_order [OF amb(1) bind, of row ?u] r st aid row core by simp
  moreover have "amb_inv ?t ?amb"
    unfolding amb_inv_def
  proof (intro conjI ballI allI impI)
    fix i assume i: "i \<in> set (om_ambiguous ?t)"
    then obtain c where c: "map_of (om_orders s) i = Some c" "rank ROUTED \<le> rank (ord_state c)"
        "ord_state c = ROUTED \<longrightarrow> i \<in> set amb"
      using amb(2) core by (auto simp: amb_inv_def)
    show "\<exists>r. map_of (om_orders ?t) i = Some r \<and> rank ROUTED \<le> rank (ord_state r) \<and> (ord_state r = ROUTED \<longrightarrow> i \<in> set ?amb)"
    proof (cases "i = oid")
      case True
      then have "c = r" using c(1) r by simp
      then show ?thesis using True c(2) up core by (auto simp: marked_def)
    next
      case False
      then show ?thesis using c core by (auto simp: marked_def)
    qed
  next
    fix x i c
    assume x: "x \<in> set (om_ledgers ?t NS_ORDER)" "event_type x = ''order_ack_ambiguous''"
      and c: "map_of (om_orders ?t) i = Some c" "ord_state c = ROUTED" and k: "ev_key x = order_key c ''order_ack_ambiguous''"
    have x': "x \<in> set (om_ledgers s NS_ORDER)" using x row by auto
    show "i \<in> set ?amb"
    proof (cases "i = oid")
      case False
      then have "map_of (om_orders s) i = Some c" using c(1) core by simp
      then have "i \<in> set amb" using amb(2) x(2) x' c(2) k unfolding amb_inv_def by blast
      then show ?thesis using False by (auto simp: marked_def)
    next
      case True
      then have "c = ?u" using c(1) core by simp
      then have k: "ev_key x = order_key r ''order_ack_ambiguous''" and st_routed: "st = ROUTED"
        using k c(2) by (simp_all add: order_key_def)
      obtain r' d where r': "order_etype ''order_ack_ambiguous'' (ord_state r')" "idempotency_key r' = idempotency_key r"
          "map_of (om_orders s) (artifact_id r') = Some d" "r' = d\<lparr>ord_state := ord_state r'\<rparr>"
          "rank (ord_state r') \<le> rank (ord_state d)"
        using key_order_row [OF inv x' k, of ROUTED] by (metis order_etype_simps(3))
      have "idempotency_key d = idempotency_key r" using set_state_ids [OF r'(4)] r'(2) by simp
      then have "d = r" using ids_key_unique [OF calm_inv_ids [OF inv] r r'(3)] by simp
      then show ?thesis using r'(1,5) up st_routed by simp
    qed
  qed
  ultimately show ?thesis using rows unfolding calm_inv_iff by blast
qed

lemma append_rows_refused:
  "append_rows ev rows = (Inl err, rows') \<Longrightarrow> event_id ev \<notin> event_id ` set rows \<Longrightarrow>
   \<exists>row \<in> set rows. ev_key row = ev_key ev \<and> \<not> same_content row ev"
  by (auto simp: append_rows_eq matching_prior_def find_id_None split: option.splits if_splits dest!: find_key_SomeD)

lemma record_artifact_refused_row:
  assumes "record_artifact E aid v etype k s = (Inl err, s')" "e_uuid E (om_draws s) \<notin> event_id ` set (om_ledgers s NS_ORDER)"
  shows "\<exists>row \<in> set (om_ledgers s NS_ORDER). ev_key row = k \<and>
    (event_type row \<noteq> etype \<or> ev_payload row \<noteq> art_payload v aid)"
proof -
  let ?ev = "artifact_event E aid v etype k (om_draws s)"
  obtain r rows where a: "append_rows ?ev (om_ledgers s NS_ORDER) = (r, rows)"
    by (cases "append_rows ?ev (om_ledgers s NS_ORDER)")
  then have "r = Inl err" using assms(1) by (simp add: record_artifact_eq ledger_append_def)
  then show ?thesis
    using append_rows_refused [OF a [unfolded \<open>r = Inl err\<close>]] assms(2) by (auto simp: same_content_def)
qed

text \<open>A row that notes the lost response of an order that is still routed holds just that order.\<close>

lemma ambiguous_row:
  assumes inv: "calm_inv E s" and r: "map_of (om_orders s) oid = Some r" "ord_state r = ROUTED"
    and row: "row \<in> set (om_ledgers s NS_ORDER)" "ev_key row = order_key r ''order_ack_ambiguous''"
  shows "event_type row = ''order_ack_ambiguous'' \<and> ev_payload row = art_payload (POrder r) (artifact_id r)"
proof -
  have "order_etype ''order_ack_ambiguous'' ROUTED" by simp
  from key_order_row [OF inv row this] obtain r' c where r':
      "ev_payload row = art_payload (POrder r') (artifact_id r')" "event_type row = ''order_ack_ambiguous''"
      "order_etype ''order_ack_ambiguous'' (ord_state r')" "idempotency_key r' = idempotency_key r"
      "map_of (om_orders s) (artifact_id r') = Some c" "r' = c\<lparr>ord_state := ord_state r'\<rparr>" .
  have "idempotency_key c = idempotency_key r" using set_state_ids [OF r'(6)] r'(4) by simp
  then have "c = r" using ids_key_unique [OF calm_inv_ids [OF inv] r(1) r'(5)] by simp
  then have "r' = r" using r' r(2) same_order_state [of r] by simp
  then show ?thesis using r' by simp
qed

lemma calm_lost:
  assumes inv: "calm_inv E s" and bind: "v_bind E = None" and inj: "inj (e_uuid E)"
    and r: "map_of (om_orders s) oid = Some r" "ord_state r = ROUTED"
    and rec: "record_order E r ''order_ack_ambiguous''
       (s\<lparr>om_ambiguous := List.insert (artifact_id r) (om_ambiguous s)\<rparr>) = (res, t)"
  shows "calm_inv E t"
proof -
  have aid: "artifact_id r = oid" using oms_ids [OF calm_inv_ids [OF inv] r(1)] .
  have core: "om_orders t = om_orders s" "om_fills t = om_fills s" "om_ambiguous t = List.insert oid (om_ambiguous s)"
    using rec aid by (auto simp: record_defs dest!: record_artifact_core)
  have ids: "oms_ids_ok t" using core by (intro ids_ok_core [OF calm_inv_ids [OF inv]]) auto
  obtain amb where amb: "restores E (om_ledgers s NS_ORDER) (om_orders s) (om_fills s) amb" "amb_inv s amb"
    using inv by (auto simp: calm_inv_iff)
  have ar: "event_type row = ''order_ack_ambiguous'' \<and> ev_payload row = art_payload (POrder r) oid"
    if "row \<in> set (om_ledgers s NS_ORDER)" "ev_key row = order_key r ''order_ack_ambiguous''" for row
    using ambiguous_row [OF inv r that] aid by simp
  from rec [unfolded record_order_def] show ?thesis
  proof (cases rule: record_artifact_cases)
    case (known ev)
    then have L: "om_ledgers t = om_ledgers s" "om_draws t = Suc (om_draws s)"
      and row: "\<exists>row \<in> set (om_ledgers s NS_ORDER). ev_key row = order_key r ''order_ack_ambiguous''"
      by (auto simp: has_row_def)
    then have "oid \<in> set amb" using amb(2) ar r by (auto simp: amb_inv_def)
    then have "amb_inv t amb" using amb(2) core L r by (auto simp: amb_inv_def)
    then show ?thesis using inv amb(1) ids core L unfolding calm_inv_iff by (auto simp: less_Suc_eq)
  next
    case (new row)
    then have L: "om_ledgers t NS_ORDER = om_ledgers s NS_ORDER @ [row]" "om_draws t = Suc (om_draws s)"
      "event_id row = e_uuid E (om_draws s)" by simp_all
    have row: "event_type row = ''order_ack_ambiguous''" "ev_key row = order_key r ''order_ack_ambiguous''"
        "ev_payload row = art_payload (POrder r) (artifact_id r)" using new by simp_all
    have new_row: "order_row (om_orders t) row"
      unfolding order_row_def using row r aid core by (intro exI [of _ r]) (simp add: same_order_state)
    have rows: "oms_ids_ok t \<and> (\<forall>row \<in> set (om_ledgers t NS_ORDER). (\<exists>n < om_draws t. event_id row = e_uuid E n) \<and>
       (order_row (om_orders t) row \<or> fill_row (om_fills t) row))"
      by (rule calm_inv_row [OF inv L ids]) (use new_row core unmoved in auto)
    have "restores E (om_ledgers t NS_ORDER) (om_orders t) (om_fills t) (List.insert oid amb)"
      using restores_order [OF amb(1) bind, of row r] r row aid L core dict_set_same [OF r(1)]
      by (simp add: marked_def)
    moreover have "amb_inv t (List.insert oid amb)"
      unfolding amb_inv_def
    proof (intro conjI ballI allI impI)
      fix i assume "i \<in> set (om_ambiguous t)"
      then show "\<exists>r. map_of (om_orders t) i = Some r \<and> rank ROUTED \<le> rank (ord_state r) \<and>
          (ord_state r = ROUTED \<longrightarrow> i \<in> set (List.insert oid amb))"
        using amb(2) core r by (auto simp: amb_inv_def)
    next
      fix x i c
      assume x: "x \<in> set (om_ledgers t NS_ORDER)" "event_type x = ''order_ack_ambiguous''"
        and c: "map_of (om_orders t) i = Some c" "ord_state c = ROUTED" "ev_key x = order_key c ''order_ack_ambiguous''"
      show "i \<in> set (List.insert oid amb)"
      proof (cases "x = row")
        case True
        then have "idempotency_key c = idempotency_key r" using c row by (simp add: order_key_def)
        then show ?thesis using ids_key_unique [OF calm_inv_ids [OF inv] _ r(1), of i c] c(1) core by simp
      next
        case False
        then show ?thesis using x c L core amb(2) by (auto simp: amb_inv_def)
      qed
    qed
    ultimately show ?thesis using rows unfolding calm_inv_iff by blast
  next
    case (refused err)
    from record_artifact_refused_row [OF rec [unfolded record_order_def refused]] fresh_id [OF inj inv]
    show ?thesis using ar aid by fastforce
  qed
qed

lemma step_calm_inv:
  assumes "oms_step E True s s'" "v_bind E = None" "inj (e_uuid E)" "calm_inv E s" shows "calm_inv E s'"
  using assms(1)
proof cases
  case outside
  then show ?thesis using assms(4) by (rule calm_inv_core)
next
  case refused
  then show ?thesis using assms(4) by (auto simp: calm_inv_def oms_ids_ok_def less_Suc_eq)
next
  case (created r ev s1)
  then show ?thesis using calm_created [OF assms(4,2)] by simp
next
  case (moved oid r st ev s1)
  then show ?thesis using calm_moved [OF assms(4,2)] by simp
next
  case (lost oid r res)
  then show ?thesis using calm_lost [OF assms(4,2,3)] by simp
next
  case (resolved oid)
  then show ?thesis using assms(4) by (simp add: calm_inv_def oms_ids_ok_def) blast
next
  case (filled f side r st ev s1)
  then show ?thesis using calm_filled [OF assms(4)] by simp
qed (use assms(2) in simp)

lemma path_calm_inv:
  "oms_path E True s s' \<Longrightarrow> v_bind E = None \<Longrightarrow> inj (e_uuid E) \<Longrightarrow> calm_inv E s \<Longrightarrow> calm_inv E s'"
  by (induction rule: rtranclp_induct) (auto dest: step_calm_inv)

lemma calm_inv_empty: "L NS_ORDER = [] \<Longrightarrow> calm_inv E (empty_manager L v b n)"
  by (auto simp: calm_inv_def empty_manager_def oms_ids_ok_def restores_def proj_def)

lemma calm_run_inv:
  assumes "v_bind E = None" "inj (e_uuid E)" "L NS_ORDER = []" "calm_run E cs (empty_manager L v b n)"
  shows "calm_inv E (perform_all E cs (empty_manager L v b n))"
proof -
  have ok: "oms_ok (empty_manager L v b n)" using assms(3) by (rule oms_ok_empty)
  have "oms_path E True (empty_manager L v b n) (perform_all E cs (empty_manager L v b n))"
    using run_path [OF ok, of True E cs] assms(4) by simp
  moreover have "calm_inv E (empty_manager L v b n)" using assms(3) by (rule calm_inv_empty)
  ultimately show ?thesis using path_calm_inv assms(1,2) by blast
qed

lemma calm_inv_restores:
  assumes "calm_inv E s"
  shows "\<exists>t. new_order_manager E (om_ledgers s) v b n = (Inr (), t) \<and> om_ledgers t = om_ledgers s \<and>
    om_orders t = om_orders s \<and> om_fills t = om_fills s \<and>
    (\<forall>i \<in> set (om_ambiguous s). map_option ord_state (map_of (om_orders s) i) = Some ROUTED \<longrightarrow> i \<in> set (om_ambiguous t))"
proof -
  obtain amb where r: "restores E (om_ledgers s NS_ORDER) (om_orders s) (om_fills s) amb" and a: "amb_inv s amb"
    using assms by (auto simp: calm_inv_iff)
  have "\<forall>i \<in> set (om_ambiguous s). map_option ord_state (map_of (om_orders s) i) = Some ROUTED \<longrightarrow> i \<in> set amb"
    using a by (fastforce simp: amb_inv_def)
  then show ?thesis using r by (simp add: restores_def new_order_manager_eq ledger_events_def proj_def)
qed

end
