(* ===== verification/Oms_Submission.thy ===== *)
theory Oms_Submission
  imports Oms_Recovery
begin

text \<open>
  Submissions: an order manager whose venue keeps a log of the orders it was sent.  In every run, whatever
  the venue answers and however often \<open>route\<close> and the other methods are called, an order is sent once.
\<close>

definition log_lift :: "('v, 'a) action \<Rightarrow> ('v \<times> uuid list, 'a) action" where
  "log_lift m s = (let (x, v) = m (fst s) in (x, (v, snd s)))"

definition log_submit :: "(order \<Rightarrow> ('v, 'a) action) \<Rightarrow> order \<Rightarrow> ('v \<times> uuid list, 'a) action" where
  "log_submit sub r s = (let (x, v) = sub r (fst s) in (x, (v, snd s @ [artifact_id r])))"

definition with_log :: "('v, 'b) oms_env \<Rightarrow> ('v \<times> uuid list, 'b) oms_env" where
  "with_log E = \<lparr>v_submit = log_submit (v_submit E), v_open_orders = (\<lambda>s. v_open_orders E (fst s)),
     v_cancel = map_option (\<lambda>c r. log_lift (c r)) (v_cancel E),
     v_reconcile = map_option (\<lambda>q r. log_lift (q r)) (v_reconcile E),
     v_bind = map_option (\<lambda>q r. log_lift (q r)) (v_bind E),
     b_publish = b_publish E, e_uuid = e_uuid E, e_now = e_now E\<rparr>"

definition sent :: "('v \<times> uuid list, 'b) oms \<Rightarrow> uuid list" where
  "sent s = snd (om_venue s)"

definition same_sent :: "('v \<times> uuid list, 'b) oms \<Rightarrow> ('v \<times> uuid list, 'b) oms \<Rightarrow> bool" where
  "same_sent s t \<longleftrightarrow> sent t = sent s"

lemma same_sent_props [simp]: "reflp same_sent" "transp same_sent"
  by (auto simp: reflp_def transp_def same_sent_def)

lemmas sent_intros = moves_sbind [OF same_sent_props(2)]

lemma sent_lift [simp]: "moves same_sent (on_venue (log_lift m))"
  by (auto intro!: movesI simp: on_venue_def log_lift_def same_sent_def sent_def split: prod.splits)

lemma sent_bus [simp]: "moves same_sent (on_bus m)"
  by (auto intro!: movesI simp: on_bus_def same_sent_def sent_def split: prod.splits)

lemma sent_record [simp]: "moves same_sent (record_artifact E aid v etype k)"
  by (auto intro!: movesI simp: record_artifact_eq same_sent_def sent_def split: prod.splits)

lemma sent_modify [simp]: "(\<And>s. om_venue (g s) = om_venue s) \<Longrightarrow> moves same_sent (smodify g)"
  by (auto intro!: movesI simp: same_sent_def sent_def)

lemma sent_parts [simp]:
  "moves same_sent (publish_event E ev etype aid)" "moves same_sent (republish_key E k etype aid)"
  "moves same_sent (get_order oid)" "moves same_sent (set_order oid r)"
proof -
  show p: "moves same_sent (publish_event E ev etype aid)" for ev
    unfolding publish_event_def by (auto intro!: sent_intros split: option.split)
  show "moves same_sent (republish_key E k etype aid)"
    unfolding republish_key_def by (auto intro!: sent_intros p split: option.split)
  show "moves same_sent (get_order oid)" "moves same_sent (set_order oid r)"
    unfolding get_order_def set_order_def by simp_all
qed

lemma sent_bind [simp]: "moves same_sent (bind_order (with_log E) r)"
  unfolding bind_order_def with_log_def by (auto split: option.split)

lemma sent_query [simp]: "moves same_sent (query_venue_acknowledgement (with_log E) oid)"
  unfolding query_venue_acknowledgement_def with_log_def
  by (auto intro!: sent_intros split: option.split venue_response.split)

lemma sent_resolve [simp]: "moves same_sent (resolve_acknowledgement (with_log E) oid msg)"
  unfolding resolve_acknowledgement_def by (auto intro!: sent_intros split: option.split)

lemma sent_transition [simp]: "moves same_sent (transition E oid st)"
  unfolding transition_def record_order_def Let_def by (auto intro!: sent_intros)

lemma sent_create [simp]: "moves same_sent (create_order (with_log E) r)"
  unfolding create_order_def record_order_def by (auto intro!: sent_intros split: option.split)

lemma sent_approve [simp]: "moves same_sent (approve_risk E oid d c)"
  unfolding approve_risk_def by (auto split: option.split)

lemma sent_reconcile [simp]:
  "moves same_sent (reconcile_ambiguous (with_log E) oid)" "moves same_sent (reconcile_routed (with_log E) oid)"
  "moves same_sent (expire_unacknowledged (with_log E) oid)" "moves same_sent (reconcile_order (with_log E) oid)"
  "moves same_sent (acknowledge_cancel (with_log E) oid)"
  unfolding reconcile_ambiguous_def reconcile_routed_def expire_unacknowledged_def reconcile_order_def acknowledge_cancel_def
  by (auto intro!: sent_intros)

lemma sent_fill [simp]: "moves same_sent (record_fill E f side)"
  unfolding record_fill_def record_fill_event_def by (auto intro!: sent_intros)

lemma sent_cancel [simp]: "moves same_sent (cancel_order (with_log E) oid)"
  unfolding cancel_order_def with_log_def
  by (auto intro!: sent_intros moves_catch_as split: option.split)

section \<open>Routing sends at most the routed order\<close>

lemma submit_routed_sent:
  assumes "submit_routed (with_log E) r s = (res, t)" shows "sent t = sent s @ [artifact_id r]"
proof -
  obtain a s1 where v: "on_venue (v_submit (with_log E) r) s = (a, s1)" by fastforce
  then have s1: "sent s1 = sent s @ [artifact_id r]"
    by (auto simp: on_venue_def with_log_def log_submit_def sent_def split: prod.splits)
  have "same_sent s1 t"
  proof (cases a)
    case (Inl e)
    have m: "moves same_sent (sbind (record_order (with_log E) r ''order_ack_ambiguous'') (\<lambda>ev.
       sbind (publish_event (with_log E) ev ''order_ack_ambiguous'' (artifact_id r)) (\<lambda>_. sreturn (None :: ack option))))"
      unfolding record_order_def by (auto intro!: sent_intros)
    show ?thesis
    proof (cases "e = AmbiguousAcknowledgement")
      case True
      then show ?thesis using assms v Inl movesD [OF m]
        by (simp add: submit_routed_def same_sent_def) (simp add: sent_def)
    next
      case False
      then show ?thesis using assms v Inl by (cases e) (auto simp: submit_routed_def same_sent_def)
    qed
  next
    case (Inr b)
    have "moves same_sent (if ack_order_id b \<noteq> artifact_id r
        then sraise (OrderStateError ''venue acknowledgement references a different order'')
        else sbind (transition (with_log E) (artifact_id r) (if ack_accepted b then ACKNOWLEDGED else REJECTED))
          (\<lambda>_. sreturn (Some b)))"
      by (auto intro!: sent_intros)
    then show ?thesis using assms v Inr by (auto simp: submit_routed_def dest: movesD)
  qed
  then show ?thesis using s1 by (simp add: same_sent_def)
qed

lemma route_sent:
  assumes "route (with_log E) oid s = (res, t)"
  obtains (quiet) "sent t = sent s"
  | (sends) r s1 where "map_of (om_orders s) oid \<noteq> None" "ord_state (the (map_of (om_orders s) oid)) \<noteq> ROUTED"
      "transition (with_log E) oid ROUTED s = (Inr r, s1)" "submit_routed (with_log E) r s1 = (res, t)"
      "sent t = sent s @ [artifact_id r]"
proof (cases "oid \<in> set (om_ambiguous s) \<or> map_of (om_orders s) oid = None \<or>
    ord_state (the (map_of (om_orders s) oid)) = ROUTED")
  case True
  then have "t = s" using assms by (cases "map_of (om_orders s) oid") (auto simp: route_eq get_order_def split: if_splits)
  then show thesis by (intro quiet) simp
next
  case False
  obtain a s1 where tr: "transition (with_log E) oid ROUTED s = (a, s1)" by fastforce
  have s1: "sent s1 = sent s" using tr sent_transition movesD same_sent_def by metis
  from False obtain r0 where "map_of (om_orders s) oid = Some r0" "ord_state r0 \<noteq> ROUTED" by auto
  with False assms have *: "sbind (transition (with_log E) oid ROUTED) (submit_routed (with_log E)) s = (res, t)"
    by (simp add: route_eq get_order_def)
  show thesis
  proof (cases a)
    case (Inl e)
    then show thesis using * tr s1 by (intro quiet) (simp add: sbind_apply)
  next
    case (Inr r)
    then have sub: "submit_routed (with_log E) r s1 = (res, t)" using * tr by (simp add: sbind_apply)
    then show thesis using submit_routed_sent [OF sub] s1 False tr Inr by (intro sends) auto
  qed
qed

definition past_routing :: "order_state \<Rightarrow> bool" where
  "past_routing st \<longleftrightarrow> st \<notin> {CREATED, RISK_APPROVED}"

lemma past_routing_next: "state_next a b \<Longrightarrow> past_routing a \<Longrightarrow> past_routing b"
  by (cases a) (auto simp: state_next_def allowed_transitions_def past_routing_def)

lemma past_routing_later: "state_next\<^sup>*\<^sup>* a b \<Longrightarrow> past_routing a \<Longrightarrow> past_routing b"
  by (induction rule: rtranclp_induct) (auto intro: past_routing_next)

definition sent_inv :: "('v \<times> uuid list, 'b) oms \<Rightarrow> bool" where
  "sent_inv s \<longleftrightarrow> distinct (sent s) \<and>
     (\<forall>i \<in> set (sent s). \<exists>r. map_of (om_orders s) i = Some r \<and> past_routing (ord_state r))"

lemma sent_inv_evolves:
  assumes "evolves (om_orders s) (om_orders t)" "\<forall>i \<in> set (sent s). \<exists>r. map_of (om_orders s) i = Some r \<and> past_routing (ord_state r)"
    "i \<in> set (sent s)"
  shows "\<exists>r. map_of (om_orders t) i = Some r \<and> past_routing (ord_state r)"
proof -
  obtain r where "map_of (om_orders s) i = Some r" "past_routing (ord_state r)" using assms(2,3) by blast
  moreover then obtain st where "map_of (om_orders t) i = Some (r\<lparr>ord_state := st\<rparr>)" "state_next\<^sup>*\<^sup>* (ord_state r) st"
    using assms(1) by (auto simp: evolves_def)
  ultimately show ?thesis using past_routing_later by auto
qed

definition outside_keeps_log :: "('v \<times> uuid list, 'b) oms_call \<Rightarrow> bool" where
  "outside_keeps_log c \<longleftrightarrow> (case c of Outside f g h \<Rightarrow> (\<forall>v. snd (f v) = snd v) | _ \<Rightarrow> True)"

lemma other_calls_sent:
  assumes "outside_keeps_log c" "\<forall>i. c \<noteq> Route i" shows "sent (perform (with_log E) c s) = sent s"
proof -
  have m: "moves same_sent m \<Longrightarrow> sent (snd (m s)) = sent s" for m :: "(('a \<times> uuid list, 'b) oms, 'c) action"
    by (simp add: moves_def same_sent_def)
  have "sent (s\<lparr>om_venue := v, om_bus := b, om_ledgers := L\<rparr>) = snd v" for v b L by (simp add: sent_def)
  moreover have "sent s = snd (om_venue s)" by (simp add: sent_def)
  ultimately show ?thesis using assms by (cases c) (simp_all add: m outside_keeps_log_def del: split_paired_All)
qed

lemma route_sent_inv:
  assumes ids: "oms_ok s" and inv: "sent_inv s" shows "sent_inv (perform (with_log E) (Route i) s)"
proof -
  let ?t = "perform (with_log E) (Route i) s"
  have path: "oms_path (with_log E) False s ?t"
    using ids oms_ids by (intro perform_path) (auto simp: oms_ok_def)
  have ev: "evolves (om_orders s) (om_orders ?t)" using path by (rule path_evolves)
  have "route (with_log E) i s = (fst (route (with_log E) i s), ?t)" by simp
  then show ?thesis
  proof (cases rule: route_sent)
    case quiet
    then show ?thesis using inv sent_inv_evolves [OF ev] by (simp add: sent_inv_def)
  next
    case (sends r s1)
    have s1: "map_of (om_orders s1) i = Some r" "ord_state r = ROUTED"
      using transition_result [OF sends(3)] by auto
    obtain r0 where r0: "map_of (om_orders s) i = Some r0" "ord_state r0 \<noteq> ROUTED" using sends(1,2) by auto
    from sends(3) have "state_next (ord_state r0) ROUTED" "artifact_id r = i"
      using r0 s1 oms_ids [of s] ids
      by (cases rule: transition_cases; auto simp: state_next_def oms_ok_def same_core_def)+
    then have "\<not> past_routing (ord_state r0)"
      by (cases "ord_state r0") (auto simp: state_next_def allowed_transitions_def past_routing_def)
    then have fresh: "i \<notin> set (sent s)" using inv r0 by (auto simp: sent_inv_def)
    have "evolves (om_orders s1) (om_orders ?t)"
      using submit_routed_path [OF sends(4) s1] by (rule path_evolves)
    then obtain st where "map_of (om_orders ?t) i = Some (r\<lparr>ord_state := st\<rparr>)" "state_next\<^sup>*\<^sup>* ROUTED st"
      using s1 unfolding evolves_def by metis
    then have "\<exists>r. map_of (om_orders ?t) i = Some r \<and> past_routing (ord_state r)"
      using past_routing_later [of ROUTED st] by (auto simp: past_routing_def)
    then show ?thesis
      using sends(5) \<open>artifact_id r = i\<close> fresh inv sent_inv_evolves [OF ev] by (auto simp: sent_inv_def)
  qed
qed

lemma run_sent_inv:
  "oms_ok s \<Longrightarrow> sent_inv s \<Longrightarrow> list_all outside_keeps_log cs \<Longrightarrow> sent_inv (perform_all (with_log E) cs s)"
proof (induction cs arbitrary: s)
  case (Cons c cs)
  let ?t = "perform (with_log E) c s"
  have path: "oms_path (with_log E) False s ?t"
    using Cons.prems oms_ids by (intro perform_path) (auto simp: oms_ok_def)
  have "sent_inv ?t"
  proof (cases "\<exists>i. c = Route i")
    case True
    then show ?thesis using Cons.prems route_sent_inv by blast
  next
    case False
    then have "sent ?t = sent s" using Cons.prems other_calls_sent by auto
    then show ?thesis using Cons.prems sent_inv_evolves [OF path_evolves [OF path]] by (simp add: sent_inv_def)
  qed
  then show ?case using Cons path_oms_ok [OF path] by simp
qed simp

end
