(* ===== verification/Oms_Methods.thy ===== *)
theory Oms_Methods
  imports Oms_Submission
begin

text \<open>
  The method lemmas of the order manager that the run properties do not give: what a recorded fill leaves
  behind, that recording it again changes nothing, when the risk approval passes, and the conversation with
  the paper venue around a lost response.
\<close>

section \<open>Fills\<close>

definition fill_total :: "fill \<Rightarrow> order \<Rightarrow> (string, fill) dict \<Rightarrow> dec" where
  "fill_total f r fills = (if map_of fills (venue_fill_id f) \<noteq> None then filled_quantity (artifact_id r) fills
     else dadd (filled_quantity (artifact_id r) fills) (fill_quantity f))"

lemma admit_fill_facts:
  assumes "admit_fill f side s = Inr (r, st, new)"
  shows "map_of (om_orders s) (fill_order_id f) = Some r"
    "new \<longleftrightarrow> map_of (om_fills s) (venue_fill_id f) = None"
    "\<And>p. map_of (om_fills s) (venue_fill_id f) = Some p \<Longrightarrow> logical_fill p = logical_fill f"
    "st = (if deq (fill_total f r (om_fills s)) (ord_quantity r) then FILLED else PARTIALLY_FILLED)"
    "ord_side r = lower side" "dle (fill_total f r (om_fills s)) (ord_quantity r)"
  using assms
  by (auto simp: admit_fill_def fill_total_def Let_def dle_iff dlt_iff split: if_splits option.splits)

lemma transition_ok:
  assumes "transition E oid st s = (Inr u, s')"
  obtains r where "map_of (om_orders s) oid = Some r" "u = r\<lparr>ord_state := st\<rparr>" "map_of (om_orders s') oid = Some u"
    "om_fills s' = om_fills s" "om_ambiguous s' = om_ambiguous s"
  using assms
proof (cases rule: transition_cases)
  case same
  then show thesis using same_order_state by (intro that [of u]) (auto simp: same_core_def)
next
  case (moved r ev s1)
  then show thesis
    by (intro that [of r]) (auto simp: same_core_def record_defs dest!: record_artifact_core)
qed simp

lemma transition_same:
  assumes "transition E oid st s = (res, s')" "map_of (om_orders s) oid = Some r" "ord_state r = st"
  shows "same_core s s'"
proof -
  have "moves same_core (sbind (republish_key E (order_key r (order_event_type st)) (order_event_type st) (artifact_id r)) (\<lambda>_. sreturn r))"
    by (intro moves_sbind) auto
  then show ?thesis using assms by (auto simp: transition_def get_order_def dest: movesD)
qed

lemma finish_fill_ok:
  assumes "finish_fill E f r0 st ev s = (Inr r, s')"
  obtains r1 where "map_of (om_orders s) (artifact_id r0) = Some r1" "r = r1\<lparr>ord_state := st\<rparr>"
    "map_of (om_orders s') (artifact_id r0) = Some r" "om_fills s' = om_fills s"
proof -
  obtain u s1 where t: "transition E (artifact_id r0) st s = (Inr u, s1)"
    and rest: "sbind (publish_event E ev ''fill_recorded'' (artifact_id f)) (\<lambda>_. get_order (artifact_id r0)) s1 = (Inr r, s')"
    using assms by (auto simp: finish_fill_def sbind_eq_Inr)
  have "moves same_core (sbind (publish_event E ev ''fill_recorded'' (artifact_id f)) (\<lambda>_. get_order (artifact_id r0)))"
    by (intro moves_sbind) auto
  then have core: "same_core s1 s'" using rest by (rule movesD)
  have "map_of (om_orders s') (artifact_id r0) = Some r"
    using rest by (auto simp: sbind_eq_Inr get_order_def split: option.splits)
  with t core show thesis
    by (cases rule: transition_ok) (auto simp: same_core_def intro: that)
qed

lemma finish_fill_same:
  assumes "finish_fill E f r0 st ev s = (res, s')" "map_of (om_orders s) (artifact_id r0) = Some r" "ord_state r = st"
  shows "same_core s s'"
proof -
  obtain a s1 where t: "transition E (artifact_id r0) st s = (a, s1)" by fastforce
  have c: "same_core s s1" using transition_same [OF t assms(2,3)] .
  have m: "moves same_core (sbind (publish_event E ev ''fill_recorded'' (artifact_id f)) (\<lambda>_. get_order (artifact_id r0)))"
    by (intro moves_sbind) auto
  have "same_core s1 s'"
    using assms(1) t movesD [OF m] by (cases a) (auto simp: finish_fill_def sbind_apply [of "transition E i u" for i u])
  then show ?thesis using c by (auto simp: same_core_def)
qed

text \<open>The fill is on the books afterwards, and the order is filled just when the fills make up its quantity.\<close>

lemma record_fill_ok:
  assumes ok: "oms_ids_ok s" and f: "record_fill E f side s = (Inr r, s')"
  obtains g where "map_of (om_orders s') (fill_order_id f) = Some r"
    "map_of (om_fills s') (venue_fill_id f) = Some g" "logical_fill g = logical_fill f" "artifact_id r = fill_order_id f"
    "ord_state r = (if deq (filled_quantity (fill_order_id f) (om_fills s')) (ord_quantity r) then FILLED else PARTIALLY_FILLED)"
    "om_fills s' = (if map_of (om_fills s) (venue_fill_id f) = None then om_fills s @ [(venue_fill_id f, f)] else om_fills s)"
proof -
  obtain y where adm: "admit_fill f side s = Inr y" using f by (cases "admit_fill f side s") (auto simp: record_fill_eq)
  obtain r0 st new where y: "y = (r0, st, new)" by (cases y)
  note adm = adm [unfolded y]
  note facts = admit_fill_facts [OF adm]
  have aid: "artifact_id r0 = fill_order_id f" using oms_ids [OF ok facts(1)] .
  have fin: "\<exists>ev s2. finish_fill E f r0 st ev s2 = (Inr r, s') \<and> om_orders s2 = om_orders s \<and>
      om_fills s2 = (if new then dict_set (venue_fill_id f) f (om_fills s) else om_fills s)"
  proof (cases new)
    case True
    then obtain ev s1 where rec: "record_fill_event E f s = (Inr ev, s1)"
        "finish_fill E f r0 st ev (s1\<lparr>om_fills := dict_set (venue_fill_id f) f (om_fills s1)\<rparr>) = (Inr r, s')"
      using f adm by (auto simp: record_fill_eq sbind_eq_Inr)
    have "om_orders s1 = om_orders s" "om_fills s1 = om_fills s"
      using rec(1) by (auto simp: record_defs dest!: record_artifact_core)
    then show ?thesis using True rec(2)
      by (intro exI [of _ ev] exI [of _ "s1\<lparr>om_fills := dict_set (venue_fill_id f) f (om_fills s1)\<rparr>"]) simp
  next
    case False
    then show ?thesis using f adm by (auto simp: record_fill_eq split: option.splits)
  qed
  then obtain ev s2 where fin: "finish_fill E f r0 st ev s2 = (Inr r, s')" and s2: "om_orders s2 = om_orders s"
      "om_fills s2 = (if new then dict_set (venue_fill_id f) f (om_fills s) else om_fills s)" by blast
  from fin show thesis
  proof (cases rule: finish_fill_ok)
    case (1 r1)
    then have "r1 = r0" using s2 aid facts(1) by simp
    then have r1: "r = r0\<lparr>ord_state := st\<rparr>" using 1 by simp
    have total: "filled_quantity (fill_order_id f) (om_fills s') = fill_total f r0 (om_fills s)"
      using 1 s2 facts(2) aid by (auto simp: fill_total_def filled_quantity_add)
    obtain g where "map_of (om_fills s') (venue_fill_id f) = Some g" "logical_fill g = logical_fill f"
      using 1 s2 facts(2,3) by (cases new) auto
    moreover have "om_fills s' = (if map_of (om_fills s) (venue_fill_id f) = None then om_fills s @ [(venue_fill_id f, f)] else om_fills s)"
      using 1 s2 facts(2) by (auto simp: dict_set_new)
    moreover have "ord_state r = (if deq (filled_quantity (fill_order_id f) (om_fills s')) (ord_quantity r) then FILLED else PARTIALLY_FILLED)"
      using r1 facts(4) total by simp
    ultimately show thesis using 1(3) r1 aid that by simp
  qed
qed

lemma logical_fill_fields:
  "logical_fill f = logical_fill g \<Longrightarrow> venue_fill_id f = venue_fill_id g \<and> fill_order_id f = fill_order_id g \<and>
     fill_quantity f = fill_quantity g"
  by (auto simp: logical_fill_def dest: arg_cong [of _ _ venue_fill_id] arg_cong [of _ _ fill_order_id] arg_cong [of _ _ fill_quantity])

lemma record_fill_again:
  assumes ok: "oms_ids_ok s" "oms_ids_ok s'" and f: "record_fill E f side s = (Inr r, s')"
    and g: "logical_fill g = logical_fill f" "record_fill E g side' s' = (res, t)"
  shows "same_core s' t"
  using ok(1) f
proof (cases rule: record_fill_ok)
  case (1 h)
  note same = logical_fill_fields [OF g(1)]
  show ?thesis
  proof (cases "admit_fill g side' s'")
    case (Inl e)
    then show ?thesis using g(2) by (simp add: record_fill_eq)
  next
    case (Inr y)
    obtain r0 st new where y: "y = (r0, st, new)" by (cases y)
    note facts = admit_fill_facts [OF Inr [unfolded y]]
    have r0: "r0 = r" using facts(1) 1 same by simp
    have new: "\<not> new" using facts(2) 1 same by simp
    have st: "ord_state r = st" using facts(4) 1 same r0 by (simp add: fill_total_def)
    show ?thesis
    proof (cases "find_key (fill_key (venue_fill_id g)) (ledger_events (om_ledgers s') NS_ORDER)")
      case None
      then show ?thesis using g(2) Inr y new by (simp add: record_fill_eq)
    next
      case (Some ev)
      then have "finish_fill E g r0 st ev s' = (res, t)" using g(2) Inr y new by (simp add: record_fill_eq)
      from finish_fill_same [OF this, of r] show ?thesis using 1(1,4) r0 st by simp
    qed
  qed
qed

section \<open>Risk approval\<close>

definition approval_binds :: "risk_decision \<Rightarrow> order_risk_check option \<Rightarrow> bool" where
  "approval_binds d c \<longleftrightarrow> (case c of None \<Rightarrow> False | Some c \<Rightarrow>
     dec_outcome d = APPROVED \<and> chk_approved c \<and> chk_state_hash c = Some (dec_state_hash d) \<and>
     (chk_policy_id c = None \<or> chk_policy_id c = Some (dec_risk_policy_id d)))"

lemma approve_risk_binds: "approval_binds d c \<Longrightarrow> approve_risk E oid d c = transition E oid RISK_APPROVED"
  by (auto simp: approval_binds_def approve_risk_def split: option.splits)

lemma approve_risk_refuses: "\<not> approval_binds d c \<Longrightarrow> \<exists>msg. approve_risk E oid d c s = (Inl (OrderStateError msg), s)"
  by (auto simp: approval_binds_def approve_risk_def split: option.splits if_splits)

section \<open>Progress in calm states\<close>

text \<open>Without an event bus, in the state of a calm run, an allowed transition that moves up succeeds.\<close>

lemma record_artifact_new:
  assumes "k \<notin> ev_key ` set (om_ledgers s NS_ORDER)" "e_uuid E (om_draws s) \<notin> event_id ` set (om_ledgers s NS_ORDER)"
  obtains s1 where "record_artifact E aid v etype k s = (Inr (artifact_event E aid v etype k (om_draws s)), s1)"
proof -
  obtain r s1 where rec: "record_artifact E aid v etype k s = (r, s1)" by fastforce
  then show thesis
  proof (cases rule: record_artifact_cases)
    case (known ev)
    then show thesis using assms(1) by (auto simp: has_row_def)
  next
    case (refused err)
    then show thesis using record_artifact_refused_row [OF rec [unfolded refused(1)] assms(2)] assms(1) by auto
  qed (use rec that in auto)
qed

lemma transition_progress:
  assumes inv: "calm_inv E s" and env: "inj (e_uuid E)" "b_publish E = None" "v_bind E = None"
    and r: "map_of (om_orders s) oid = Some r" and st: "st \<in> set (allowed_transitions (ord_state r))"
    and up: "rank (ord_state r) < rank st"
  obtains s1 where "transition E oid st s = (Inr (r\<lparr>ord_state := st\<rparr>), s1)" "calm_inv E s1"
    "om_orders s1 = dict_set oid (r\<lparr>ord_state := st\<rparr>) (om_orders s)" "om_venue s1 = om_venue s"
    "om_ambiguous s1 = om_ambiguous s"
proof -
  let ?u = "r\<lparr>ord_state := st\<rparr>"
  obtain s1 ev where rec: "record_order E ?u (order_event_type st) s = (Inr ev, s1)"
    using record_artifact_new [OF moved_key_fresh [OF inv r up] fresh_id [OF env(1) inv]]
    unfolding record_order_def by blast
  have ne: "st \<noteq> ord_state r" "\<not> (ord_state r = CANCEL_PENDING \<and> st = PARTIALLY_FILLED)"
    using up by (auto simp: rank_def)
  have "transition E oid st s = (Inr ?u, s1\<lparr>om_orders := dict_set oid ?u (om_orders s1)\<rparr>)"
    using r st ne rec env(2)
    by (simp add: transition_def get_order_def Let_def set_order_def publish_event_def sbind_apply [of "record_order E u t" for u t])
  moreover have "calm_inv E (s1\<lparr>om_orders := dict_set oid ?u (om_orders s1)\<rparr>)"
    using calm_moved [OF inv env(3) r st ne rec] .
  ultimately show thesis
    by (rule that) (use rec in \<open>auto simp: record_defs dest!: record_artifact_core\<close>)
qed

section \<open>Lost responses\<close>

text \<open>
  Against any venue that keeps the venue contract: when the response to a submission is lost, \<open>route\<close> reports
  no acknowledgement, a second \<open>route\<close> is refused without touching the venue, and the reconciliation finds
  the order at the venue and acknowledges it.
\<close>

lemma lost_noted:
  assumes inv: "calm_inv E s" and env: "inj (e_uuid E)" "b_publish E = None" "v_bind E = None"
    and r: "map_of (om_orders s) oid = Some r" "ord_state r = ROUTED"
    and sub: "v_submit E r (om_venue s) = (Inl AmbiguousAcknowledgement, v)"
  obtains s1 where "submit_routed E r s = (Inr None, s1)" "calm_inv E s1" "om_orders s1 = om_orders s"
    "om_venue s1 = v" "om_ambiguous s1 = List.insert oid (om_ambiguous s)"
proof -
  let ?s0 = "s\<lparr>om_venue := v\<rparr>"
  let ?s1 = "?s0\<lparr>om_ambiguous := List.insert (artifact_id r) (om_ambiguous ?s0)\<rparr>"
  have aid: "artifact_id r = oid" using oms_ids [OF calm_inv_ids [OF inv] r(1)] .
  have inv0: "calm_inv E ?s0" using inv by (rule calm_inv_core [rotated]) (simp add: same_core_def)
  obtain a t where rec: "record_order E r ''order_ack_ambiguous'' ?s1 = (a, t)" by fastforce
  have invt: "calm_inv E t" using calm_lost [OF inv0 env(3,1) _ r(2) rec] r(1) by simp
  have "\<exists>ev. a = Inr ev"
  proof (cases a)
    case (Inl err)
    have "e_uuid E (om_draws ?s1) \<notin> event_id ` set (om_ledgers ?s1 NS_ORDER)"
      using fresh_id [OF env(1) inv] by simp
    from record_artifact_refused_row [OF rec [unfolded record_order_def Inl] this]
    show ?thesis using ambiguous_row [OF inv r] aid by fastforce
  qed simp
  then obtain ev where "a = Inr ev" ..
  then have "submit_routed E r s = (Inr None, t)"
    using sub rec env(2)
    by (simp add: submit_routed_def on_venue_def publish_event_def sbind_apply [of "record_order E u t" for u t])
  from this invt show thesis
    by (rule that) (use rec aid in \<open>auto simp: record_defs dest!: record_artifact_core\<close>)
qed

lemma transition_res_cases: "transition E oid st s = (Inr u, s1) \<Longrightarrow> map_of (om_orders s1) oid = Some u \<and> ord_state u = st"
  using transition_result by blast

context venue
begin

lemma lost_response_resolved:
  assumes calm: "calm_inv E s" and env: "inj (e_uuid E)" "b_publish E = None" "v_bind E = None"
    and ven: "v_submit E = submit" "v_open_orders E = open_orders" "v_reconcile E = None" "inv (om_venue s)"
    and r: "map_of (om_orders s) oid = Some r" "ord_state r = RISK_APPROVED" "oid \<notin> set (om_ambiguous s)"
    and sub: "submit (r\<lparr>ord_state := ROUTED\<rparr>) (om_venue s) = (Inl AmbiguousAcknowledgement, v)"
  shows "\<exists>s1 a s2. route E oid s = (Inr None, s1) \<and> om_venue s1 = v \<and>
    route E oid s1 = (Inl (OrderStateError ''ambiguous acknowledgement requires venue reconciliation before retry''), s1) \<and>
    reconcile_ambiguous E oid s1 = (Inr a, s2) \<and> ack_order_id a = oid \<and> oid \<notin> set (om_ambiguous s2) \<and>
    map_option ord_state (map_of (om_orders s2) oid) = Some ACKNOWLEDGED"
proof -
  let ?u = "r\<lparr>ord_state := ROUTED\<rparr>"
  have aid: "artifact_id r = oid" using oms_ids [OF calm_inv_ids [OF calm] r(1)] .
  obtain s0 where s0: "transition E oid ROUTED s = (Inr ?u, s0)" "calm_inv E s0"
      "om_orders s0 = dict_set oid ?u (om_orders s)" "om_venue s0 = om_venue s" "om_ambiguous s0 = om_ambiguous s"
    by (rule transition_progress [OF calm env, of oid r ROUTED])
      (use that r in \<open>auto simp: allowed_transitions_def rank_def\<close>)
  obtain s1 where s1: "submit_routed E ?u s0 = (Inr None, s1)" "calm_inv E s1" "om_orders s1 = om_orders s0"
      "om_venue s1 = v" "om_ambiguous s1 = List.insert oid (om_ambiguous s0)"
    using lost_noted [OF s0(2) env, of oid ?u v] s0 ven(1) sub by auto
  have route1: "route E oid s = (Inr None, s1)"
    using r s0(1) s1(1) by (simp add: route_eq get_order_def sbind_apply [of "transition E i u" for i u])
  have route2: "route E oid s1 = (Inl (OrderStateError ''ambiguous acknowledgement requires venue reconciliation before retry''), s1)"
    using s1(5) by (simp add: route_eq)
  have invv: "inv v" using submit_inv [OF ven(4) sub] .
  obtain b where b: "ack_order_id b = artifact_id ?u" "b \<in> set (open_orders v)"
    using submit_lost [OF ven(4) sub] by blast
  define ms where "ms = filter (\<lambda>x. ack_order_id x = oid) (open_orders v)"
  have "b \<in> set ms" using b aid by (simp add: ms_def)
  then obtain a rest where ms: "ms = a # rest" by (cases ms) auto
  then have a: "ack_order_id a = oid" "ack_accepted a"
    using open_accepted [OF invv, of a] by (auto simp: ms_def filter_eq_Cons_iff)
  have res: "resolve_acknowledgement E oid msg s1 = (Inr a, s1)" for msg
    using ven s1(4) ms by (simp add: resolve_acknowledgement_def query_venue_acknowledgement_def ms_def)
  obtain s2 where s2: "transition E oid ACKNOWLEDGED s1 = (Inr (?u\<lparr>ord_state := ACKNOWLEDGED\<rparr>), s2)"
    by (rule transition_progress [OF s1(2) env, of oid ?u ACKNOWLEDGED])
      (use that s1(3) s0(3) in \<open>auto simp: allowed_transitions_def rank_def\<close>)
  have "reconcile_ambiguous E oid s1 = (Inr a, s2\<lparr>om_ambiguous := removeAll oid (om_ambiguous s2)\<rparr>)"
    using s1(5) res a s2
    by (simp add: reconcile_ambiguous_def sbind_apply [of "resolve_acknowledgement E i m" for i m]
        sbind_apply [of "transition E i u" for i u])
  then show ?thesis using route1 route2 s1(4) a(1) transition_res_cases [OF s2] by simp
qed

end

end
