(* ===== verification/Oms_Properties.thy ===== *)
theory Oms_Properties
  imports Oms_Methods
begin

text \<open>
  The order manager on its paper venue and its outbox, as the source composes them, one order with its fills,
  and the properties of the order manager with their instances on that order.
\<close>

definition paper_env :: "(order \<Rightarrow> string) \<Rightarrow> (nat \<Rightarrow> uuid) \<Rightarrow> (nat \<Rightarrow> utc) \<Rightarrow> bool \<Rightarrow> (paper_venue, outbox) oms_env" where
  "paper_env sha ids clock bus =
     \<lparr>v_submit = paper_submit sha, v_open_orders = paper_open_orders,
      v_cancel = Some (\<lambda>r v. (case fst (paper_cancel r v) of Inl e \<Rightarrow> Inl e | Inr b \<Rightarrow> Inr (Some b), snd (paper_cancel r v))),
      v_reconcile = None, v_bind = None, b_publish = (if bus then Some publish else None),
      e_uuid = ids, e_now = clock\<rparr>"

definition ex_env :: "(paper_venue, outbox) oms_env" where
  "ex_env = paper_env (\<lambda>_. ''digest'') (\<lambda>n. n) int False"

definition ex_instrument :: instrument where
  "ex_instrument = \<lparr>artifact_id = 7, created_at = 0, canonical_id = ''BTC-USD'', asset_class = Crypto,
     inst_venue = Some ''paper'', venue_symbol = None, base_asset = Some ''BTC'', quote_asset = Some ''USD'',
     valid_from = None, valid_to = None\<rparr>"

definition ex_order :: order where
  "ex_order = \<lparr>artifact_id = 1, created_at = 0, parent_intent_id = 2, execution_plan_id = 3,
     ord_instrument = ex_instrument, ord_side = ''buy'', ord_quantity = Dec 10 0, order_type = ''market'',
     ord_price = None, time_in_force = ''day'', idempotency_key = ''k'', ord_state = CREATED\<rparr>"

definition ex_fill :: "nat \<Rightarrow> string \<Rightarrow> int \<Rightarrow> fill" where
  "ex_fill i v q = \<lparr>artifact_id = i, created_at = 0, fill_order_id = 1, venue_fill_id = v,
     fill_quantity = Dec q 0, fill_price = Dec 5 0, fill_fee = Dec 0 0, fill_occurred_at = 0\<rparr>"

definition ex_venue :: paper_venue where
  "ex_venue = \<lparr>pv_venue = ''paper'', pv_strict = False, pv_orders = [], pv_fingerprints = [],
     pv_ambiguous_once = [], pv_outage_once = False\<rparr>"

definition ex_start :: "(paper_venue, outbox) oms" where
  "ex_start = empty_manager empty_ledgers ex_venue [] 100"

definition ex_decision :: risk_decision where
  "ex_decision = \<lparr>artifact_id = 11, created_at = 0, dec_target_portfolio_id = 12, dec_risk_policy_id = 13,
     dec_outcome = APPROVED, dec_state_hash = ''h'', dec_reasons = [], dec_reduced_positions = []\<rparr>"

definition ex_check :: order_risk_check where
  "ex_check = \<lparr>chk_approved = True, chk_reasons = [], chk_state_hash = Some ''h'', chk_policy_id = Some 13\<rparr>"

definition ex_open :: "(paper_venue, outbox) oms_call list" where
  "ex_open = [Create ex_order, ApproveRisk 1 ex_decision (Some ex_check), Route 1]"


lemma inj_ex_env [simp]: "inj (e_uuid ex_env)" "v_bind ex_env = None" "b_publish ex_env = None"
  by (simp_all add: ex_env_def paper_env_def)

lemma ex_start_ledger [simp]: "empty_ledgers NS_ORDER = []"
  by (simp add: empty_ledgers_def)

section \<open>Runs of calls\<close>

text \<open>C9: Whatever methods are called, in whatever order, with the venue, the bus and the other ledgers changing
  in between, the order manager keeps its books: artifact identifiers and idempotency keys are unique, every
  fill belongs to a known order and is on the ledger, as is every order in its current state, and the fills
  of an order never add up to more than its quantity.\<close>

theorem oms_run_invariant:
  assumes "L NS_ORDER = []"
  shows "oms_ok (perform_all E cs (empty_manager L v b n))"
proof -
  have "oms_ok (empty_manager L v b n)" using assms by (rule oms_ok_empty)
  then show ?thesis using run_path [of _ False E cs] by blast
qed

theorem oms_run_invariant_witness:
  "oms_ok (perform_all ex_env (ex_open @ [RecordFill (ex_fill 21 ''a'' 2) ''buy'', Cancel 1]) ex_start)"
  unfolding ex_start_def by (rule oms_run_invariant) simp

text \<open>C17: Every method refines the order specification: from a consistent state, each call (errors and interruptions
  included) is a path of specification steps, and the steps of a calm call are calm.\<close>

theorem perform_refines:
  assumes "oms_ok s" "calm \<Longrightarrow> calm_call c s"
  shows "oms_path E calm s (perform E c s)"
  using assms oms_ids by (intro perform_path) (auto simp: oms_ok_def)

theorem perform_refines_witness:
  "oms_path ex_env True ex_start (perform ex_env (Create ex_order) ex_start)"
  by (rule perform_refines)
     (simp_all add: ex_start_def oms_ok_empty calm_call_def ex_order_def)

text \<open>C10: The order ledger is append-only and orders change only along allowed transitions: after any calls the
  ledger extends the former one, and every order known before is still known and equal but for its state,
  which is reachable from its former state in the transition table.\<close>

theorem oms_run_history:
  assumes "oms_ok s"
  shows "(\<exists>ys. om_ledgers (perform_all E cs s) NS_ORDER = om_ledgers s NS_ORDER @ ys) \<and>
    evolves (om_orders s) (om_orders (perform_all E cs s))"
  using run_path [OF assms, of False E cs] path_prefix path_evolves by blast

theorem oms_run_history_witness:
  "evolves (om_orders ex_start) (om_orders (perform_all ex_env ex_open ex_start))"
  using oms_run_history [of ex_start ex_env ex_open] by (simp add: ex_start_def oms_ok_empty)

text \<open>C1: At most one submission: in every run of calls, the list of orders sent to the venue has no repetition,
  whatever the venue answers (lost responses, refusals and exceptions included).\<close>

theorem submitted_at_most_once:
  assumes "L NS_ORDER = []" "list_all outside_keeps_log cs"
  shows "distinct (sent (perform_all (with_log E) cs (empty_manager L (v, []) b n)))"
proof -
  let ?s = "empty_manager L (v, []) b n"
  have "oms_ok ?s" using assms(1) by (rule oms_ok_empty)
  moreover have "sent_inv ?s" by (simp add: sent_inv_def sent_def empty_manager_def)
  ultimately show ?thesis using run_sent_inv assms(2) by (auto simp: sent_inv_def)
qed

definition ex_retry :: "(paper_venue \<times> uuid list, outbox) oms_call list" where
  "ex_retry = [Create ex_order, ApproveRisk 1 ex_decision (Some ex_check), Route 1, Route 1, ReconcileRouted 1, Route 1]"

theorem submitted_at_most_once_witness:
  "distinct (sent (perform_all (with_log ex_env) ex_retry (empty_manager empty_ledgers (ex_venue, []) [] 100))) \<and>
   sent (perform_all (with_log ex_env) ex_retry (empty_manager empty_ledgers (ex_venue, []) [] 100)) = [1]"
proof
  show "distinct (sent (perform_all (with_log ex_env) ex_retry (empty_manager empty_ledgers (ex_venue, []) [] 100)))"
    by (rule submitted_at_most_once) (simp_all add: ex_retry_def outside_keeps_log_def)
  show "sent (perform_all (with_log ex_env) ex_retry (empty_manager empty_ledgers (ex_venue, []) [] 100)) = [1]"
    by code_simp
qed

text \<open>C2: Recovery: after a calm run the ledger is replayable, the restarted order manager has the same orders and
  fills, and every order that still awaits the reconciliation of a lost response awaits it after the restart.\<close>

theorem oms_recovery:
  assumes "v_bind E = None" "inj (e_uuid E)" "L NS_ORDER = []" "calm_run E cs (empty_manager L v b n)"
    and "s = perform_all E cs (empty_manager L v b n)"
  shows "\<exists>t. new_order_manager E (om_ledgers s) v' b' n' = (Inr (), t) \<and> om_ledgers t = om_ledgers s \<and>
    om_orders t = om_orders s \<and> om_fills t = om_fills s \<and>
    (\<forall>i \<in> set (om_ambiguous s). map_option ord_state (map_of (om_orders s) i) = Some ROUTED \<longrightarrow> i \<in> set (om_ambiguous t))"
  using calm_inv_restores [OF calm_run_inv [OF assms(1-4)]] assms(5) by simp

definition ex_calm :: "(paper_venue, outbox) oms_call list" where
  "ex_calm = ex_open @ [RecordFill (ex_fill 21 ''a'' 2) ''buy'', RecordFill (ex_fill 22 ''b'' 8) ''buy'', Reconcile 1]"

theorem oms_recovery_witness:
  "\<exists>t. new_order_manager ex_env (om_ledgers (perform_all ex_env ex_calm ex_start)) ex_venue [] 0 = (Inr (), t) \<and>
     om_orders t = om_orders (perform_all ex_env ex_calm ex_start)"
proof -
  have "calm_run ex_env ex_calm ex_start" by code_simp
  then show ?thesis
    using oms_recovery [of ex_env empty_ledgers ex_calm ex_venue "[]" 100 _ ex_venue "[]" 0]
    by (auto simp: ex_start_def)
qed

section \<open>Methods\<close>

text \<open>The risk gate of the order manager: \<open>approve_risk\<close> marks the order as approved just when the decision is an
  approval and the order check is an approval bound to the same state and policy; otherwise it raises and
  changes nothing.\<close>

theorem approve_risk_gate:
  shows "approve_risk E oid d c s =
    (if approval_binds d c then transition E oid RISK_APPROVED s else (fst (approve_risk E oid d c s), s)) \<and>
    (is_ok (fst (approve_risk E oid d c s)) \<longrightarrow> approval_binds d c)"
  using approve_risk_binds [of d c E oid] approve_risk_refuses [of d c E oid s] by (cases "approval_binds d c") auto

theorem approve_risk_gate_witness:
  "approval_binds ex_decision (Some ex_check) \<and>
   approve_risk ex_env 1 ex_decision (Some ex_check) ex_start = transition ex_env 1 RISK_APPROVED ex_start"
  using approve_risk_gate [of ex_env 1 ex_decision "Some ex_check" ex_start]
  by (simp add: approval_binds_def ex_decision_def ex_check_def)

text \<open>C18: Recording a fill: afterwards the fill is on the books, the order is in state \<open>FILLED\<close> just when its fills add
  up to its quantity and in \<open>PARTIALLY_FILLED\<close> otherwise, and recording it again (with any identifier and
  time, on either side) changes neither ledger, orders nor fills.\<close>

theorem record_fill_effect:
  assumes "oms_ok s" "record_fill E f side s = (Inr r, s')"
  shows "map_of (om_orders s') (fill_order_id f) = Some r \<and>
    ord_state r = (if deq (filled_quantity (fill_order_id f) (om_fills s')) (ord_quantity r) then FILLED else PARTIALLY_FILLED) \<and>
    om_fills s' = (if map_of (om_fills s) (venue_fill_id f) = None then om_fills s @ [(venue_fill_id f, f)] else om_fills s) \<and>
    (\<forall>g side'. logical_fill g = logical_fill f \<longrightarrow> same_core s' (snd (record_fill E g side' s')))"
proof (intro conjI allI impI)
  have ids: "oms_ids_ok s" using assms(1) by (simp add: oms_ok_def)
  show "map_of (om_orders s') (fill_order_id f) = Some r"
    and "ord_state r = (if deq (filled_quantity (fill_order_id f) (om_fills s')) (ord_quantity r) then FILLED else PARTIALLY_FILLED)"
    and "om_fills s' = (if map_of (om_fills s) (venue_fill_id f) = None then om_fills s @ [(venue_fill_id f, f)] else om_fills s)"
    by (rule record_fill_ok [OF ids assms(2)], assumption)+
  fix g side' assume "logical_fill g = logical_fill f"
  moreover have "oms_path E False s s'"
    by (rule record_fill_path [OF assms(2)]) (erule oms_ids [OF ids], simp)
  then have "oms_ok s'" using assms(1) by (rule path_oms_ok)
  then have "oms_ids_ok s'" by (simp add: oms_ok_def)
  ultimately show "same_core s' (snd (record_fill E g side' s'))"
    by (intro record_fill_again [OF ids _ assms(2), of g side' "fst (record_fill E g side' s')"]) simp_all
qed

definition ex_acked :: "(paper_venue, outbox) oms" where
  "ex_acked = perform_all ex_env ex_open ex_start"

theorem record_fill_effect_witness:
  "\<exists>r s'. record_fill ex_env (ex_fill 21 ''a'' 10) ''buy'' ex_acked = (Inr r, s') \<and> ord_state r = FILLED \<and>
     same_core s' (snd (record_fill ex_env (ex_fill 21 ''a'' 10) ''buy'' s'))"
proof -
  have ok: "oms_ok ex_acked"
  proof -
    have "oms_ok (empty_manager empty_ledgers ex_venue [] 100 :: (paper_venue, outbox) oms)" by (rule oms_ok_empty) simp
    then show ?thesis unfolding ex_acked_def ex_start_def using run_path [where calm = False] by blast
  qed
  obtain a s' where f: "record_fill ex_env (ex_fill 21 ''a'' 10) ''buy'' ex_acked = (a, s')" by fastforce
  have "map_sum (\<lambda>_. ()) ord_state (fst (record_fill ex_env (ex_fill 21 ''a'' 10) ''buy'' ex_acked)) = Inr FILLED"
    by code_simp
  then obtain r where "a = Inr r" "ord_state r = FILLED" using f by (cases a) auto
  then show ?thesis using record_fill_effect [OF ok, of ex_env "ex_fill 21 ''a'' 10" "''buy''" r s'] f by auto
qed

text \<open>C19: A lost response is resolved: when the paper venue loses the response to a submission, \<open>route\<close> returns no
  acknowledgement, a second \<open>route\<close> is refused, and \<open>reconcile_ambiguous\<close> finds the order at the venue,
  acknowledges it and clears the mark.\<close>

theorem lost_response_paper:
  assumes "calm_inv E s" "inj (e_uuid E)" "b_publish E = None" "v_bind E = None" "v_reconcile E = None"
    and "v_submit E = paper_submit sha" "v_open_orders E = paper_open_orders" "paper_venue_ok (om_venue s)"
    and "map_of (om_orders s) oid = Some r" "ord_state r = RISK_APPROVED" "oid \<notin> set (om_ambiguous s)"
    and "paper_submit sha (r\<lparr>ord_state := ROUTED\<rparr>) (om_venue s) = (Inl AmbiguousAcknowledgement, v)"
  shows "\<exists>s1 a s2. route E oid s = (Inr None, s1) \<and> om_venue s1 = v \<and>
    route E oid s1 = (Inl (OrderStateError ''ambiguous acknowledgement requires venue reconciliation before retry''), s1) \<and>
    reconcile_ambiguous E oid s1 = (Inr a, s2) \<and> ack_order_id a = oid \<and> oid \<notin> set (om_ambiguous s2) \<and>
    map_option ord_state (map_of (om_orders s2) oid) = Some ACKNOWLEDGED"
  using assms by (intro paper.lost_response_resolved) auto

definition ex_losing :: paper_venue where
  "ex_losing = ex_venue\<lparr>pv_ambiguous_once := [''k'']\<rparr>"

definition ex_approved :: "(paper_venue, outbox) oms" where
  "ex_approved = perform_all ex_env [Create ex_order, ApproveRisk 1 ex_decision (Some ex_check)]
     (empty_manager empty_ledgers ex_losing [] 100)"

theorem lost_response_paper_witness:
  "\<exists>s1 a s2. route ex_env 1 ex_approved = (Inr None, s1) \<and> reconcile_ambiguous ex_env 1 s1 = (Inr a, s2) \<and>
     map_option ord_state (map_of (om_orders s2) 1) = Some ACKNOWLEDGED"
proof -
  have "calm_run ex_env [Create ex_order, ApproveRisk 1 ex_decision (Some ex_check)] (empty_manager empty_ledgers ex_losing [] 100)"
    by code_simp
  then have calm: "calm_inv ex_env ex_approved" unfolding ex_approved_def by (intro calm_run_inv) simp_all
  have v: "om_venue ex_approved = ex_losing" "om_ambiguous ex_approved = []"
    "map_of (om_orders ex_approved) 1 = Some (ex_order\<lparr>ord_state := RISK_APPROVED\<rparr>)"
    by code_simp+
  have ok: "paper_venue_ok ex_losing" by (simp add: paper_venue_ok_def ex_losing_def ex_venue_def paper_open_orders_def)
  have "fst (paper_submit (\<lambda>_. ''digest'') (ex_order\<lparr>ord_state := RISK_APPROVED, ord_state := ROUTED\<rparr>) ex_losing)
      = Inl AmbiguousAcknowledgement"
    by code_simp
  then have "paper_submit (\<lambda>_. ''digest'') (ex_order\<lparr>ord_state := RISK_APPROVED, ord_state := ROUTED\<rparr>) ex_losing
      = (Inl AmbiguousAcknowledgement, snd (paper_submit (\<lambda>_. ''digest'') (ex_order\<lparr>ord_state := RISK_APPROVED, ord_state := ROUTED\<rparr>) ex_losing))"
    by (metis prod.collapse)
  then have "\<exists>s1 a s2. route ex_env 1 ex_approved = (Inr None, s1) \<and>
      om_venue s1 = snd (paper_submit (\<lambda>_. ''digest'') (ex_order\<lparr>ord_state := RISK_APPROVED, ord_state := ROUTED\<rparr>) ex_losing) \<and>
      route ex_env 1 s1 = (Inl (OrderStateError ''ambiguous acknowledgement requires venue reconciliation before retry''), s1) \<and>
      reconcile_ambiguous ex_env 1 s1 = (Inr a, s2) \<and> ack_order_id a = 1 \<and> 1 \<notin> set (om_ambiguous s2) \<and>
      map_option ord_state (map_of (om_orders s2) 1) = Some ACKNOWLEDGED"
    using v ok
    by (intro lost_response_paper [OF calm, where r = "ex_order\<lparr>ord_state := RISK_APPROVED\<rparr>" and sha = "\<lambda>_. ''digest''"])
       (simp_all add: ex_env_def paper_env_def)
  then show ?thesis by blast
qed

section \<open>Where the source falls short\<close>

lemma transition_venue: "b_publish E = None \<Longrightarrow> om_venue (snd (transition E oid st s)) = om_venue s"
  by (auto simp: transition_def sbind_def get_order_def spure_def sreturn_def sraise_def set_order_def smodify_def publish_event_def
      republish_key_def record_defs Let_def split: option.splits sum.splits prod.splits dest!: record_artifact_core)

lemma snd_sbind_return [simp]:
  "snd (sbind m (\<lambda>_. Pair (Inr x)) s) = snd (m s)" "snd (sbind m (\<lambda>_. sreturn x) s) = snd (m s)"
  by (simp_all add: sbind_def split: prod.split sum.split)

lemma cancel_event_types [simp]:
  "order_event_type CANCEL_PENDING = ''order_cancel_pending''" "order_event_type CANCELLED = ''order_cancelled''"
  "order_event_type ROUTED = ''order_routed''"
  by code_simp+

lemma submit_routed_venue:
  assumes "b_publish E = None"
  shows "om_venue (snd (submit_routed E r t)) = snd (v_submit E r (om_venue t))"
proof -
  obtain a w where sub: "v_submit E r (om_venue t) = (a, w)" by fastforce
  have kept: "om_venue (snd (record_order E r etype u)) = om_venue u" for etype u
    by (cases "record_order E r etype u") (simp add: record_defs record_artifact_core)
  show ?thesis
  proof (cases a)
    case (Inl err)
    show ?thesis
    proof (cases "err = AmbiguousAcknowledgement")
      case True
      then show ?thesis using sub Inl assms kept by (simp add: submit_routed_def on_venue_def publish_event_def sbind_apply [of "smodify f" for f])
    next
      case False
      then show ?thesis using sub Inl by (cases err) (simp_all add: submit_routed_def on_venue_def)
    qed
  next
    case (Inr k)
    then show ?thesis using sub assms by (simp add: submit_routed_def on_venue_def transition_venue)
  qed
qed

lemma hydrate_bad_order:
  assumes "ev_payload row = art_payload (POrder r) (artifact_id r)" "event_type row = order_event_type (ord_state r) \<or> event_type row = ''order_created''"
    and "case map_of (om_orders s) (artifact_id r) of None \<Rightarrow> event_type row \<noteq> ''order_created'' \<or> ord_state r \<noteq> CREATED
      | Some p \<Rightarrow> event_type row \<noteq> ''order_ack_ambiguous'' \<and> ord_state r \<notin> set (allowed_transitions (ord_state p))"
  shows "fst (hydrate_event E row s) = Inl hydrate_error"
proof -
  have "starts_order (event_type row)"
    using assms(2) by (auto simp: starts_order_def order_event_type_def)
  then show ?thesis
    using assms(1,3) by (auto simp: hydrate_event_def catch_as_def hydrate_order_def spure_def sbind_def split: option.splits)
qed

text \<open>The record of an order whose key is known with the same content adds nothing.\<close>

lemma record_order_known:
  assumes "find_key (order_key r etype) (om_ledgers s NS_ORDER) = Some row" "event_type row = etype"
    "ev_payload row = art_payload (POrder r) (artifact_id r)"
  shows "record_order E r etype s = (Inr row, s\<lparr>om_draws := Suc (om_draws s)\<rparr>)"
  using assms payload_json_art [of "POrder r" "artifact_id r"]
  by (simp add: record_order_def record_artifact_eq ledger_append_def append_rows_eq artifact_event_def matching_prior_def same_content_def
      art_payload_def Let_def)

text \<open>C38: A cancellation that is requested again after a partial fill breaks the ledger: in any state that its ledger restores so far,
  when the ledger has the \<open>CANCEL_PENDING\<close> version of a partially filled order from an earlier cancellation, then cancelling it again
  and acknowledging the cancellation, whatever the venue answers, leaves the order cancelled, but the order manager
  cannot be restarted: the second \<open>CANCEL_PENDING\<close> has the key of the first and is not recorded, so the replay meets a
  transition from \<open>PARTIALLY_FILLED\<close> to \<open>CANCELLED\<close>.\<close>

theorem repeated_cancel_breaks_recovery:
  fixes E :: "('v, 'b) oms_env"
  assumes r: "map_of (om_orders s) (artifact_id r) = Some r" "ord_state r = PARTIALLY_FILLED"
    and row: "find_key (order_key r ''order_cancel_pending'') (om_ledgers s NS_ORDER) = Some row" "event_type row = ''order_cancel_pending''"
      "ev_payload row = art_payload (POrder (r\<lparr>ord_state := CANCEL_PENDING\<rparr>)) (artifact_id r)"
    and fresh: "order_key r ''order_cancelled'' \<notin> ev_key ` set (om_ledgers s NS_ORDER)"
      "\<forall>n \<ge> om_draws s. e_uuid E n \<notin> event_id ` set (om_ledgers s NS_ORDER)"
    and env: "b_publish E = None" "v_bind E = None"
    and restored: "new_order_manager E (om_ledgers s) v' b' n' = (Inr (), u)" "map_of (om_orders u) (artifact_id r) = Some r"
  defines "t \<equiv> perform_all E [Cancel (artifact_id r), AcknowledgeCancel (artifact_id r)] s"
  shows "map_option ord_state (map_of (om_orders t) (artifact_id r)) = Some CANCELLED \<and>
    fst (new_order_manager E (om_ledgers t) v' b' n') = Inl hydrate_error"
proof -
  let ?i = "artifact_id r" and ?p = "r\<lparr>ord_state := CANCEL_PENDING\<rparr>" and ?c = "r\<lparr>ord_state := CANCELLED\<rparr>"
  let ?s1 = "s\<lparr>om_draws := Suc (om_draws s), om_orders := dict_set ?i ?p (om_orders s)\<rparr>"
  have keys: "order_key ?p etype = order_key r etype" "order_key ?c etype = order_key r etype" for etype
    by (simp_all add: order_key_def)
  have pending: "transition E ?i CANCEL_PENDING s = (Inr ?p, ?s1)"
    using r env(1) record_order_known [of ?p "''order_cancel_pending''" s row E] row
    by (simp add: transition_def get_order_def allowed_transitions_def keys Let_def set_order_def publish_event_def
        sbind_apply [of "record_order E q e" for q e])
  obtain w where cancelled: "perform E (Cancel ?i) s = ?s1\<lparr>om_venue := w\<rparr>"
  proof (cases "v_cancel E")
    case None
    then show thesis
      using that [of "om_venue s"] r(1) pending by (simp add: cancel_order_def get_order_def sbind_apply [of "transition E i q" for i q])
  next
    case (Some c)
    obtain a w where "c r (om_venue s) = (a, w)" by fastforce
    then show thesis
      using that [of w] r(1) pending Some
      by (cases a) (auto simp: cancel_order_def get_order_def catch_as_def on_venue_def sbind_apply [of "transition E i q" for i q]
          sbind_apply [of "catch_as e m" for e m] split: option.splits)
  qed
  let ?s2 = "?s1\<lparr>om_venue := w\<rparr>"
  have "order_key ?c ''order_cancelled'' \<notin> ev_key ` set (om_ledgers ?s2 NS_ORDER)"
    "e_uuid E (om_draws ?s2) \<notin> event_id ` set (om_ledgers ?s2 NS_ORDER)"
    using fresh unfolding keys by simp_all
  note new = this
  obtain s3 where "record_artifact E ?i (POrder ?c) ''order_cancelled'' (order_key ?c ''order_cancelled'') ?s2 =
      (Inr (artifact_event E ?i (POrder ?c) ''order_cancelled'' (order_key ?c ''order_cancelled'') (om_draws ?s2)), s3)"
    by (rule record_artifact_new [OF new])
  then obtain ev where art: "record_artifact E ?i (POrder ?c) ''order_cancelled'' (order_key ?c ''order_cancelled'') ?s2 = (Inr ev, s3)" by blast
  then have rec: "record_order E ?c ''order_cancelled'' ?s2 = (Inr ev, s3)" by (simp add: record_order_def)
  obtain last where last: "om_ledgers s3 NS_ORDER = om_ledgers s NS_ORDER @ [last]" "event_type last = ''order_cancelled''"
    "ev_payload last = art_payload (POrder ?c) ?i"
    using record_artifact_fresh [OF art new(1)] by auto
  have "transition E ?i CANCELLED ?s2 = (Inr ?c, s3\<lparr>om_orders := dict_set ?i ?c (om_orders s3)\<rparr>)"
    using rec env(1)
    by (simp add: transition_def get_order_def allowed_transitions_def Let_def set_order_def publish_event_def
        sbind_apply [of "record_order E q e" for q e])
  then have t: "t = s3\<lparr>om_orders := dict_set ?i ?c (om_orders s3)\<rparr>" by (simp add: t_def cancelled [simplified] acknowledge_cancel_def)
  have "hydrate_events E (om_ledgers s NS_ORDER) (empty_manager (om_ledgers s) v' b' n') = (Inr (), u)"
    using restored(1) by (simp add: new_order_manager_eq ledger_events_def)
  then have "hydrate_events E (om_ledgers s NS_ORDER) (empty_manager (om_ledgers s) v' b' n'\<lparr>om_ledgers := om_ledgers s3\<rparr>) =
      (Inr (), u\<lparr>om_ledgers := om_ledgers s3\<rparr>)"
    by (simp only: hydrate_events_ledgers) simp
  moreover have "fst (hydrate_event E last (u\<lparr>om_ledgers := om_ledgers s3\<rparr>)) = Inl hydrate_error"
    by (rule hydrate_bad_order [of _ ?c]) (use last restored(2) r(2) in \<open>simp_all add: allowed_transitions_def\<close>)
  moreover from this obtain q where "hydrate_event E last (u\<lparr>om_ledgers := om_ledgers s3\<rparr>) = (Inl hydrate_error, q)"
    by (metis prod.collapse)
  ultimately have "fst (hydrate_events E (om_ledgers s NS_ORDER @ [last]) (empty_manager (om_ledgers s3) v' b' n')) = Inl hydrate_error"
    by (simp add: hydrate_events_append empty_manager_def sbind_def split: prod.splits sum.splits)
  then show ?thesis by (simp add: t new_order_manager_eq ledger_events_def last(1))
qed

definition ex_filled :: "(paper_venue, outbox) oms" where
  "ex_filled = perform_all ex_env (ex_open @ [Cancel 1, RecordFill (ex_fill 21 ''a'' 2) ''buy'']) ex_start"

theorem repeated_cancel_breaks_recovery_witness:
  "map_option ord_state (map_of (om_orders (perform_all ex_env [Cancel 1, AcknowledgeCancel 1] ex_filled)) 1) = Some CANCELLED \<and>
   fst (new_order_manager ex_env (om_ledgers (perform_all ex_env [Cancel 1, AcknowledgeCancel 1] ex_filled)) ex_venue [] 0) = Inl hydrate_error"
proof -
  let ?r = "ex_order\<lparr>ord_state := PARTIALLY_FILLED\<rparr>" and ?rows = "om_ledgers ex_filled NS_ORDER"
  have id: "artifact_id ?r = 1" "ord_state ?r = PARTIALLY_FILLED" by (simp_all add: ex_order_def)
  have r: "map_of (om_orders ex_filled) 1 = Some ?r" by code_simp
  have "case find_key (order_key ?r ''order_cancel_pending'') ?rows of None \<Rightarrow> False
    | Some row \<Rightarrow> event_type row = ''order_cancel_pending'' \<and> ev_payload row = art_payload (POrder (?r\<lparr>ord_state := CANCEL_PENDING\<rparr>)) 1"
    by code_simp
  then obtain row where row: "find_key (order_key ?r ''order_cancel_pending'') ?rows = Some row" "event_type row = ''order_cancel_pending''"
    "ev_payload row = art_payload (POrder (?r\<lparr>ord_state := CANCEL_PENDING\<rparr>)) 1"
    by (auto split: option.splits)
  have key: "order_key ?r ''order_cancelled'' \<notin> ev_key ` set ?rows" by code_simp
  have "list_all (\<lambda>x. event_id x < om_draws ex_filled) ?rows" by code_simp
  then have ids: "\<forall>n \<ge> om_draws ex_filled. e_uuid ex_env n \<notin> event_id ` set ?rows"
    by (fastforce simp: list_all_iff ex_env_def paper_env_def)
  let ?new = "new_order_manager ex_env (om_ledgers ex_filled) ex_venue [] 0"
  have "fst ?new = Inr ()" "map_of (om_orders (snd ?new)) 1 = Some ?r" by code_simp+
  then have new: "?new = (Inr (), snd ?new)" "map_of (om_orders (snd ?new)) 1 = Some ?r" by (metis prod.collapse)+
  show ?thesis
    using repeated_cancel_breaks_recovery [of ex_filled ?r row ex_env ex_venue "[]" 0 "snd ?new", unfolded id(1),
        OF r id(2) row key ids inj_ex_env(3) inj_ex_env(2) new] .
qed



end
