(* ===== verification/Account.thy ===== *)
theory Account
  imports Contracts
begin

text \<open>
  The account state (\<open>AccountState\<close> and \<open>AccountStateSnapshot\<close> of \<open>src/advisorai/execution/account.py\<close>): cash,
  positions, marks, average costs and cost totals, with one operation per accounting event.  An operation
  that raises leaves the fields it had already assigned: \<open>apply_funding\<close> and \<open>update_margin\<close> look at the
  time zone last.  The record is polymorphic in its numbers and its time: \<open>raw_account\<close> is what a caller
  passes to the constructor, \<open>account\<close> what the constructor has validated.

  The state hash is the digest of the canonical JSON text of the state; the document is modelled by its
  sorted fields and the digest is the parameter \<open>sha\<close>.
\<close>

section \<open>State\<close>

record ('n, 't) acct =
  ac_cash :: 'n
  ac_positions :: "(string, 'n) dict"
  ac_marks :: "(string, 'n) dict"
  ac_average_cost :: "(string, 'n) dict"
  ac_fees_paid :: 'n
  ac_funding_paid :: 'n
  ac_realized_pnl :: 'n
  ac_margin_used :: 'n
  ac_margin_available :: "'n option"
  ac_starting_cash :: "'n option"
  ac_peak_equity :: "'n option"
  ac_daily_pnl :: 'n
  ac_rolling_pnl :: 'n
  ac_liquidation_buffer :: "'n option"
  ac_borrow_paid :: 'n
  ac_fx :: 'n
  ac_corporate :: 'n
  ac_as_of :: 't

type_synonym account = "(dec, utc) acct"
type_synonym raw_account = "(raw_dec, pydatetime) acct"

definition raw_val :: "raw_dec \<Rightarrow> dec" where
  "raw_val v = (case v of Finite a \<Rightarrow> a | NotFinite \<Rightarrow> d0)"

lemma raw_val_simps [simp]: "raw_val (Finite v) = v" "is_finite (Finite v)" "\<not> is_finite NotFinite"
  by (simp_all add: raw_val_def is_finite_def)

lemma is_finite_iff: "is_finite v \<longleftrightarrow> (\<exists>x. v = Finite x)"
  by (cases v) simp_all

definition raw_dict :: "(string, raw_dec) dict \<Rightarrow> (string, dec) dict" where
  "raw_dict d = map (\<lambda>(k, v). (k, raw_val v)) d"

definition opt_list :: "'a option \<Rightarrow> 'a list" where
  "opt_list v = (case v of None \<Rightarrow> [] | Some x \<Rightarrow> [x])"

definition account_time :: "pydatetime \<Rightarrow> utc res" where
  "account_time = aware ''account timestamp must include a timezone''"

definition mk_account :: "raw_account \<Rightarrow> account res" where
  "mk_account a =
     (let monetary = [ac_cash a, ac_fees_paid a, ac_funding_paid a, ac_realized_pnl a, ac_margin_used a,
            ac_daily_pnl a, ac_rolling_pnl a, ac_borrow_paid a, ac_fx a, ac_corporate a]
            @ opt_list (ac_margin_available a) @ opt_list (ac_starting_cash a) @ opt_list (ac_peak_equity a)
            @ opt_list (ac_liquidation_buffer a);
          neg = (\<lambda>v. dlt (raw_val v) d0)
      in if \<not> list_all is_finite monetary then Inl (ValueError ''account monetary values must be finite'')
      else if list_ex (\<lambda>k. blank k) (map fst (ac_positions a) @ map fst (ac_marks a) @ map fst (ac_average_cost a))
      then Inl (ValueError ''account instrument identifiers cannot be blank'')
      else if \<not> list_all is_finite (map snd (ac_positions a) @ map snd (ac_marks a))
      then Inl (ValueError ''account positions and marks must be finite'')
      else if list_ex (\<lambda>v. dle (raw_val v) d0) (map snd (ac_marks a))
      then Inl (ValueError ''account marks must be positive'')
      else if list_ex (\<lambda>v. \<not> is_finite v \<or> neg v) (map snd (ac_average_cost a))
      then Inl (ValueError ''average costs cannot be negative'')
      else if list_ex neg [ac_fees_paid a, ac_funding_paid a, ac_margin_used a, ac_borrow_paid a]
      then Inl (ValueError ''account fees, funding, and margin cannot be negative'')
      else if neg (ac_cash a) then Inl (ValueError ''paper account cash cannot start negative'')
      else let starting = (case ac_starting_cash a of None \<Rightarrow> ac_cash a | Some v \<Rightarrow> v);
               peak = (case ac_peak_equity a of None \<Rightarrow> ac_cash a | Some v \<Rightarrow> v)
        in if neg starting then Inl (ValueError ''starting cash cannot be negative'')
        else if neg peak then Inl (ValueError ''peak equity cannot be negative'')
        else rbind (account_time (ac_as_of a)) (\<lambda>t.
          Inr \<lparr>ac_cash = raw_val (ac_cash a), ac_positions = raw_dict (ac_positions a),
            ac_marks = raw_dict (ac_marks a), ac_average_cost = raw_dict (ac_average_cost a),
            ac_fees_paid = raw_val (ac_fees_paid a), ac_funding_paid = raw_val (ac_funding_paid a),
            ac_realized_pnl = raw_val (ac_realized_pnl a), ac_margin_used = raw_val (ac_margin_used a),
            ac_margin_available = map_option raw_val (ac_margin_available a),
            ac_starting_cash = Some (raw_val starting), ac_peak_equity = Some (raw_val peak),
            ac_daily_pnl = raw_val (ac_daily_pnl a), ac_rolling_pnl = raw_val (ac_rolling_pnl a),
            ac_liquidation_buffer = map_option raw_val (ac_liquidation_buffer a),
            ac_borrow_paid = raw_val (ac_borrow_paid a), ac_fx = raw_val (ac_fx a),
            ac_corporate = raw_val (ac_corporate a), ac_as_of = t\<rparr>))"

section \<open>Derived values\<close>

definition dnz :: "dec \<Rightarrow> bool" where
  "dnz a = (coeff a \<noteq> 0)"

definition mark_or :: "account \<Rightarrow> string \<Rightarrow> dec" where
  "mark_or a i = dict_get (ac_marks a) i d0"

definition unrealized :: "account \<Rightarrow> dec" where
  "unrealized a = dsum (map (\<lambda>(i, q). let m = mark_or a i in dmul (dsub m (dict_get (ac_average_cost a) i m)) q)
     (filter (\<lambda>(i, q). dict_has (ac_marks a) i) (ac_positions a)))"

definition gross_notional :: "account \<Rightarrow> dec" where
  "gross_notional a = dsum (map (\<lambda>(i, q). dmul (dabs q) (mark_or a i)) (ac_positions a))"

definition net_notional :: "account \<Rightarrow> dec" where
  "net_notional a = dsum (map (\<lambda>(i, q). dmul q (mark_or a i)) (ac_positions a))"

definition equity :: "account \<Rightarrow> dec" where
  "equity a = dadd (ac_cash a) (dsum (map (\<lambda>(i, q). dmul q (mark_or a i)) (ac_positions a)))"

definition or_value :: "dec option \<Rightarrow> dec \<Rightarrow> dec" where
  "or_value v b = (case v of None \<Rightarrow> b | Some x \<Rightarrow> if dnz x then x else b)"

definition drawdown :: "account \<Rightarrow> dec" where
  "drawdown a = dmax d0 (dsub (or_value (ac_peak_equity a) d0) (equity a))"

definition update_peak :: "account \<Rightarrow> account" where
  "update_peak a = a\<lparr>ac_peak_equity := Some (dmax (or_value (ac_peak_equity a) (equity a)) (equity a))\<rparr>"

definition touch :: "utc \<Rightarrow> account \<Rightarrow> account" where
  "touch t a = update_peak (a\<lparr>ac_as_of := max (ac_as_of a) t\<rparr>)"

section \<open>Fills\<close>

definition book_quantity :: "dec \<Rightarrow> dec \<Rightarrow> string \<Rightarrow> account \<Rightarrow> account" where
  "book_quantity price signed i a =
     (let old = dict_get (ac_positions a) i d0; avg = dict_get (ac_average_cost a) i d0; new = dadd old signed;
          realized = (if dnz old \<and> dlt d0 old \<noteq> dlt d0 signed
            then dadd (ac_realized_pnl a)
              (dmul (dmul (dsub price avg) (dmin (dabs old) (dabs signed))) (if dlt d0 old then d1 else Dec (- 1) 0))
            else ac_realized_pnl a)
      in if \<not> dnz new
         then a\<lparr>ac_realized_pnl := realized, ac_positions := dict_pop i (ac_positions a),
                ac_average_cost := dict_pop i (ac_average_cost a)\<rparr>
         else if dle d0 old \<and> dlt d0 signed \<or> dle old d0 \<and> dlt signed d0
         then a\<lparr>ac_realized_pnl := realized, ac_positions := dict_set i new (ac_positions a),
                ac_average_cost := dict_set i (ddiv (dadd (dmul avg (dabs old)) (dmul price (dabs signed)))
                    (dadd (dabs old) (dabs signed))) (ac_average_cost a)\<rparr>
         else a\<lparr>ac_realized_pnl := realized, ac_positions := dict_set i new (ac_positions a),
                ac_average_cost := (if dnz old \<and> dlt d0 old \<noteq> dlt d0 new
                  then dict_set i price (ac_average_cost a) else ac_average_cost a)\<rparr>)"

definition signed_quantity :: "string \<Rightarrow> fill \<Rightarrow> dec" where
  "signed_quantity side f = (if side = ''buy'' then fill_quantity f else dneg (fill_quantity f))"

definition book_fill :: "fill \<Rightarrow> string \<Rightarrow> string \<Rightarrow> account \<Rightarrow> account" where
  "book_fill f side i a =
     (let signed = signed_quantity side f; b = book_quantity (fill_price f) signed i a;
          delta = dsub (dsub (ac_realized_pnl b) (ac_realized_pnl a)) (fill_fee f)
      in touch (fill_occurred_at f)
         (b\<lparr>ac_cash := dsub (dsub (ac_cash b) (dmul (fill_price f) signed)) (fill_fee f),
            ac_fees_paid := dadd (ac_fees_paid b) (fill_fee f),
            ac_daily_pnl := dadd (ac_daily_pnl b) delta, ac_rolling_pnl := dadd (ac_rolling_pnl b) delta\<rparr>))"

definition acct_fill :: "fill \<Rightarrow> string \<Rightarrow> string \<Rightarrow> (account, unit) action" where
  "acct_fill f side i a =
     (if blank i then (Inl (ValueError ''fill instrument identifier cannot be blank''), a)
      else if lower (strip side) \<notin> {''buy'', ''sell''} then (Inl (ValueError ''side must be buy or sell''), a)
      else (Inr (), book_fill f (lower (strip side)) (strip i) a))"

section \<open>Cash events\<close>

definition acct_funding :: "raw_dec \<Rightarrow> pydatetime \<Rightarrow> (account, unit) action" where
  "acct_funding amount occurred a =
     (case amount of
        NotFinite \<Rightarrow> (Inl (ValueError ''funding amount must be finite and non-negative''), a)
      | Finite x \<Rightarrow>
        if dlt x d0 then (Inl (ValueError ''funding amount must be finite and non-negative''), a)
        else let b = a\<lparr>ac_funding_paid := dadd (ac_funding_paid a) x, ac_cash := dsub (ac_cash a) x,
                       ac_daily_pnl := dsub (ac_daily_pnl a) x, ac_rolling_pnl := dsub (ac_rolling_pnl a) x\<rparr>
             in case account_time occurred of Inl e \<Rightarrow> (Inl e, b) | Inr t \<Rightarrow> (Inr (), touch t b))"

definition acct_cash_transfer :: "raw_dec \<Rightarrow> pydatetime \<Rightarrow> (account, unit) action" where
  "acct_cash_transfer amount occurred a =
     (case amount of
        NotFinite \<Rightarrow> (Inl (ValueError ''cash transfer amount cannot be zero''), a)
      | Finite x \<Rightarrow>
        if \<not> dnz x then (Inl (ValueError ''cash transfer amount cannot be zero''), a)
        else case account_time occurred of Inl e \<Rightarrow> (Inl e, a)
             | Inr t \<Rightarrow> (Inr (), touch t (a\<lparr>ac_cash := dadd (ac_cash a) x\<rparr>)))"

definition acct_borrow :: "raw_dec \<Rightarrow> pydatetime \<Rightarrow> (account, unit) action" where
  "acct_borrow amount occurred a =
     (case amount of
        NotFinite \<Rightarrow> (Inl (ValueError ''borrow amount must be finite and non-negative''), a)
      | Finite x \<Rightarrow>
        if dlt x d0 then (Inl (ValueError ''borrow amount must be finite and non-negative''), a)
        else case account_time occurred of Inl e \<Rightarrow> (Inl e, a)
             | Inr t \<Rightarrow> (Inr (), touch t (a\<lparr>ac_borrow_paid := dadd (ac_borrow_paid a) x, ac_cash := dsub (ac_cash a) x,
                 ac_daily_pnl := dsub (ac_daily_pnl a) x, ac_rolling_pnl := dsub (ac_rolling_pnl a) x\<rparr>)))"

definition acct_fx :: "raw_dec \<Rightarrow> pydatetime \<Rightarrow> (account, unit) action" where
  "acct_fx amount occurred a =
     (case amount of
        NotFinite \<Rightarrow> (Inl (ValueError ''FX adjustment must be finite and non-zero''), a)
      | Finite x \<Rightarrow>
        if \<not> dnz x then (Inl (ValueError ''FX adjustment must be finite and non-zero''), a)
        else case account_time occurred of Inl e \<Rightarrow> (Inl e, a)
             | Inr t \<Rightarrow> (Inr (), touch t (a\<lparr>ac_fx := dadd (ac_fx a) x, ac_cash := dadd (ac_cash a) x\<rparr>)))"

definition acct_corporate :: "raw_dec \<Rightarrow> pydatetime \<Rightarrow> (account, unit) action" where
  "acct_corporate amount occurred a =
     (case amount of
        NotFinite \<Rightarrow> (Inl (ValueError ''corporate action adjustment must be finite and non-zero''), a)
      | Finite x \<Rightarrow>
        if \<not> dnz x then (Inl (ValueError ''corporate action adjustment must be finite and non-zero''), a)
        else case account_time occurred of Inl e \<Rightarrow> (Inl e, a)
             | Inr t \<Rightarrow> (Inr (), touch t (a\<lparr>ac_corporate := dadd (ac_corporate a) x, ac_cash := dadd (ac_cash a) x\<rparr>)))"

section \<open>Instrument events, margin and marks\<close>

definition dict_adjust :: "('v \<Rightarrow> 'v) \<Rightarrow> 'k \<Rightarrow> ('k, 'v) dict \<Rightarrow> ('k, 'v) dict" where
  "dict_adjust g k d = (case map_of d k of None \<Rightarrow> d | Some v \<Rightarrow> dict_set k (g v) d)"

definition acct_split :: "string \<Rightarrow> raw_dec \<Rightarrow> pydatetime \<Rightarrow> (account, unit) action" where
  "acct_split i ratio occurred a =
     (if blank i then (Inl (ValueError ''split instrument identifier cannot be blank''), a)
      else case ratio of
        NotFinite \<Rightarrow> (Inl (ValueError ''split ratio must be finite and positive''), a)
      | Finite x \<Rightarrow>
        if dle x d0 then (Inl (ValueError ''split ratio must be finite and positive''), a)
        else case account_time occurred of Inl e \<Rightarrow> (Inl e, a)
             | Inr t \<Rightarrow> (Inr (), touch t
                 (a\<lparr>ac_positions := dict_adjust (\<lambda>q. dmul q x) (strip i) (ac_positions a),
                    ac_average_cost := dict_adjust (\<lambda>c. ddiv c x) (strip i) (ac_average_cost a),
                    ac_marks := dict_adjust (\<lambda>m. ddiv m x) (strip i) (ac_marks a)\<rparr>)))"

definition acct_dividend :: "string \<Rightarrow> raw_dec \<Rightarrow> pydatetime \<Rightarrow> (account, unit) action" where
  "acct_dividend i per_unit occurred a =
     (if blank i then (Inl (ValueError ''dividend instrument identifier cannot be blank''), a)
      else case per_unit of
        NotFinite \<Rightarrow> (Inl (ValueError ''dividend cash per unit must be finite and non-negative''), a)
      | Finite x \<Rightarrow>
        if dlt x d0 then (Inl (ValueError ''dividend cash per unit must be finite and non-negative''), a)
        else case account_time occurred of Inl e \<Rightarrow> (Inl e, a)
             | Inr t \<Rightarrow> let amount = dmul (dict_get (ac_positions a) (strip i) d0) x
                 in (Inr (), touch t (if dnz amount
                      then a\<lparr>ac_corporate := dadd (ac_corporate a) amount, ac_cash := dadd (ac_cash a) amount\<rparr> else a)))"

definition acct_margin :: "raw_dec \<Rightarrow> raw_dec \<Rightarrow> pydatetime \<Rightarrow> (account, unit) action" where
  "acct_margin used available as_of a =
     (case (used, available) of
        (Finite u, Finite v) \<Rightarrow>
          if dlt u d0 \<or> dlt v d0 then (Inl (ValueError ''margin values cannot be negative''), a)
          else let b = a\<lparr>ac_margin_used := u, ac_margin_available := Some v, ac_liquidation_buffer := Some v\<rparr>
               in (case account_time as_of of Inl e \<Rightarrow> (Inl e, b) | Inr t \<Rightarrow> (Inr (), touch t b))
      | _ \<Rightarrow> (Inl (ValueError ''margin values cannot be negative''), a))"

definition acct_mark :: "string \<Rightarrow> raw_dec \<Rightarrow> pydatetime \<Rightarrow> (account, unit) action" where
  "acct_mark i price as_of a =
     (if blank i then (Inl (ValueError ''mark instrument identifier cannot be blank''), a)
      else case price of
        NotFinite \<Rightarrow> (Inl (ValueError ''mark price must be positive''), a)
      | Finite x \<Rightarrow>
        if dle x d0 then (Inl (ValueError ''mark price must be positive''), a)
        else case account_time as_of of Inl e \<Rightarrow> (Inl e, a)
             | Inr t \<Rightarrow> (Inr (), touch t (a\<lparr>ac_marks := dict_set (strip i) x (ac_marks a)\<rparr>)))"

section \<open>Snapshots\<close>

datatype doc_value = DocNull | DocDec dec | DocTime utc | DocDecs "(string \<times> dec) list"

type_synonym account_doc = "(string \<times> doc_value) list"

definition doc_opt :: "dec option \<Rightarrow> doc_value" where
  "doc_opt v = (case v of None \<Rightarrow> DocNull | Some x \<Rightarrow> DocDec x)"

definition sorted_items :: "(string, dec) dict \<Rightarrow> (string \<times> dec) list" where
  "sorted_items d = sort_key fst d"

definition account_doc :: "account \<Rightarrow> account_doc" where
  "account_doc a = sort_key fst
     [(''cash'', DocDec (ac_cash a)), (''positions'', DocDecs (sorted_items (ac_positions a))),
      (''average_cost'', DocDecs (sorted_items (ac_average_cost a))), (''marks'', DocDecs (sorted_items (ac_marks a))),
      (''fees_paid'', DocDec (ac_fees_paid a)), (''funding_paid'', DocDec (ac_funding_paid a)),
      (''realized_pnl'', DocDec (ac_realized_pnl a)), (''unrealized_pnl'', DocDec (unrealized a)),
      (''margin_used'', DocDec (ac_margin_used a)), (''margin_available'', doc_opt (ac_margin_available a)),
      (''starting_cash'', doc_opt (ac_starting_cash a)), (''peak_equity'', doc_opt (ac_peak_equity a)),
      (''daily_realized_pnl'', DocDec (ac_daily_pnl a)), (''rolling_realized_pnl'', DocDec (ac_rolling_pnl a)),
      (''borrow_paid'', DocDec (ac_borrow_paid a)), (''fx_adjustments'', DocDec (ac_fx a)),
      (''corporate_action_adjustments'', DocDec (ac_corporate a)),
      (''liquidation_buffer'', doc_opt (ac_liquidation_buffer a)), (''as_of'', DocTime (ac_as_of a))]"

record snapshot =
  sn_cash :: dec
  sn_positions :: "(string \<times> dec) list"
  sn_marks :: "(string \<times> dec) list"
  sn_fees_paid :: dec
  sn_funding_paid :: dec
  sn_realized_pnl :: dec
  sn_unrealized_pnl :: dec
  sn_margin_used :: dec
  sn_margin_available :: "dec option"
  sn_as_of :: utc
  sn_state_hash :: string
  sn_equity :: dec
  sn_gross_notional :: dec
  sn_net_notional :: dec
  sn_drawdown :: dec
  sn_daily_pnl :: dec
  sn_rolling_pnl :: dec
  sn_liquidation_buffer :: "dec option"
  sn_borrow_paid :: dec
  sn_fx :: dec
  sn_corporate :: dec
  sn_average_cost :: "(string \<times> dec) list"

text \<open>The checks of \<open>AccountStateSnapshot\<close>; those on the types of its values hold by typing.\<close>

definition check_snapshot :: "snapshot \<Rightarrow> snapshot res" where
  "check_snapshot s =
     (if list_ex (\<lambda>(i, v). blank i) (sn_positions s)
      then Inl (ValueError ''account snapshot position identifiers cannot be blank'')
      else if list_ex (\<lambda>(i, v). blank i) (sn_marks s)
      then Inl (ValueError ''account snapshot mark identifiers cannot be blank'')
      else if list_ex (\<lambda>(i, v). blank i) (sn_average_cost s)
      then Inl (ValueError ''account snapshot average-cost identifiers cannot be blank'')
      else if list_ex (\<lambda>(i, v). dlt v d0) (sn_average_cost s)
      then Inl (ValueError ''account snapshot average costs must be finite and non-negative'')
      else if \<not> distinct (map fst (sn_positions s)) then Inl (ValueError ''account snapshot positions must be unique'')
      else if \<not> distinct (map fst (sn_marks s)) then Inl (ValueError ''account snapshot marks must be unique'')
      else if \<not> distinct (map fst (sn_average_cost s))
      then Inl (ValueError ''account snapshot average costs must be unique'')
      else if \<not> is_digest (sn_state_hash s)
      then Inl (ValueError ''account snapshot state_hash must be a lowercase SHA-256 digest'')
      else Inr s)"

definition take_snapshot :: "(account_doc \<Rightarrow> string) \<Rightarrow> account \<Rightarrow> snapshot res" where
  "take_snapshot sha a = check_snapshot
     \<lparr>sn_cash = ac_cash a, sn_positions = sorted_items (ac_positions a), sn_marks = sorted_items (ac_marks a),
      sn_fees_paid = ac_fees_paid a, sn_funding_paid = ac_funding_paid a, sn_realized_pnl = ac_realized_pnl a,
      sn_unrealized_pnl = unrealized a, sn_margin_used = ac_margin_used a,
      sn_margin_available = ac_margin_available a, sn_as_of = ac_as_of a, sn_state_hash = sha (account_doc a),
      sn_equity = equity a, sn_gross_notional = gross_notional a, sn_net_notional = net_notional a,
      sn_drawdown = drawdown a, sn_daily_pnl = ac_daily_pnl a, sn_rolling_pnl = ac_rolling_pnl a,
      sn_liquidation_buffer = ac_liquidation_buffer a, sn_borrow_paid = ac_borrow_paid a, sn_fx = ac_fx a,
      sn_corporate = ac_corporate a, sn_average_cost = sorted_items (ac_average_cost a)\<rparr>"

end
