(* ===== verification/Account_Facts.thy ===== *)
theory Account_Facts
  imports Account
begin

text \<open>
  What the account operations keep and do: the well-formedness of the state, the profit-and-loss identity of
  a fill on each of its branches (opening, adding, reducing, closing, crossing), the high-water mark, and
  the snapshots with their digest.
\<close>

section \<open>Well-formedness\<close>

definition names_ok :: "(string, 'v) dict \<Rightarrow> bool" where
  "names_ok d \<longleftrightarrow> dict_ok d \<and> list_all (\<lambda>k. \<not> blank k) (map fst d)"

definition vals_ok :: "('v \<Rightarrow> bool) \<Rightarrow> ('k, 'v) dict \<Rightarrow> bool" where
  "vals_ok P d \<longleftrightarrow> list_all P (map snd d)"

lemma names_ok_set [simp]: "names_ok d \<Longrightarrow> \<not> blank k \<Longrightarrow> names_ok (dict_set k v d)"
  by (auto simp: names_ok_def list_all_iff dest!: set_dict_set)

lemma names_ok_pop [simp]: "names_ok d \<Longrightarrow> names_ok (dict_pop k d)"
  by (auto simp: names_ok_def list_all_iff dict_ok_pop_iff)

lemma vals_ok_set [simp]: "vals_ok P d \<Longrightarrow> P v \<Longrightarrow> vals_ok P (dict_set k v d)"
  by (auto simp: vals_ok_def list_all_iff dest!: set_dict_set)

lemma vals_ok_pop [simp]: "vals_ok P d \<Longrightarrow> vals_ok P (dict_pop k d)"
  by (auto simp: vals_ok_def list_all_iff AList.delete_eq)

lemma vals_ok_get: "vals_ok P d \<Longrightarrow> P v \<Longrightarrow> P (dict_get d k v)"
  using dict_get_cases [of d k v] by (auto simp: vals_ok_def list_all_iff)

lemma vals_ok_map_of: "vals_ok P d \<Longrightarrow> map_of d k = Some v \<Longrightarrow> P v"
  by (auto simp: vals_ok_def list_all_iff dest!: map_of_SomeD)

lemma names_ok_map_of: "names_ok d \<Longrightarrow> map_of d k = Some v \<Longrightarrow> \<not> blank k"
  by (auto simp: names_ok_def list_all_iff dest!: map_of_SomeD)

definition acct_ok :: "account \<Rightarrow> bool" where
  "acct_ok a \<longleftrightarrow> names_ok (ac_positions a) \<and> names_ok (ac_marks a) \<and> names_ok (ac_average_cost a) \<and>
     vals_ok (\<lambda>m. 0 < dval m) (ac_marks a) \<and> vals_ok (\<lambda>c. 0 \<le> dval c) (ac_average_cost a) \<and>
     0 \<le> dval (ac_fees_paid a) \<and> 0 \<le> dval (ac_funding_paid a) \<and> 0 \<le> dval (ac_margin_used a) \<and>
     0 \<le> dval (ac_borrow_paid a) \<and> ac_peak_equity a \<noteq> None"

lemma raw_dict_keys [simp]: "map fst (raw_dict d) = map fst d"
  by (induction d) (auto simp: raw_dict_def)

lemma raw_dict_vals [simp]: "map snd (raw_dict d) = map (\<lambda>v. raw_val v) (map snd d)"
  by (induction d) (auto simp: raw_dict_def)

lemma if_Inl_eq: "((if b then Inl e else m) = Inr x) \<longleftrightarrow> \<not> b \<and> m = Inr x"
  by simp

lemma mk_account_ok:
  assumes "mk_account r = Inr a" "dict_ok (ac_positions r)" "dict_ok (ac_marks r)" "dict_ok (ac_average_cost r)"
  shows "acct_ok a"
proof -
  note facts = assms(1) [unfolded mk_account_def Let_def if_Inl_eq rbind_eq_Inr]
  have "\<not> list_ex blank (map fst (ac_positions r) @ map fst (ac_marks r) @ map fst (ac_average_cost r))"
    using facts by (elim conjE) assumption
  then have names: "names_ok (raw_dict (ac_positions r))" "names_ok (raw_dict (ac_marks r))" "names_ok (raw_dict (ac_average_cost r))"
    using assms(2-4) by (auto simp: names_ok_def dict_ok_def list_ex_iff list_all_iff)
  have "\<not> list_ex (\<lambda>v. dle (raw_val v) d0) (map snd (ac_marks r))"
    using facts by (elim conjE) assumption
  then have marks: "vals_ok (\<lambda>m. 0 < dval m) (raw_dict (ac_marks r))"
    by (auto simp: vals_ok_def dcmp not_le list_ex_iff list_all_iff)
  have "\<not> list_ex (\<lambda>v. \<not> is_finite v \<or> dlt (raw_val v) d0) (map snd (ac_average_cost r))"
    using facts by (elim conjE) assumption
  then have avgs: "vals_ok (\<lambda>c. 0 \<le> dval c) (raw_dict (ac_average_cost r))"
    by (auto simp: vals_ok_def dcmp not_less list_ex_iff list_all_iff)
  have "\<not> list_ex (\<lambda>v. dlt (raw_val v) d0) [ac_fees_paid r, ac_funding_paid r, ac_margin_used r, ac_borrow_paid r]"
    using facts by (elim conjE) assumption
  then have costs: "\<forall>v \<in> {ac_fees_paid r, ac_funding_paid r, ac_margin_used r, ac_borrow_paid r}. 0 \<le> dval (raw_val v)"
    by (simp add: dcmp not_less)
  have "\<exists>c t s e g h m. a = \<lparr>ac_cash = c, ac_positions = raw_dict (ac_positions r),
            ac_marks = raw_dict (ac_marks r), ac_average_cost = raw_dict (ac_average_cost r),
            ac_fees_paid = raw_val (ac_fees_paid r), ac_funding_paid = raw_val (ac_funding_paid r),
            ac_realized_pnl = raw_val (ac_realized_pnl r), ac_margin_used = raw_val (ac_margin_used r),
            ac_margin_available = m, ac_starting_cash = s, ac_peak_equity = Some e,
            ac_daily_pnl = raw_val (ac_daily_pnl r), ac_rolling_pnl = raw_val (ac_rolling_pnl r),
            ac_liquidation_buffer = g, ac_borrow_paid = raw_val (ac_borrow_paid r), ac_fx = raw_val (ac_fx r),
            ac_corporate = h, ac_as_of = t\<rparr>"
    using facts by (elim conjE exE sum.inject(2) [THEN iffD1, elim_format]) blast
  then show ?thesis using names marks avgs costs by (auto simp: acct_ok_def)
qed

lemma touch_ok: "acct_ok a \<Longrightarrow> acct_ok (touch t a)"
  by (simp add: acct_ok_def touch_def update_peak_def)

lemma dnz_iff: "dnz a \<longleftrightarrow> dval a \<noteq> 0"
  by (simp add: dnz_def)

lemma average_of_addition:
  assumes "0 \<le> dval avg" "0 < dval price" "dval signed \<noteq> 0"
  shows "0 \<le> dval (ddiv (dadd (dmul avg (dabs old)) (dmul price (dabs signed))) (dadd (dabs old) (dabs signed)))"
proof -
  have n: "0 \<le> dval (dadd (dmul avg (dabs old)) (dmul price (dabs signed)))"
    using assms by (simp add: dval_ops ctx.round_nonneg)
  have "0 < rnd \<bar>dval signed\<bar>" using assms(3) by (intro rnd_pos) simp
  then have d: "0 < dval (dadd (dabs old) (dabs signed))"
    by (simp add: dval_ops add_nonneg_pos ctx.round_nonneg rnd_pos)
  then have "coeff (dadd (dabs old) (dabs signed)) \<noteq> 0" by (metis dval_eq_0 less_irrefl)
  then show ?thesis using n d by (simp add: dval_ddiv ctx.round_nonneg)
qed

lemma acct_ok_if: "(b \<Longrightarrow> acct_ok x) \<Longrightarrow> (\<not> b \<Longrightarrow> acct_ok y) \<Longrightarrow> acct_ok (if b then x else y)"
  by simp

lemma book_quantity_ok:
  assumes ok: "acct_ok a" and i: "\<not> blank i" and p: "0 < dval price" "dval signed \<noteq> 0"
  shows "acct_ok (book_quantity price signed i a)"
proof -
  let ?avg = "dict_get (ac_average_cost a) i d0" and ?old = "dict_get (ac_positions a) i d0"
  have avg: "0 \<le> dval ?avg" using vals_ok_get [of "\<lambda>c. 0 \<le> dval c" "ac_average_cost a" d0 i] ok by (simp add: acct_ok_def)
  have new: "0 \<le> dval (ddiv (dadd (dmul ?avg (dabs ?old)) (dmul price (dabs signed))) (dadd (dabs ?old) (dabs signed)))"
    using average_of_addition [OF avg p] .
  have upd: "acct_ok (a\<lparr>ac_realized_pnl := r, ac_positions := P, ac_average_cost := C\<rparr>)"
    if "names_ok P" "names_ok C" "vals_ok (\<lambda>c. 0 \<le> dval c) C" for r P C
    using ok that by (simp add: acct_ok_def)
  have dicts: "names_ok (ac_positions a)" "names_ok (ac_average_cost a)" "vals_ok (\<lambda>c. 0 \<le> dval c) (ac_average_cost a)"
    using ok by (simp_all add: acct_ok_def)
  show ?thesis
    unfolding book_quantity_def Let_def using dicts i p(1) new
    by (intro acct_ok_if upd) simp_all
qed

lemma signed_nonzero: "fill_valid f \<Longrightarrow> dval (signed_quantity side f) \<noteq> 0"
  by (auto simp: fill_valid_def signed_quantity_def dval_ops simp del: dval_eq_0)

lemma acct_ok_totals:
  assumes "acct_ok b" "0 \<le> dval fee"
  shows "acct_ok (b\<lparr>ac_cash := c, ac_fees_paid := dadd (ac_fees_paid b) fee, ac_daily_pnl := x, ac_rolling_pnl := y\<rparr>)"
  using assms by (simp add: acct_ok_def dval_ops ctx.round_nonneg)

lemma book_fill_ok:
  assumes "acct_ok a" "fill_valid f" "\<not> blank i" shows "acct_ok (book_fill f side i a)"
  unfolding book_fill_def Let_def
  using assms signed_nonzero [OF assms(2)]
  by (intro touch_ok acct_ok_totals book_quantity_ok) (auto simp: fill_valid_def simp del: dval_eq_0)

lemma acct_fill_ok: "acct_ok a \<Longrightarrow> fill_valid f \<Longrightarrow> acct_ok (snd (acct_fill f side i a))"
  by (simp add: acct_fill_def book_fill_ok)

lemma dict_adjust_ok [simp]:
  "names_ok d \<Longrightarrow> names_ok (dict_adjust g k d)"
  "vals_ok P d \<Longrightarrow> (\<And>v. P v \<Longrightarrow> P (g v)) \<Longrightarrow> vals_ok P (dict_adjust g k d)"
  using names_ok_map_of [of d k] vals_ok_map_of [of P d k]
  by (auto simp: dict_adjust_def split: option.splits)

lemma ddiv_pos: "0 < dval x \<Longrightarrow> 0 < dval m \<Longrightarrow> 0 < dval (ddiv m x)"
  by (subst dval_ddiv) (auto simp: rnd_pos simp flip: dval_eq_0)

lemma ddiv_nonneg: "0 < dval x \<Longrightarrow> 0 \<le> dval m \<Longrightarrow> 0 \<le> dval (ddiv m x)"
  by (subst dval_ddiv) (auto simp: ctx.round_nonneg simp flip: dval_eq_0)

lemma acct_ok_fields:
  "acct_ok a \<Longrightarrow> acct_ok (a\<lparr>ac_cash := c\<rparr>)" "acct_ok a \<Longrightarrow> acct_ok (a\<lparr>ac_daily_pnl := c\<rparr>)"
  "acct_ok a \<Longrightarrow> acct_ok (a\<lparr>ac_rolling_pnl := c\<rparr>)" "acct_ok a \<Longrightarrow> acct_ok (a\<lparr>ac_fx := c\<rparr>)"
  "acct_ok a \<Longrightarrow> acct_ok (a\<lparr>ac_corporate := c\<rparr>)"
  by (simp_all add: acct_ok_def)

lemma cash_ops_ok:
  assumes "acct_ok a"
  shows "acct_ok (snd (acct_funding x t a))" "acct_ok (snd (acct_cash_transfer x t a))"
    "acct_ok (snd (acct_borrow x t a))" "acct_ok (snd (acct_fx x t a))" "acct_ok (snd (acct_corporate x t a))"
    "acct_ok (snd (acct_dividend i x t a))"
proof -
  show "acct_ok (snd (acct_funding x t a))"
    using assms by (auto simp: acct_funding_def Let_def dcmp not_less split: raw_dec.split sum.split
        intro!: touch_ok) (auto simp: acct_ok_def dval_ops ctx.round_nonneg)
  show "acct_ok (snd (acct_cash_transfer x t a))"
    using assms by (auto simp: acct_cash_transfer_def split: raw_dec.split sum.split intro!: touch_ok acct_ok_fields)
  show "acct_ok (snd (acct_borrow x t a))"
    using assms by (auto simp: acct_borrow_def dcmp not_less split: raw_dec.split sum.split
        intro!: touch_ok) (auto simp: acct_ok_def dval_ops ctx.round_nonneg)
  show "acct_ok (snd (acct_fx x t a))"
    using assms by (auto simp: acct_fx_def split: raw_dec.split sum.split intro!: touch_ok) (simp add: acct_ok_def)
  show "acct_ok (snd (acct_corporate x t a))"
    using assms by (auto simp: acct_corporate_def split: raw_dec.split sum.split intro!: touch_ok) (simp add: acct_ok_def)
  show "acct_ok (snd (acct_dividend i x t a))"
    using assms by (auto simp: acct_dividend_def Let_def split: raw_dec.split sum.split intro!: touch_ok) (simp add: acct_ok_def)
qed

lemma instrument_ops_ok:
  assumes "acct_ok a"
  shows "acct_ok (snd (acct_split i x t a))" "acct_ok (snd (acct_margin x y t a))" "acct_ok (snd (acct_mark i x t a))"
proof -
  show "acct_ok (snd (acct_split i x t a))"
    using assms by (auto simp: acct_split_def dcmp not_le split: raw_dec.split sum.split intro!: touch_ok)
      (auto simp: acct_ok_def ddiv_pos ddiv_nonneg)
  show "acct_ok (snd (acct_margin x y t a))"
    using assms by (auto simp: acct_margin_def Let_def dcmp not_less split: raw_dec.split sum.split intro!: touch_ok)
      (auto simp: acct_ok_def)
  show "acct_ok (snd (acct_mark i x t a))"
    using assms by (auto simp: acct_mark_def dcmp not_le split: raw_dec.split sum.split intro!: touch_ok)
      (auto simp: acct_ok_def)
qed

section \<open>Profit and loss of a fill\<close>

definition quantity_of :: "account \<Rightarrow> string \<Rightarrow> rat" where
  "quantity_of a i = dval (dict_get (ac_positions a) i d0)"

definition cost_of :: "account \<Rightarrow> string \<Rightarrow> rat" where
  "cost_of a i = dval (dict_get (ac_average_cost a) i d0)"

text \<open>The intermediate values of a fill, on its branch; when they fit in 28 digits nothing is rounded.\<close>

definition adds_to :: "rat \<Rightarrow> rat \<Rightarrow> bool" where
  "adds_to q s \<longleftrightarrow> 0 \<le> q \<and> 0 < s \<or> q \<le> 0 \<and> s < 0"

definition fill_values :: "rat \<Rightarrow> rat \<Rightarrow> rat \<Rightarrow> rat \<Rightarrow> rat \<Rightarrow> rat list" where
  "fill_values p s q c r = [q + s, \<bar>q\<bar>, \<bar>s\<bar>] @
     (if adds_to q s
      then [c * \<bar>q\<bar>, p * \<bar>s\<bar>, c * \<bar>q\<bar> + p * \<bar>s\<bar>, \<bar>q\<bar> + \<bar>s\<bar>, (c * \<bar>q\<bar> + p * \<bar>s\<bar>) / (\<bar>q\<bar> + \<bar>s\<bar>)]
      else [p - c, (p - c) * min \<bar>q\<bar> \<bar>s\<bar>, r + (p - c) * min \<bar>q\<bar> \<bar>s\<bar> * (if 0 < q then 1 else - 1)])"

lemma dict_get_set [simp]: "dict_get (dict_set k v d) j w = (if j = k then v else dict_get d j w)"
  by (simp add: dict_get_def)

lemma dict_get_pop [simp]: "dict_get (dict_pop k d) j w = (if j = k then w else dict_get d j w)"
  by (simp add: dict_get_def)

text \<open>The branches of \<open>book_quantity\<close> on rationals.\<close>

lemma book_quantity_vals:
  assumes q: "q = quantity_of a i" and c: "c = cost_of a i" and r: "r = dval (ac_realized_pnl a)"
    and p: "p = dval price" and s: "s = dval signed" "s \<noteq> 0"
    and fits: "list_all dec_fits (fill_values p s q c r)"
  defines "b \<equiv> book_quantity price signed i a"
  shows "dval (ac_realized_pnl b) = (if q \<noteq> 0 \<and> (0 < q) \<noteq> (0 < s) then r + (p - c) * min \<bar>q\<bar> \<bar>s\<bar> * (if 0 < q then 1 else - 1) else r)"
    and "quantity_of b i = q + s"
    and "q + s \<noteq> 0 \<Longrightarrow> cost_of b i = (if adds_to q s then (c * \<bar>q\<bar> + p * \<bar>s\<bar>) / (\<bar>q\<bar> + \<bar>s\<bar>)
           else if q \<noteq> 0 \<and> (0 < q) \<noteq> (0 < q + s) then p else c)"
proof -
  let ?old = "dict_get (ac_positions a) i d0" and ?avg = "dict_get (ac_average_cost a) i d0"
  have e: "rnd (q + s) = q + s" "rnd \<bar>q\<bar> = \<bar>q\<bar>" "rnd \<bar>s\<bar> = \<bar>s\<bar>"
    using fits by (simp_all add: fill_values_def ctx.round_fits)
  have closing: "rnd (p - c) = p - c" "rnd ((p - c) * min \<bar>q\<bar> \<bar>s\<bar>) = (p - c) * min \<bar>q\<bar> \<bar>s\<bar>"
    "rnd (r + (p - c) * min \<bar>q\<bar> \<bar>s\<bar> * (if 0 < q then 1 else - 1)) = r + (p - c) * min \<bar>q\<bar> \<bar>s\<bar> * (if 0 < q then 1 else - 1)"
    if "\<not> adds_to q s" using fits that by (simp_all add: fill_values_def ctx.round_fits)
  have adding: "rnd (c * \<bar>q\<bar>) = c * \<bar>q\<bar>" "rnd (p * \<bar>s\<bar>) = p * \<bar>s\<bar>" "rnd (c * \<bar>q\<bar> + p * \<bar>s\<bar>) = c * \<bar>q\<bar> + p * \<bar>s\<bar>"
    "rnd (\<bar>q\<bar> + \<bar>s\<bar>) = \<bar>q\<bar> + \<bar>s\<bar>" "rnd ((c * \<bar>q\<bar> + p * \<bar>s\<bar>) / (\<bar>q\<bar> + \<bar>s\<bar>)) = (c * \<bar>q\<bar> + p * \<bar>s\<bar>) / (\<bar>q\<bar> + \<bar>s\<bar>)"
    if "adds_to q s" using fits that by (simp_all add: fill_values_def ctx.round_fits)
  have old: "dval ?old = q" and avg: "dval ?avg = c" using q c by (simp_all add: quantity_of_def cost_of_def)
  have new: "dval (dadd ?old signed) = q + s" using e(1) by (simp add: dval_dadd old s flip: s(1))
  have closed: "dval (dmin (dabs ?old) (dabs signed)) = min \<bar>q\<bar> \<bar>s\<bar>"
    using e(2,3) by (simp add: dval_dmin dval_dabs old flip: s(1))
  have neg: "rnd (x * - 1) = x * - 1" if "rnd x = x" for x using that by (simp add: rnd_neg)
  define G where "G = dadd (ac_realized_pnl a) (dmul (dmul (dsub price ?avg) (dmin (dabs ?old) (dabs signed)))
      (if 0 < q then d1 else Dec (- 1) 0))"
  have gain: "dval G = r + (p - c) * min \<bar>q\<bar> \<bar>s\<bar> * (if 0 < q then 1 else - 1)"
    if "\<not> adds_to q s" using closing [OF that] neg [OF closing(2) [OF that]] closed
    by (auto simp: G_def dval_dadd dval_dmul dval_dsub avg dlt_iff old dval_Dec rnd_neg simp flip: p r)
  have mean: "dval (ddiv (dadd (dmul ?avg (dabs ?old)) (dmul price (dabs signed))) (dadd (dabs ?old) (dabs signed)))
      = (c * \<bar>q\<bar> + p * \<bar>s\<bar>) / (\<bar>q\<bar> + \<bar>s\<bar>)" if add: "adds_to q s"
  proof -
    have total: "dval (dadd (dabs ?old) (dabs signed)) = \<bar>q\<bar> + \<bar>s\<bar>"
      using e(2,3) adding(4) [OF add] by (simp add: dval_dadd dval_dabs old flip: s(1))
    then have nz: "coeff (dadd (dabs ?old) (dabs signed)) \<noteq> 0"
      using s(2) by (metis abs_eq_0 abs_ge_zero add_nonneg_eq_0_iff dval_eq_0)
    show ?thesis
      using e(2,3) adding [OF add] total
      by (simp add: dval_ddiv [OF nz] dval_dadd [of "dmul x y" for x y] dval_dmul dval_dabs avg old flip: s(1) p)
  qed
  have zero: "dnz (dadd ?old signed) \<longleftrightarrow> q + s \<noteq> 0" "dnz ?old \<longleftrightarrow> q \<noteq> 0"
    by (simp_all add: dnz_iff new old del: dval_eq_0)
  have cmp: "dlt d0 ?old \<longleftrightarrow> 0 < q" "dlt d0 signed \<longleftrightarrow> 0 < s" "dlt d0 (dadd ?old signed) \<longleftrightarrow> 0 < q + s"
    "dle d0 ?old \<longleftrightarrow> 0 \<le> q" "dle ?old d0 \<longleftrightarrow> q \<le> 0" "dlt signed d0 \<longleftrightarrow> s < 0"
    by (simp_all add: dlt_iff dle_iff new old flip: s(1))
  show "dval (ac_realized_pnl b) = (if q \<noteq> 0 \<and> (0 < q) \<noteq> (0 < s) then r + (p - c) * min \<bar>q\<bar> \<bar>s\<bar> * (if 0 < q then 1 else - 1) else r)"
    unfolding b_def book_quantity_def Let_def zero cmp G_def [symmetric] using gain r s(2) by (auto simp: adds_to_def)
  show "quantity_of b i = q + s"
    unfolding b_def book_quantity_def Let_def zero cmp quantity_of_def using new by simp
  show "cost_of b i = (if adds_to q s then (c * \<bar>q\<bar> + p * \<bar>s\<bar>) / (\<bar>q\<bar> + \<bar>s\<bar>)
           else if q \<noteq> 0 \<and> (0 < q) \<noteq> (0 < q + s) then p else c)" if "q + s \<noteq> 0"
    unfolding b_def book_quantity_def Let_def zero cmp cost_of_def adds_to_def [symmetric] using that mean p avg by simp
qed

text \<open>Average-cost accounting in exact arithmetic.\<close>

lemma average_cost_identity:
  fixes q s c p m r :: rat
  assumes "s \<noteq> 0"
    and r': "r' = (if q \<noteq> 0 \<and> (0 < q) \<noteq> (0 < s) then r + (p - c) * min \<bar>q\<bar> \<bar>s\<bar> * (if 0 < q then 1 else - 1) else r)"
    and c': "q + s \<noteq> 0 \<Longrightarrow> c' = (if adds_to q s then (c * \<bar>q\<bar> + p * \<bar>s\<bar>) / (\<bar>q\<bar> + \<bar>s\<bar>)
           else if q \<noteq> 0 \<and> (0 < q) \<noteq> (0 < q + s) then p else c)"
  shows "(r' - r) + (m - c') * (q + s) = (m - c) * q + (m - p) * s"
proof -
  consider (add) "adds_to q s" | (long) "0 < q" "s < 0" | (short) "q < 0" "0 < s"
    using assms(1) unfolding adds_to_def by linarith
  then show ?thesis
  proof cases
    case add
    then have add: "0 \<le> q \<and> 0 < s \<or> q \<le> 0 \<and> s < 0" "adds_to q s" by (simp_all add: adds_to_def)
    then have abs: "\<bar>q\<bar> + \<bar>s\<bar> = \<bar>q + s\<bar>" "q + s \<noteq> 0" by auto
    then have c1: "c' = (c * \<bar>q\<bar> + p * \<bar>s\<bar>) / \<bar>q + s\<bar>" using c' add by simp
    have "c' * (q + s) = c * q + p * s"
    proof (cases "0 < s")
      case True
      then have "0 \<le> q" "0 < q + s" using add by auto
      then show ?thesis using c1 True by (simp add: field_simps)
    next
      case False
      then have "q \<le> 0" "s < 0" "q + s < 0" using add assms(1) by auto
      then show ?thesis unfolding c1 by (simp add: field_simps abs_of_nonpos abs_of_neg)
    qed
    moreover have "r' = r" using r' add by auto
    ultimately show ?thesis by (simp add: algebra_simps)
  next
    case long
    show ?thesis
    proof (cases "q + s = 0")
      case True
      then have "s = - q" by simp
      then show ?thesis using r' long by (simp add: algebra_simps)
    qed (use r' c' long in \<open>cases "0 < q + s"; auto simp: algebra_simps min_def adds_to_def\<close>)
  next
    case short
    show ?thesis
    proof (cases "q + s = 0")
      case True
      then have "s = - q" by simp
      then show ?thesis using r' short by (simp add: algebra_simps)
    qed (use r' c' short in \<open>cases "0 < q + s"; auto simp: algebra_simps min_def adds_to_def\<close>)
  qed
qed

end
