(* ===== verification/Account_Properties.thy ===== *)
theory Account_Properties
  imports Account_Facts
begin

text \<open>
  Accounting events as data, and the properties of the account state: the invariant over any sequence of
  events, the accounting identity of a fill, the high-water mark, splits, failures, and the state digest.
\<close>

section \<open>Events\<close>

datatype acct_event =
    FillEvent fill string string
  | FundingEvent raw_dec pydatetime
  | TransferEvent raw_dec pydatetime
  | BorrowEvent raw_dec pydatetime
  | FxEvent raw_dec pydatetime
  | CorporateEvent raw_dec pydatetime
  | SplitEvent string raw_dec pydatetime
  | DividendEvent string raw_dec pydatetime
  | MarginEvent raw_dec raw_dec pydatetime
  | MarkEvent string raw_dec pydatetime

primrec apply_event :: "acct_event \<Rightarrow> (account, unit) action" where
  "apply_event (FillEvent f side i) = acct_fill f side i"
| "apply_event (FundingEvent x t) = acct_funding x t"
| "apply_event (TransferEvent x t) = acct_cash_transfer x t"
| "apply_event (BorrowEvent x t) = acct_borrow x t"
| "apply_event (FxEvent x t) = acct_fx x t"
| "apply_event (CorporateEvent x t) = acct_corporate x t"
| "apply_event (SplitEvent i x t) = acct_split i x t"
| "apply_event (DividendEvent i x t) = acct_dividend i x t"
| "apply_event (MarginEvent u v t) = acct_margin u v t"
| "apply_event (MarkEvent i x t) = acct_mark i x t"

definition event_valid :: "acct_event \<Rightarrow> bool" where
  "event_valid e = (case e of FillEvent f _ _ \<Rightarrow> fill_valid f | _ \<Rightarrow> True)"

text \<open>Events one after the other; an event that raises is dropped with whatever it has changed.\<close>

primrec apply_events :: "acct_event list \<Rightarrow> account \<Rightarrow> account" where
  "apply_events [] a = a"
| "apply_events (e # es) a = apply_events es (snd (apply_event e a))"

lemmas acct_op_defs = acct_fill_def acct_funding_def acct_cash_transfer_def acct_borrow_def acct_fx_def
  acct_corporate_def acct_split_def acct_dividend_def acct_margin_def acct_mark_def book_fill_def

lemma apply_event_ok: "acct_ok a \<Longrightarrow> event_valid e \<Longrightarrow> acct_ok (snd (apply_event e a))"
  by (cases e) (simp_all add: event_valid_def acct_fill_ok cash_ops_ok instrument_ops_ok)

lemma apply_events_ok: "acct_ok a \<Longrightarrow> list_all event_valid es \<Longrightarrow> acct_ok (apply_events es a)"
  by (induction es arbitrary: a) (simp_all add: apply_event_ok)

text \<open>Every event that succeeds ends by moving the clock and the high-water mark.\<close>

lemma book_quantity_keeps [simp]:
  "ac_peak_equity (book_quantity p s i a) = ac_peak_equity a" "ac_as_of (book_quantity p s i a) = ac_as_of a"
  "ac_cash (book_quantity p s i a) = ac_cash a" "ac_fees_paid (book_quantity p s i a) = ac_fees_paid a"
  by (simp_all add: book_quantity_def Let_def)

lemma touched:
  "ac_peak_equity c = p \<Longrightarrow> ac_as_of c = u \<Longrightarrow>
   \<exists>t' c'. touch t c = touch t' c' \<and> ac_peak_equity c' = p \<and> ac_as_of c' = u"
  by blast

lemma apply_event_touch:
  assumes "apply_event e a = (Inr (), b)"
  shows "\<exists>t c. b = touch t c \<and> ac_peak_equity c = ac_peak_equity a \<and> ac_as_of c = ac_as_of a"
proof (cases e)
  case (FillEvent f side i)
  then have "b = book_fill f (lower (strip side)) (strip i) a"
    using assms by (simp add: acct_fill_def split: if_splits)
  then show ?thesis unfolding book_fill_def Let_def by (simp only:) (rule touched; simp)
next
  case (DividendEvent i x t)
  then show ?thesis using assms
    by (auto simp: acct_dividend_def Let_def split: raw_dec.splits sum.splits if_splits intro!: touched)
qed (use assms in \<open>auto simp: acct_funding_def acct_cash_transfer_def acct_borrow_def acct_fx_def
  acct_corporate_def acct_split_def acct_margin_def acct_mark_def Let_def
  split: raw_dec.splits sum.splits if_splits intro!: touched\<close>)

lemma touch_peak:
  "ac_peak_equity (touch t c) = Some (dmax (or_value (ac_peak_equity c) (equity c)) (equity c))"
  "equity (touch t c) = equity c" "ac_as_of (touch t c) = max (ac_as_of c) t"
  by (simp_all add: touch_def update_peak_def equity_def mark_or_def)

lemma high_water:
  assumes "apply_event e a = (Inr (), b)" "ac_peak_equity a = Some p"
  obtains p' where "ac_peak_equity b = Some p'" "dval (equity b) \<le> dval p'" "dval p \<noteq> 0 \<Longrightarrow> dval p \<le> dval p'"
    "ac_as_of a \<le> ac_as_of b"
proof -
  obtain t c where c: "b = touch t c" "ac_peak_equity c = Some p" "ac_as_of c = ac_as_of a"
    using apply_event_touch [OF assms(1)] assms(2) by metis
  then show thesis
    by (intro that [of "dmax (or_value (Some p) (equity c)) (equity c)"])
       (simp_all add: touch_peak dval_dmax or_value_def dnz_def)
qed

section \<open>Failures\<close>

definition late_failure :: "acct_event \<Rightarrow> bool" where
  "late_failure e = (case e of FundingEvent _ (Naive _) \<Rightarrow> True | MarginEvent _ _ (Naive _) \<Rightarrow> True | _ \<Rightarrow> False)"

lemma apply_event_error:
  assumes "apply_event e a = (Inl x, b)" shows "b = a \<or> late_failure e"
proof (cases e)
  case (FundingEvent v t)
  then show ?thesis using assms
    by (cases t) (auto simp: acct_funding_def Let_def late_failure_def account_time_def split: raw_dec.splits if_splits)
next
  case (MarginEvent u v t)
  then show ?thesis using assms
    by (cases t) (auto simp: acct_margin_def Let_def late_failure_def account_time_def split: raw_dec.splits if_splits)
qed (use assms in \<open>auto simp: acct_op_defs Let_def split: raw_dec.splits sum.splits if_splits\<close>)

section \<open>Snapshots\<close>

lemma sort_key_fst_map [simp]: "set (sort_key f xs) = set xs"
  by simp

lemma sorted_items_names: "names_ok d \<Longrightarrow> \<not> list_ex (\<lambda>(i, v). blank i) (sorted_items d) \<and> distinct (map fst (sorted_items d))"
  by (auto simp: sorted_items_def names_ok_def list_ex_iff list_all_iff dict_ok_def distinct_map inj_on_def)

lemma sorted_items_vals: "vals_ok (\<lambda>c. 0 \<le> dval c) d \<Longrightarrow> \<not> list_ex (\<lambda>(i, v). dlt v d0) (sorted_items d)"
  by (force simp: sorted_items_def vals_ok_def list_ex_iff list_all_iff dlt_iff)

lemma take_snapshot_ok:
  assumes "acct_ok a" "is_digest (sha (account_doc a))"
  shows "\<exists>s. take_snapshot sha a = Inr s \<and> sn_state_hash s = sha (account_doc a) \<and> sn_equity s = equity a \<and> sn_as_of s = ac_as_of a"
  using assms sorted_items_names sorted_items_vals
  by (simp add: take_snapshot_def check_snapshot_def acct_ok_def)

lemma take_snapshot_hash: "take_snapshot sha a = Inr s \<Longrightarrow> sn_state_hash s = sha (account_doc a)"
  by (auto simp: take_snapshot_def check_snapshot_def split: if_splits)

lemma sorted_items_map: "dict_ok d \<Longrightarrow> map_of (sorted_items d) = map_of d"
  by (simp add: sorted_items_def map_of_sort_key dict_ok_def)

lemma doc_opt_inj [simp]: "doc_opt v = doc_opt w \<longleftrightarrow> v = w"
  by (auto simp: doc_opt_def split: option.splits)

text \<open>The same account, up to the order of its dictionaries.\<close>

definition same_account :: "account \<Rightarrow> account \<Rightarrow> bool" where
  "same_account a b \<longleftrightarrow> map_of (ac_positions a) = map_of (ac_positions b) \<and> map_of (ac_marks a) = map_of (ac_marks b) \<and>
     map_of (ac_average_cost a) = map_of (ac_average_cost b) \<and>
     a = b\<lparr>ac_positions := ac_positions a, ac_marks := ac_marks a, ac_average_cost := ac_average_cost a\<rparr>"

lemma account_doc_binds:
  assumes "acct_ok a" "acct_ok b" "account_doc a = account_doc b"
  shows "same_account a b"
proof -
  have get: "map_of (account_doc x) k = map_of
     [(''cash'', DocDec (ac_cash x)), (''positions'', DocDecs (sorted_items (ac_positions x))),
      (''average_cost'', DocDecs (sorted_items (ac_average_cost x))), (''marks'', DocDecs (sorted_items (ac_marks x))),
      (''fees_paid'', DocDec (ac_fees_paid x)), (''funding_paid'', DocDec (ac_funding_paid x)),
      (''realized_pnl'', DocDec (ac_realized_pnl x)), (''unrealized_pnl'', DocDec (unrealized x)),
      (''margin_used'', DocDec (ac_margin_used x)), (''margin_available'', doc_opt (ac_margin_available x)),
      (''starting_cash'', doc_opt (ac_starting_cash x)), (''peak_equity'', doc_opt (ac_peak_equity x)),
      (''daily_realized_pnl'', DocDec (ac_daily_pnl x)), (''rolling_realized_pnl'', DocDec (ac_rolling_pnl x)),
      (''borrow_paid'', DocDec (ac_borrow_paid x)), (''fx_adjustments'', DocDec (ac_fx x)),
      (''corporate_action_adjustments'', DocDec (ac_corporate x)),
      (''liquidation_buffer'', doc_opt (ac_liquidation_buffer x)), (''as_of'', DocTime (ac_as_of x))] k" for x k
    unfolding account_doc_def by (subst map_of_sort_key) simp_all
  have eq: "map_of (account_doc a) k = map_of (account_doc b) k" for k using assms(3) by simp
  have f0: "ac_cash a = ac_cash b" using eq [of "''cash''"] by (simp add: get)
  have f1: "ac_fees_paid a = ac_fees_paid b" using eq [of "''fees_paid''"] by (simp add: get)
  have f2: "ac_funding_paid a = ac_funding_paid b" using eq [of "''funding_paid''"] by (simp add: get)
  have f3: "ac_realized_pnl a = ac_realized_pnl b" using eq [of "''realized_pnl''"] by (simp add: get)
  have f4: "ac_margin_used a = ac_margin_used b" using eq [of "''margin_used''"] by (simp add: get)
  have f5: "ac_margin_available a = ac_margin_available b" using eq [of "''margin_available''"] by (simp add: get)
  have f6: "ac_starting_cash a = ac_starting_cash b" using eq [of "''starting_cash''"] by (simp add: get)
  have f7: "ac_peak_equity a = ac_peak_equity b" using eq [of "''peak_equity''"] by (simp add: get)
  have f8: "ac_daily_pnl a = ac_daily_pnl b" using eq [of "''daily_realized_pnl''"] by (simp add: get)
  have f9: "ac_rolling_pnl a = ac_rolling_pnl b" using eq [of "''rolling_realized_pnl''"] by (simp add: get)
  have f10: "ac_borrow_paid a = ac_borrow_paid b" using eq [of "''borrow_paid''"] by (simp add: get)
  have f11: "ac_fx a = ac_fx b" using eq [of "''fx_adjustments''"] by (simp add: get)
  have f12: "ac_corporate a = ac_corporate b" using eq [of "''corporate_action_adjustments''"] by (simp add: get)
  have f13: "ac_liquidation_buffer a = ac_liquidation_buffer b" using eq [of "''liquidation_buffer''"] by (simp add: get)
  have f14: "ac_as_of a = ac_as_of b" using eq [of "''as_of''"] by (simp add: get)
  have dicts: "sorted_items (ac_positions a) = sorted_items (ac_positions b)"
    "sorted_items (ac_average_cost a) = sorted_items (ac_average_cost b)" "sorted_items (ac_marks a) = sorted_items (ac_marks b)"
    using eq [of "''positions''"] eq [of "''average_cost''"] eq [of "''marks''"] by (simp_all add: get)
  have ok: "dict_ok (ac_positions x)" "dict_ok (ac_marks x)" "dict_ok (ac_average_cost x)" if "acct_ok x" for x
    using that by (simp_all add: acct_ok_def names_ok_def)
  have "map_of (ac_positions a) = map_of (ac_positions b)" "map_of (ac_marks a) = map_of (ac_marks b)"
    "map_of (ac_average_cost a) = map_of (ac_average_cost b)"
    using dicts sorted_items_map [OF ok(1)] sorted_items_map [OF ok(2)] sorted_items_map [OF ok(3)] assms(1,2) by metis+
  moreover have "a = b\<lparr>ac_positions := ac_positions a, ac_marks := ac_marks a, ac_average_cost := ac_average_cost a\<rparr>"
    using f0 f1 f2 f3 f4 f5 f6 f7 f8 f9 f10 f11 f12 f13 f14 by (intro acct.equality) simp_all
  ultimately show ?thesis by (simp add: same_account_def)
qed

section \<open>Properties\<close>

definition ex_raw :: raw_account where
  "ex_raw = \<lparr>ac_cash = Finite (Dec 100 0), ac_positions = [(''BTC'', Finite (Dec 5 0))], ac_marks = [(''BTC'', Finite (Dec 6 0))],
     ac_average_cost = [(''BTC'', Finite (Dec 4 0))], ac_fees_paid = Finite d0, ac_funding_paid = Finite d0,
     ac_realized_pnl = Finite d0, ac_margin_used = Finite d0, ac_margin_available = None, ac_starting_cash = None,
     ac_peak_equity = None, ac_daily_pnl = Finite d0, ac_rolling_pnl = Finite d0, ac_liquidation_buffer = None,
     ac_borrow_paid = Finite d0, ac_fx = Finite d0, ac_corporate = Finite d0, ac_as_of = Aware 0 0\<rparr>"

definition ex_account :: account where
  "ex_account = (case mk_account ex_raw of Inr a \<Rightarrow> a | Inl _ \<Rightarrow> undefined)"

definition ex_trade :: fill where
  "ex_trade = \<lparr>artifact_id = 9, created_at = 0, fill_order_id = 1, venue_fill_id = ''x'', fill_quantity = Dec 8 0,
     fill_price = Dec 6 0, fill_fee = Dec 1 0, fill_occurred_at = 10\<rparr>"

definition ex_digest :: "account_doc \<Rightarrow> string" where
  "ex_digest d = replicate 64 (CHR ''0'')"

lemma ex_account_mk: "mk_account ex_raw = Inr ex_account"
proof -
  have "is_ok (mk_account ex_raw)" by code_simp
  then show ?thesis by (cases "mk_account ex_raw") (auto simp: ex_account_def)
qed

text \<open>C20: The account state stays well formed: from the constructor on, through any sequence of accounting events
  (failing ones included), instrument names are unique and not blank, marks are positive, average costs, fees,
  funding and margin are not negative, and a snapshot of the state can always be taken.\<close>

theorem account_run_invariant:
  assumes "mk_account r = Inr a" "dict_ok (ac_positions r)" "dict_ok (ac_marks r)" "dict_ok (ac_average_cost r)"
    and "list_all event_valid es" "\<And>d. is_digest (sha d)"
  shows "acct_ok (apply_events es a) \<and> is_ok (take_snapshot sha (apply_events es a))"
proof -
  have "acct_ok (apply_events es a)" using mk_account_ok [OF assms(1-4)] assms(5) by (rule apply_events_ok)
  moreover from this obtain s where "take_snapshot sha (apply_events es a) = Inr s"
    using take_snapshot_ok [of "apply_events es a" sha] assms(6) by blast
  ultimately show ?thesis by simp
qed

theorem account_run_invariant_witness:
  "acct_ok (apply_events [FillEvent ex_trade ''sell'' ''BTC'', FundingEvent (Finite d1) (Naive 0)] ex_account) \<and>
   is_ok (take_snapshot ex_digest (apply_events [FillEvent ex_trade ''sell'' ''BTC'', FundingEvent (Finite d1) (Naive 0)] ex_account))"
proof (rule account_run_invariant [OF ex_account_mk])
  show "list_all event_valid [FillEvent ex_trade ''sell'' ''BTC'', FundingEvent (Finite d1) (Naive 0)]"
    by (simp add: event_valid_def fill_valid_def ex_trade_def dval_Dec) code_simp
  show "is_digest (ex_digest d)" for d
    by (simp add: ex_digest_def is_digest_def list_all_iff is_hex_digit_def)
qed (simp_all add: ex_raw_def dict_ok_def)

text \<open>C12: The accounting identity of a fill: on every branch (opening, adding, reducing, closing or crossing a position,
  on either side), as long as no intermediate value needs more than 28 digits, the change of cash and market
  value at any mark \<open>m\<close> is the change of realized and unrealized profit less the fee; positions in other
  instruments do not change.\<close>

theorem fill_accounting:
  assumes "acct_fill f side i a = (Inr (), b)" "fill_valid f"
    and "q = quantity_of a (strip i)" "c = cost_of a (strip i)" "s = dval (signed_quantity (lower (strip side)) f)"
    and "p = dval (fill_price f)" "r = dval (ac_realized_pnl a)" "x = dval (ac_cash a)" "fee = dval (fill_fee f)"
    and "list_all dec_fits (fill_values p s q c r @ [p * s, x - p * s, x - p * s - fee])"
  shows "(dval (ac_cash b) - x) + m * (quantity_of b (strip i) - q) =
      (dval (ac_realized_pnl b) - r) + ((m - cost_of b (strip i)) * quantity_of b (strip i) - (m - c) * q) - fee \<and>
    (\<forall>j. j \<noteq> strip i \<longrightarrow> quantity_of b j = quantity_of a j)"
proof -
  let ?s = "signed_quantity (lower (strip side)) f" and ?i = "strip i"
  let ?b = "book_quantity (fill_price f) ?s ?i a"
  have fits: "list_all dec_fits (fill_values p s q c r)" "rnd (p * s) = p * s" "rnd (x - p * s) = x - p * s"
    "rnd (x - p * s - fee) = x - p * s - fee"
    using assms(10) by (simp_all add: ctx.round_fits)
  have s: "s \<noteq> 0" using signed_nonzero [OF assms(2)] assms(5) by simp
  have b: "b = book_fill f (lower (strip side)) ?i a" using assms(1) by (simp add: acct_fill_def split: if_splits)
  have touch: "quantity_of (touch t y) j = quantity_of y j" "cost_of (touch t y) j = cost_of y j"
    "ac_cash (touch t y) = ac_cash y" "ac_realized_pnl (touch t y) = ac_realized_pnl y" for t y j
    by (simp_all add: quantity_of_def cost_of_def touch_def update_peak_def)
  have same: "quantity_of b j = quantity_of ?b j" "cost_of b j = cost_of ?b j" "ac_realized_pnl b = ac_realized_pnl ?b" for j
    unfolding b book_fill_def Let_def touch by (simp_all add: quantity_of_def cost_of_def)
  note vals = book_quantity_vals [OF assms(3,4,7,6) assms(5) s fits(1)]
  have pnl: "(dval (ac_realized_pnl b) - r) + (m - cost_of b ?i) * (q + s) = (m - c) * q + (m - p) * s"
    unfolding same
  proof (rule average_cost_identity [OF s])
    show "q + s \<noteq> 0 \<Longrightarrow> cost_of ?b ?i = (if adds_to q s then (c * \<bar>q\<bar> + p * \<bar>s\<bar>) / (\<bar>q\<bar> + \<bar>s\<bar>)
           else if q \<noteq> 0 \<and> (0 < q) \<noteq> (0 < q + s) then p else c)"
      by (rule vals(3))
  qed (rule vals(1))
  have cash: "dval (ac_cash b) = x - p * s - fee"
    unfolding b book_fill_def Let_def touch
    using fits(2-4) assms(5,6,8,9) by (simp add: dval_dsub dval_dmul)
  have "quantity_of b ?i = q + s" by (simp only: same vals)
  moreover have "quantity_of ?b j = quantity_of a j" if "j \<noteq> ?i" for j
    using that by (simp add: book_quantity_def quantity_of_def Let_def)
  ultimately show ?thesis using pnl cash same by (simp add: algebra_simps)
qed

lemma fits_int: "\<bar>n\<bar> \<le> 1000 \<Longrightarrow> dec_fits (of_int n)"
  by (rule dec_fits_int) simp

theorem fill_accounting_witness:
  "\<exists>b. acct_fill ex_trade ''sell'' ''BTC'' ex_account = (Inr (), b) \<and> quantity_of b ''BTC'' = - 3 \<and>
     (dval (ac_cash b) - 100) + 7 * (quantity_of b ''BTC'' - 5) =
     (dval (ac_realized_pnl b) - 0) + ((7 - cost_of b ''BTC'') * quantity_of b ''BTC'' - (7 - 4) * 5) - 1"
proof -
  define b where "b = snd (acct_fill ex_trade ''sell'' ''BTC'' ex_account)"
  have ok: "is_ok (fst (acct_fill ex_trade ''sell'' ''BTC'' ex_account))" by code_simp
  then have run: "acct_fill ex_trade ''sell'' ''BTC'' ex_account = (Inr (), b)"
    by (cases "acct_fill ex_trade ''sell'' ''BTC'' ex_account"; cases "fst (acct_fill ex_trade ''sell'' ''BTC'' ex_account)")
       (auto simp: b_def)
  have v: "fill_valid ex_trade" by (simp add: fill_valid_def ex_trade_def dval_Dec) code_simp
  have d: "dict_get (ac_positions ex_account) ''BTC'' d0 = Dec 5 0" "dict_get (ac_average_cost ex_account) ''BTC'' d0 = Dec 4 0"
    "ac_realized_pnl ex_account = d0" "ac_cash ex_account = Dec 100 0" "signed_quantity ''sell'' ex_trade = Dec (- 8) 0"
    "strip ''BTC'' = ''BTC''" "lower (strip ''sell'') = ''sell''" "dict_get (ac_positions b) ''BTC'' d0 = Dec (- 3) 0"
    unfolding b_def by code_simp+
  have fits: "list_all dec_fits (fill_values 6 (- 8) 5 4 0 @ [6 * (- 8), 100 - 6 * (- 8), 100 - 6 * (- 8) - 1])"
    using fits_int [of "- 3"] fits_int [of 5] fits_int [of 8] fits_int [of 2] fits_int [of 10] fits_int [of "- 48"]
      fits_int [of 148] fits_int [of 147]
    by (simp add: fill_values_def adds_to_def)
  have "(dval (ac_cash b) - 100) + 7 * (quantity_of b (strip ''BTC'') - 5) =
      (dval (ac_realized_pnl b) - 0) + ((7 - cost_of b (strip ''BTC'')) * quantity_of b (strip ''BTC'') - (7 - 4) * 5) - 1 \<and>
    (\<forall>j. j \<noteq> strip ''BTC'' \<longrightarrow> quantity_of b j = quantity_of ex_account j)"
    by (rule fill_accounting [OF run v _ _ _ _ _ _ _ fits])
       (simp_all add: d quantity_of_def cost_of_def dval_Dec, simp_all add: ex_trade_def dval_Dec)
  then show ?thesis using run d by (simp add: quantity_of_def dval_Dec)
qed

text \<open>The high-water mark: an accounting event that succeeds leaves a peak equity that is at least the equity,
  never below the former peak unless that was zero, and a clock that does not go back; the drawdown it
  reports is the rounded distance to the peak.\<close>

theorem high_water_mark:
  assumes "apply_event e a = (Inr (), b)" "ac_peak_equity a = Some p"
  shows "\<exists>p'. ac_peak_equity b = Some p' \<and> dval (equity b) \<le> dval p' \<and> (dval p \<noteq> 0 \<longrightarrow> dval p \<le> dval p') \<and>
    ac_as_of a \<le> ac_as_of b \<and> dval (drawdown b) = rnd (dval p' - dval (equity b))"
proof -
  obtain p' where p': "ac_peak_equity b = Some p'" "dval (equity b) \<le> dval p'" "dval p \<noteq> 0 \<Longrightarrow> dval p \<le> dval p'"
      "ac_as_of a \<le> ac_as_of b"
    using high_water [OF assms] by blast
  have "or_value (Some p') d0 = (if dnz p' then p' else d0)" by (simp add: or_value_def)
  then have "dval (or_value (Some p') d0) = dval p'" by (simp add: dnz_def)
  then have "dval (drawdown b) = rnd (dval p' - dval (equity b))"
    using p'(1,2) ctx.round_nonneg [of "dval p' - dval (equity b)"]
    by (simp add: drawdown_def dval_dmax dval_dsub)
  then show ?thesis using p' by blast
qed

theorem high_water_mark_witness:
  "\<exists>b p'. apply_event (MarkEvent ''BTC'' (Finite (Dec 2 0)) (Aware 5 0)) ex_account = (Inr (), b) \<and>
     ac_peak_equity b = Some p' \<and> 100 \<le> dval p' \<and> dval (drawdown b) = rnd (dval p' - dval (equity b))"
proof -
  have "is_ok (fst (apply_event (MarkEvent ''BTC'' (Finite (Dec 2 0)) (Aware 5 0)) ex_account))" by code_simp
  then obtain b where b: "apply_event (MarkEvent ''BTC'' (Finite (Dec 2 0)) (Aware 5 0)) ex_account = (Inr (), b)"
    by (cases "apply_event (MarkEvent ''BTC'' (Finite (Dec 2 0)) (Aware 5 0)) ex_account";
        cases "fst (apply_event (MarkEvent ''BTC'' (Finite (Dec 2 0)) (Aware 5 0)) ex_account)") auto
  have "ac_peak_equity ex_account = Some (Dec 100 0)" by code_simp
  from high_water_mark [OF b this] b show ?thesis by (auto simp: dval_Dec)
qed

text \<open>A split keeps the value of the position: when the new quantity and the new mark need no rounding, quantity
  times mark, and quantity times average cost, are what they were, and cash does not change.\<close>

theorem split_keeps_value:
  assumes "acct_split i (Finite x) t a = (Inr (), b)" "map_of (ac_positions a) (strip i) = Some q"
    and "map_of (ac_marks a) (strip i) = Some m" "map_of (ac_average_cost a) (strip i) = Some c"
    and "list_all dec_fits [dval q * dval x, dval m / dval x, dval c / dval x]"
  shows "\<exists>q' m' c'. map_of (ac_positions b) (strip i) = Some q' \<and> map_of (ac_marks b) (strip i) = Some m' \<and>
    map_of (ac_average_cost b) (strip i) = Some c' \<and> dval q' * dval m' = dval q * dval m \<and>
    dval q' * dval c' = dval q * dval c \<and> ac_cash b = ac_cash a"
proof -
  have x: "0 < dval x" and nb: "\<not> blank i"
    using assms(1) by (auto simp: acct_split_def dcmp split: if_splits)
  obtain u where b: "b = touch u (a\<lparr>ac_positions := dict_adjust (\<lambda>q. dmul q x) (strip i) (ac_positions a),
      ac_average_cost := dict_adjust (\<lambda>c. ddiv c x) (strip i) (ac_average_cost a),
      ac_marks := dict_adjust (\<lambda>m. ddiv m x) (strip i) (ac_marks a)\<rparr>)"
    using assms(1) nb x by (auto simp: acct_split_def split: if_splits sum.splits)
  have "coeff x \<noteq> 0" using x by (metis dval_eq_0 less_irrefl)
  then have vals: "dval (dmul q x) = dval q * dval x" "dval (ddiv m x) = dval m / dval x" "dval (ddiv c x) = dval c / dval x"
    using assms(5) by (simp_all add: dval_dmul dval_ddiv ctx.round_fits)
  then show ?thesis
    using assms(2-4) x \<open>coeff x \<noteq> 0\<close> unfolding b by (simp add: touch_def update_peak_def dict_adjust_def)
qed

theorem split_keeps_value_witness:
  "\<exists>b. acct_split ''BTC'' (Finite (Dec 2 0)) (Aware 5 0) ex_account = (Inr (), b) \<and> ac_cash b = ac_cash ex_account"
proof -
  have "is_ok (fst (acct_split ''BTC'' (Finite (Dec 2 0)) (Aware 5 0) ex_account))" by code_simp
  then obtain b where b: "acct_split ''BTC'' (Finite (Dec 2 0)) (Aware 5 0) ex_account = (Inr (), b)"
    by (cases "acct_split ''BTC'' (Finite (Dec 2 0)) (Aware 5 0) ex_account";
        cases "fst (acct_split ''BTC'' (Finite (Dec 2 0)) (Aware 5 0) ex_account)") auto
  have d: "map_of (ac_positions ex_account) (strip ''BTC'') = Some (Dec 5 0)"
    "map_of (ac_marks ex_account) (strip ''BTC'') = Some (Dec 6 0)"
    "map_of (ac_average_cost ex_account) (strip ''BTC'') = Some (Dec 4 0)" by code_simp+
  have "list_all dec_fits [dval (Dec 5 0) * dval (Dec 2 0), dval (Dec 6 0) / dval (Dec 2 0), dval (Dec 4 0) / dval (Dec 2 0)]"
    using fits_int [of 10] fits_int [of 3] fits_int [of 2] by (simp add: dval_Dec)
  from split_keeps_value [OF b d this] b show ?thesis by blast
qed

text \<open>The state hash binds the state: unless the digest collides, two well-formed accounts whose snapshots carry
  the same hash agree in every field, average costs and peak included, up to the order of their dictionaries.\<close>

theorem state_hash_binds:
  assumes "acct_ok a" "acct_ok b" "take_snapshot sha a = Inr s" "take_snapshot sha b = Inr t"
    and "sha (account_doc a) = sha (account_doc b) \<Longrightarrow> account_doc a = account_doc b"
    and "sn_state_hash s = sn_state_hash t"
  shows "same_account a b"
proof -
  have "account_doc a = account_doc b"
    using assms(5,6) take_snapshot_hash [OF assms(3)] take_snapshot_hash [OF assms(4)] by simp
  then show ?thesis by (rule account_doc_binds [OF assms(1,2)])
qed

definition ex_two :: "(string, dec) dict \<Rightarrow> account" where
  "ex_two ps = ex_account\<lparr>ac_positions := ps\<rparr>"

theorem state_hash_binds_witness:
  "same_account (ex_two [(''A'', d1), (''B'', d1)]) (ex_two [(''B'', d1), (''A'', d1)]) \<and>
   ex_two [(''A'', d1), (''B'', d1)] \<noteq> ex_two [(''B'', d1), (''A'', d1)]"
proof
  let ?a = "ex_two [(''A'', d1), (''B'', d1)]" and ?b = "ex_two [(''B'', d1), (''A'', d1)]"
  have "acct_ok ex_account"
    by (rule mk_account_ok [OF ex_account_mk]) (simp_all add: ex_raw_def dict_ok_def)
  then have ok: "acct_ok ?a" "acct_ok ?b"
    by (simp_all add: acct_ok_def ex_two_def names_ok_def dict_ok_def blank_iff is_space_def)
  have dig: "is_digest (ex_digest d)" for d
    by (simp add: ex_digest_def is_digest_def list_all_iff is_hex_digit_def)
  obtain s t where s: "take_snapshot ex_digest ?a = Inr s" and t: "take_snapshot ex_digest ?b = Inr t"
    using take_snapshot_ok [of _ ex_digest, OF ok(1) dig] take_snapshot_ok [of _ ex_digest, OF ok(2) dig] by blast
  have "account_doc ?a = account_doc ?b" by code_simp
  then show "same_account ?a ?b"
    using take_snapshot_hash [OF s] take_snapshot_hash [OF t]
    by (intro state_hash_binds [OF ok s t]) simp_all
  have "ac_positions ?a \<noteq> ac_positions ?b" by (simp add: ex_two_def)
  then show "?a \<noteq> ?b" by auto
qed

text \<open>A failing accounting event changes nothing, except that funding and margin updates with a naive time have
  changed the account before they raise.\<close>

theorem failing_event_unchanged:
  assumes "apply_event e a = (Inl x, b)" "\<not> late_failure e"
  shows "b = a"
  using apply_event_error [OF assms(1)] assms(2) by simp

theorem failing_event_unchanged_witness:
  "snd (apply_event (MarkEvent ''BTC'' NotFinite (Aware 0 0)) ex_account) = ex_account"
  by (rule failing_event_unchanged [of "MarkEvent ''BTC'' NotFinite (Aware 0 0)" ex_account "ValueError ''mark price must be positive''"])
     (simp_all add: acct_mark_def late_failure_def blank_def strip_def is_space_def)

text \<open>A funding event with a naive time debits the account and then raises.\<close>

theorem funding_debits_before_raising:
  "fst (acct_funding (Finite (Dec 7 0)) (Naive 0) ex_account) = Inl (ValueError ''account timestamp must include a timezone'') \<and>
   ac_cash (snd (acct_funding (Finite (Dec 7 0)) (Naive 0) ex_account)) = Dec 93 0"
  by code_simp

text \<open>A peak of zero is taken for a missing peak: an account that starts without cash and loses 5 reports a peak of
  -5 and no drawdown.\<close>

theorem zero_peak_hides_drawdown:
  "let a = (case mk_account (ex_raw\<lparr>ac_cash := Finite d0, ac_positions := [], ac_marks := [], ac_average_cost := []\<rparr>) of Inr a \<Rightarrow> a);
       b = snd (acct_funding (Finite (Dec 5 0)) (Aware 1 0) a)
   in ac_peak_equity a = Some d0 \<and> equity b = Dec (- 5) 0 \<and> ac_peak_equity b = Some (Dec (- 5) 0) \<and> drawdown b = d0"
  by code_simp

end
