(* ===== verification/Account_Ledger.thy ===== *)
theory Account_Ledger
  imports Account_Properties Outbox
begin

text \<open>
  The account ledger (\<open>AccountLedger\<close> of \<open>src/advisorai/execution/account.py\<close>): accounting events applied to a
  copy of the account, recorded with the hash of the resulting state, and only then committed; the keys of
  the recorded events guard against applying one twice; a restart replays the ledger and compares the hashes.

  The environment has the digest, the event bus (optional) and the entropy of the process.  The texts that
  the source compares and parses back (\<open>str\<close> of a decimal or UUID, \<open>isoformat\<close> of a time) stand for their
  values.  The validators of \<open>LedgerEvent\<close> are the identity on the tokens built here.
\<close>

record 'b al_env =
  ab_sha :: "account_doc \<Rightarrow> string"
  ab_publish :: "(envelope \<Rightarrow> ('b, unit) action) option"
  ab_uuid :: "nat \<Rightarrow> uuid"
  ab_now :: "nat \<Rightarrow> utc"

record 'b acct_ledger =
  al_ledgers :: ledgers
  al_account :: account
  al_applied :: "(string, payload) dict"
  al_bus :: 'b
  al_draws :: nat

definition raw_text :: "raw_dec \<Rightarrow> pval" where
  "raw_text v = (case v of Finite x \<Rightarrow> PDec x | NotFinite \<Rightarrow> PText ''NaN'')"

section \<open>Recording\<close>

definition al_snapshot :: "'b al_env \<Rightarrow> ('b acct_ledger, snapshot) action" where
  "al_snapshot E s = (take_snapshot (ab_sha E) (al_account s), s)"

definition al_publish :: "'b al_env \<Rightarrow> ledger_event \<Rightarrow> string \<Rightarrow> uuid option \<Rightarrow> ('b acct_ledger, unit) action" where
  "al_publish E ev etype aid =
     (case ab_publish E of
        None \<Rightarrow> sreturn ()
      | Some pub \<Rightarrow>
        sbind (spure (\<lambda>_. mk_envelope (event_id ev) etype (Aware (ev_occurred_at ev) 0) (opt_list aid)
                (Some (''ledger://account/'' @ uuid_str (event_id ev)))))
          (\<lambda>e s. let (r, b) = pub e (al_bus s) in (r, s\<lparr>al_bus := b\<rparr>)))"

definition al_republish :: "'b al_env \<Rightarrow> string \<Rightarrow> string \<Rightarrow> uuid option \<Rightarrow> ('b acct_ledger, unit) action" where
  "al_republish E k etype aid =
     (case ab_publish E of
        None \<Rightarrow> sreturn ()
      | Some _ \<Rightarrow>
        sbind (sget (\<lambda>s. find_key k (ledger_events (al_ledgers s) NS_ACCOUNT)))
          (\<lambda>ev. case ev of None \<Rightarrow> sreturn () | Some e \<Rightarrow> al_publish E e etype aid))"

definition al_event :: "'b al_env \<Rightarrow> string \<Rightarrow> string \<Rightarrow> payload \<Rightarrow> nat \<Rightarrow> ledger_event" where
  "al_event E k etype p n = \<lparr>event_id = ab_uuid E n, ev_namespace = NS_ACCOUNT, event_type = etype, ev_key = k,
     ev_occurred_at = ab_now E n, ev_payload = p\<rparr>"

definition al_append :: "'b al_env \<Rightarrow> string \<Rightarrow> string \<Rightarrow> payload \<Rightarrow> ('b acct_ledger, ledger_event) action" where
  "al_append E k etype p s =
     (let (r, L) = ledger_append (al_event E k etype p (al_draws s)) (al_ledgers s)
      in (r, s\<lparr>al_draws := Suc (al_draws s), al_ledgers := L\<rparr>))"

definition al_commit :: "account \<Rightarrow> string \<Rightarrow> payload \<Rightarrow> ('b acct_ledger, unit) action" where
  "al_commit a k p = smodify (\<lambda>s. s\<lparr>al_account := a, al_applied := dict_set k p (al_applied s)\<rparr>)"

text \<open>
  The common course of the methods.  \<open>book\<close> applies the operation to a copy, records the event with the hash
  of the copy, commits, publishes.  \<open>once\<close> looks at the applied payload of the key first; \<open>compared\<close> are the
  entries a retry is compared on, \<open>keep\<close> says whether the payload that is remembered has the hash.
\<close>

definition with_hash :: "payload \<Rightarrow> string \<Rightarrow> payload" where
  "with_hash p h = p @ [(''state_hash'', PText h)]"

definition book :: "'b al_env \<Rightarrow> string \<Rightarrow> string \<Rightarrow> payload \<Rightarrow> bool \<Rightarrow> string \<Rightarrow> uuid option \<Rightarrow> (account, unit) action \<Rightarrow>
    ('b acct_ledger, snapshot) action" where
  "book E k etype base keep pub aid op s =
     (case op (al_account s) of
        (Inl e, _) \<Rightarrow> (Inl e, s)
      | (Inr _, cand) \<Rightarrow>
        (case take_snapshot (ab_sha E) cand of
           Inl e \<Rightarrow> (Inl e, s)
         | Inr sn \<Rightarrow>
           let p = with_hash base (sn_state_hash sn) in
           sbind (al_append E k etype p) (\<lambda>ev.
           sbind (al_commit cand k (if keep then p else base)) (\<lambda>_.
           sbind (al_publish E ev pub aid) (\<lambda>_. al_snapshot E))) s))"

text \<open>Evaluation waits for the state.\<close>

lemma book_code [code]:
  "book E k etype base keep pub aid op \<lparr>al_ledgers = L, al_account = a, al_applied = m, al_bus = b, al_draws = n\<rparr> =
     (let s = \<lparr>al_ledgers = L, al_account = a, al_applied = m, al_bus = b, al_draws = n\<rparr> in
      case op a of
        (Inl e, _) \<Rightarrow> (Inl e, s)
      | (Inr _, cand) \<Rightarrow>
        (case take_snapshot (ab_sha E) cand of
           Inl e \<Rightarrow> (Inl e, s)
         | Inr sn \<Rightarrow>
           let p = with_hash base (sn_state_hash sn) in
           sbind (al_append E k etype p) (\<lambda>ev.
           sbind (al_commit cand k (if keep then p else base)) (\<lambda>_.
           sbind (al_publish E ev pub aid) (\<lambda>_. al_snapshot E))) s))"
  by (simp add: book_def Let_def)

definition agrees :: "payload \<Rightarrow> payload \<Rightarrow> bool" where
  "agrees prior compared = list_all (\<lambda>(n, v). map_of prior n = Some v) compared"

definition once :: "'b al_env \<Rightarrow> string \<Rightarrow> payload \<Rightarrow> string \<Rightarrow> payload \<Rightarrow> bool \<Rightarrow> string \<Rightarrow> uuid option \<Rightarrow>
    (account, unit) action \<Rightarrow> ('b acct_ledger, snapshot) action" where
  "once E k compared etype base keep pub aid op =
     sbind (sget (\<lambda>s. map_of (al_applied s) k)) (\<lambda>prior. case prior of
       Some p \<Rightarrow> if \<not> agrees p compared
                 then sraise (IdempotencyConflict ''idempotency key reused for different content'')
                 else sbind (al_republish E k pub aid) (\<lambda>_. al_snapshot E)
     | None \<Rightarrow> book E k etype base keep pub aid op)"

section \<open>Methods\<close>

definition fill_payload :: "fill \<Rightarrow> string \<Rightarrow> string \<Rightarrow> payload" where
  "fill_payload f side i =
     [(''fill_id'', PUuid (artifact_id f)), (''venue_fill_id'', PText (venue_fill_id f)),
      (''order_id'', PUuid (fill_order_id f)), (''instrument_id'', PText i), (''side'', PText side),
      (''quantity'', PDec (fill_quantity f)), (''price'', PDec (fill_price f)), (''fee'', PDec (fill_fee f)),
      (''occurred_at'', PTime (Aware (fill_occurred_at f) 0))]"

definition al_apply_fill :: "'b al_env \<Rightarrow> fill \<Rightarrow> string \<Rightarrow> string \<Rightarrow> ('b acct_ledger, snapshot) action" where
  "al_apply_fill E f side0 i0 =
     (let i = strip i0; side = lower (strip side0); p = fill_payload f side i
      in if i = [] then sraise (ValueError ''fill instrument identifier cannot be blank'')
         else once E (''account-fill:'' @ venue_fill_id f) p ''fill_applied'' p False ''account_fill_applied''
                (Some (artifact_id f)) (acct_fill f side i))"

definition amount_fields :: "raw_dec \<Rightarrow> pydatetime \<Rightarrow> payload" where
  "amount_fields x t = [(''amount'', raw_text x), (''occurred_at'', PTime t)]"

definition al_apply_funding :: "'b al_env \<Rightarrow> raw_dec \<Rightarrow> pydatetime \<Rightarrow> string \<Rightarrow> ('b acct_ledger, snapshot) action" where
  "al_apply_funding E x t fid0 =
     (let fid = strip fid0
      in if fid = [] then sraise (ValueError ''funding ID is required'')
         else once E (''funding:'' @ fid) (amount_fields x t) ''funding_applied''
                (amount_fields x t @ [(''funding_id'', PText fid)]) False ''account_funding_applied'' None (acct_funding x t))"

definition al_apply_cash_transfer :: "'b al_env \<Rightarrow> raw_dec \<Rightarrow> pydatetime \<Rightarrow> string \<Rightarrow> ('b acct_ledger, snapshot) action" where
  "al_apply_cash_transfer E x t tid0 =
     (let tid = strip tid0
      in if tid = [] then sraise (ValueError ''cash transfer ID is required'')
         else once E (''cash-transfer:'' @ tid) (amount_fields x t) ''cash_transfer_applied''
                (amount_fields x t @ [(''transfer_id'', PText tid)]) True ''account_cash_transfer_applied'' None
                (acct_cash_transfer x t))"

definition al_adjustment :: "'b al_env \<Rightarrow> raw_dec \<Rightarrow> pydatetime \<Rightarrow> string \<Rightarrow> string \<Rightarrow> string \<Rightarrow> string \<Rightarrow>
    (raw_dec \<Rightarrow> pydatetime \<Rightarrow> (account, unit) action) \<Rightarrow> ('b acct_ledger, snapshot) action" where
  "al_adjustment E x t aid0 prefix etype pub op =
     (let aid = strip aid0; p = amount_fields x t @ [(''adjustment_id'', PText aid)]
      in if aid = [] then sraise (ValueError ''account adjustment ID is required'')
         else once E (prefix @ '':'' @ aid) p etype p False pub None (op x t))"

definition al_apply_borrow :: "'b al_env \<Rightarrow> raw_dec \<Rightarrow> pydatetime \<Rightarrow> string \<Rightarrow> ('b acct_ledger, snapshot) action" where
  "al_apply_borrow E x t aid = al_adjustment E x t aid ''borrow'' ''borrow_applied'' ''account_borrow_applied'' acct_borrow"

definition al_apply_fx :: "'b al_env \<Rightarrow> raw_dec \<Rightarrow> pydatetime \<Rightarrow> string \<Rightarrow> ('b acct_ledger, snapshot) action" where
  "al_apply_fx E x t aid = al_adjustment E x t aid ''fx'' ''fx_adjustment_applied'' ''account_fx_adjustment_applied'' acct_fx"

definition al_apply_corporate :: "'b al_env \<Rightarrow> raw_dec \<Rightarrow> pydatetime \<Rightarrow> string \<Rightarrow> ('b acct_ledger, snapshot) action" where
  "al_apply_corporate E x t aid =
     al_adjustment E x t aid ''corporate-action'' ''corporate_action_applied'' ''account_corporate_action_applied'' acct_corporate"

definition al_instrument_action :: "'b al_env \<Rightarrow> string \<Rightarrow> raw_dec \<Rightarrow> pydatetime \<Rightarrow> string \<Rightarrow> string \<Rightarrow> string \<Rightarrow> string \<Rightarrow>
    (string \<Rightarrow> raw_dec \<Rightarrow> pydatetime \<Rightarrow> (account, unit) action) \<Rightarrow> string \<Rightarrow> ('b acct_ledger, snapshot) action" where
  "al_instrument_action E i0 x t aid0 prefix etype pub op name =
     (let i = strip i0; aid = strip aid0;
          p = [(''instrument_id'', PText i), (name, raw_text x), (''occurred_at'', PTime t), (''action_id'', PText aid)]
      in if i = [] \<or> aid = [] then sraise (ValueError ''corporate-action instrument and action IDs are required'')
         else once E (prefix @ '':'' @ aid) p etype p False pub None (op i x t))"

definition al_apply_split :: "'b al_env \<Rightarrow> string \<Rightarrow> raw_dec \<Rightarrow> pydatetime \<Rightarrow> string \<Rightarrow> ('b acct_ledger, snapshot) action" where
  "al_apply_split E i x t aid =
     al_instrument_action E i x t aid ''split'' ''split_applied'' ''account_split_applied'' acct_split ''ratio''"

definition al_apply_dividend :: "'b al_env \<Rightarrow> string \<Rightarrow> raw_dec \<Rightarrow> pydatetime \<Rightarrow> string \<Rightarrow> ('b acct_ledger, snapshot) action" where
  "al_apply_dividend E i x t aid =
     al_instrument_action E i x t aid ''dividend'' ''dividend_applied'' ''account_dividend_applied'' acct_dividend ''cash_per_unit''"

definition al_mark :: "'b al_env \<Rightarrow> string \<Rightarrow> raw_dec \<Rightarrow> pydatetime \<Rightarrow> string \<Rightarrow> ('b acct_ledger, snapshot) action" where
  "al_mark E i0 x t mid0 =
     (let i = strip i0; mid = strip mid0;
          p = [(''instrument_id'', PText i), (''price'', raw_text x), (''as_of'', PTime t)]
      in if mid = [] \<or> i = [] then sraise (ValueError ''mark and instrument IDs are required'')
         else once E (''mark:'' @ mid) p ''mark_applied'' (p @ [(''mark_id'', PText mid)]) True ''account_mark_applied'' None
                (acct_mark i x t))"

definition al_update_margin :: "'b al_env \<Rightarrow> raw_dec \<Rightarrow> raw_dec \<Rightarrow> pydatetime \<Rightarrow> string \<Rightarrow> ('b acct_ledger, snapshot) action" where
  "al_update_margin E u v t mid0 =
     (let mid = strip mid0;
          p = [(''margin_used'', raw_text u), (''margin_available'', raw_text v), (''as_of'', PTime t), (''margin_id'', PText mid)]
      in if mid = [] then sraise (ValueError ''margin ID is required'')
         else once E (''margin:'' @ mid) p ''margin_updated'' p False ''account_margin_updated'' None (acct_margin u v t))"

text \<open>A corporate-action record as its reader sees it: a kind, optional ratio and cash amount.\<close>

datatype action_kind = EnumKind string | TextKind string

record corporate_action =
  ca_kind :: action_kind
  ca_instrument :: string
  ca_id :: string
  ca_effective_at :: pydatetime
  ca_ratio :: "raw_dec option"
  ca_cash :: "raw_dec option"

definition raw_zero :: "raw_dec \<Rightarrow> bool" where
  "raw_zero v = (case v of Finite x \<Rightarrow> \<not> dnz x | NotFinite \<Rightarrow> False)"

definition al_apply_corporate_record :: "'b al_env \<Rightarrow> corporate_action \<Rightarrow> ('b acct_ledger, snapshot) action" where
  "al_apply_corporate_record E c =
     (let kind = (case ca_kind c of EnumKind v \<Rightarrow> v | TextKind v \<Rightarrow> lower (strip v))
      in if kind = ''split''
         then (case ca_ratio c of
                 None \<Rightarrow> sraise (ValueError ''split corporate actions require a ratio'')
               | Some x \<Rightarrow> al_apply_split E (ca_instrument c) x (ca_effective_at c) (ca_id c))
         else if kind = ''dividend''
         then (case ca_cash c of
                 None \<Rightarrow> sraise (ValueError ''dividend corporate actions require a cash amount'')
               | Some x \<Rightarrow> al_apply_dividend E (ca_instrument c) x (ca_effective_at c) (ca_id c))
         else (case ca_cash c of
                 None \<Rightarrow> sraise (ValueError ''merger/spinoff accounting requires a non-zero cash amount or a future mapping'')
               | Some x \<Rightarrow> if raw_zero x
                  then sraise (ValueError ''merger/spinoff accounting requires a non-zero cash amount or a future mapping'')
                  else al_apply_corporate E x (ca_effective_at c) (ca_id c)))"

definition applied_fill_ids :: "'b acct_ledger \<Rightarrow> pval set" where
  "applied_fill_ids s = {v. \<exists>p \<in> snd ` set (al_applied s). map_of p ''venue_fill_id'' = Some v}"

lemma applied_fill_ids_code [code]:
  "applied_fill_ids s = set (concat (map (\<lambda>(k, p). opt_list (map_of p ''venue_fill_id'')) (al_applied s)))"
  by (force simp: applied_fill_ids_def opt_list_def split: option.splits)

section \<open>Recovery\<close>

text \<open>
  Reading a payload back.  A missing entry is a \<open>KeyError\<close>; an entry of another kind than the source writes
  under that name does not parse.
\<close>

definition pay_dec :: "payload \<Rightarrow> string \<Rightarrow> raw_dec res" where
  "pay_dec p k = (case map_of p k of None \<Rightarrow> Inl (KeyError k) | Some (PDec x) \<Rightarrow> Inr (Finite x)
     | Some _ \<Rightarrow> Inl (InvalidOperation k))"

definition pay_time :: "payload \<Rightarrow> string \<Rightarrow> pydatetime res" where
  "pay_time p k = (case map_of p k of None \<Rightarrow> Inl (KeyError k) | Some (PTime t) \<Rightarrow> Inr t
     | Some _ \<Rightarrow> Inl (ValueError ''Invalid isoformat string''))"

definition pay_text :: "payload \<Rightarrow> string \<Rightarrow> string res" where
  "pay_text p k = (case map_of p k of None \<Rightarrow> Inl (KeyError k) | Some (PText t) \<Rightarrow> Inr t
     | Some _ \<Rightarrow> Inl (ValueError k))"

definition pay_uuid :: "payload \<Rightarrow> string \<Rightarrow> uuid res" where
  "pay_uuid p k = (case map_of p k of None \<Rightarrow> Inl (KeyError k) | Some (PUuid u) \<Rightarrow> Inr u
     | Some _ \<Rightarrow> Inl (ValueError ''badly formed hexadecimal UUID string''))"

definition with_read :: "'a res \<Rightarrow> ('a \<Rightarrow> (account, unit) action) \<Rightarrow> (account, unit) action" where
  "with_read r f = (case r of Inl e \<Rightarrow> sraise e | Inr x \<Rightarrow> f x)"

definition read_fill :: "payload \<Rightarrow> fill res" where
  "read_fill p =
     rbind (pay_uuid p ''fill_id'') (\<lambda>fid. rbind (pay_uuid p ''order_id'') (\<lambda>oid.
     rbind (pay_text p ''venue_fill_id'') (\<lambda>vid. rbind (pay_dec p ''quantity'') (\<lambda>q.
     rbind (pay_dec p ''price'') (\<lambda>x. rbind (pay_dec p ''fee'') (\<lambda>fee. rbind (pay_time p ''occurred_at'') (\<lambda>t.
       mk_fill fid (Aware 0 0) oid vid q x fee t)))))))"

text \<open>\<open>except (KeyError, TypeError, ValueError)\<close>: pydantic's \<open>ValidationError\<close> is a \<open>ValueError\<close>.\<close>

definition catch_value :: "(account, unit) action \<Rightarrow> (account, unit) action" where
  "catch_value m a = (case m a of
     (Inl (KeyError _), b) \<Rightarrow> (Inl (IdempotencyConflict ''account ledger contains invalid fill payload''), b)
   | (Inl (ValueError _), b) \<Rightarrow> (Inl (IdempotencyConflict ''account ledger contains invalid fill payload''), b)
   | (Inl (ValidationError _), b) \<Rightarrow> (Inl (IdempotencyConflict ''account ledger contains invalid fill payload''), b)
   | r \<Rightarrow> r)"

definition amount_event :: "payload \<Rightarrow> (raw_dec \<Rightarrow> pydatetime \<Rightarrow> (account, unit) action) \<Rightarrow> (account, unit) action" where
  "amount_event p op = with_read (pay_dec p ''amount'') (\<lambda>x. with_read (pay_time p ''occurred_at'') (\<lambda>t. op x t))"

definition replay_op :: "string \<Rightarrow> payload \<Rightarrow> (account, unit) action" where
  "replay_op etype p =
     (if etype = ''fill_applied''
      then catch_value (with_read (read_fill p) (\<lambda>f. with_read (pay_text p ''side'') (\<lambda>side.
             with_read (pay_text p ''instrument_id'') (\<lambda>i. acct_fill f side i))))
      else if etype = ''funding_applied'' then amount_event p acct_funding
      else if etype = ''cash_transfer_applied'' then amount_event p acct_cash_transfer
      else if etype = ''mark_applied''
      then with_read (pay_text p ''instrument_id'') (\<lambda>i. with_read (pay_dec p ''price'') (\<lambda>x.
             with_read (pay_time p ''as_of'') (\<lambda>t. acct_mark i x t)))
      else if etype = ''margin_updated''
      then with_read (pay_dec p ''margin_used'') (\<lambda>u. with_read (pay_dec p ''margin_available'') (\<lambda>v.
             with_read (pay_time p ''as_of'') (\<lambda>t. acct_margin u v t)))
      else if etype = ''borrow_applied'' then amount_event p acct_borrow
      else if etype = ''fx_adjustment_applied'' then amount_event p acct_fx
      else if etype = ''corporate_action_applied'' then amount_event p acct_corporate
      else if etype = ''split_applied''
      then with_read (pay_text p ''instrument_id'') (\<lambda>i. with_read (pay_dec p ''ratio'') (\<lambda>x.
             with_read (pay_time p ''occurred_at'') (\<lambda>t. acct_split i x t)))
      else if etype = ''dividend_applied''
      then with_read (pay_text p ''instrument_id'') (\<lambda>i. with_read (pay_dec p ''cash_per_unit'') (\<lambda>x.
             with_read (pay_time p ''occurred_at'') (\<lambda>t. acct_dividend i x t)))
      else sreturn ())"

definition account_event_types :: "string list" where
  "account_event_types = [''fill_applied'', ''funding_applied'', ''cash_transfer_applied'', ''mark_applied'',
     ''margin_updated'', ''borrow_applied'', ''fx_adjustment_applied'', ''corporate_action_applied'',
     ''split_applied'', ''dividend_applied'']"

definition check_hash :: "'b al_env \<Rightarrow> payload \<Rightarrow> ('b acct_ledger, unit) action" where
  "check_hash E p = spure (\<lambda>s. case map_of p ''state_hash'' of
     None \<Rightarrow> Inr ()
   | Some h \<Rightarrow> rbind (take_snapshot (ab_sha E) (al_account s)) (\<lambda>sn.
       if h \<noteq> PText (sn_state_hash sn) then Inl (IdempotencyConflict ''account ledger state hash mismatch'')
       else Inr ()))"

definition hydrate_acct_event :: "'b al_env \<Rightarrow> ledger_event \<Rightarrow> ('b acct_ledger, unit) action" where
  "hydrate_acct_event E ev =
     (if event_type ev \<notin> set account_event_types then sreturn ()
      else sbind (smodify (\<lambda>s. s\<lparr>al_applied := dict_set (ev_key ev) (ev_payload ev) (al_applied s)\<rparr>)) (\<lambda>_.
           sbind (\<lambda>s. let (r, a) = replay_op (event_type ev) (ev_payload ev) (al_account s) in (r, s\<lparr>al_account := a\<rparr>)) (\<lambda>_.
             check_hash E (ev_payload ev))))"

fun hydrate_acct_events :: "'b al_env \<Rightarrow> ledger_event list \<Rightarrow> ('b acct_ledger, unit) action" where
  "hydrate_acct_events E [] = sreturn ()"
| "hydrate_acct_events E (ev # evs) = sbind (hydrate_acct_event E ev) (\<lambda>_. hydrate_acct_events E evs)"

definition bare_ledger :: "ledgers \<Rightarrow> account \<Rightarrow> 'b \<Rightarrow> nat \<Rightarrow> 'b acct_ledger" where
  "bare_ledger L a b n = \<lparr>al_ledgers = L, al_account = a, al_applied = [], al_bus = b, al_draws = n\<rparr>"

definition new_account_ledger :: "'b al_env \<Rightarrow> bool \<Rightarrow> ledgers \<Rightarrow> account \<Rightarrow> 'b \<Rightarrow> nat \<Rightarrow> unit res \<times> 'b acct_ledger" where
  "new_account_ledger E hydrate L a b n =
     (if hydrate then hydrate_acct_events E (ledger_events L NS_ACCOUNT) (bare_ledger L a b n)
      else (Inr (), bare_ledger L a b n))"

end
