(* ===== verification/Account_Ledger_Facts.thy ===== *)
theory Account_Ledger_Facts
  imports Account_Ledger
begin

text \<open>
  The calls of the account ledger as data, and what they share: every call is refused, or is the common
  course of one \<open>booking\<close> (key, compared entries, event type, payload, accounting event).  From there on the
  proofs are about \<open>once\<close> and \<open>book\<close>: a booking either changes nothing or appends one row and commits the
  account that the row's hash is of, and the row, read back, is the same accounting event.
\<close>

section \<open>Calls and bookings\<close>

datatype account_call =
    CallFill fill string string
  | CallFunding raw_dec pydatetime string
  | CallTransfer raw_dec pydatetime string
  | CallBorrow raw_dec pydatetime string
  | CallFx raw_dec pydatetime string
  | CallCorporate raw_dec pydatetime string
  | CallSplit string raw_dec pydatetime string
  | CallDividend string raw_dec pydatetime string
  | CallMark string raw_dec pydatetime string
  | CallMargin raw_dec raw_dec pydatetime string
  | CallRecord corporate_action

primrec account_perform :: "'b al_env \<Rightarrow> account_call \<Rightarrow> ('b acct_ledger, snapshot) action" where
  "account_perform E (CallFill f side i) = al_apply_fill E f side i"
| "account_perform E (CallFunding x t k) = al_apply_funding E x t k"
| "account_perform E (CallTransfer x t k) = al_apply_cash_transfer E x t k"
| "account_perform E (CallBorrow x t k) = al_apply_borrow E x t k"
| "account_perform E (CallFx x t k) = al_apply_fx E x t k"
| "account_perform E (CallCorporate x t k) = al_apply_corporate E x t k"
| "account_perform E (CallSplit i x t k) = al_apply_split E i x t k"
| "account_perform E (CallDividend i x t k) = al_apply_dividend E i x t k"
| "account_perform E (CallMark i x t k) = al_mark E i x t k"
| "account_perform E (CallMargin u v t k) = al_update_margin E u v t k"
| "account_perform E (CallRecord c) = al_apply_corporate_record E c"

primrec account_perform_all :: "'b al_env \<Rightarrow> account_call list \<Rightarrow> 'b acct_ledger \<Rightarrow> 'b acct_ledger" where
  "account_perform_all E [] s = s"
| "account_perform_all E (c # cs) s = account_perform_all E cs (snd (account_perform E c s))"

definition call_valid :: "account_call \<Rightarrow> bool" where
  "call_valid c = (case c of CallFill f _ _ \<Rightarrow> fill_valid f | _ \<Rightarrow> True)"

record booking =
  bk_key :: string
  bk_compared :: payload
  bk_type :: string
  bk_base :: payload
  bk_keep :: bool
  bk_pub :: string
  bk_aid :: "uuid option"
  bk_event :: acct_event

definition run_booking :: "'b al_env \<Rightarrow> booking \<Rightarrow> ('b acct_ledger, snapshot) action" where
  "run_booking E b = once E (bk_key b) (bk_compared b) (bk_type b) (bk_base b) (bk_keep b) (bk_pub b) (bk_aid b)
     (apply_event (bk_event b))"

text \<open>Reading the recorded row gives back the effect of the event.\<close>

definition reads_back :: "booking \<Rightarrow> bool" where
  "reads_back b \<longleftrightarrow> (\<forall>a c h. apply_event (bk_event b) a = (Inr (), c) \<longrightarrow>
     replay_op (bk_type b) (payload_json (with_hash (bk_base b) h)) a = (Inr (), c))"

text \<open>What the row of an accounting event says: the type, and the entries with the amounts, the instrument and the time.\<close>

definition row_says :: "ledger_event \<Rightarrow> string \<Rightarrow> payload \<Rightarrow> bool" where
  "row_says row ty entries \<longleftrightarrow> event_type row = ty \<and> list_all (\<lambda>(n, v). map_of (ev_payload row) n = Some v) entries"

primrec row_records :: "ledger_event \<Rightarrow> acct_event \<Rightarrow> bool" where
  "row_records row (FillEvent f side i) = row_says row ''fill_applied''
     [(''venue_fill_id'', PText (venue_fill_id f)), (''instrument_id'', PText i), (''side'', PText side),
      (''quantity'', PDec (fill_quantity f)), (''price'', PDec (fill_price f)), (''fee'', PDec (fill_fee f)),
      (''occurred_at'', PTime (Aware (fill_occurred_at f) 0))]"
| "row_records row (FundingEvent x t) = row_says row ''funding_applied'' [(''amount'', raw_text x), (''occurred_at'', PTime t)]"
| "row_records row (TransferEvent x t) = row_says row ''cash_transfer_applied'' [(''amount'', raw_text x), (''occurred_at'', PTime t)]"
| "row_records row (BorrowEvent x t) = row_says row ''borrow_applied'' [(''amount'', raw_text x), (''occurred_at'', PTime t)]"
| "row_records row (FxEvent x t) = row_says row ''fx_adjustment_applied'' [(''amount'', raw_text x), (''occurred_at'', PTime t)]"
| "row_records row (CorporateEvent x t) = row_says row ''corporate_action_applied'' [(''amount'', raw_text x), (''occurred_at'', PTime t)]"
| "row_records row (SplitEvent i x t) = row_says row ''split_applied''
     [(''instrument_id'', PText i), (''ratio'', raw_text x), (''occurred_at'', PTime t)]"
| "row_records row (DividendEvent i x t) = row_says row ''dividend_applied''
     [(''instrument_id'', PText i), (''cash_per_unit'', raw_text x), (''occurred_at'', PTime t)]"
| "row_records row (MarginEvent u v t) = row_says row ''margin_updated''
     [(''margin_used'', raw_text u), (''margin_available'', raw_text v), (''as_of'', PTime t)]"
| "row_records row (MarkEvent i x t) = row_says row ''mark_applied''
     [(''instrument_id'', PText i), (''price'', raw_text x), (''as_of'', PTime t)]"

definition records_event :: "booking \<Rightarrow> bool" where
  "records_event b \<longleftrightarrow> (\<forall>(row :: ledger_event) h. event_type row = bk_type b \<longrightarrow>
     ev_payload row = payload_json (with_hash (bk_base b) h) \<longrightarrow> row_records row (bk_event b))"

definition booking_ok :: "booking \<Rightarrow> bool" where
  "booking_ok b \<longleftrightarrow> bk_type b \<in> set account_event_types \<and> distinct (''state_hash'' # map fst (bk_base b)) \<and>
     set (bk_compared b) \<subseteq> set (bk_base b) \<and> event_valid (bk_event b) \<and> reads_back b \<and> records_event b"

lemma map_of_payload:
  "distinct (map fst p) \<Longrightarrow> map_of (payload_json p) = map_of p"
  by (simp add: payload_json_def map_of_sort_key)

lemma with_read_simps [simp]: "with_read (Inr x) f = f x" "with_read (Inl e) f = sraise e"
  by (simp_all add: with_read_def)

lemma raw_text_simps [simp]: "raw_text (Finite x) = PDec x" "raw_text NotFinite = PText ''NaN''"
  by (simp_all add: raw_text_def)

lemmas read_defs = replay_op_def amount_event_def pay_dec_def pay_time_def pay_text_def pay_uuid_def with_hash_def

lemma reads_backI:
  assumes "distinct (''state_hash'' # map fst (bk_base b))"
    and "\<And>a c h q. apply_event (bk_event b) a = (Inr (), c) \<Longrightarrow> map_of q = map_of (with_hash (bk_base b) h) \<Longrightarrow>
      replay_op (bk_type b) q a = (Inr (), c)"
  shows "reads_back b"
proof (unfold reads_back_def, intro allI impI)
  fix a c h assume "apply_event (bk_event b) a = (Inr (), c)"
  moreover have "map_of (payload_json (with_hash (bk_base b) h)) = map_of (with_hash (bk_base b) h)"
    using assms(1) by (intro map_of_payload) (auto simp: with_hash_def)
  ultimately show "replay_op (bk_type b) (payload_json (with_hash (bk_base b) h)) a = (Inr (), c)"
    by (rule assms(2))
qed

lemma read_fill_back:
  assumes "fill_valid f" "map_of q = map_of (with_hash (fill_payload f side i) h)"
  shows "\<exists>g. read_fill q = Inr g \<and> fill_quantity g = fill_quantity f \<and> fill_price g = fill_price f \<and>
    fill_fee g = fill_fee f \<and> fill_occurred_at g = fill_occurred_at f"
  using assms
  by (auto simp: read_fill_def pay_dec_def pay_time_def pay_text_def pay_uuid_def with_hash_def fill_payload_def
      mk_fill_def fill_valid_def rbind_eq_Inr field_Inr require_aware_Inr)

lemma acct_fill_cong:
  assumes "fill_quantity g = fill_quantity f" "fill_price g = fill_price f" "fill_fee g = fill_fee f"
    "fill_occurred_at g = fill_occurred_at f"
  shows "acct_fill g = acct_fill f"
  using assms by (simp add: acct_fill_def book_fill_def signed_quantity_def fun_eq_iff)

text \<open>An event that succeeds had finite amounts.\<close>

definition event_amounts :: "acct_event \<Rightarrow> raw_dec list" where
  "event_amounts e = (case e of FillEvent _ _ _ \<Rightarrow> [] | FundingEvent x _ \<Rightarrow> [x] | TransferEvent x _ \<Rightarrow> [x]
     | BorrowEvent x _ \<Rightarrow> [x] | FxEvent x _ \<Rightarrow> [x] | CorporateEvent x _ \<Rightarrow> [x] | SplitEvent _ x _ \<Rightarrow> [x]
     | DividendEvent _ x _ \<Rightarrow> [x] | MarginEvent u v _ \<Rightarrow> [u, v] | MarkEvent _ x _ \<Rightarrow> [x])"

lemma apply_event_finite: "apply_event e a = (Inr (), c) \<Longrightarrow> \<forall>x \<in> set (event_amounts e). \<exists>y. x = Finite y"
  by (cases e) (auto simp: event_amounts_def acct_op_defs split: raw_dec.splits if_splits)

lemma amount_back:
  assumes "op x t a = (Inr (), c)" "\<exists>y. x = Finite y" "map_of q = map_of (with_hash (amount_fields x t @ r) h)"
  shows "amount_event q op a = (Inr (), c)"
  using assms(1,2) by (auto simp: amount_event_def pay_dec_def pay_time_def assms(3) with_hash_def amount_fields_def)

text \<open>The booking of a call.\<close>

definition mk_booking :: "string \<Rightarrow> payload \<Rightarrow> string \<Rightarrow> payload \<Rightarrow> bool \<Rightarrow> string \<Rightarrow> uuid option \<Rightarrow> acct_event \<Rightarrow> py_error + booking" where
  "mk_booking k cmp ty base kp pub aid ev = Inr \<lparr>bk_key = k, bk_compared = cmp, bk_type = ty, bk_base = base,
     bk_keep = kp, bk_pub = pub, bk_aid = aid, bk_event = ev\<rparr>"

definition id_booking :: "string \<Rightarrow> string \<Rightarrow> (string \<Rightarrow> py_error + booking) \<Rightarrow> py_error + booking" where
  "id_booking k msg f = (if strip k = [] then Inl (ValueError msg) else f (strip k))"

definition instrument_booking :: "string \<Rightarrow> string \<Rightarrow> (string \<Rightarrow> string \<Rightarrow> py_error + booking) \<Rightarrow> py_error + booking" where
  "instrument_booking i k f = (if strip i = [] \<or> strip k = []
     then Inl (ValueError ''corporate-action instrument and action IDs are required'') else f (strip i) (strip k))"

definition plain_booking :: "account_call \<Rightarrow> py_error + booking" where
  "plain_booking c = (case c of
     CallFill f side i \<Rightarrow> let p = fill_payload f (lower (strip side)) (strip i) in
       id_booking i ''fill instrument identifier cannot be blank'' (\<lambda>i.
         mk_booking (''account-fill:'' @ venue_fill_id f) p ''fill_applied'' p False ''account_fill_applied''
           (Some (artifact_id f)) (FillEvent f (lower (strip side)) i))
   | CallFunding x t k \<Rightarrow> id_booking k ''funding ID is required'' (\<lambda>k.
       mk_booking (''funding:'' @ k) (amount_fields x t) ''funding_applied''
         (amount_fields x t @ [(''funding_id'', PText k)]) False ''account_funding_applied'' None (FundingEvent x t))
   | CallTransfer x t k \<Rightarrow> id_booking k ''cash transfer ID is required'' (\<lambda>k.
       mk_booking (''cash-transfer:'' @ k) (amount_fields x t) ''cash_transfer_applied''
         (amount_fields x t @ [(''transfer_id'', PText k)]) True ''account_cash_transfer_applied'' None (TransferEvent x t))
   | CallBorrow x t k \<Rightarrow> id_booking k ''account adjustment ID is required'' (\<lambda>k.
       let p = amount_fields x t @ [(''adjustment_id'', PText k)] in
       mk_booking (''borrow'' @ '':'' @ k) p ''borrow_applied'' p False ''account_borrow_applied'' None (BorrowEvent x t))
   | CallFx x t k \<Rightarrow> id_booking k ''account adjustment ID is required'' (\<lambda>k.
       let p = amount_fields x t @ [(''adjustment_id'', PText k)] in
       mk_booking (''fx'' @ '':'' @ k) p ''fx_adjustment_applied'' p False ''account_fx_adjustment_applied'' None (FxEvent x t))
   | CallCorporate x t k \<Rightarrow> id_booking k ''account adjustment ID is required'' (\<lambda>k.
       let p = amount_fields x t @ [(''adjustment_id'', PText k)] in
       mk_booking (''corporate-action'' @ '':'' @ k) p ''corporate_action_applied'' p False
         ''account_corporate_action_applied'' None (CorporateEvent x t))
   | CallSplit i x t k \<Rightarrow> instrument_booking i k (\<lambda>i k.
       let p = [(''instrument_id'', PText i), (''ratio'', raw_text x), (''occurred_at'', PTime t), (''action_id'', PText k)] in
       mk_booking (''split'' @ '':'' @ k) p ''split_applied'' p False ''account_split_applied'' None (SplitEvent i x t))
   | CallDividend i x t k \<Rightarrow> instrument_booking i k (\<lambda>i k.
       let p = [(''instrument_id'', PText i), (''cash_per_unit'', raw_text x), (''occurred_at'', PTime t), (''action_id'', PText k)] in
       mk_booking (''dividend'' @ '':'' @ k) p ''dividend_applied'' p False ''account_dividend_applied'' None (DividendEvent i x t))
   | CallMark i x t k \<Rightarrow>
       if strip k = [] \<or> strip i = [] then Inl (ValueError ''mark and instrument IDs are required'')
       else let p = [(''instrument_id'', PText (strip i)), (''price'', raw_text x), (''as_of'', PTime t)] in
         mk_booking (''mark:'' @ strip k) p ''mark_applied'' (p @ [(''mark_id'', PText (strip k))]) True
           ''account_mark_applied'' None (MarkEvent (strip i) x t)
   | CallMargin u v t k \<Rightarrow> id_booking k ''margin ID is required'' (\<lambda>k.
       let p = [(''margin_used'', raw_text u), (''margin_available'', raw_text v), (''as_of'', PTime t), (''margin_id'', PText k)] in
       mk_booking (''margin:'' @ k) p ''margin_updated'' p False ''account_margin_updated'' None (MarginEvent u v t))
   | CallRecord c \<Rightarrow> Inl (KeyError ''record''))"

lemmas booking_defs = plain_booking_def mk_booking_def id_booking_def instrument_booking_def

lemmas al_op_defs = al_apply_fill_def al_apply_funding_def al_apply_cash_transfer_def al_apply_borrow_def al_apply_fx_def
  al_apply_corporate_def al_adjustment_def al_apply_split_def al_apply_dividend_def al_instrument_action_def al_mark_def
  al_update_margin_def

lemma perform_plain:
  assumes "\<And>r. c \<noteq> CallRecord r"
  shows "account_perform E c = (case plain_booking c of Inl e \<Rightarrow> sraise e | Inr b \<Rightarrow> run_booking E b)"
  by (cases c) (use assms in \<open>auto simp: al_op_defs booking_defs run_booking_def Let_def\<close>)

lemma plain_booking_records:
  assumes "plain_booking c = Inr b" shows "records_event b"
proof (unfold records_event_def, intro allI impI)
  fix row :: ledger_event and h
  assume row: "event_type row = bk_type b" "ev_payload row = payload_json (with_hash (bk_base b) h)"
  have "distinct (map fst (with_hash (bk_base b) h))"
    using assms by (auto simp: booking_defs amount_fields_def fill_payload_def with_hash_def Let_def split: account_call.splits if_splits)
  then have "map_of (ev_payload row) = map_of (with_hash (bk_base b) h)" using row(2) map_of_payload by simp
  then show "row_records row (bk_event b)"
    using assms row(1)
    by (auto simp: booking_defs amount_fields_def fill_payload_def with_hash_def row_says_def Let_def split: account_call.splits if_splits)
qed

lemma plain_booking_ok:
  assumes "call_valid c" "plain_booking c = Inr b"
  shows "booking_ok b"
proof -
  have type: "bk_type b \<in> set account_event_types" and keys: "distinct (''state_hash'' # map fst (bk_base b))"
    and cmp: "set (bk_compared b) \<subseteq> set (bk_base b)" and ev: "event_valid (bk_event b)"
    using assms
    by (auto simp: booking_defs amount_fields_def fill_payload_def account_event_types_def event_valid_def call_valid_def Let_def
        split: account_call.splits if_splits)
  have "reads_back b"
  proof (rule reads_backI [OF keys])
    fix a d h q assume ok: "apply_event (bk_event b) a = (Inr (), d)" and q: "map_of q = map_of (with_hash (bk_base b) h)"
    note fin = apply_event_finite [OF ok]
    show "replay_op (bk_type b) q a = (Inr (), d)"
    proof (cases c)
      case (CallFill f side i)
      then have "fill_valid f" using assms(1) by (simp add: call_valid_def)
      moreover have bk: "bk_base b = fill_payload f (lower (strip side)) (strip i)" "bk_type b = ''fill_applied''"
        "bk_event b = FillEvent f (lower (strip side)) (strip i)"
        using assms(2) CallFill by (auto simp: booking_defs Let_def split: if_splits)
      ultimately obtain g where "read_fill q = Inr g" and g: "acct_fill g = acct_fill f"
        using q read_fill_back acct_fill_cong by metis
      moreover have "pay_text q ''side'' = Inr (lower (strip side))" "pay_text q ''instrument_id'' = Inr (strip i)"
        by (simp_all add: pay_text_def q bk with_hash_def fill_payload_def)
      ultimately show ?thesis using ok by (simp add: replay_op_def bk catch_value_def)
    next
      case (CallFunding x t k)
      then have b: "bk_base b = amount_fields x t @ [(''funding_id'', PText (strip k))]" "bk_type b = ''funding_applied''"
        "bk_event b = FundingEvent x t"
        using assms(2) by (auto simp: booking_defs Let_def split: if_splits)
      with ok fin q amount_back [of acct_funding] show ?thesis by (simp add: replay_op_def event_amounts_def)
    next
      case (CallTransfer x t k)
      then have b: "bk_base b = amount_fields x t @ [(''transfer_id'', PText (strip k))]" "bk_type b = ''cash_transfer_applied''"
        "bk_event b = TransferEvent x t"
        using assms(2) by (auto simp: booking_defs Let_def split: if_splits)
      with ok fin q amount_back [of acct_cash_transfer] show ?thesis by (simp add: replay_op_def event_amounts_def)
    next
      case (CallBorrow x t k)
      then have b: "bk_base b = amount_fields x t @ [(''adjustment_id'', PText (strip k))]" "bk_type b = ''borrow_applied''"
        "bk_event b = BorrowEvent x t"
        using assms(2) by (auto simp: booking_defs Let_def split: if_splits)
      with ok fin q amount_back [of acct_borrow] show ?thesis by (simp add: replay_op_def event_amounts_def)
    next
      case (CallFx x t k)
      then have b: "bk_base b = amount_fields x t @ [(''adjustment_id'', PText (strip k))]" "bk_type b = ''fx_adjustment_applied''"
        "bk_event b = FxEvent x t"
        using assms(2) by (auto simp: booking_defs Let_def split: if_splits)
      with ok fin q amount_back [of acct_fx] show ?thesis by (simp add: replay_op_def event_amounts_def)
    next
      case (CallCorporate x t k)
      then have b: "bk_base b = amount_fields x t @ [(''adjustment_id'', PText (strip k))]" "bk_type b = ''corporate_action_applied''"
        "bk_event b = CorporateEvent x t"
        using assms(2) by (auto simp: booking_defs Let_def split: if_splits)
      with ok fin q amount_back [of acct_corporate] show ?thesis by (simp add: replay_op_def event_amounts_def)
    next
      case (CallSplit i x t k)
      then have b: "bk_base b = [(''instrument_id'', PText (strip i)), (''ratio'', raw_text x), (''occurred_at'', PTime t), (''action_id'', PText (strip k))]"
        "bk_type b = ''split_applied''" "bk_event b = SplitEvent (strip i) x t"
        using assms(2) by (auto simp: booking_defs Let_def split: if_splits)
      moreover obtain y where "x = Finite y" using fin b by (auto simp: event_amounts_def)
      ultimately show ?thesis using ok by (simp add: read_defs q)
    next
      case (CallDividend i x t k)
      then have b: "bk_base b = [(''instrument_id'', PText (strip i)), (''cash_per_unit'', raw_text x), (''occurred_at'', PTime t), (''action_id'', PText (strip k))]"
        "bk_type b = ''dividend_applied''" "bk_event b = DividendEvent (strip i) x t"
        using assms(2) by (auto simp: booking_defs Let_def split: if_splits)
      moreover obtain y where "x = Finite y" using fin b by (auto simp: event_amounts_def)
      ultimately show ?thesis using ok by (simp add: read_defs q)
    next
      case (CallMark i x t k)
      then have b: "bk_base b = [(''instrument_id'', PText (strip i)), (''price'', raw_text x), (''as_of'', PTime t), (''mark_id'', PText (strip k))]"
        "bk_type b = ''mark_applied''" "bk_event b = MarkEvent (strip i) x t"
        using assms(2) by (auto simp: booking_defs Let_def split: if_splits)
      moreover obtain y where "x = Finite y" using fin b by (auto simp: event_amounts_def)
      ultimately show ?thesis using ok by (simp add: read_defs q)
    next
      case (CallMargin u v t k)
      then have b: "bk_base b = [(''margin_used'', raw_text u), (''margin_available'', raw_text v), (''as_of'', PTime t), (''margin_id'', PText (strip k))]"
        "bk_type b = ''margin_updated''" "bk_event b = MarginEvent u v t"
        using assms(2) by (auto simp: booking_defs Let_def split: if_splits)
      moreover obtain y z where "u = Finite y" "v = Finite z" using fin b by (auto simp: event_amounts_def)
      ultimately show ?thesis using ok by (simp add: read_defs q)
    next
      case (CallRecord r)
      then show ?thesis using assms(2) by (simp add: booking_defs)
    qed
  qed
  then show ?thesis using type keys cmp ev plain_booking_records [OF assms(2)] by (simp add: booking_ok_def)
qed

text \<open>A record of a corporate action is one of three plain calls, or is refused.\<close>

lemma record_plain:
  obtains (refused) e where "account_perform E (CallRecord c) = sraise e"
  | (plain) d where "account_perform E (CallRecord c) = account_perform E d" "\<And>r. d \<noteq> CallRecord r" "call_valid d"
proof -
  show thesis
  proof (cases "(if (case ca_kind c of EnumKind v \<Rightarrow> v | TextKind v \<Rightarrow> lower (strip v)) = ''split'' then 0
      else if (case ca_kind c of EnumKind v \<Rightarrow> v | TextKind v \<Rightarrow> lower (strip v)) = ''dividend'' then 1 else 2 :: nat)"
      rule: nat.exhaust)
    case zero
    then show thesis
      using refused plain [of "CallSplit (ca_instrument c) (the (ca_ratio c)) (ca_effective_at c) (ca_id c)"]
      by (cases "ca_ratio c") (auto simp: al_apply_corporate_record_def call_valid_def Let_def split: if_splits)
  next
    case (Suc n)
    show thesis
    proof (cases n)
      case 0
      then show thesis
        using Suc refused plain [of "CallDividend (ca_instrument c) (the (ca_cash c)) (ca_effective_at c) (ca_id c)"]
        by (cases "ca_cash c") (auto simp: al_apply_corporate_record_def call_valid_def Let_def split: if_splits)
    next
      case (Suc m)
      then show thesis
        using \<open>_ = Suc n\<close> refused plain [of "CallCorporate (the (ca_cash c)) (ca_effective_at c) (ca_id c)"]
        by (cases "ca_cash c"; cases "raw_zero (the (ca_cash c))")
           (auto simp: al_apply_corporate_record_def call_valid_def Let_def split: if_splits)
    qed
  qed
qed

text \<open>Every call is refused or runs one booking.\<close>

lemma perform_shape:
  assumes "call_valid c"
  obtains (refused) e where "account_perform E c = sraise e"
  | (booking) b where "account_perform E c = run_booking E b" "booking_ok b"
proof -
  have plain: "(\<exists>e. account_perform E d = sraise e) \<or> (\<exists>b. account_perform E d = run_booking E b \<and> booking_ok b)"
    if "\<And>r. d \<noteq> CallRecord r" "call_valid d" for d
    using perform_plain [OF that(1), of E] plain_booking_ok [OF that(2)] by (cases "plain_booking d") auto
  show thesis
  proof (cases "\<exists>r. c = CallRecord r")
    case True
    then obtain r where "c = CallRecord r" by blast
    then show thesis using plain that record_plain [of E r] by metis
  next
    case False
    then show thesis using plain [of c] assms that by auto
  qed
qed

section \<open>One booking\<close>

definition al_rows :: "'b acct_ledger \<Rightarrow> ledger_event list" where
  "al_rows s = ledger_events (al_ledgers s) NS_ACCOUNT"

text \<open>The guard and the ledger know the same keys.\<close>

definition in_sync :: "'b acct_ledger \<Rightarrow> bool" where
  "in_sync s \<longleftrightarrow> list_all (\<lambda>ev. event_type ev \<in> set account_event_types) (al_rows s) \<and>
     (\<forall>k. map_of (al_applied s) k = None \<longleftrightarrow> k \<notin> ev_key ` set (al_rows s))"

lemma al_publish_bus: "al_publish E ev pub aid s = (r, s') \<Longrightarrow> \<exists>x. s' = s\<lparr>al_bus := x\<rparr>"
  by (auto simp: al_publish_def intro: exI [of _ "al_bus s"] split: option.splits prod.splits sum.splits)

lemma al_republish_bus: "al_republish E k pub aid s = (r, s') \<Longrightarrow> \<exists>x. s' = s\<lparr>al_bus := x\<rparr>"
  by (auto simp: al_republish_def intro: exI [of _ "al_bus s"] dest: al_publish_bus split: option.splits)

text \<open>What is durable or guards durability.\<close>

definition same_books :: "'b acct_ledger \<Rightarrow> 'b acct_ledger \<Rightarrow> bool" where
  "same_books s s' \<longleftrightarrow> al_ledgers s' = al_ledgers s \<and> al_account s' = al_account s \<and> al_applied s' = al_applied s"

lemma same_books_simps [simp]: "same_books s s" "same_books s (s\<lparr>al_bus := x\<rparr>)" "same_books s (s\<lparr>al_draws := n\<rparr>)"
  by (simp_all add: same_books_def)

lemma bound_bus:
  assumes "sbind m (\<lambda>_. al_snapshot E) s = (r, s')" "\<And>q t. m s = (q, t) \<Longrightarrow> \<exists>x. t = s\<lparr>al_bus := x\<rparr>"
  shows "\<exists>x. s' = s\<lparr>al_bus := x\<rparr>"
  using assms by (auto simp: sbind_def al_snapshot_def split: prod.splits sum.splits)

lemma book_cases:
  assumes "book E k ty base keep pub aid op s = (r, s')" "k \<notin> ev_key ` set (al_rows s)"
  obtains (same) e where "same_books s s'" "r = Inl e"
  | (booked) cand sn n where "op (al_account s) = (Inr (), cand)" "take_snapshot (ab_sha E) cand = Inr sn"
      "al_account s' = cand"
      "al_applied s' = dict_set k (if keep then with_hash base (sn_state_hash sn) else base) (al_applied s)"
      "al_ledgers s' = (al_ledgers s)(NS_ACCOUNT := al_rows s @ [stored (al_event E k ty (with_hash base (sn_state_hash sn)) n)])"
proof (cases "op (al_account s)")
  case (Pair q cand)
  show thesis
  proof (cases q)
    case (Inl e)
    then show thesis using assms Pair same by (auto simp: book_def)
  next
    case (Inr u)
    show thesis
    proof (cases "take_snapshot (ab_sha E) cand")
      case (Inl e)
      then have "s' = s" "r = Inl e" using assms Pair \<open>q = Inr u\<close> by (simp_all add: book_def)
      then show thesis using same by simp
    next
      case (Inr sn)
      let ?p = "with_hash base (sn_state_hash sn)" and ?n = "al_draws s"
      obtain x L where L: "ledger_append (al_event E k ty ?p ?n) (al_ledgers s) = (x, L)" by (cases "ledger_append (al_event E k ty ?p ?n) (al_ledgers s)")
      have run: "sbind (al_append E k ty ?p) (\<lambda>ev. sbind (al_commit cand k (if keep then ?p else base)) (\<lambda>_.
           sbind (al_publish E ev pub aid) (\<lambda>_. al_snapshot E))) s = (r, s')"
        using assms(1) Pair \<open>q = Inr u\<close> Inr by (simp add: book_def Let_def)
      have ap: "al_append E k ty ?p s = (x, s\<lparr>al_draws := Suc ?n, al_ledgers := L\<rparr>)"
        using L by (simp add: al_append_def)
      from L show thesis
      proof (cases rule: ledger_append_cases)
        case (conflict msg)
        with run ap have "same_books s s'" "r = Inl (IdempotencyConflict msg)"
          by (auto simp: sbind_def same_books_def)
        then show thesis using same by simp
      next
        case (prior row)
        then have "k \<in> ev_key ` set (al_rows s)" by (auto simp: al_event_def al_rows_def ledger_events_def)
        then show thesis using assms(2) by simp
      next
        case new
        let ?t = "s\<lparr>al_draws := Suc ?n, al_ledgers := L, al_account := cand,
          al_applied := dict_set k (if keep then ?p else base) (al_applied s)\<rparr>"
        have "sbind (al_publish E (al_event E k ty ?p ?n) pub aid) (\<lambda>_. al_snapshot E) ?t = (r, s')"
          using run ap new(1) by (simp add: sbind_def al_commit_def)
        then obtain y where "s' = ?t\<lparr>al_bus := y\<rparr>" using bound_bus al_publish_bus by metis
        moreover have "q = Inr ()" using \<open>q = Inr u\<close> by simp
        ultimately show thesis
          using Pair Inr new(2) by (intro booked [of cand sn ?n]) (simp_all add: al_rows_def ledger_events_def al_event_def)
      qed
    qed
  qed
qed

end
