(* ===== verification/Account_Recovery.thy ===== *)
theory Account_Recovery
  imports Account_Ledger_Facts
begin

text \<open>
  The properties of the account ledger: a call changes the account exactly when it appends a row, retries are
  answered from the guard, the account stays well formed, and a restart from the initial account rebuilds
  account and guard from the rows, whatever calls were made, failing and repeated ones included.
\<close>

section \<open>One call\<close>

lemma run_booking_cases:
  assumes "run_booking E b s = (r, s')" "in_sync s"
  obtains (same) "same_books s s'" "is_ok r \<Longrightarrow> map_of (al_applied s) (bk_key b) \<noteq> None"
  | (booked) cand sn n where "map_of (al_applied s) (bk_key b) = None"
      "apply_event (bk_event b) (al_account s) = (Inr (), cand)" "take_snapshot (ab_sha E) cand = Inr sn"
      "al_account s' = cand"
      "al_applied s' = dict_set (bk_key b) (if bk_keep b then with_hash (bk_base b) (sn_state_hash sn) else bk_base b) (al_applied s)"
      "al_ledgers s' = (al_ledgers s)(NS_ACCOUNT := al_rows s @
         [stored (al_event E (bk_key b) (bk_type b) (with_hash (bk_base b) (sn_state_hash sn)) n)])"
proof (cases "map_of (al_applied s) (bk_key b)")
  case None
  then have "bk_key b \<notin> ev_key ` set (al_rows s)" using assms(2) by (simp add: in_sync_def)
  moreover have "book E (bk_key b) (bk_type b) (bk_base b) (bk_keep b) (bk_pub b) (bk_aid b) (apply_event (bk_event b)) s = (r, s')"
    using assms(1) None by (simp add: run_booking_def once_def)
  ultimately show thesis
    by (cases rule: book_cases [rotated -1]) (use None same booked in auto)
next
  case (Some p)
  show thesis
  proof (cases "agrees p (bk_compared b)")
    case True
    then have "sbind (al_republish E (bk_key b) (bk_pub b) (bk_aid b)) (\<lambda>_. al_snapshot E) s = (r, s')"
      using assms(1) Some by (simp add: run_booking_def once_def)
    then show thesis using bound_bus al_republish_bus same Some by fastforce
  next
    case False
    then show thesis using assms(1) Some same by (auto simp: run_booking_def once_def)
  qed
qed

lemma rows_new: "al_ledgers s' = (al_ledgers s)(NS_ACCOUNT := xs) \<Longrightarrow> al_rows s' = xs"
  by (simp add: al_rows_def ledger_events_def)

lemma same_books_rows: "same_books s s' \<Longrightarrow> al_rows s' = al_rows s"
  by (simp add: same_books_def al_rows_def)

lemma booking_sync:
  assumes "run_booking E b s = (r, s')" "in_sync s" "booking_ok b"
  shows "in_sync s'"
  using assms(1,2)
proof (cases rule: run_booking_cases)
  case same
  then show ?thesis using assms(2) by (simp add: in_sync_def same_books_rows) (simp add: same_books_def)
next
  case (booked cand sn n)
  show ?thesis
    using assms(2,3) unfolding in_sync_def rows_new [OF booked(6)] booked(5)
    by (auto simp: al_event_def booking_ok_def)
qed

lemma perform_sync:
  assumes "call_valid c" "in_sync s" shows "in_sync (snd (account_perform E c s))"
  using assms(1)
proof (cases rule: perform_shape [of c E])
  case (booking b)
  then show ?thesis using booking_sync [of E b s] assms(2) by (cases "run_booking E b s") simp
qed (use assms in simp)

section \<open>Restart\<close>

text \<open>The same guard: the same keys, with the same payloads but for the hash.\<close>

definition same_guard :: "(string, payload) dict \<Rightarrow> (string, payload) dict \<Rightarrow> bool" where
  "same_guard m m' \<longleftrightarrow> (\<forall>k. rel_option (\<lambda>p p'. \<forall>n. n \<noteq> ''state_hash'' \<longrightarrow> map_of p n = map_of p' n) (map_of m k) (map_of m' k))"

lemma same_guard_set:
  "same_guard m m' \<Longrightarrow> (\<And>n. n \<noteq> ''state_hash'' \<Longrightarrow> map_of p n = map_of p' n) \<Longrightarrow> same_guard (dict_set k p m) (dict_set k p' m')"
  by (simp add: same_guard_def)

definition recovers :: "'b al_env \<Rightarrow> account \<Rightarrow> 'b acct_ledger \<Rightarrow> bool" where
  "recovers E a s \<longleftrightarrow> (\<forall>L b n. \<exists>m. same_guard m (al_applied s) \<and>
     hydrate_acct_events E (al_rows s) (bare_ledger L a b n) = (Inr (), (bare_ledger L (al_account s) b n)\<lparr>al_applied := m\<rparr>))"

lemma hydrate_acct_append:
  "hydrate_acct_events E (xs @ ys) s = sbind (hydrate_acct_events E xs) (\<lambda>_. hydrate_acct_events E ys) s"
  by (induction xs arbitrary: s) (auto simp: sbind_assoc sbind_def split: prod.splits sum.splits)

lemma hydrate_booked:
  assumes "booking_ok b" "apply_event (bk_event b) a = (Inr (), cand)" "take_snapshot (ab_sha E) cand = Inr sn"
  defines "p \<equiv> with_hash (bk_base b) (sn_state_hash sn)"
  shows "hydrate_acct_event E (stored (al_event E k (bk_type b) p j)) ((bare_ledger L a x n)\<lparr>al_applied := m\<rparr>) =
    (Inr (), (bare_ledger L cand x n)\<lparr>al_applied := dict_set k (payload_json p) m\<rparr>)"
proof -
  have d: "distinct (map fst p)" and h: "map_of p ''state_hash'' = Some (PText (sn_state_hash sn))"
    using assms(1) by (auto simp: booking_ok_def p_def with_hash_def map_of_eq_None_iff [symmetric] map_add_def
        simp flip: map_of_append)
  have "replay_op (bk_type b) (payload_json p) a = (Inr (), cand)"
    using assms(1,2) by (simp add: booking_ok_def reads_back_def p_def)
  then show ?thesis
    using assms(1,3) h
    by (simp add: hydrate_acct_event_def booking_ok_def al_event_def bare_ledger_def sbind_def check_hash_def map_of_payload [OF d])
qed

lemma booking_recovers:
  assumes "run_booking E b s = (r, s')" "in_sync s" "booking_ok b" "recovers E a s"
  shows "recovers E a s'"
  using assms(1,2)
proof (cases rule: run_booking_cases)
  case same
  then show ?thesis using assms(4) by (simp add: recovers_def same_books_rows) (simp add: same_books_def)
next
  case (booked cand sn n)
  let ?p = "with_hash (bk_base b) (sn_state_hash sn)"
  show ?thesis unfolding recovers_def
  proof (intro allI)
    fix L x j
    obtain m where m: "same_guard m (al_applied s)"
      "hydrate_acct_events E (al_rows s) (bare_ledger L a x j) = (Inr (), (bare_ledger L (al_account s) x j)\<lparr>al_applied := m\<rparr>)"
      using assms(4) unfolding recovers_def by blast
    have d: "distinct (map fst ?p)" using assms(3) by (auto simp: booking_ok_def with_hash_def)
    have "hydrate_acct_events E (al_rows s') (bare_ledger L a x j) =
      (Inr (), (bare_ledger L cand x j)\<lparr>al_applied := dict_set (bk_key b) (payload_json ?p) m\<rparr>)"
      unfolding rows_new [OF booked(6)] hydrate_acct_append
      using m(2) hydrate_booked [OF assms(3) booked(2,3)] by (simp add: sbind_def)
    moreover have "same_guard (dict_set (bk_key b) (payload_json ?p) m) (al_applied s')"
      unfolding booked(5) by (rule same_guard_set [OF m(1)], subst map_of_payload [OF d]) (simp add: with_hash_def map_add_def split: option.split)
    ultimately show "\<exists>m. same_guard m (al_applied s') \<and>
      hydrate_acct_events E (al_rows s') (bare_ledger L a x j) = (Inr (), (bare_ledger L (al_account s') x j)\<lparr>al_applied := m\<rparr>)"
      using booked(4) by blast
  qed
qed

lemma perform_recovers:
  assumes "call_valid c" "in_sync s" "recovers E a s" shows "recovers E a (snd (account_perform E c s))"
  using assms(1)
proof (cases rule: perform_shape [of c E])
  case (booking b)
  then show ?thesis using booking_recovers [of E b s] assms(2,3) by (cases "run_booking E b s") simp
qed (use assms in simp)

lemma perform_all_recovers:
  "list_all call_valid cs \<Longrightarrow> in_sync s \<Longrightarrow> recovers E a s \<Longrightarrow>
   in_sync (account_perform_all E cs s) \<and> recovers E a (account_perform_all E cs s)"
  by (induction cs arbitrary: s) (simp_all add: perform_sync perform_recovers)

lemma bare_recovers: "ledger_events L NS_ACCOUNT = [] \<Longrightarrow> in_sync (bare_ledger L a b n) \<and> recovers E a (bare_ledger L a b n)"
  by (auto simp: in_sync_def recovers_def al_rows_def bare_ledger_def same_guard_def)

lemma run_in_sync:
  "list_all call_valid cs \<Longrightarrow> ledger_events L NS_ACCOUNT = [] \<Longrightarrow> in_sync (account_perform_all E cs (bare_ledger L a b n))"
  using perform_all_recovers [of cs "bare_ledger L a b n" E a] bare_recovers [of L a b n E] by blast

section \<open>Retries\<close>

definition guarded :: "booking \<Rightarrow> 'b acct_ledger \<Rightarrow> bool" where
  "guarded b s \<longleftrightarrow> (\<exists>p. map_of (al_applied s) (bk_key b) = Some p \<and> agrees p (bk_compared b))"

lemma agrees_base: "booking_ok b \<Longrightarrow> agrees (bk_base b) (bk_compared b)"
  by (auto simp: booking_ok_def agrees_def list_all_iff)

lemma agrees_hash: "booking_ok b \<Longrightarrow> agrees (with_hash (bk_base b) h) (bk_compared b)"
  using agrees_base by (fastforce simp: agrees_def list_all_iff with_hash_def)

lemma booking_guards:
  assumes "run_booking E b s = (Inr sn, s')" "in_sync s" "booking_ok b"
  shows "guarded b s'"
  using assms(1,2)
proof (cases rule: run_booking_cases)
  case same
  then obtain p where "map_of (al_applied s) (bk_key b) = Some p" by auto
  moreover from this have "agrees p (bk_compared b)"
    using assms(1) by (auto simp: run_booking_def once_def split: if_splits)
  ultimately show ?thesis using same(1) by (simp add: guarded_def same_books_def)
next
  case booked
  then show ?thesis using agrees_base [OF assms(3)] agrees_hash [OF assms(3)] by (simp add: guarded_def)
qed

lemma guarded_stays:
  assumes "guarded b s" "run_booking E c s = (r, s')" "in_sync s"
  shows "guarded b s'"
  using assms(2,3)
  by (cases rule: run_booking_cases) (use assms(1) in \<open>auto simp: guarded_def same_books_def\<close>)

lemma perform_guarded:
  assumes "call_valid c" "in_sync s" "guarded b s" shows "guarded b (snd (account_perform E c s))"
  using assms(1)
proof (cases rule: perform_shape [of c E])
  case (booking d)
  then show ?thesis using guarded_stays [OF assms(3), of E d] assms(2) by (cases "run_booking E d s") simp
qed (use assms in simp)

lemma perform_all_guarded:
  "list_all call_valid cs \<Longrightarrow> in_sync s \<Longrightarrow> guarded b s \<Longrightarrow>
   in_sync (account_perform_all E cs s) \<and> guarded b (account_perform_all E cs s)"
  by (induction cs arbitrary: s) (simp_all add: perform_sync perform_guarded)

lemma guarded_retry:
  assumes "guarded b s" "run_booking E b s = (r, s')"
  shows "same_books s s'" "ab_publish E = None \<Longrightarrow> r = take_snapshot (ab_sha E) (al_account s)"
proof -
  obtain p where p: "map_of (al_applied s) (bk_key b) = Some p" "agrees p (bk_compared b)"
    using assms(1) by (auto simp: guarded_def)
  then have run: "sbind (al_republish E (bk_key b) (bk_pub b) (bk_aid b)) (\<lambda>_. al_snapshot E) s = (r, s')"
    using assms(2) by (simp add: run_booking_def once_def)
  then show "ab_publish E = None \<Longrightarrow> r = take_snapshot (ab_sha E) (al_account s)"
    by (auto simp add: al_republish_def al_snapshot_def)
  obtain x where "s' = s\<lparr>al_bus := x\<rparr>" using bound_bus [OF run] al_republish_bus by blast
  then show "same_books s s'" by simp
qed

lemma perform_run_append: "account_perform_all E (cs @ ds) s = account_perform_all E ds (account_perform_all E cs s)"
  by (induction cs arbitrary: s) simp_all

section \<open>Events behind the calls\<close>

text \<open>
  The account that rows stand for: one accounting event per row, in the order of the rows, each of which the row
  records, succeeds, and carries the hash of the account that it leads to.
\<close>

inductive rows_account :: "(account_doc \<Rightarrow> string) \<Rightarrow> account \<Rightarrow> ledger_event list \<Rightarrow> account \<Rightarrow> bool"
  for sha :: "account_doc \<Rightarrow> string" and a :: account where
  no_rows: "rows_account sha a [] a"
| next_row: "rows_account sha a rows b \<Longrightarrow> apply_event e b = (Inr (), c) \<Longrightarrow> row_records row e \<Longrightarrow>
    take_snapshot sha c = Inr sn \<Longrightarrow> map_of (ev_payload row) ''state_hash'' = Some (PText (sn_state_hash sn)) \<Longrightarrow>
    rows_account sha a (rows @ [row]) c"

inductive_cases rows_account_snocE: "rows_account sha a (rows @ [row]) c"

lemmas row_records_simps = row_records.simps row_says_def

text \<open>A row records the effect of at most one event.\<close>

lemma raw_text_inj: "raw_text (Finite x) = raw_text (Finite y) \<longleftrightarrow> x = y"
  by simp

lemma same_row_same_effect:
  assumes "row_records row d" "row_records row e" "apply_event d a = (Inr (), b)" "apply_event e a = (Inr (), c)"
  shows "b = c"
proof -
  have fin: "\<forall>x \<in> set (event_amounts d). \<exists>y. x = Finite y" "\<forall>x \<in> set (event_amounts e). \<exists>y. x = Finite y"
    using apply_event_finite assms(3,4) by blast+
  have "apply_event d = apply_event e"
  proof (cases "\<exists>f side i. d = FillEvent f side i")
    case True
    then obtain f side i where d: "d = FillEvent f side i" by blast
    then obtain g where e: "e = FillEvent g side i"
      using assms(1,2) by (cases e) (auto simp: row_records_simps)
    have "acct_fill f = acct_fill g"
      by (rule acct_fill_cong) (use assms(1,2) in \<open>simp_all add: d e row_records_simps\<close>)
    then show ?thesis by (simp add: d e)
  next
    case False
    then have "d = e"
      using assms(1,2) fin by (cases d; cases e) (auto simp: row_records_simps event_amounts_def)
    then show ?thesis by simp
  qed
  then show ?thesis using assms(3,4) by simp
qed

lemma rows_account_unique: "rows_account sha a rows b \<Longrightarrow> rows_account sha a rows c \<Longrightarrow> c = b"
proof (induction arbitrary: c rule: rows_account.induct)
  case no_rows
  then show ?case by (auto elim: rows_account.cases)
next
  case (next_row rows b e d row sn)
  from next_row.prems obtain b' e' where "rows_account sha a rows b'" "apply_event e' b' = (Inr (), c)" "row_records row e'"
    by (cases rule: rows_account_snocE) auto
  moreover from this have "b' = b" using next_row.IH by blast
  ultimately show ?case using same_row_same_effect next_row.hyps by metis
qed

lemma booking_rows_account:
  assumes "run_booking E b s = (r, s')" "in_sync s" "booking_ok b" "rows_account (ab_sha E) a (al_rows s) (al_account s)"
  shows "rows_account (ab_sha E) a (al_rows s') (al_account s')"
  using assms(1,2)
proof (cases rule: run_booking_cases)
  case same
  then show ?thesis using assms(4) by (simp add: same_books_rows) (simp add: same_books_def)
next
  case (booked cand sn n)
  let ?p = "with_hash (bk_base b) (sn_state_hash sn)"
  let ?row = "stored (al_event E (bk_key b) (bk_type b) ?p n)"
  have "map_of (bk_base b) ''state_hash'' = None" using assms(3) by (simp add: booking_ok_def map_of_eq_None_iff)
  then have "distinct (map fst ?p)" "map_of ?p ''state_hash'' = Some (PText (sn_state_hash sn))"
    using assms(3) by (auto simp: booking_ok_def with_hash_def map_add_def)
  then have hash: "map_of (ev_payload ?row) ''state_hash'' = Some (PText (sn_state_hash sn))"
    by (simp add: al_event_def map_of_payload)
  have "event_type ?row = bk_type b" "ev_payload ?row = payload_json ?p" by (simp_all add: al_event_def)
  then have "row_records ?row (bk_event b)"
    using assms(3) unfolding booking_ok_def records_event_def by blast
  then show ?thesis
    unfolding rows_new [OF booked(6)] booked(4) using assms(4) booked(2,3) hash by (intro rows_account.next_row)
qed

lemma perform_rows_account:
  assumes "call_valid c" "in_sync s" "rows_account (ab_sha E) a (al_rows s) (al_account s)"
  defines "s' \<equiv> snd (account_perform E c s)"
  shows "rows_account (ab_sha E) a (al_rows s') (al_account s')"
  using assms(1)
proof (cases rule: perform_shape [of c E])
  case (booking b)
  then show ?thesis using booking_rows_account [of E b s] assms(2,3) by (cases "run_booking E b s") (simp add: s'_def)
qed (use assms in simp)

lemma perform_all_rows_account:
  "list_all call_valid cs \<Longrightarrow> in_sync s \<Longrightarrow> rows_account (ab_sha E) a (al_rows s) (al_account s) \<Longrightarrow>
   rows_account (ab_sha E) a (al_rows (account_perform_all E cs s)) (al_account (account_perform_all E cs s))"
  by (induction cs arbitrary: s) (simp_all add: perform_sync perform_rows_account)

section \<open>Properties\<close>

definition al_ex_env :: "unit al_env" where
  "al_ex_env = \<lparr>ab_sha = ex_digest, ab_publish = None, ab_uuid = (\<lambda>n. n), ab_now = int\<rparr>"

definition al_ex_ledger :: "unit acct_ledger" where
  "al_ex_ledger = bare_ledger empty_ledgers ex_account () 0"

definition al_ex_calls :: "account_call list" where
  "al_ex_calls = [CallFill ex_trade ''SELL'' '' BTC'', CallFunding (Finite d1) (Aware 20 0) ''f1'', CallFunding (Finite d1) (Naive 20) ''f2'',
     CallFill ex_trade ''sell'' ''BTC'', CallRecord \<lparr>ca_kind = TextKind ''Split '', ca_instrument = ''BTC'', ca_id = ''s'',
     ca_effective_at = Aware 30 0, ca_ratio = Some (Finite (Dec 2 0)), ca_cash = None\<rparr>]"

lemma ex_trade_valid: "fill_valid ex_trade"
  by (simp add: fill_valid_def ex_trade_def dval_Dec) code_simp

lemma al_ex_calls_valid: "list_all call_valid al_ex_calls"
  by (simp add: al_ex_calls_def call_valid_def ex_trade_valid)

text \<open>C11: Recovery of the account: after any valid calls, failing and repeated ones included, a new ledger
  object over the same rows and the initial account rebuilds the same account, checks every recorded state
  hash on the way, and knows the same keys with the same contents, so that it answers retries as the one that
  was lost.\<close>

theorem account_recovery:
  assumes "list_all call_valid cs" "ledger_events L NS_ACCOUNT = []" "s = account_perform_all E cs (bare_ledger L a b n)"
  shows "\<exists>t. new_account_ledger E True (al_ledgers s) a b' n' = (Inr (), t) \<and> al_account t = al_account s \<and>
    same_guard (al_applied t) (al_applied s)"
proof -
  have "recovers E a s"
    using perform_all_recovers [OF assms(1), of "bare_ledger L a b n" E a] bare_recovers [OF assms(2), of a b n E]
    unfolding assms(3) by simp
  then obtain m where "same_guard m (al_applied s)"
    "hydrate_acct_events E (al_rows s) (bare_ledger (al_ledgers s) a b' n') =
       (Inr (), (bare_ledger (al_ledgers s) (al_account s) b' n')\<lparr>al_applied := m\<rparr>)"
    unfolding recovers_def by blast
  then show ?thesis by (simp add: new_account_ledger_def al_rows_def bare_ledger_def)
qed

theorem account_recovery_witness:
  "\<exists>t. new_account_ledger al_ex_env True (al_ledgers (account_perform_all al_ex_env al_ex_calls al_ex_ledger)) ex_account () 7 = (Inr (), t) \<and>
     al_account t = al_account (account_perform_all al_ex_env al_ex_calls al_ex_ledger) \<and>
     same_guard (al_applied t) (al_applied (account_perform_all al_ex_env al_ex_calls al_ex_ledger))"
proof -
  from account_recovery [OF al_ex_calls_valid, of empty_ledgers "account_perform_all al_ex_env al_ex_calls al_ex_ledger" al_ex_env ex_account "()" 0 "()" 7]
  show ?thesis by (auto simp: al_ex_ledger_def ledger_events_def empty_ledgers_def)
qed

text \<open>C16: Every call is atomic: from any state that calls lead to, a call either leaves account, rows and guard as
  they are, or appends exactly one row under a new key and commits the account that one accounting event
  makes of the former one; the row carries the hash of the account that is committed.\<close>

theorem account_call_atomic:
  assumes "list_all call_valid (cs @ [c])" "ledger_events L NS_ACCOUNT = []" "s = account_perform_all E cs (bare_ledger L a b n)"
    and "account_perform E c s = (r, s')"
  shows "same_books s s' \<or>
    (\<exists>e row sn. apply_event e (al_account s) = (Inr (), al_account s') \<and>
       al_ledgers s' = (al_ledgers s)(NS_ACCOUNT := al_rows s @ [row]) \<and> ev_key row \<notin> ev_key ` set (al_rows s) \<and>
       take_snapshot (ab_sha E) (al_account s') = Inr sn \<and>
       map_of (ev_payload row) ''state_hash'' = Some (PText (sn_state_hash sn)))"
proof -
  have sync: "in_sync s" and c: "call_valid c"
    using run_in_sync [OF _ assms(2)] assms(1,3) by auto
  from c show ?thesis
  proof (cases rule: perform_shape [of c E])
    case (booking d)
    then have run: "run_booking E d s = (r, s')" using assms(4) by simp
    from run sync show ?thesis
    proof (cases rule: run_booking_cases)
      case (booked cand sn m)
      let ?p = "with_hash (bk_base d) (sn_state_hash sn)"
      have "map_of (bk_base d) ''state_hash'' = None" using booking(2) by (simp add: booking_ok_def map_of_eq_None_iff)
      then have "distinct (map fst ?p)" "map_of ?p ''state_hash'' = Some (PText (sn_state_hash sn))"
        using booking(2) by (auto simp: booking_ok_def with_hash_def map_add_def)
      then have "map_of (ev_payload (stored (al_event E (bk_key d) (bk_type d) ?p m))) ''state_hash'' = Some (PText (sn_state_hash sn))"
        by (simp add: al_event_def map_of_payload)
      moreover have "ev_key (stored (al_event E (bk_key d) (bk_type d) ?p m)) \<notin> ev_key ` set (al_rows s)"
        using booked(1) sync by (simp add: in_sync_def al_event_def)
      ultimately show ?thesis using booked by blast
    qed simp
  qed (use assms(4) in simp)
qed

theorem account_call_atomic_witness:
  "\<exists>r s'. account_perform al_ex_env (CallFill ex_trade ''SELL'' '' BTC'') al_ex_ledger = (r, s') \<and>
    length (al_rows s') = 1 \<and> (\<exists>e. apply_event e ex_account = (Inr (), al_account s'))"
proof -
  obtain r s' where run: "account_perform al_ex_env (CallFill ex_trade ''SELL'' '' BTC'') al_ex_ledger = (r, s')"
    by (cases "account_perform al_ex_env (CallFill ex_trade ''SELL'' '' BTC'') al_ex_ledger")
  have "length (al_rows (snd (account_perform al_ex_env (CallFill ex_trade ''SELL'' '' BTC'') al_ex_ledger))) = 1" by code_simp
  then have len: "length (al_rows s') = 1" unfolding run by simp
  have v: "list_all call_valid ([] @ [CallFill ex_trade ''SELL'' '' BTC''])"
    by (simp add: call_valid_def ex_trade_valid)
  have nr: "al_rows al_ex_ledger = []" "al_account al_ex_ledger = ex_account" "ledger_events empty_ledgers NS_ACCOUNT = []"
    by (simp_all add: al_ex_ledger_def bare_ledger_def al_rows_def ledger_events_def empty_ledgers_def)
  have "al_ex_ledger = account_perform_all al_ex_env [] (bare_ledger empty_ledgers ex_account () 0)" by (simp add: al_ex_ledger_def)
  from account_call_atomic [OF v nr(3) this run] len nr show ?thesis
    using run same_books_rows [of al_ex_ledger s'] by fastforce
qed

text \<open>Retries are idempotent: once a call has succeeded, then whatever calls follow, the same call again changes
  neither account, rows nor guard, and without an event bus it answers with the snapshot of the account.\<close>

theorem account_retry:
  assumes "list_all call_valid (cs @ c # ds)" "ledger_events L NS_ACCOUNT = []" "s = account_perform_all E cs (bare_ledger L a b n)"
    and "account_perform E c s = (Inr sn, s')" "t = account_perform_all E ds s'" "account_perform E c t = (r, t')"
  shows "same_books t t' \<and> (ab_publish E = None \<longrightarrow> r = take_snapshot (ab_sha E) (al_account t))"
proof -
  have sync: "in_sync s" and c: "call_valid c" and ds: "list_all call_valid ds"
    using run_in_sync [OF _ assms(2)] assms(1,3) by auto
  from c show ?thesis
  proof (cases rule: perform_shape [of c E])
    case (booking d)
    then have run: "run_booking E d s = (Inr sn, s')" using assms(4) by simp
    have "guarded d t"
      using perform_all_guarded [OF ds booking_sync [OF run sync booking(2)] booking_guards [OF run sync booking(2)]]
      unfolding assms(5) by blast
    then show ?thesis using guarded_retry [of d t E r t'] assms(6) booking(1) by simp
  qed (use assms(4) in simp)
qed

theorem account_retry_witness:
  "\<exists>sn s' t r t'. account_perform al_ex_env (CallFunding (Finite d1) (Aware 20 0) ''f1'') al_ex_ledger = (Inr sn, s') \<and>
     t = account_perform_all al_ex_env al_ex_calls s' \<and> account_perform al_ex_env (CallFunding (Finite d1) (Aware 20 0) ''f1'') t = (r, t') \<and>
     same_books t t'"
proof -
  let ?c = "CallFunding (Finite d1) (Aware 20 0) ''f1''"
  have "is_ok (fst (account_perform al_ex_env ?c al_ex_ledger))" by code_simp
  then obtain sn s' where run: "account_perform al_ex_env ?c al_ex_ledger = (Inr sn, s')"
    by (cases "account_perform al_ex_env ?c al_ex_ledger"; cases "fst (account_perform al_ex_env ?c al_ex_ledger)") auto
  obtain r t' where again: "account_perform al_ex_env ?c (account_perform_all al_ex_env al_ex_calls s') = (r, t')"
    by (cases "account_perform al_ex_env ?c (account_perform_all al_ex_env al_ex_calls s')")
  have "list_all call_valid ([] @ ?c # al_ex_calls)" using al_ex_calls_valid by (simp add: call_valid_def)
  moreover have "ledger_events empty_ledgers NS_ACCOUNT = []" by (simp add: ledger_events_def empty_ledgers_def)
  moreover have "al_ex_ledger = account_perform_all al_ex_env [] (bare_ledger empty_ledgers ex_account () 0)" by (simp add: al_ex_ledger_def)
  ultimately have "same_books (account_perform_all al_ex_env al_ex_calls s') t'"
    using account_retry [of "[]" ?c al_ex_calls _ al_ex_ledger al_ex_env _ _ _ _ s' _ r t', OF _ _ _ run refl again] by blast
  then show ?thesis using run again by blast
qed

text \<open>A venue fill is booked at most once: after a fill has been accepted, any fill with the same venue fill ID
  that differs in anything the ledger records of it is refused, and nothing changes.\<close>

theorem fill_identity_conflict:
  assumes "list_all call_valid (cs @ CallFill f side i # ds)" "ledger_events L NS_ACCOUNT = []"
    and "s = account_perform_all E cs (bare_ledger L a b n)" "al_apply_fill E f side i s = (Inr sn, s')"
    and "t = account_perform_all E ds s'" "venue_fill_id g = venue_fill_id f" "strip j \<noteq> []"
    and "fill_payload g (lower (strip side')) (strip j) \<noteq> fill_payload f (lower (strip side)) (strip i)"
  shows "al_apply_fill E g side' j t = (Inl (IdempotencyConflict ''idempotency key reused for different content''), t)"
proof -
  have sync: "in_sync s" and v: "call_valid (CallFill f side i)" and ds: "list_all call_valid ds"
    using run_in_sync [OF _ assms(2)] assms(1,3) by auto
  let ?p = "fill_payload f (lower (strip side)) (strip i)" and ?q = "fill_payload g (lower (strip side')) (strip j)"
  obtain d where d: "plain_booking (CallFill f side i) = Inr d" "bk_key d = ''account-fill:'' @ venue_fill_id f" "bk_compared d = ?p"
      "account_perform E (CallFill f side i) = run_booking E d"
    using assms(4) perform_plain [of "CallFill f side i" E]
    by (cases "plain_booking (CallFill f side i)") (auto simp: booking_defs Let_def split: if_splits)
  note ok = plain_booking_ok [OF v d(1)]
  have run: "run_booking E d s = (Inr sn, s')" using d(4) assms(4) by simp
  have "guarded d t"
    using perform_all_guarded [OF ds booking_sync [OF run sync ok] booking_guards [OF run sync ok]] unfolding assms(5) by blast
  then obtain p where p: "map_of (al_applied t) (''account-fill:'' @ venue_fill_id g) = Some p" "agrees p ?p"
    using d(2,3) assms(6) by (auto simp: guarded_def)
  have "\<not> agrees p ?q"
  proof
    assume "agrees p ?q"
    then have "?q = ?p" using p(2) by (simp add: agrees_def fill_payload_def)
    then show False using assms(8) by simp
  qed
  then show ?thesis using p(1) assms(7) by (simp add: al_apply_fill_def once_def Let_def)
qed

theorem fill_identity_conflict_witness:
  "\<exists>sn s'. al_apply_fill al_ex_env ex_trade ''sell'' ''BTC'' al_ex_ledger = (Inr sn, s') \<and>
     al_apply_fill al_ex_env (ex_trade\<lparr>fill_fee := d0\<rparr>) ''sell'' ''BTC'' s' =
       (Inl (IdempotencyConflict ''idempotency key reused for different content''), s')"
proof -
  let ?m = "al_apply_fill al_ex_env ex_trade ''sell'' ''BTC'' al_ex_ledger"
  have "is_ok (fst ?m)" by code_simp
  then obtain sn s' where run: "?m = (Inr sn, s')" by (cases ?m; cases "fst ?m") auto
  have v: "list_all call_valid ([] @ CallFill ex_trade ''sell'' ''BTC'' # [])" by (simp add: call_valid_def ex_trade_valid)
  have e: "ledger_events empty_ledgers NS_ACCOUNT = []" by (simp add: ledger_events_def empty_ledgers_def)
  have s: "al_ex_ledger = account_perform_all al_ex_env [] (bare_ledger empty_ledgers ex_account () 0)" by (simp add: al_ex_ledger_def)
  have "al_apply_fill al_ex_env (ex_trade\<lparr>fill_fee := d0\<rparr>) ''sell'' ''BTC'' s' =
       (Inl (IdempotencyConflict ''idempotency key reused for different content''), s')"
    by (rule fill_identity_conflict [OF v e s run, of s'])
       (simp_all add: fill_payload_def ex_trade_def strip_def is_space_def)
  then show ?thesis using run by blast
qed

text \<open>C21: The account of the ledger is what the recorded events make of the initial account: after any valid calls, failing and
  repeated ones included, there is one accounting event for each row in the order of the rows, each of them has the type,
  the amounts, the instrument and the time that its row records and succeeds, and the account is the result of
  them all, each row carrying the hash of the account it leads to.  The rows determine that account.\<close>

theorem account_ledger_refines:
  assumes "list_all call_valid cs" "ledger_events L NS_ACCOUNT = []" "s = account_perform_all E cs (bare_ledger L a b n)"
  shows "rows_account (ab_sha E) a (al_rows s) (al_account s) \<and>
    (\<forall>c. rows_account (ab_sha E) a (al_rows s) c \<longrightarrow> c = al_account s)"
proof -
  have start: "in_sync (bare_ledger L a b n)" "al_rows (bare_ledger L a b n) = []" "al_account (bare_ledger L a b n) = a"
    using run_in_sync [of "[]", OF _ assms(2)] assms(2) by (simp_all add: al_rows_def bare_ledger_def)
  have "rows_account (ab_sha E) a (al_rows s) (al_account s)"
    unfolding assms(3) by (rule perform_all_rows_account [OF assms(1) start(1)]) (simp add: start rows_account.no_rows)
  then show ?thesis using rows_account_unique by blast
qed

theorem account_ledger_refines_witness:
  "rows_account ex_digest ex_account (al_rows (account_perform_all al_ex_env al_ex_calls al_ex_ledger))
     (al_account (account_perform_all al_ex_env al_ex_calls al_ex_ledger)) \<and>
   map event_type (al_rows (account_perform_all al_ex_env al_ex_calls al_ex_ledger)) = [''fill_applied'', ''funding_applied'', ''split_applied'']"
proof
  have "ledger_events empty_ledgers NS_ACCOUNT = []" by (simp add: ledger_events_def empty_ledgers_def)
  from account_ledger_refines [OF al_ex_calls_valid this, of _ al_ex_env ex_account "()" 0]
  show "rows_account ex_digest ex_account (al_rows (account_perform_all al_ex_env al_ex_calls al_ex_ledger))
     (al_account (account_perform_all al_ex_env al_ex_calls al_ex_ledger))"
    by (simp add: al_ex_ledger_def) (simp add: al_ex_env_def)
  show "map event_type (al_rows (account_perform_all al_ex_env al_ex_calls al_ex_ledger)) = [''fill_applied'', ''funding_applied'', ''split_applied'']"
    by code_simp
qed

end
