(* ===== verification/Risk.thy ===== *)
theory Risk
  imports Account Outbox
begin

text \<open>
  The risk kernel and the kill switch (\<open>src/advisorai/execution/risk.py\<close>): the market state with its checks
  and canonical document, the evaluation of a target portfolio against the hard limits of a policy, the
  reduction of a target by bisection, and the check of a single order.

  Python iterates a set of strings in an order that depends on the process; \<open>rk_iter\<close> is that order.  The
  digests of the account document, of the market document, of the text that binds the two and of a kill
  switch event are parameters.  A \<open>frozenset\<close> is the list of its members.
\<close>

record risk_env =
  rk_account_sha :: "account_doc \<Rightarrow> string"
  rk_text_sha :: "string \<Rightarrow> string"
  rk_event_sha :: "string \<Rightarrow> nat \<Rightarrow> payload \<Rightarrow> string"
  rk_iter :: "string list \<Rightarrow> string list"
  rk_uuid :: "nat \<Rightarrow> uuid"
  rk_now :: "nat \<Rightarrow> utc"

section \<open>Kill switch\<close>

record kill_switch =
  ks_tripped :: bool
  ks_reason :: "string option"
  ks_ledgers :: "ledgers option"
  ks_draws :: nat

definition ks_apply :: "ledger_event \<Rightarrow> bool \<times> string option \<Rightarrow> bool \<times> string option" where
  "ks_apply ev st =
     (if event_type ev = ''kill_switch_tripped''
      then (True, Some (case map_of (ev_payload ev) ''reason'' of Some (PText t) \<Rightarrow> t | _ \<Rightarrow> ''durably tripped''))
      else if event_type ev = ''kill_switch_reset'' then (False, None)
      else st)"

definition new_kill_switch :: "ledgers option \<Rightarrow> nat \<Rightarrow> kill_switch" where
  "new_kill_switch L n =
     (let (t, r) = (case L of None \<Rightarrow> (False, None) | Some M \<Rightarrow> fold ks_apply (ledger_events M NS_INCIDENT) (False, None))
      in \<lparr>ks_tripped = t, ks_reason = r, ks_ledgers = L, ks_draws = n\<rparr>)"

definition ks_event :: "risk_env \<Rightarrow> string \<Rightarrow> payload \<Rightarrow> nat \<Rightarrow> nat \<Rightarrow> ledger_event" where
  "ks_event E etype p sequence n = \<lparr>event_id = rk_uuid E n, ev_namespace = NS_INCIDENT, event_type = etype,
     ev_key = ''kill-switch:'' @ nat_str sequence @ '':'' @ rk_event_sha E etype sequence p,
     ev_occurred_at = rk_now E n, ev_payload = p\<rparr>"

definition ks_record :: "risk_env \<Rightarrow> string \<Rightarrow> payload \<Rightarrow> (kill_switch, unit) action" where
  "ks_record E etype p s =
     (case ks_ledgers s of
        None \<Rightarrow> (Inr (), s)
      | Some L \<Rightarrow>
        let sequence = length (ledger_events L NS_INCIDENT) + 1;
            (r, M) = ledger_append (ks_event E etype p sequence (ks_draws s)) L;
            t = s\<lparr>ks_ledgers := Some M, ks_draws := Suc (ks_draws s)\<rparr>
        in (case r of Inl e \<Rightarrow> (Inl e, t) | Inr _ \<Rightarrow> (Inr (), t)))"

definition ks_trip :: "risk_env \<Rightarrow> string \<Rightarrow> (kill_switch, unit) action" where
  "ks_trip E reason s =
     (if blank reason then (Inl (ValueError ''kill switch trip requires a reason''), s)
      else if ks_tripped s \<and> ks_reason s = Some (strip reason) then (Inr (), s)
      else sbind (ks_record E ''kill_switch_tripped'' [(''reason'', PText (strip reason))])
             (\<lambda>_. smodify (\<lambda>s. s\<lparr>ks_tripped := True, ks_reason := Some (strip reason)\<rparr>)) s)"

definition ks_reset :: "risk_env \<Rightarrow> string \<Rightarrow> (kill_switch, unit) action" where
  "ks_reset E approver s =
     (if blank approver then (Inl (ValueError ''kill switch reset requires explicit human approver''), s)
      else if \<not> ks_tripped s then (Inr (), s)
      else sbind (ks_record E ''kill_switch_reset'' [(''approved_by'', PText (strip approver))])
             (\<lambda>_. smodify (\<lambda>s. s\<lparr>ks_tripped := False, ks_reason := None\<rparr>)) s)"

section \<open>Market state\<close>

record 'n market_state =
  rm_marks :: "(string, 'n) dict"
  rm_stale :: "string list"
  rm_hash :: string
  rm_stale_seconds :: "(string, int) dict"
  rm_disagreed :: "string list"
  rm_clock_drift :: int
  rm_volatility :: "(string, 'n) dict"
  rm_liquidity :: "(string, 'n) dict"
  rm_spread :: "(string, 'n) dict"
  rm_slippage :: "(string, 'n) dict"
  rm_impact :: "(string, 'n) dict"
  rm_venue_healthy :: "(string, bool) dict"
  rm_model_drift :: bool
  rm_unsupported :: bool
  rm_expired :: "string list"
  rm_clean :: bool
  rm_order_count :: int
  rm_funding_bps :: 'n
  rm_borrow_bps :: 'n
  rm_counterparty :: 'n
  rm_collateral :: "'n option"

type_synonym market = "dec market_state"
type_synonym raw_market = "raw_dec market_state"

datatype market_value = MDecs "(string \<times> dec) list" | MNames "string list" | MInts "(string \<times> int) list"
  | MBools "(string \<times> bool) list" | MInt int | MBool bool | MDec dec | MNull

type_synonym market_doc = "(string \<times> market_value) list"

definition market_doc :: "market \<Rightarrow> market_doc" where
  "market_doc m = sort_key fst
     [(''marks'', MDecs (sort_key fst (rm_marks m))), (''stale_instruments'', MNames (sort (remdups (rm_stale m)))),
      (''stale_seconds'', MInts (sort_key fst (rm_stale_seconds m))),
      (''disagreed_instruments'', MNames (sort (remdups (rm_disagreed m)))),
      (''clock_drift_seconds'', MInt (rm_clock_drift m)), (''volatility'', MDecs (sort_key fst (rm_volatility m))),
      (''liquidity_notional'', MDecs (sort_key fst (rm_liquidity m))), (''spread_bps'', MDecs (sort_key fst (rm_spread m))),
      (''expected_slippage_bps'', MDecs (sort_key fst (rm_slippage m))),
      (''expected_impact_bps'', MDecs (sort_key fst (rm_impact m))),
      (''venue_healthy'', MBools (sort_key fst (rm_venue_healthy m))), (''model_drift'', MBool (rm_model_drift m)),
      (''unsupported_regime'', MBool (rm_unsupported m)), (''expired_forecasts'', MNames (sort (remdups (rm_expired m)))),
      (''reconciliation_clean'', MBool (rm_clean m)), (''order_count'', MInt (rm_order_count m)),
      (''funding_cost_bps'', MDec (rm_funding_bps m)), (''borrow_cost_bps'', MDec (rm_borrow_bps m)),
      (''counterparty_exposure'', MDec (rm_counterparty m)),
      (''collateral_available'', case rm_collateral m of None \<Rightarrow> MNull | Some v \<Rightarrow> MDec v)]"

definition market_names :: "'n market_state \<Rightarrow> string list" where
  "market_names m = map fst (rm_marks m) @ map fst (rm_stale_seconds m) @ map fst (rm_volatility m) @
     map fst (rm_liquidity m) @ map fst (rm_spread m) @ map fst (rm_slippage m) @ map fst (rm_impact m) @
     map fst (rm_venue_healthy m) @ rm_expired m @ rm_stale m @ rm_disagreed m"

definition market_numbers :: "'n market_state \<Rightarrow> 'n list" where
  "market_numbers m = map snd (rm_marks m) @ map snd (rm_volatility m) @ map snd (rm_liquidity m) @
     map snd (rm_spread m) @ map snd (rm_slippage m) @ map snd (rm_impact m)"

definition market_value_of :: "raw_market \<Rightarrow> market" where
  "market_value_of r = \<lparr>rm_marks = raw_dict (rm_marks r), rm_stale = rm_stale r, rm_hash = rm_hash r,
     rm_stale_seconds = rm_stale_seconds r, rm_disagreed = rm_disagreed r, rm_clock_drift = rm_clock_drift r,
     rm_volatility = raw_dict (rm_volatility r), rm_liquidity = raw_dict (rm_liquidity r),
     rm_spread = raw_dict (rm_spread r), rm_slippage = raw_dict (rm_slippage r), rm_impact = raw_dict (rm_impact r),
     rm_venue_healthy = rm_venue_healthy r, rm_model_drift = rm_model_drift r, rm_unsupported = rm_unsupported r,
     rm_expired = rm_expired r, rm_clean = rm_clean r, rm_order_count = rm_order_count r,
     rm_funding_bps = raw_val (rm_funding_bps r), rm_borrow_bps = raw_val (rm_borrow_bps r),
     rm_counterparty = raw_val (rm_counterparty r), rm_collateral = map_option raw_val (rm_collateral r)\<rparr>"

text \<open>The checks of the constructor in their order; those on the types of values hold by typing.\<close>

definition mk_market :: "(market_doc \<Rightarrow> string) \<Rightarrow> raw_market \<Rightarrow> market res" where
  "mk_market sha r =
     (let m = market_value_of r; neg = (\<lambda>v. dlt v d0); nonpos = (\<lambda>v. dle v d0)
      in if rm_hash m \<noteq> [] \<and> \<not> is_digest (rm_hash m)
      then Inl (ValueError ''market_state_hash must be a lowercase SHA-256 digest'')
      else if list_ex blank (market_names m)
      then Inl (ValueError ''risk market instrument identifiers cannot be blank'')
      else if \<not> list_all is_finite (market_numbers r)
      then Inl (ValueError ''risk market numeric values must be finite'')
      else if \<not> list_all is_finite [rm_funding_bps r, rm_borrow_bps r, rm_counterparty r]
      then Inl (ValueError ''risk market counters must be finite'')
      else if list_ex nonpos (map snd (rm_marks m)) then Inl (ValueError ''risk marks must be positive'')
      else if list_ex (\<lambda>v. v < 0) (map snd (rm_stale_seconds m)) then Inl (ValueError ''stale durations cannot be negative'')
      else if list_ex neg (map snd (rm_volatility m)) then Inl (ValueError ''volatility values cannot be negative'')
      else if list_ex nonpos (map snd (rm_liquidity m)) then Inl (ValueError ''liquidity notionals must be positive'')
      else if list_ex neg (map snd (rm_spread m) @ map snd (rm_slippage m) @ map snd (rm_impact m))
      then Inl (ValueError ''market cost estimates cannot be negative'')
      else if rm_clock_drift m < 0 then Inl (ValueError ''clock drift cannot be negative'')
      else if rm_order_count m < 0 \<or> neg (rm_funding_bps m) \<or> neg (rm_borrow_bps m) \<or> neg (rm_counterparty m)
      then Inl (ValueError ''risk market counters/costs cannot be negative'')
      else if \<not> opt_all is_finite (rm_collateral r) then Inl (ValueError ''collateral availability must be finite'')
      else if rm_hash m \<noteq> [] \<and> rm_hash m \<noteq> sha (market_doc m)
      then Inl (ValueError ''market_state_hash does not match canonical market state'')
      else Inr m)"

definition effective_hash :: "(market_doc \<Rightarrow> string) \<Rightarrow> market \<Rightarrow> string" where
  "effective_hash sha m = (if rm_hash m \<noteq> [] then rm_hash m else sha (market_doc m))"

section \<open>Requests\<close>

record risk_request =
  rq_target :: target_portfolio
  rq_account :: account
  rq_market :: market
  rq_policy :: risk_policy

definition supported_limits :: "string list" where
  "supported_limits =
     [''max_order_notional'', ''max_position_notional'', ''price_collar_bps'', ''max_gross_notional'',
      ''max_net_notional'', ''max_turnover_notional'', ''max_leverage'', ''max_margin_used'',
      ''max_current_gross_notional'', ''max_daily_loss'', ''max_rolling_loss'', ''max_drawdown'',
      ''max_concentration'', ''max_stale_seconds'', ''max_data_disagreement'', ''max_clock_drift_seconds'',
      ''max_cash_deficit'', ''max_liquidation_buffer_deficit'', ''max_volatility'', ''max_liquidity_participation'',
      ''max_spread_bps'', ''max_expected_slippage_bps'', ''max_expected_impact_bps'', ''max_order_rate'',
      ''max_funding_cost_bps'', ''max_borrow_cost_bps'', ''max_collateral_deficit'', ''max_counterparty_exposure'',
      ''max_model_drift'', ''max_unsupported_regime'', ''max_expired_forecast'', ''max_reconciliation_discrepancies'',
      ''max_venue_health'']"

definition target_ids :: "target_portfolio \<Rightarrow> string list" where
  "target_ids t = fromkeys (map pos_id (tp_positions t))"

definition proposed_notional :: "target_portfolio \<Rightarrow> market \<Rightarrow> (string, dec) dict" where
  "proposed_notional t m =
     foldl (\<lambda>d p. case map_of (rm_marks m) (pos_id p) of
         None \<Rightarrow> d | Some x \<Rightarrow> dict_set (pos_id p) (dmul (target_quantity p) x) d) [] (tp_positions t)"

definition current_notional :: "account \<Rightarrow> market \<Rightarrow> (string, dec) dict" where
  "current_notional a m = map (\<lambda>(i, q). (i, dmul q (dict_get (rm_marks m) i d0))) (ac_positions a)"

definition big :: dec where
  "big = Dec 999999 0"

definition loss :: "dec \<Rightarrow> dec" where
  "loss v = dmax d0 (dneg v)"

definition dec_of_bool :: "bool \<Rightarrow> dec" where
  "dec_of_bool b = (if b then d1 else d0)"

definition hits :: "string list \<Rightarrow> string list \<Rightarrow> bool" where
  "hits ids xs = list_ex (\<lambda>i. i \<in> set xs) ids"

definition notional_changes :: "risk_env \<Rightarrow> risk_request \<Rightarrow> dec list" where
  "notional_changes E rq =
     (let cur = current_notional (rq_account rq) (rq_market rq); tgt = proposed_notional (rq_target rq) (rq_market rq)
      in map (\<lambda>i. dabs (dsub (dict_get tgt i d0) (dict_get cur i d0))) (rk_iter E (fromkeys (map fst cur @ map fst tgt))))"

definition worst :: "risk_env \<Rightarrow> string list \<Rightarrow> (string, dec) dict \<Rightarrow> dec" where
  "worst E ids d = dmax_default big (map (\<lambda>i. dict_get d i big) (rk_iter E ids))"

section \<open>Limit values of a target\<close>

text \<open>\<open>None\<close>: the name is not a limit the kernel knows.\<close>

definition kernel_market_value :: "risk_request \<Rightarrow> string \<Rightarrow> dec option" where
  "kernel_market_value rq name =
     (let a = rq_account rq; m = rq_market rq; ids = target_ids (rq_target rq)
      in if name = ''max_order_rate'' then Some (dec_of_int (rm_order_count m))
      else if name = ''max_funding_cost_bps'' then Some (rm_funding_bps m)
      else if name = ''max_borrow_cost_bps'' then Some (rm_borrow_bps m)
      else if name = ''max_collateral_deficit''
      then Some (case rm_collateral m of Some v \<Rightarrow> loss v
                 | None \<Rightarrow> (case ac_margin_available a of None \<Rightarrow> big | Some v \<Rightarrow> loss v))
      else if name = ''max_counterparty_exposure'' then Some (rm_counterparty m)
      else if name = ''max_model_drift'' then Some (dec_of_bool (rm_model_drift m))
      else if name = ''max_unsupported_regime'' then Some (dec_of_bool (rm_unsupported m))
      else if name = ''max_expired_forecast'' then Some (dec_of_bool (hits ids (rm_expired m)))
      else if name = ''max_reconciliation_discrepancies'' then Some (dec_of_bool (\<not> rm_clean m))
      else if name = ''max_venue_health''
      then Some (if list_ex (\<lambda>i. \<not> dict_has (rm_venue_healthy m) i) ids then big
                 else dec_of_bool (list_ex (\<lambda>i. \<not> dict_get (rm_venue_healthy m) i True) ids))
      else None)"

definition kernel_limit_value :: "risk_env \<Rightarrow> risk_request \<Rightarrow> string \<Rightarrow> dec \<Rightarrow> dec \<Rightarrow> dec \<Rightarrow> dec option" where
  "kernel_limit_value E rq name gross net current =
     (let t = rq_target rq; a = rq_account rq; m = rq_market rq; ids = target_ids t; tgt = proposed_notional t m
      in if name = ''max_gross_notional'' then Some gross
      else if name = ''max_net_notional'' then Some (dabs net)
      else if name = ''max_turnover_notional'' then Some (dsum (notional_changes E rq))
      else if name = ''max_order_notional'' then Some (dmax_default d0 (notional_changes E rq))
      else if name = ''max_leverage''
      then Some (if dle (equity a) d0 then (if dnz gross then big else d0) else ddiv gross (equity a))
      else if name = ''max_position_notional'' then Some (dmax_default d0 (map (\<lambda>(i, v). dabs v) tgt))
      else if name = ''max_margin_used'' then Some (ac_margin_used a)
      else if name = ''max_current_gross_notional'' then Some current
      else if name = ''max_daily_loss'' then Some (loss (ac_daily_pnl a))
      else if name = ''max_rolling_loss'' then Some (loss (ac_rolling_pnl a))
      else if name = ''max_drawdown'' then Some (drawdown a)
      else if name = ''max_concentration''
      then Some (if \<not> dnz gross then d0 else dmax_default d0 (map (\<lambda>(i, v). ddiv (dabs v) gross) tgt))
      else if name = ''max_stale_seconds''
      then Some (if list_ex (\<lambda>i. \<not> dict_has (rm_stale_seconds m) i) ids then big
                 else dec_of_int (case map (\<lambda>i. dict_get (rm_stale_seconds m) i 0) (rk_iter E ids) of
                        [] \<Rightarrow> 0 | x # xs \<Rightarrow> fold max xs x))
      else if name = ''max_data_disagreement'' then Some (dec_of_bool (hits ids (rm_disagreed m)))
      else if name = ''max_clock_drift_seconds'' then Some (dec_of_int (rm_clock_drift m))
      else if name = ''max_cash_deficit'' then Some (loss (cash_target t))
      else if name = ''max_liquidation_buffer_deficit''
      then Some (case ac_margin_available a of None \<Rightarrow> big | Some v \<Rightarrow> loss v)
      else if name = ''max_volatility'' then Some (worst E ids (rm_volatility m))
      else if name = ''max_liquidity_participation''
      then Some (if list_ex (\<lambda>(i, v). \<not> dict_has (rm_liquidity m) i) tgt then big
                 else dmax_default d1 (map (\<lambda>(i, v). ddiv (dabs v) (dict_get (rm_liquidity m) i d1))
                        (filter (\<lambda>(i, v). dict_has (rm_liquidity m) i) tgt)))
      else if name = ''max_spread_bps'' then Some (worst E ids (rm_spread m))
      else if name = ''max_expected_slippage_bps'' then Some (worst E ids (rm_slippage m))
      else if name = ''max_expected_impact_bps'' then Some (worst E ids (rm_impact m))
      else kernel_market_value rq name)"

section \<open>Evaluation of a target\<close>

definition exceeds :: "string \<Rightarrow> string \<Rightarrow> risk_limit \<Rightarrow> string" where
  "exceeds name value l = name @ '':'' @ value @ ''>'' @ dec_str (limit_value l) @ limit_unit l"

definition reason_if :: "bool \<Rightarrow> string \<Rightarrow> string list" where
  "reason_if b r = (if b then [r] else [])"

definition policy_reasons :: "risk_policy \<Rightarrow> utc \<Rightarrow> string list" where
  "policy_reasons p t =
     map (\<lambda>l. ''unsupported_hard_limit:'' @ limit_name l) (filter (\<lambda>l. limit_name l \<notin> set supported_limits) (hard_limits p)) @
     reason_if (t < effective_at p) ''risk_policy_not_yet_effective''"

definition kill_reason :: "kill_switch \<Rightarrow> string list" where
  "kill_reason k = reason_if (ks_tripped k) (''kill_switch:'' @ (case ks_reason k of None \<Rightarrow> ''None'' | Some r \<Rightarrow> r))"

definition missing_marks :: "target_portfolio \<Rightarrow> market \<Rightarrow> string list" where
  "missing_marks t m = filter (\<lambda>i. \<not> dict_has (rm_marks m) i) (target_ids t)"

definition state_reasons :: "kill_switch \<Rightarrow> risk_request \<Rightarrow> string list" where
  "state_reasons k rq =
     (let t = rq_target rq; m = rq_market rq; ids = target_ids t; missing = missing_marks t m
      in policy_reasons (rq_policy rq) (ac_as_of (rq_account rq)) @
         reason_if (risk_constraints_version t \<noteq> policy_version (rq_policy rq)) ''risk_policy_version_mismatch'' @
         kill_reason k @
         reason_if (hits ids (rm_stale m) \<or> list_ex (\<lambda>i. 0 < dict_get (rm_stale_seconds m) i 0) ids) ''stale_market_data'' @
         reason_if (hits ids (rm_disagreed m)) ''disagreed_market_data'' @
         reason_if (rm_model_drift m) ''model_drift'' @ reason_if (rm_unsupported m) ''unsupported_regime'' @
         reason_if (hits ids (rm_expired m)) ''expired_forecast'' @
         reason_if (\<not> rm_clean m) ''reconciliation_not_clean'' @
         reason_if (missing \<noteq> []) (''missing_market_data:'' @ join '','' (sort missing)))"

definition limit_reasons :: "risk_env \<Rightarrow> risk_request \<Rightarrow> string list" where
  "limit_reasons E rq =
     (let proposed = proposed_notional (rq_target rq) (rq_market rq);
          gross = dsum (map (\<lambda>(i, v). dabs v) proposed); net = dsum (map snd proposed)
      in concat (map (\<lambda>l. case kernel_limit_value E rq (limit_name l) gross net (gross_notional (rq_account rq)) of
             None \<Rightarrow> [''unsupported_hard_limit:'' @ limit_name l]
           | Some v \<Rightarrow> reason_if (dlt (limit_value l) v) (exceeds (limit_name l) (dec_str v) l)) (hard_limits (rq_policy rq))))"

definition kernel_reasons :: "risk_env \<Rightarrow> kill_switch \<Rightarrow> risk_request \<Rightarrow> string list" where
  "kernel_reasons E k rq = state_reasons k rq @ limit_reasons E rq"

definition bound_hash :: "risk_env \<Rightarrow> (market_doc \<Rightarrow> string) \<Rightarrow> account \<Rightarrow> market \<Rightarrow> string res" where
  "bound_hash E sha a m = rbind (take_snapshot (rk_account_sha E) a)
     (\<lambda>sn. Inr (rk_text_sha E (sn_state_hash sn @ '':'' @ effective_hash sha m)))"

text \<open>\<open>evaluate\<close> without reduction; \<open>aid\<close> and \<open>now\<close> are the identity and time of the decision it makes.\<close>

definition evaluate_plain :: "risk_env \<Rightarrow> (market_doc \<Rightarrow> string) \<Rightarrow> kill_switch \<Rightarrow> uuid \<Rightarrow> utc \<Rightarrow> risk_request \<Rightarrow> risk_decision res" where
  "evaluate_plain E sha k aid now rq =
     (let reasons = kernel_reasons E k rq
      in rbind (bound_hash E sha (rq_account rq) (rq_market rq)) (\<lambda>h.
         mk_risk_decision aid (Aware now 0) (artifact_id (rq_target rq)) (artifact_id (rq_policy rq))
           (if reasons = [] then APPROVED else RISK_REJECTED) h (fromkeys reasons) []))"

section \<open>Reduction\<close>

definition reducible :: "string list" where
  "reducible = [''max_order_notional'', ''max_turnover_notional'', ''max_gross_notional'', ''max_net_notional'',
     ''max_position_notional'', ''max_leverage'', ''max_concentration'', ''max_cash_deficit'']"

definition reason_name :: "string \<Rightarrow> string" where
  "reason_name r = takeWhile (\<lambda>c. c \<noteq> CHR '':'') r"

definition reduced_quantity :: "dec \<Rightarrow> dec \<Rightarrow> dec \<Rightarrow> dec" where
  "reduced_quantity cur q f = dadd cur (dmul (dsub q cur) f)"

definition candidate :: "risk_request \<Rightarrow> dec \<Rightarrow> target_portfolio" where
  "candidate rq f =
     (let t = rq_target rq; a = rq_account rq; flow = dsub (dsub (ac_cash a) (cash_target t)) (expected_cost t);
          cost = dmul (expected_cost t) f
      in t\<lparr>tp_positions := map (\<lambda>p. p\<lparr>target_quantity :=
               reduced_quantity (dict_get (ac_positions a) (pos_id p) d0) (target_quantity p) f\<rparr>) (tp_positions t),
           cash_target := dsub (dsub (ac_cash a) (dmul flow f)) cost, expected_cost := cost\<rparr>)"

fun bisect :: "nat \<Rightarrow> (dec \<Rightarrow> bool res) \<Rightarrow> dec \<Rightarrow> dec \<Rightarrow> dec res" where
  "bisect 0 ok low high = Inr low"
| "bisect (Suc n) ok low high =
     (let mid = ddiv (dadd low high) (Dec 2 0)
      in rbind (ok mid) (\<lambda>b. if b then bisect n ok mid high else bisect n ok low mid))"

definition approves :: "risk_env \<Rightarrow> (market_doc \<Rightarrow> string) \<Rightarrow> kill_switch \<Rightarrow> uuid \<Rightarrow> utc \<Rightarrow> risk_request \<Rightarrow> dec \<Rightarrow> bool res" where
  "approves E sha k aid now rq f =
     rbind (evaluate_plain E sha k aid now (rq\<lparr>rq_target := candidate rq f\<rparr>)) (\<lambda>d. Inr (dec_outcome d = APPROVED))"

definition reduced_target ::
  "risk_env \<Rightarrow> (market_doc \<Rightarrow> string) \<Rightarrow> kill_switch \<Rightarrow> uuid \<Rightarrow> utc \<Rightarrow> risk_request \<Rightarrow> string list \<Rightarrow> target_portfolio option res" where
  "reduced_target E sha k aid now rq reasons =
     (let t = rq_target rq
      in if list_ex (\<lambda>r. reason_name r \<notin> set reducible) reasons \<or> tp_positions t = [] \<or>
            list_ex (\<lambda>p. \<not> dict_has (rm_marks (rq_market rq)) (pos_id p)) (tp_positions t)
         then Inr None
         else rbind (approves E sha k aid now rq d0) (\<lambda>zero.
           if \<not> zero then Inr None
           else rbind (bisect 48 (approves E sha k aid now rq) d0 d1) (\<lambda>low.
             Inr (if dle low d0 then None else Some (candidate rq low)))))"

definition evaluate ::
  "risk_env \<Rightarrow> (market_doc \<Rightarrow> string) \<Rightarrow> kill_switch \<Rightarrow> uuid \<Rightarrow> utc \<Rightarrow> risk_request \<Rightarrow> bool \<Rightarrow> risk_decision res" where
  "evaluate E sha k aid now rq allow =
     (let reasons = kernel_reasons E k rq
      in rbind (bound_hash E sha (rq_account rq) (rq_market rq)) (\<lambda>h.
         rbind (if reasons \<noteq> [] \<and> allow then reduced_target E sha k aid now rq reasons else Inr None) (\<lambda>reduced.
         let plain = mk_risk_decision aid (Aware now 0) (artifact_id (rq_target rq)) (artifact_id (rq_policy rq))
               (if reasons = [] then APPROVED else RISK_REJECTED) h (fromkeys reasons) []
         in case reduced of
              None \<Rightarrow> plain
            | Some t \<Rightarrow> rbind (evaluate_plain E sha k aid now (rq\<lparr>rq_target := t\<rparr>)) (\<lambda>d.
                if dec_outcome d = APPROVED
                then mk_risk_decision aid (Aware now 0) (artifact_id (rq_target rq)) (artifact_id (rq_policy rq))
                       REDUCED h (fromkeys (reasons @ [''target_reduced_to_policy_limits''])) (tp_positions t)
                else plain))))"

section \<open>The check of one order\<close>

record order_view =
  ov_notional :: dec
  ov_position :: dec
  ov_gross :: dec
  ov_net :: dec
  ov_current_gross :: dec
  ov_equity :: dec
  ov_cash :: dec

definition view_order :: "string \<Rightarrow> dec \<Rightarrow> dec \<Rightarrow> dec \<Rightarrow> string \<Rightarrow> account \<Rightarrow> market \<Rightarrow> order_view" where
  "view_order side quantity price mark i a m =
     (let notional = dmul price quantity; dir = (if lower side = ''buy'' then d1 else Dec (- 1) 0);
          position = dadd (dict_get (ac_positions a) i d0) (dmul dir quantity);
          proposed = map (\<lambda>(n, q). dmul q (dict_get (rm_marks m) n d0)) (dict_set i position (ac_positions a))
      in \<lparr>ov_notional = notional, ov_position = dabs (dmul position mark), ov_gross = dsum (map dabs proposed),
          ov_net = dsum proposed, ov_current_gross = gross_notional a, ov_equity = equity a,
          ov_cash = dsub (ac_cash a) (dmul dir notional)\<rparr>)"

definition over :: "string \<Rightarrow> dec \<Rightarrow> risk_limit \<Rightarrow> string list" where
  "over name v l = reason_if (dlt (limit_value l) v) (exceeds name (dec_str v) l)"

definition order_exposure_reasons :: "order_view \<Rightarrow> dec \<Rightarrow> dec \<Rightarrow> account \<Rightarrow> risk_limit \<Rightarrow> string list" where
  "order_exposure_reasons w price mark a l =
     (let name = limit_name l
      in if name = ''max_order_notional'' then over name (ov_notional w) l
      else if name = ''max_position_notional'' then over name (ov_position w) l
      else if name = ''price_collar_bps''
      then over name (dmul (ddiv (dabs (dsub price mark)) mark) (Dec 10000 0)) l
      else if name = ''max_gross_notional'' then over name (ov_gross w) l
      else if name = ''max_net_notional'' then over name (dabs (ov_net w)) l
      else if name = ''max_turnover_notional'' then over name (ov_notional w) l
      else if name = ''max_leverage''
      then over name (if dlt d0 (ov_equity w) then ddiv (ov_gross w) (ov_equity w) else big) l
      else if name = ''max_margin_used'' then over name (ac_margin_used a) l
      else if name = ''max_current_gross_notional'' then over name (ov_current_gross w) l
      else if name = ''max_daily_loss'' then over name (loss (ac_daily_pnl a)) l
      else if name = ''max_rolling_loss'' then over name (loss (ac_rolling_pnl a)) l
      else if name = ''max_drawdown'' then over name (drawdown a) l
      else if name = ''max_concentration'' \<and> dnz (ov_gross w) then over name (ddiv (ov_position w) (ov_gross w)) l
      else [])"

definition order_market_reasons :: "order_view \<Rightarrow> string \<Rightarrow> account \<Rightarrow> market \<Rightarrow> risk_limit \<Rightarrow> string list" where
  "order_market_reasons w i a m l =
     (let name = limit_name l
      in if name = ''max_stale_seconds''
      then (case map_of (rm_stale_seconds m) i of None \<Rightarrow> [''max_stale_seconds:missing_market_freshness'']
            | Some n \<Rightarrow> reason_if (dlt (limit_value l) (dec_of_int n)) (exceeds name (int_str n) l))
      else if name = ''max_data_disagreement'' then reason_if (i \<in> set (rm_disagreed m)) (exceeds name ''1'' l)
      else if name = ''max_clock_drift_seconds''
      then reason_if (dlt (limit_value l) (dec_of_int (rm_clock_drift m))) (exceeds name (int_str (rm_clock_drift m)) l)
      else if name = ''max_cash_deficit'' then over name (loss (ov_cash w)) l
      else if name = ''max_liquidation_buffer_deficit''
      then (case (case ac_liquidation_buffer a of None \<Rightarrow> ac_margin_available a | Some v \<Rightarrow> Some v) of
              None \<Rightarrow> [''max_liquidation_buffer_deficit:missing_liquidation_buffer''] | Some v \<Rightarrow> over name (loss v) l)
      else if name = ''max_volatility''
      then (case map_of (rm_volatility m) i of None \<Rightarrow> [exceeds name ''missing'' l] | Some v \<Rightarrow> over name v l)
      else if name = ''max_liquidity_participation''
      then (case map_of (rm_liquidity m) i of None \<Rightarrow> [''max_liquidity_participation:missing_liquidity'']
            | Some v \<Rightarrow> over name (if dnz v then ddiv (ov_notional w) v else big) l)
      else if name = ''max_spread_bps'' then over name (dict_get (rm_spread m) i big) l
      else if name = ''max_expected_slippage_bps'' then over name (dict_get (rm_slippage m) i big) l
      else if name = ''max_expected_impact_bps'' then over name (dict_get (rm_impact m) i big) l
      else [])"

definition order_state_reasons :: "string \<Rightarrow> account \<Rightarrow> market \<Rightarrow> risk_limit \<Rightarrow> string list" where
  "order_state_reasons i a m l =
     (let name = limit_name l
      in if name = ''max_order_rate''
      then reason_if (dlt (limit_value l) (dec_of_int (rm_order_count m))) (exceeds name (int_str (rm_order_count m)) l)
      else if name = ''max_funding_cost_bps'' then over name (rm_funding_bps m) l
      else if name = ''max_borrow_cost_bps'' then over name (rm_borrow_bps m) l
      else if name = ''max_collateral_deficit''
      then (case (case rm_collateral m of None \<Rightarrow> ac_margin_available a | Some v \<Rightarrow> Some v) of
              None \<Rightarrow> [''max_collateral_deficit:missing_collateral''] | Some v \<Rightarrow> over name (loss v) l)
      else if name = ''max_counterparty_exposure'' then over name (rm_counterparty m) l
      else if name = ''max_model_drift'' then reason_if (rm_model_drift m) (exceeds name ''1'' l)
      else if name = ''max_unsupported_regime'' then reason_if (rm_unsupported m) (exceeds name ''1'' l)
      else if name = ''max_expired_forecast'' then reason_if (i \<in> set (rm_expired m)) (exceeds name ''1'' l)
      else if name = ''max_reconciliation_discrepancies'' then reason_if (\<not> rm_clean m) (exceeds name ''1'' l)
      else if name = ''max_venue_health''
      then (case map_of (rm_venue_healthy m) i of None \<Rightarrow> [''max_venue_health:missing_venue_health'']
            | Some ok \<Rightarrow> reason_if (\<not> ok) (exceeds name ''1'' l))
      else [])"

definition order_gate_reasons :: "kill_switch \<Rightarrow> order \<Rightarrow> account \<Rightarrow> market \<Rightarrow> risk_policy \<Rightarrow> string list" where
  "order_gate_reasons k ord a m p =
     (let i = canonical_id (ord_instrument ord)
      in policy_reasons p (ac_as_of a) @ kill_reason k @
         reason_if (i \<in> set (rm_stale m) \<or> \<not> dict_has (rm_marks m) i \<or> 0 < dict_get (rm_stale_seconds m) i 0)
           ''stale_or_missing_market_data'' @
         reason_if (i \<in> set (rm_disagreed m)) ''disagreed_market_data'' @ reason_if (rm_clock_drift m \<noteq> 0) ''clock_drift'' @
         reason_if (rm_model_drift m) ''model_drift'' @ reason_if (rm_unsupported m) ''unsupported_regime'' @
         reason_if (i \<in> set (rm_expired m)) ''expired_forecast'' @ reason_if (\<not> rm_clean m) ''reconciliation_not_clean'' @
         reason_if (map_of (rm_venue_healthy m) i = Some False) ''venue_unhealthy'' @
         reason_if (ord_price ord = None) ''order_price_required_for_deterministic_paper_check'')"

definition order_limit_reasons :: "order \<Rightarrow> account \<Rightarrow> market \<Rightarrow> risk_policy \<Rightarrow> string list" where
  "order_limit_reasons ord a m p =
     (let i = canonical_id (ord_instrument ord)
      in case (ord_price ord, map_of (rm_marks m) i) of
           (Some price, Some mark) \<Rightarrow>
             (let w = view_order (ord_side ord) (ord_quantity ord) price mark i a m
              in concat (map (\<lambda>l. order_exposure_reasons w price mark a l @ order_market_reasons w i a m l @
                   order_state_reasons i a m l) (hard_limits p)))
         | _ \<Rightarrow> [])"

definition check_order ::
  "risk_env \<Rightarrow> (market_doc \<Rightarrow> string) \<Rightarrow> kill_switch \<Rightarrow> order \<Rightarrow> account \<Rightarrow> market \<Rightarrow> risk_policy \<Rightarrow> order_risk_check res" where
  "check_order E sha k ord a m p =
     (let reasons = order_gate_reasons k ord a m p @ order_limit_reasons ord a m p
      in rbind (bound_hash E sha a m) (\<lambda>h.
         Inr \<lparr>chk_approved = (reasons = []), chk_reasons = reasons, chk_state_hash = Some h,
              chk_policy_id = Some (artifact_id p)\<rparr>))"

end
