(* ===== verification/Risk_Facts.thy ===== *)
theory Risk_Facts
  imports Risk Account_Properties
begin

text \<open>
  Facts about the risk kernel: recovery of the kill switch from the incident ledger, what an empty list of
  reasons means, the three shapes of a decision, and the bisection as an instance of a search contract.
\<close>

section \<open>Kill switch\<close>

text \<open>Rows that use the key of a later trip do not exist.\<close>

definition ks_keys_ok :: "ledger_event list \<Rightarrow> bool" where
  "ks_keys_ok rows \<longleftrightarrow> (\<forall>row \<in> set rows. \<forall>n d. ev_key row = ''kill-switch:'' @ nat_str n @ '':'' @ d \<longrightarrow> n \<le> length rows)"

definition ks_synced :: "kill_switch \<Rightarrow> bool" where
  "ks_synced s \<longleftrightarrow> (case ks_ledgers s of None \<Rightarrow> True
     | Some L \<Rightarrow> ks_keys_ok (ledger_events L NS_INCIDENT) \<and>
         fold ks_apply (ledger_events L NS_INCIDENT) (False, None) = (ks_tripped s, ks_reason s))"

lemma ks_key_inj:
  "''kill-switch:'' @ nat_str n @ '':'' @ d = ''kill-switch:'' @ nat_str m @ '':'' @ f \<Longrightarrow> n = m"
  using split_at_first [of "nat_str n" "CHR '':''" d "nat_str m" f] by simp

lemma ks_record_cases:
  assumes "ks_record E etype p s = (r, s')" "ks_synced s" "ks_ledgers s = Some L"
  obtains (failed) e where "r = Inl e" "ks_synced s'" "ks_ledgers s' = Some L" "ks_tripped s' = ks_tripped s" "ks_reason s' = ks_reason s"
  | (stored) n where "r = Inr ()" "ks_tripped s' = ks_tripped s" "ks_reason s' = ks_reason s"
      "ks_ledgers s' = Some (L(NS_INCIDENT := ledger_events L NS_INCIDENT @
         [stored (ks_event E etype p (length (ledger_events L NS_INCIDENT) + 1) n)]))"
proof -
  let ?seq = "length (ledger_events L NS_INCIDENT) + 1" and ?n = "ks_draws s"
  let ?ev = "ks_event E etype p ?seq ?n"
  obtain q M where q: "ledger_append ?ev L = (q, M)" by (cases "ledger_append ?ev L")
  have s': "s' = s\<lparr>ks_ledgers := Some M, ks_draws := Suc ?n\<rparr>" and r: "r = (case q of Inl e \<Rightarrow> Inl e | Inr _ \<Rightarrow> Inr ())"
    using assms(1,3) q by (auto simp: ks_record_def Let_def split: sum.splits)
  from q show thesis
  proof (cases rule: ledger_append_cases)
    case (prior row)
    then have "row \<in> set (ledger_events L NS_INCIDENT)" "ev_key row = ''kill-switch:'' @ nat_str ?seq @ '':'' @ rk_event_sha E etype ?seq p"
      by (simp_all add: ks_event_def ledger_events_def)
    then have "?seq \<le> length (ledger_events L NS_INCIDENT)"
      using assms(2,3) by (simp only: ks_synced_def ks_keys_ok_def option.case)
    then show thesis by simp
  next
    case new
    then show thesis using stored [of ?n] s' r by (simp add: ks_event_def ledger_events_def)
  next
    case (conflict msg)
    then show thesis using failed s' r assms(2,3) by (simp add: ks_synced_def)
  qed
qed

lemma ks_keys_ok_snoc:
  assumes "ks_keys_ok rows"
  shows "ks_keys_ok (rows @ [stored (ks_event E etype p (length rows + 1) n)])"
  unfolding ks_keys_ok_def
proof (intro ballI allI impI)
  fix row m d assume row: "row \<in> set (rows @ [stored (ks_event E etype p (length rows + 1) n)])"
    and key: "ev_key row = ''kill-switch:'' @ nat_str m @ '':'' @ d"
  show "m \<le> length (rows @ [stored (ks_event E etype p (length rows + 1) n)])"
  proof (cases "row \<in> set rows")
    case True
    then show ?thesis using assms key by (fastforce simp: ks_keys_ok_def)
  next
    case False
    then have "''kill-switch:'' @ nat_str (length rows + 1) @ '':'' @ rk_event_sha E etype (length rows + 1) p =
        ''kill-switch:'' @ nat_str m @ '':'' @ d"
      using row key by (simp add: ks_event_def)
    then have "length rows + 1 = m" by (rule ks_key_inj)
    then show ?thesis by simp
  qed
qed

lemma payload_json_single [simp]: "payload_json [x] = [x]"
  by (simp add: payload_json_def)

lemma ks_write_synced:
  assumes "ks_synced s"
    and "\<And>m n. ks_apply (stored (ks_event E etype p m n)) = (\<lambda>_. (t, q))"
  shows "ks_synced (snd (sbind (ks_record E etype p) (\<lambda>_. smodify (\<lambda>s. s\<lparr>ks_tripped := t, ks_reason := q\<rparr>)) s))"
proof (cases "ks_ledgers s")
  case None
  then show ?thesis by (simp add: ks_record_def sbind_def ks_synced_def)
next
  case (Some L)
  obtain r s' where run: "ks_record E etype p s = (r, s')" by (cases "ks_record E etype p s")
  from run assms(1) Some show ?thesis
  proof (cases rule: ks_record_cases)
    case (failed e)
    then show ?thesis by (simp add: sbind_def run)
  next
    case (stored n)
    let ?rows = "ledger_events L NS_INCIDENT"
    have "ks_keys_ok ?rows" using assms(1) Some by (simp add: ks_synced_def)
    from ks_keys_ok_snoc [OF this, of E etype p n] show ?thesis
      using stored assms(2) by (simp add: sbind_def run ks_synced_def ledger_events_def)
  qed
qed

lemma ks_trip_synced: "ks_synced s \<Longrightarrow> ks_synced (snd (ks_trip E reason s))"
  unfolding ks_trip_def by (simp, intro impI, rule ks_write_synced) (simp_all add: ks_apply_def ks_event_def fun_eq_iff)

lemma ks_reset_synced: "ks_synced s \<Longrightarrow> ks_synced (snd (ks_reset E approver s))"
  unfolding ks_reset_def by (simp, intro impI, rule ks_write_synced) (simp_all add: ks_apply_def ks_event_def fun_eq_iff)

datatype ks_call = Trip string | Reset string

primrec ks_perform :: "risk_env \<Rightarrow> ks_call \<Rightarrow> (kill_switch, unit) action" where
  "ks_perform E (Trip r) = ks_trip E r"
| "ks_perform E (Reset a) = ks_reset E a"

primrec ks_perform_all :: "risk_env \<Rightarrow> ks_call list \<Rightarrow> kill_switch \<Rightarrow> kill_switch" where
  "ks_perform_all E [] s = s"
| "ks_perform_all E (c # cs) s = ks_perform_all E cs (snd (ks_perform E c s))"

lemma ks_perform_all_synced: "ks_synced s \<Longrightarrow> ks_synced (ks_perform_all E cs s)"
proof (induction cs arbitrary: s)
  case (Cons c cs)
  then show ?case by (cases c) (simp_all add: ks_trip_synced ks_reset_synced)
qed simp

lemma new_kill_switch_synced:
  "(\<And>M. L = Some M \<Longrightarrow> ks_keys_ok (ledger_events M NS_INCIDENT)) \<Longrightarrow> ks_synced (new_kill_switch L n)"
  by (auto simp: new_kill_switch_def ks_synced_def Let_def split: option.splits prod.splits)

lemma ks_synced_rebuild:
  "ks_synced s \<Longrightarrow> ks_ledgers s = Some L \<Longrightarrow>
   ks_tripped (new_kill_switch (Some L) n) = ks_tripped s \<and> ks_reason (new_kill_switch (Some L) n) = ks_reason s"
  by (simp add: ks_synced_def new_kill_switch_def)

section \<open>Empty reasons\<close>

lemma reason_if_Nil [simp]: "reason_if b r = [] \<longleftrightarrow> \<not> b"
  by (simp add: reason_if_def)

lemma reason_if_set [simp]: "x \<in> set (reason_if b r) \<longleftrightarrow> b \<and> x = r"
  by (auto simp: reason_if_def)

lemma hits_iff [simp]: "hits ids xs \<longleftrightarrow> (\<exists>i \<in> set ids. i \<in> set xs)"
  by (auto simp: hits_def list_ex_iff)

text \<open>Everything but the limits is in order for the target.\<close>

definition clear_state :: "kill_switch \<Rightarrow> risk_request \<Rightarrow> bool" where
  "clear_state k rq \<longleftrightarrow>
     (let t = rq_target rq; m = rq_market rq; p = rq_policy rq
      in list_all (\<lambda>l. limit_name l \<in> set supported_limits) (hard_limits p) \<and> effective_at p \<le> ac_as_of (rq_account rq) \<and>
         risk_constraints_version t = policy_version p \<and> \<not> ks_tripped k \<and> \<not> rm_model_drift m \<and> \<not> rm_unsupported m \<and> rm_clean m \<and>
         list_all (\<lambda>i. i \<notin> set (rm_stale m) \<and> dict_get (rm_stale_seconds m) i 0 \<le> 0 \<and> i \<notin> set (rm_disagreed m) \<and>
           i \<notin> set (rm_expired m) \<and> dict_has (rm_marks m) i) (target_ids t))"

lemma state_reasons_Nil: "state_reasons k rq = [] \<longleftrightarrow> clear_state k rq"
  by (auto simp: state_reasons_def clear_state_def policy_reasons_def kill_reason_def missing_marks_def Let_def
      list_all_iff list_ex_iff filter_empty_conv not_less)

definition target_gross :: "risk_request \<Rightarrow> dec" where
  "target_gross rq = dsum (map (\<lambda>(i, v). dabs v) (proposed_notional (rq_target rq) (rq_market rq)))"

definition target_net :: "risk_request \<Rightarrow> dec" where
  "target_net rq = dsum (map snd (proposed_notional (rq_target rq) (rq_market rq)))"

definition limit_holds :: "risk_env \<Rightarrow> risk_request \<Rightarrow> risk_limit \<Rightarrow> bool" where
  "limit_holds E rq l = (case kernel_limit_value E rq (limit_name l) (target_gross rq) (target_net rq) (gross_notional (rq_account rq)) of
     None \<Rightarrow> False | Some v \<Rightarrow> dval v \<le> dval (limit_value l))"

lemma limit_reasons_Nil: "limit_reasons E rq = [] \<longleftrightarrow> list_all (limit_holds E rq) (hard_limits (rq_policy rq))"
  by (auto simp: limit_reasons_def limit_holds_def target_gross_def target_net_def Let_def list_all_iff dlt_iff not_less
      split: option.splits)

lemma kernel_reasons_Nil:
  "kernel_reasons E k rq = [] \<longleftrightarrow> clear_state k rq \<and> list_all (limit_holds E rq) (hard_limits (rq_policy rq))"
  by (simp add: kernel_reasons_def state_reasons_Nil limit_reasons_Nil)

lemma mk_risk_decision_Inr:
  "mk_risk_decision aid (Aware now 0) tp pol oc h rs red = Inr d \<Longrightarrow>
   dec_outcome d = oc \<and> dec_reasons d = map strip rs \<and> dec_reduced_positions d = red \<and> dec_state_hash d = strip h \<and>
   dec_risk_policy_id d = pol \<and> dec_target_portfolio_id d = tp"
  by (auto simp: mk_risk_decision_def rbind_eq_Inr require_aware_Inr require_digest_Inr split: if_splits)

lemma bound_hash_Inr:
  "bound_hash E sha a m = Inr h \<Longrightarrow> \<exists>sn. take_snapshot (rk_account_sha E) a = Inr sn \<and>
     h = rk_text_sha E (sn_state_hash sn @ '':'' @ effective_hash sha m)"
  by (auto simp: bound_hash_def rbind_eq_Inr)

lemma evaluate_plain_outcome:
  assumes "evaluate_plain E sha k aid now rq = Inr d"
  shows "dec_outcome d = (if kernel_reasons E k rq = [] then APPROVED else RISK_REJECTED)"
    and "\<exists>h. bound_hash E sha (rq_account rq) (rq_market rq) = Inr h \<and> dec_state_hash d = strip h"
    and "dec_risk_policy_id d = artifact_id (rq_policy rq)"
  using assms by (auto simp: evaluate_plain_def rbind_eq_Inr Let_def dest!: mk_risk_decision_Inr)

lemma approves_Inr:
  "approves E sha k aid now rq f = Inr b \<Longrightarrow> b \<longleftrightarrow> kernel_reasons E k (rq\<lparr>rq_target := candidate rq f\<rparr>) = []"
  by (auto simp: approves_def rbind_eq_Inr dest!: evaluate_plain_outcome(1) split: if_splits)

section \<open>Bisection\<close>

text \<open>One halving step keeps the factor between zero and one.\<close>

lemma half_val: "dval (ddiv (dadd low high) (Dec 2 0)) = rnd (rnd (dval low + dval high) / 2)"
  by (simp add: dval_ddiv dval_dadd dval_Dec)

lemma half_bounds:
  assumes "0 \<le> dval low" "dval low \<le> 1" "0 \<le> dval high" "dval high \<le> 1"
  shows "0 \<le> dval (ddiv (dadd low high) (Dec 2 0))" "dval (ddiv (dadd low high) (Dec 2 0)) \<le> 1"
proof -
  have "rnd (dval low + dval high) \<le> rnd (of_int 2)" using assms by (intro rnd_mono) simp
  then have "rnd (dval low + dval high) \<le> 2" using rnd_int [of 2] by simp
  then show "dval (ddiv (dadd low high) (Dec 2 0)) \<le> 1"
    unfolding half_val by (intro ctx.round_le_fits ctx.fits_1) simp
  show "0 \<le> dval (ddiv (dadd low high) (Dec 2 0))"
    unfolding half_val using assms by (intro ctx.round_nonneg) (simp add: ctx.round_nonneg)
qed

lemma bisect_result:
  assumes "bisect n ok low high = Inr r" "0 \<le> dval low" "dval low \<le> 1" "0 \<le> dval high" "dval high \<le> 1"
  shows "0 \<le> dval r \<and> dval r \<le> 1 \<and> (r = low \<or> ok r = Inr True)"
  using assms
proof (induction n arbitrary: low high)
  case (Suc n)
  let ?mid = "ddiv (dadd low high) (Dec 2 0)"
  obtain b where b: "ok ?mid = Inr b" "(if b then bisect n ok ?mid high else bisect n ok low ?mid) = Inr r"
    using Suc.prems(1) by (auto simp: Let_def rbind_eq_Inr)
  then show ?case using Suc.IH Suc.prems half_bounds [OF Suc.prems(2-5)] by (cases b) auto
qed simp

lemma half_error:
  assumes "0 \<le> dval low" "dval low \<le> 1" "0 \<le> dval high" "dval high \<le> 1"
  shows "\<bar>dval (ddiv (dadd low high) (Dec 2 0)) - (dval low + dval high) / 2\<bar> \<le> 3 / 10 ^ 27"
proof -
  let ?s = "dval low + dval high"
  have s: "\<bar>?s\<bar> \<le> 2" using assms by simp
  have e1: "\<bar>rnd ?s - ?s\<bar> \<le> 2 / 10 ^ 27" using rnd_error [of ?s] s by (simp add: field_simps)
  moreover have "(2 / 10 ^ 27 :: rat) \<le> 2" by simp
  ultimately have "\<bar>rnd ?s\<bar> \<le> 4" using s by linarith
  then have e2: "\<bar>rnd (rnd ?s / 2) - rnd ?s / 2\<bar> \<le> 2 / 10 ^ 27"
    using rnd_error [of "rnd ?s / 2"] by (simp add: field_simps)
  have "rnd (rnd ?s / 2) - ?s / 2 = (rnd (rnd ?s / 2) - rnd ?s / 2) + (rnd ?s - ?s) / 2" by (simp add: field_simps)
  moreover have "\<bar>(rnd ?s - ?s) / 2\<bar> \<le> 1 / 10 ^ 27" using e1 by simp
  ultimately have "\<bar>rnd (rnd ?s / 2) - ?s / 2\<bar> \<le> 2 / 10 ^ 27 + 1 / 10 ^ 27" using e2 by linarith
  then show ?thesis unfolding half_val by simp
qed

text \<open>
  The bracket: the search returns a factor below some factor that was refused (or below the upper end), and
  the gap halves at every step up to the rounding.
\<close>

lemma gap_step:
  fixes x g g' c :: rat
  assumes "\<bar>x - g' / 2 ^ n\<bar> \<le> 2 * c * (1 - 1 / 2 ^ n)" "\<bar>g' - g / 2\<bar> \<le> c"
  shows "\<bar>x - g / 2 ^ Suc n\<bar> \<le> 2 * c * (1 - 1 / 2 ^ Suc n)"
proof -
  have "g' / 2 ^ n - g / 2 ^ Suc n = (g' - g / 2) / 2 ^ n" by (simp add: field_simps)
  then have "\<bar>g' / 2 ^ n - g / 2 ^ Suc n\<bar> \<le> c / 2 ^ n"
    using assms(2) by (simp add: abs_divide divide_right_mono)
  moreover have "2 * c * (1 - 1 / 2 ^ n) + c / 2 ^ n = 2 * c * (1 - 1 / 2 ^ Suc n)" by (simp add: field_simps)
  ultimately show ?thesis using assms(1) by linarith
qed

lemma bisect_bracket:
  assumes "bisect n ok low high = Inr r" "0 \<le> dval low" "dval low \<le> 1" "0 \<le> dval high" "dval high \<le> 1"
    and "high = upper \<or> ok high = Inr False"
  shows "\<exists>high'. (high' = upper \<or> ok high' = Inr False) \<and> 0 \<le> dval high' \<and> dval high' \<le> 1 \<and>
    \<bar>dval high' - dval r - (dval high - dval low) / 2 ^ n\<bar> \<le> 2 * (3 / 10 ^ 27) * (1 - 1 / 2 ^ n)"
  using assms
proof (induction n arbitrary: low high)
  case (Suc n)
  let ?mid = "ddiv (dadd low high) (Dec 2 0)" and ?d = "dval high - dval low"
  have mid: "\<bar>dval ?mid - (dval low + dval high) / 2\<bar> \<le> 3 / 10 ^ 27" by (rule half_error [OF Suc.prems(2-5)])
  have near: "\<bar>dval high - dval ?mid - ?d / 2\<bar> \<le> 3 / 10 ^ 27" "\<bar>dval ?mid - dval low - ?d / 2\<bar> \<le> 3 / 10 ^ 27"
    using mid by (simp_all add: abs_if field_simps split: if_splits)
  obtain b where b: "ok ?mid = Inr b" "(if b then bisect n ok ?mid high else bisect n ok low ?mid) = Inr r"
    using Suc.prems(1) by (auto simp: Let_def rbind_eq_Inr)
  show ?case
  proof (cases b)
    case True
    then obtain h where h: "h = upper \<or> ok h = Inr False" "0 \<le> dval h" "dval h \<le> 1"
        "\<bar>dval h - dval r - (dval high - dval ?mid) / 2 ^ n\<bar> \<le> 2 * (3 / 10 ^ 27) * (1 - 1 / 2 ^ n)"
      using Suc.IH [of ?mid high] b half_bounds [OF Suc.prems(2-5)] Suc.prems(4-6) by auto
    show ?thesis by (rule exI [of _ h]) (use h(1-3) gap_step [OF h(4) near(1)] in blast)
  next
    case False
    then obtain h where h: "h = upper \<or> ok h = Inr False" "0 \<le> dval h" "dval h \<le> 1"
        "\<bar>dval h - dval r - (dval ?mid - dval low) / 2 ^ n\<bar> \<le> 2 * (3 / 10 ^ 27) * (1 - 1 / 2 ^ n)"
      using Suc.IH [of low ?mid] b half_bounds [OF Suc.prems(2-5)] Suc.prems(2,3) by auto
    show ?thesis by (rule exI [of _ h]) (use h(1-3) gap_step [OF h(4) near(2)] in blast)
  qed
qed auto

section \<open>Decisions\<close>

lemma reduced_target_Inr:
  assumes "reduced_target E sha k aid now rq reasons = Inr (Some t)"
  shows "\<exists>f. t = candidate rq f \<and> 0 < dval f \<and> dval f \<le> 1 \<and> list_all (\<lambda>r. reason_name r \<in> set reducible) reasons \<and>
    kernel_reasons E k (rq\<lparr>rq_target := t\<rparr>) = [] \<and>
    bisect 48 (approves E sha k aid now rq) d0 d1 = Inr f"
proof -
  obtain f where f: "bisect 48 (approves E sha k aid now rq) d0 d1 = Inr f" "t = candidate rq f" "\<not> dle f d0"
      "list_all (\<lambda>r. reason_name r \<in> set reducible) reasons"
    using assms by (auto simp: reduced_target_def Let_def rbind_eq_Inr list_ex_iff list_all_iff split: if_splits)
  have "0 \<le> dval f \<and> dval f \<le> 1 \<and> (f = d0 \<or> approves E sha k aid now rq f = Inr True)"
    by (rule bisect_result [OF f(1)]) simp_all
  moreover have "f \<noteq> d0" "0 < dval f" using f(3) by (auto simp: dle_iff not_le simp del: dval_eq_0)
  ultimately show ?thesis using f approves_Inr by blast
qed

text \<open>The three shapes of a decision.\<close>

lemma evaluate_cases:
  assumes "evaluate E sha k aid now rq allow = Inr d"
  obtains (approved) "kernel_reasons E k rq = []" "dec_outcome d = APPROVED" "dec_reduced_positions d = []"
  | (rejected) "kernel_reasons E k rq \<noteq> []" "dec_outcome d = RISK_REJECTED" "dec_reduced_positions d = []"
  | (reduced) f where "allow" "kernel_reasons E k rq \<noteq> []" "dec_outcome d = REDUCED"
      "dec_reduced_positions d = tp_positions (candidate rq f)" "0 < dval f" "dval f \<le> 1"
      "list_all (\<lambda>r. reason_name r \<in> set reducible) (kernel_reasons E k rq)"
      "kernel_reasons E k (rq\<lparr>rq_target := candidate rq f\<rparr>) = []"
      "bisect 48 (approves E sha k aid now rq) d0 d1 = Inr f"
proof -
  let ?plain = "\<lambda>h. mk_risk_decision aid (Aware now 0) (artifact_id (rq_target rq)) (artifact_id (rq_policy rq))
               (if kernel_reasons E k rq = [] then APPROVED else RISK_REJECTED) h (fromkeys (kernel_reasons E k rq)) []"
  have plain: thesis if "?plain h = Inr d" for h
    using mk_risk_decision_Inr [OF that] approved rejected by (cases "kernel_reasons E k rq = []") auto
  obtain h where h: "rbind (if kernel_reasons E k rq \<noteq> [] \<and> allow then reduced_target E sha k aid now rq (kernel_reasons E k rq) else Inr None)
      (\<lambda>reduced. case reduced of None \<Rightarrow> ?plain h
        | Some t \<Rightarrow> rbind (evaluate_plain E sha k aid now (rq\<lparr>rq_target := t\<rparr>)) (\<lambda>d.
                if dec_outcome d = APPROVED
                then mk_risk_decision aid (Aware now 0) (artifact_id (rq_target rq)) (artifact_id (rq_policy rq))
                       REDUCED h (fromkeys (kernel_reasons E k rq @ [''target_reduced_to_policy_limits''])) (tp_positions t)
                else ?plain h)) = Inr d"
    using assms by (auto simp: evaluate_def Let_def rbind_eq_Inr)
  show thesis
  proof (cases "kernel_reasons E k rq \<noteq> [] \<and> allow")
    case False
    then have "?plain h = Inr d" using h by (simp split: if_splits)
    then show thesis by (rule plain)
  next
    case True
    with h obtain red where red: "reduced_target E sha k aid now rq (kernel_reasons E k rq) = Inr red"
        and red_d: "(case red of None \<Rightarrow> ?plain h
        | Some t \<Rightarrow> rbind (evaluate_plain E sha k aid now (rq\<lparr>rq_target := t\<rparr>)) (\<lambda>d.
                if dec_outcome d = APPROVED
                then mk_risk_decision aid (Aware now 0) (artifact_id (rq_target rq)) (artifact_id (rq_policy rq))
                       REDUCED h (fromkeys (kernel_reasons E k rq @ [''target_reduced_to_policy_limits''])) (tp_positions t)
                else ?plain h)) = Inr d"
      by (auto simp: rbind_eq_Inr)
    show thesis
    proof (cases red)
      case None
      then show thesis using red_d plain by simp
    next
      case (Some t)
      then obtain d' :: risk_decision where d': "(if dec_outcome d' = APPROVED
                then mk_risk_decision aid (Aware now 0) (artifact_id (rq_target rq)) (artifact_id (rq_policy rq))
                       REDUCED h (fromkeys (kernel_reasons E k rq @ [''target_reduced_to_policy_limits''])) (tp_positions t)
                else ?plain h) = Inr d"
        using red_d unfolding Some option.case rbind_eq_Inr by blast
      show thesis
      proof (cases "dec_outcome d' = APPROVED")
        case False
        then show thesis using d' plain by simp
      next
        case True
        from reduced_target_Inr [OF red [unfolded Some]] obtain f where
          "t = candidate rq f" "0 < dval f" "dval f \<le> 1" "list_all (\<lambda>r. reason_name r \<in> set reducible) (kernel_reasons E k rq)"
          "kernel_reasons E k (rq\<lparr>rq_target := t\<rparr>) = []" "bisect 48 (approves E sha k aid now rq) d0 d1 = Inr f" by blast
        moreover have "dec_outcome d = REDUCED \<and> dec_reduced_positions d = tp_positions t"
          using d' True mk_risk_decision_Inr by fastforce
        ultimately show thesis using reduced \<open>_ \<and> allow\<close> by blast
      qed
    qed
  qed
qed

section \<open>Totality\<close>

text \<open>A text without outer blanks; the reasons of the kernel are such texts.\<close>

definition tidy :: "string \<Rightarrow> bool" where
  "tidy s \<longleftrightarrow> s \<noteq> [] \<and> \<not> is_space (hd s) \<and> \<not> is_space (last s)"

lemma tidy_strip: "tidy s \<Longrightarrow> strip s = s \<and> \<not> blank s"
  by (auto simp: tidy_def strip_id blank_def)

lemma tidy_append: "tidy a \<Longrightarrow> tidy b \<Longrightarrow> tidy (a @ m @ b)"
  by (simp add: tidy_def)

lemma tidy_exceeds: "tidy n \<Longrightarrow> tidy (limit_unit l) \<Longrightarrow> tidy (exceeds n v l)"
  by (simp add: exceeds_def tidy_def)

lemma tidy_join: "xs \<noteq> [] \<Longrightarrow> list_all tidy xs \<Longrightarrow> tidy (join sep xs)"
  by (induction sep xs rule: join.induct) (auto simp: tidy_def)

definition policy_tidy :: "risk_policy \<Rightarrow> bool" where
  "policy_tidy p \<longleftrightarrow> list_all (\<lambda>l. tidy (limit_name l) \<and> tidy (limit_unit l)) (hard_limits p)"

text \<open>The inputs that their constructors let through.\<close>

definition request_ok :: "risk_env \<Rightarrow> kill_switch \<Rightarrow> risk_request \<Rightarrow> bool" where
  "request_ok E k rq \<longleftrightarrow> acct_ok (rq_account rq) \<and> policy_tidy (rq_policy rq) \<and>
     distinct (map pos_id (tp_positions (rq_target rq))) \<and> list_all (\<lambda>p. tidy (pos_id p)) (tp_positions (rq_target rq)) \<and>
     opt_all tidy (ks_reason k) \<and> (\<forall>d. is_digest (rk_account_sha E d)) \<and> (\<forall>t. is_digest (rk_text_sha E t))"

lemma hex_not_space: "is_hex_digit c \<Longrightarrow> \<not> is_space c"
  by (simp add: is_hex_digit_def) (elim disjE; simp add: is_space_def)

lemma is_digest_strip: "is_digest h \<Longrightarrow> strip h = h"
proof (rule strip_id)
  assume h: "is_digest h"
  have nsp: "\<not> is_space c" if "c \<in> set h" for c
    using h that hex_not_space by (simp add: is_digest_def list_all_iff)
  show "h = [] \<or> \<not> is_space (hd h) \<and> \<not> is_space (last h)"
    using nsp by (cases "h = []") simp_all
qed

lemma tidy_literals:
  "tidy ''risk_policy_not_yet_effective''" "tidy ''risk_policy_version_mismatch''" "tidy ''stale_market_data''"
  "tidy ''disagreed_market_data''" "tidy ''model_drift''" "tidy ''unsupported_regime''" "tidy ''expired_forecast''"
  "tidy ''reconciliation_not_clean''" "tidy ''target_reduced_to_policy_limits''" "tidy ''kill_switch:None''"
  by (simp_all add: tidy_def is_space_def)

lemma tidy_Cons: "tidy s \<Longrightarrow> tidy (c # s) \<longleftrightarrow> \<not> is_space c"
  by (auto simp: tidy_def)

lemma tidy_prefixed:
  "tidy s \<Longrightarrow> tidy (''unsupported_hard_limit:'' @ s)" "tidy s \<Longrightarrow> tidy (''kill_switch:'' @ s)" "tidy s \<Longrightarrow> tidy (''missing_market_data:'' @ s)"
  by (simp_all add: tidy_Cons is_space_def)

lemma kernel_reasons_tidy:
  assumes "policy_tidy (rq_policy rq)" "list_all (\<lambda>p. tidy (pos_id p)) (tp_positions (rq_target rq))" "opt_all tidy (ks_reason k)"
  shows "list_all tidy (kernel_reasons E k rq)"
proof -
  let ?missing = "sort (missing_marks (rq_target rq) (rq_market rq))"
  have p: "tidy (limit_name l)" "tidy (limit_unit l)" if "l \<in> set (hard_limits (rq_policy rq))" for l
    using assms(1) that by (auto simp: policy_tidy_def list_all_iff)
  have "list_all tidy (policy_reasons (rq_policy rq) t)" for t
    using p by (auto simp: policy_reasons_def list_all_iff tidy_literals tidy_Cons is_space_def)
  moreover have "list_all tidy (kill_reason k)"
    using assms(3) tidy_literals(10) by (auto simp: kill_reason_def list_all_iff tidy_Cons is_space_def split: option.splits)
  moreover have "list_all tidy ?missing" using assms(2) by (auto simp: missing_marks_def target_ids_def list_all_iff)
  then have "missing_marks (rq_target rq) (rq_market rq) \<noteq> [] \<Longrightarrow> tidy (''missing_market_data:'' @ join '','' ?missing)"
    by (intro tidy_prefixed tidy_join) (simp_all flip: set_empty)
  ultimately have state: "list_all tidy (state_reasons k rq)"
    by (auto simp: state_reasons_def Let_def list_all_iff tidy_literals)
  have "list_all tidy (limit_reasons E rq)"
    using p by (auto simp: limit_reasons_def Let_def list_all_iff tidy_Cons is_space_def tidy_exceeds split: option.splits)
  then show ?thesis using state by (simp add: kernel_reasons_def)
qed

lemma map_strip_tidy: "list_all tidy xs \<Longrightarrow> map strip xs = xs"
  by (induction xs) (simp_all add: tidy_strip)

lemma mk_risk_decision_ok:
  assumes "is_digest h" "list_all tidy rs" "distinct rs" "oc = RISK_REJECTED \<Longrightarrow> rs \<noteq> []" "oc = REDUCED \<longleftrightarrow> red \<noteq> []"
    "distinct (map pos_id red)"
  shows "\<exists>d. mk_risk_decision aid (Aware now 0) tp pol oc h rs red = Inr d \<and> dec_outcome d = oc \<and> dec_state_hash d = h"
proof -
  have h: "strip h = h" "require_digest h = Inr h" using assms(1) by (simp_all add: is_digest_strip require_digest_Inr)
  have r: "map strip rs = rs" "list_all (\<lambda>r. \<not> blank r) rs"
    using assms(2) by (simp_all add: map_strip_tidy list_all_iff tidy_strip)
  show ?thesis using assms(3-6) by (cases oc) (auto simp: mk_risk_decision_def require_aware_def h r)
qed

lemma bound_hash_ok:
  assumes "request_ok E k rq"
  shows "\<exists>h. bound_hash E sha (rq_account rq) (rq_market rq) = Inr h \<and> is_digest h"
  using take_snapshot_ok [of "rq_account rq" "rk_account_sha E"] assms by (auto simp: bound_hash_def request_ok_def)

lemma set_fromkeys_all: "list_all P xs \<Longrightarrow> list_all P (fromkeys xs)"
  by (simp add: list_all_iff)

lemma plain_decision_ok:
  assumes "request_ok E k rq" "is_digest h"
  shows "\<exists>d. mk_risk_decision aid (Aware now 0) tp pol (if kernel_reasons E k rq = [] then APPROVED else RISK_REJECTED) h
     (fromkeys (kernel_reasons E k rq)) [] = Inr d \<and> dec_outcome d = (if kernel_reasons E k rq = [] then APPROVED else RISK_REJECTED)"
proof -
  have "list_all tidy (fromkeys (kernel_reasons E k rq))"
    using assms(1) by (intro set_fromkeys_all kernel_reasons_tidy) (simp_all add: request_ok_def)
  note d = mk_risk_decision_ok [OF assms(2) this, of "if kernel_reasons E k rq = [] then APPROVED else RISK_REJECTED" "[]"]
  show ?thesis using d [of aid now tp pol] by (auto split: if_splits)
qed

lemma evaluate_plain_ok:
  assumes "request_ok E k rq"
  shows "\<exists>d. evaluate_plain E sha k aid now rq = Inr d \<and> dec_outcome d = (if kernel_reasons E k rq = [] then APPROVED else RISK_REJECTED)"
proof -
  obtain h where h: "bound_hash E sha (rq_account rq) (rq_market rq) = Inr h" "is_digest h" using bound_hash_ok [OF assms] by blast
  show ?thesis using plain_decision_ok [OF assms h(2)] h(1) by (simp add: evaluate_plain_def Let_def)
qed

lemma candidate_ids [simp]: "map pos_id (tp_positions (candidate rq f)) = map pos_id (tp_positions (rq_target rq))"
  by (simp add: candidate_def Let_def comp_def)

lemma candidate_ok: "request_ok E k rq \<Longrightarrow> request_ok E k (rq\<lparr>rq_target := candidate rq f\<rparr>)"
  unfolding request_ok_def by (simp add: list_all_iff) (simp add: candidate_def Let_def)

lemma approves_ok:
  "request_ok E k rq \<Longrightarrow> approves E sha k aid now rq f = Inr (kernel_reasons E k (rq\<lparr>rq_target := candidate rq f\<rparr>) = [])"
  using evaluate_plain_ok [OF candidate_ok, of E k rq sha aid now f] by (auto simp: approves_def)

lemma bisect_ok: "(\<And>f. is_ok (ok f)) \<Longrightarrow> \<exists>r. bisect n ok low high = Inr r"
proof (induction n arbitrary: low high)
  case (Suc n)
  obtain b where "ok (ddiv (dadd low high) (Dec 2 0)) = Inr b"
    using Suc.prems by (metis is_ok_simps(1) old.sum.exhaust)
  then show ?case using Suc by (cases b) (simp_all add: Let_def)
qed simp

lemma bisect_pos: "bisect n ok low high = Inr r \<Longrightarrow> 0 < dval low \<Longrightarrow> 0 \<le> dval high \<Longrightarrow> 0 < dval r"
proof (induction n arbitrary: low high)
  case (Suc n)
  let ?mid = "ddiv (dadd low high) (Dec 2 0)"
  have "0 < rnd (dval low + dval high) / 2" using Suc.prems by (simp add: rnd_pos)
  then have mid: "0 < dval ?mid" unfolding half_val by (rule rnd_pos)
  obtain b where "ok ?mid = Inr b" "(if b then bisect n ok ?mid high else bisect n ok low ?mid) = Inr r"
    using Suc.prems(1) by (auto simp: Let_def rbind_eq_Inr)
  then show ?case using Suc.IH Suc.prems mid by (cases b) (auto simp: less_imp_le)
qed simp

lemma reduced_target_ok: "request_ok E k rq \<Longrightarrow> \<exists>t. reduced_target E sha k aid now rq reasons = Inr t"
proof -
  assume ok: "request_ok E k rq"
  obtain f where "bisect 48 (approves E sha k aid now rq) d0 d1 = Inr f"
    using bisect_ok [of "approves E sha k aid now rq"] approves_ok [OF ok] by fastforce
  then show ?thesis using approves_ok [OF ok] by (simp add: reduced_target_def Let_def)
qed

lemma candidate_nonempty: "reduced_target E sha k aid now rq reasons = Inr (Some t) \<Longrightarrow> tp_positions t \<noteq> []"
  by (auto simp: reduced_target_def Let_def rbind_eq_Inr candidate_def split: if_splits)

text \<open>The outcome of an evaluation, computed without the decision record.\<close>

lemma evaluate_ok:
  assumes ok: "request_ok E k rq"
  shows "\<exists>d. evaluate E sha k aid now rq allow = Inr d \<and>
    dec_outcome d = (if kernel_reasons E k rq = [] then APPROVED
      else if allow \<and> reduced_target E sha k aid now rq (kernel_reasons E k rq) \<noteq> Inr None then REDUCED else RISK_REJECTED)"
proof -
  let ?rs = "kernel_reasons E k rq"
  obtain h where h: "bound_hash E sha (rq_account rq) (rq_market rq) = Inr h" "is_digest h" using bound_hash_ok [OF ok] by blast
  obtain d where d: "mk_risk_decision aid (Aware now 0) (artifact_id (rq_target rq)) (artifact_id (rq_policy rq))
      (if ?rs = [] then APPROVED else RISK_REJECTED) h (fromkeys ?rs) [] = Inr d"
      "dec_outcome d = (if ?rs = [] then APPROVED else RISK_REJECTED)"
    using plain_decision_ok [OF ok h(2)] by blast
  obtain red where red: "reduced_target E sha k aid now rq ?rs = Inr red" using reduced_target_ok [OF ok] by blast
  show ?thesis
  proof (cases "?rs \<noteq> [] \<and> allow \<and> red \<noteq> None")
    case False
    then show ?thesis using h(1) d red by (auto simp: evaluate_def Let_def)
  next
    case True
    then obtain t where t: "red = Some t" by blast
    obtain f where f: "t = candidate rq f" "kernel_reasons E k (rq\<lparr>rq_target := t\<rparr>) = []"
      using reduced_target_Inr [OF red [unfolded t]] by blast
    obtain e where e: "evaluate_plain E sha k aid now (rq\<lparr>rq_target := t\<rparr>) = Inr e" "dec_outcome e = APPROVED"
      using evaluate_plain_ok [OF candidate_ok [OF ok, of f], of sha aid now] f by auto
    have "list_all tidy (fromkeys (?rs @ [''target_reduced_to_policy_limits'']))"
      using ok by (intro set_fromkeys_all) (simp add: tidy_literals kernel_reasons_tidy request_ok_def)
    moreover have "distinct (map pos_id (tp_positions t))" using ok by (simp add: f(1) request_ok_def)
    ultimately obtain d' where "mk_risk_decision aid (Aware now 0) (artifact_id (rq_target rq)) (artifact_id (rq_policy rq)) REDUCED h
        (fromkeys (?rs @ [''target_reduced_to_policy_limits''])) (tp_positions t) = Inr d'" "dec_outcome d' = REDUCED"
      using mk_risk_decision_ok [OF h(2), of "fromkeys (?rs @ [''target_reduced_to_policy_limits''])" REDUCED "tp_positions t"]
        candidate_nonempty [OF red [unfolded t]] by fastforce
    then show ?thesis using True t e h(1) red by (simp add: evaluate_def Let_def)
  qed
qed

text \<open>Every decision carries the hash of account and market and the policy it was made for.\<close>

lemma evaluate_binds:
  assumes "evaluate E sha k aid now rq allow = Inr d"
  shows "\<exists>h. bound_hash E sha (rq_account rq) (rq_market rq) = Inr h \<and> dec_state_hash d = strip h \<and>
    dec_risk_policy_id d = artifact_id (rq_policy rq)"
proof -
  obtain h where h: "bound_hash E sha (rq_account rq) (rq_market rq) = Inr h"
    and d: "\<exists>oc rs red. mk_risk_decision aid (Aware now 0) (artifact_id (rq_target rq)) (artifact_id (rq_policy rq)) oc h rs red = Inr d"
    using assms by (auto simp: evaluate_def Let_def rbind_eq_Inr split: option.splits if_splits) blast+
  then show ?thesis by (auto dest: mk_risk_decision_Inr)
qed

end
