(* ===== verification/Risk_Properties.thy ===== *)
theory Risk_Properties
  imports Risk_Facts Oms
begin

text \<open>
  The properties of the risk kernel: when it approves, what a reduction is, that it always decides, that an
  approved order was checked against the state the target was approved for, and the kill switch.
\<close>

section \<open>Order checks\<close>

lemma over_Nil [simp]: "over n v l = [] \<longleftrightarrow> dval v \<le> dval (limit_value l)"
  by (simp add: over_def dlt_iff not_less)

lemma check_order_Inr:
  assumes "check_order E sha k ord a m p = Inr c"
  shows "chk_reasons c = order_gate_reasons k ord a m p @ order_limit_reasons ord a m p" "chk_approved c \<longleftrightarrow> chk_reasons c = []"
    "chk_policy_id c = Some (artifact_id p)" "\<exists>h. bound_hash E sha a m = Inr h \<and> chk_state_hash c = Some h"
  using assms by (auto simp: check_order_def rbind_eq_Inr Let_def)

text \<open>The order passes the gates that no policy can switch off.\<close>

definition order_clear :: "kill_switch \<Rightarrow> order \<Rightarrow> account \<Rightarrow> market \<Rightarrow> risk_policy \<Rightarrow> bool" where
  "order_clear k ord a m p \<longleftrightarrow>
     (let i = canonical_id (ord_instrument ord)
      in list_all (\<lambda>l. limit_name l \<in> set supported_limits) (hard_limits p) \<and> effective_at p \<le> ac_as_of a \<and> \<not> ks_tripped k \<and>
         i \<notin> set (rm_stale m) \<and> dict_has (rm_marks m) i \<and> dict_get (rm_stale_seconds m) i 0 \<le> 0 \<and> i \<notin> set (rm_disagreed m) \<and>
         rm_clock_drift m = 0 \<and> \<not> rm_model_drift m \<and> \<not> rm_unsupported m \<and> i \<notin> set (rm_expired m) \<and> rm_clean m \<and>
         map_of (rm_venue_healthy m) i \<noteq> Some False \<and> ord_price ord \<noteq> None)"

lemma order_gate_Nil: "order_gate_reasons k ord a m p = [] \<longleftrightarrow> order_clear k ord a m p"
  by (auto simp: order_gate_reasons_def order_clear_def policy_reasons_def kill_reason_def Let_def list_all_iff
      filter_empty_conv not_less)

lemma order_limits_Nil:
  assumes "order_limit_reasons ord a m p = []" "ord_price ord = Some x" "map_of (rm_marks m) (canonical_id (ord_instrument ord)) = Some y"
    and "l \<in> set (hard_limits p)"
  shows "order_exposure_reasons (view_order (ord_side ord) (ord_quantity ord) x y (canonical_id (ord_instrument ord)) a m) x y a l = []"
    "order_market_reasons (view_order (ord_side ord) (ord_quantity ord) x y (canonical_id (ord_instrument ord)) a m)
       (canonical_id (ord_instrument ord)) a m l = []"
    "order_state_reasons (canonical_id (ord_instrument ord)) a m l = []"
  using assms by (auto simp: order_limit_reasons_def Let_def)

section \<open>Texts that bind\<close>

lemma snapshot_digest: "take_snapshot sha a = Inr sn \<Longrightarrow> is_digest (sn_state_hash sn)"
  by (auto simp: take_snapshot_def check_snapshot_def split: if_splits)

lemma digest_text_inj:
  assumes "a @ '':'' @ x = b @ '':'' @ y" "is_digest a" "is_digest b"
  shows "a = b \<and> x = y"
  using assms by (simp add: is_digest_def)

section \<open>Reduced quantities\<close>

lemma reduced_quantity_between:
  assumes "0 \<le> dval f" "dval f \<le> 1" "dec_fits (dval q - dval c)" "dec_fits (dval c)" "dec_fits (dval q)"
  shows "min (dval c) (dval q) \<le> dval (reduced_quantity c q f) \<and> dval (reduced_quantity c q f) \<le> max (dval c) (dval q)"
proof -
  let ?d = "dval q - dval c"
  let ?s = "rnd (?d * dval f)"
  have v: "dval (reduced_quantity c q f) = rnd (dval c + ?s)"
    using assms(3) by (simp add: reduced_quantity_def dval_dadd dval_dmul dval_dsub ctx.round_fits)
  show ?thesis
  proof (cases "0 \<le> ?d")
    case True
    have "0 \<le> ?s" using True assms(1) by (intro ctx.round_nonneg) simp
    moreover have "?s \<le> ?d" using True assms(2,3) by (intro ctx.round_le_fits) (simp_all add: mult_left_le)
    ultimately have "dval c \<le> rnd (dval c + ?s)" "rnd (dval c + ?s) \<le> dval q"
      using assms(4,5) by (auto intro: ctx.round_ge_fits ctx.round_le_fits)
    then show ?thesis using v True by simp
  next
    case False
    have "?s \<le> 0" using False assms(1) by (intro ctx.round_nonpos) (simp add: mult_nonpos_nonneg)
    moreover have "- ?d * dval f \<le> - ?d" using False assms(2) by (intro mult_left_le) simp_all
    then have "?d \<le> ?s" using assms(3) by (intro ctx.round_ge_fits) (simp_all add: algebra_simps)
    ultimately have "dval q \<le> rnd (dval c + ?s)" "rnd (dval c + ?s) \<le> dval c"
      using assms(4,5) by (auto intro: ctx.round_ge_fits ctx.round_le_fits)
    then show ?thesis using v False by simp
  qed
qed

section \<open>Properties\<close>

definition rk_env :: risk_env where
  "rk_env = \<lparr>rk_account_sha = ex_digest, rk_text_sha = (\<lambda>_. replicate 64 (CHR ''a'')),
     rk_event_sha = (\<lambda>_ _ _. ''0''), rk_iter = (\<lambda>xs. xs), rk_uuid = (\<lambda>n. n), rk_now = int\<rparr>"

definition rk_market :: market where
  "rk_market = \<lparr>rm_marks = [(''BTC'', Dec 6 0)], rm_stale = [], rm_hash = '''', rm_stale_seconds = [(''BTC'', 0)], rm_disagreed = [],
     rm_clock_drift = 0, rm_volatility = [], rm_liquidity = [], rm_spread = [], rm_slippage = [], rm_impact = [],
     rm_venue_healthy = [], rm_model_drift = False, rm_unsupported = False, rm_expired = [], rm_clean = True,
     rm_order_count = 0, rm_funding_bps = d0, rm_borrow_bps = d0, rm_counterparty = d0, rm_collateral = None\<rparr>"

definition rk_btc :: instrument where
  "rk_btc = \<lparr>artifact_id = 50, created_at = 0, canonical_id = ''BTC'', asset_class = Crypto, inst_venue = None, venue_symbol = None,
     base_asset = None, quote_asset = None, valid_from = None, valid_to = None\<rparr>"

definition rk_target :: "dec \<Rightarrow> target_portfolio" where
  "rk_target q = \<lparr>artifact_id = 60, created_at = 0, tp_snapshot_id = 1, tp_positions = [\<lparr>artifact_id = 61, created_at = 0,
     pos_instrument = rk_btc, target_quantity = q, expected_return_after_costs = None, rationale_artifact_ids = []\<rparr>],
     cash_target = Dec 10 0, construction_method = ''m'', expected_cost = d0, risk_constraints_version = ''v1'', no_trade_comparison = ''n''\<rparr>"

definition rk_policy :: "string \<Rightarrow> risk_policy" where
  "rk_policy name = \<lparr>artifact_id = 70, created_at = 0, policy_version = ''v1'', effective_at = 0,
     hard_limits = [\<lparr>artifact_id = 71, created_at = 0, limit_name = name, limit_value = Dec 15 0, limit_unit = ''usd''\<rparr>], approved_by = ''x''\<rparr>"

definition rk_request :: "dec \<Rightarrow> string \<Rightarrow> risk_request" where
  "rk_request q name = \<lparr>rq_target = rk_target q, rq_account = ex_account, rq_market = rk_market, rq_policy = rk_policy name\<rparr>"

definition rk_switch :: kill_switch where
  "rk_switch = new_kill_switch None 0"

lemma rk_request_ok: "tidy name \<Longrightarrow> request_ok rk_env rk_switch (rk_request q name)"
proof -
  have "acct_ok ex_account"
    by (rule mk_account_ok [OF ex_account_mk]) (simp_all add: ex_raw_def dict_ok_def)
  moreover have "is_digest (ex_digest d)" "is_digest (replicate 64 (CHR ''a''))" for d
    by (simp_all add: ex_digest_def is_digest_def list_all_iff is_hex_digit_def)
  ultimately show "tidy name \<Longrightarrow> ?thesis"
    by (simp add: request_ok_def rk_request_def rk_env_def rk_policy_def policy_tidy_def rk_target_def rk_btc_def
        rk_switch_def new_kill_switch_def tidy_def is_space_def)
qed

lemma rk_name_tidy: "tidy ''max_order_notional''"
  by (simp add: tidy_def is_space_def)

lemma rk_reduced: "\<exists>d. evaluate rk_env (\<lambda>_. '''') rk_switch 1 1 (rk_request (Dec 10 0) ''max_order_notional'') True = Inr d \<and>
    dec_outcome d = REDUCED"
proof -
  let ?rq = "rk_request (Dec 10 0) ''max_order_notional''"
  note ok = rk_request_ok [OF rk_name_tidy, of "Dec 10 0"]
  have reasons: "kernel_reasons rk_env rk_switch ?rq = [''max_order_notional:30>15usd'']"
    and half: "kernel_reasons rk_env rk_switch (?rq\<lparr>rq_target := candidate ?rq (ddiv (dadd d0 d1) (Dec 2 0))\<rparr>) = []"
    and zero: "kernel_reasons rk_env rk_switch (?rq\<lparr>rq_target := candidate ?rq d0\<rparr>) = []"
    and marks: "list_ex (\<lambda>p. \<not> dict_has (rm_marks (rq_market ?rq)) (pos_id p)) (tp_positions (rq_target ?rq)) = False"
      "tp_positions (rq_target ?rq) \<noteq> []" "list_ex (\<lambda>r. reason_name r \<notin> set reducible) [''max_order_notional:30>15usd''] = False"
    by code_simp+
  let ?ok = "approves rk_env (\<lambda>_. '''') rk_switch 1 1 ?rq"
  obtain f where f: "bisect 48 ?ok d0 d1 = Inr f"
    using bisect_ok [of ?ok] approves_ok [OF ok] by fastforce
  have "48 = Suc 47" by simp
  then have "bisect 47 ?ok (ddiv (dadd d0 d1) (Dec 2 0)) d1 = Inr f"
    using f approves_ok [OF ok, of "\<lambda>_. ''''" 1 1 "ddiv (dadd d0 d1) (Dec 2 0)"] half by (simp only: bisect.simps Let_def) simp
  moreover have "0 < dval (ddiv (dadd d0 d1) (Dec 2 0))" by (simp add: half_val rnd_pos)
  ultimately have "0 < dval f" using bisect_pos by fastforce
  then have "reduced_target rk_env (\<lambda>_. '''') rk_switch 1 1 ?rq (kernel_reasons rk_env rk_switch ?rq) \<noteq> Inr None"
    using f marks zero approves_ok [OF ok, of "\<lambda>_. ''''" 1 1 d0]
    by (simp add: reduced_target_def reasons Let_def dle_iff del: dval_eq_0)
  then show ?thesis using evaluate_ok [OF ok, of "\<lambda>_. ''''" 1 1 True] by (auto simp: reasons)
qed

text \<open>C3: The kernel approves exactly what the policy allows: a decision is APPROVED if and only if nothing about the
  state speaks against the target (kill switch, policy version and date, drift, regime, reconciliation; for
  every instrument of the target fresh, agreed, unexpired and marked data) and every hard limit of the policy
  is known and holds; whether reduction was allowed makes no difference.\<close>

theorem evaluate_approves_iff:
  assumes "evaluate E sha k aid now rq allow = Inr d"
  shows "dec_outcome d = APPROVED \<longleftrightarrow> clear_state k rq \<and> list_all (limit_holds E rq) (hard_limits (rq_policy rq))"
  using assms kernel_reasons_Nil [of E k rq] by (cases rule: evaluate_cases) auto

theorem evaluate_approves_iff_witness:
  "\<exists>d. evaluate rk_env (\<lambda>_. '''') rk_switch 1 1 (rk_request (Dec 6 0) ''max_order_notional'') False = Inr d \<and>
     dec_outcome d = APPROVED \<and> clear_state rk_switch (rk_request (Dec 6 0) ''max_order_notional'')"
proof -
  have "is_ok (evaluate rk_env (\<lambda>_. '''') rk_switch 1 1 (rk_request (Dec 6 0) ''max_order_notional'') False)" by code_simp
  then obtain d where d: "evaluate rk_env (\<lambda>_. '''') rk_switch 1 1 (rk_request (Dec 6 0) ''max_order_notional'') False = Inr d"
    by (cases "evaluate rk_env (\<lambda>_. '''') rk_switch 1 1 (rk_request (Dec 6 0) ''max_order_notional'') False") auto
  have "clear_state rk_switch (rk_request (Dec 6 0) ''max_order_notional'') \<and>
    list_all (limit_holds rk_env (rk_request (Dec 6 0) ''max_order_notional'')) (hard_limits (rq_policy (rk_request (Dec 6 0) ''max_order_notional'')))"
    unfolding kernel_reasons_Nil [symmetric] by code_simp
  then show ?thesis using evaluate_approves_iff [OF d] d by blast
qed

text \<open>C4: A reduced decision is safe: every reason against the original target was a limit that a smaller trade can
  meet, and the positions of the decision are those of a candidate, at some factor between zero and one, that
  the complete kernel accepts: its state is clear and all limits hold.\<close>

theorem reduction_safe:
  assumes "evaluate E sha k aid now rq allow = Inr d" "dec_outcome d = REDUCED"
  shows "\<exists>f. 0 < dval f \<and> dval f \<le> 1 \<and> dec_reduced_positions d = tp_positions (candidate rq f) \<and>
    clear_state k (rq\<lparr>rq_target := candidate rq f\<rparr>) \<and>
    list_all (limit_holds E (rq\<lparr>rq_target := candidate rq f\<rparr>)) (hard_limits (rq_policy rq)) \<and>
    list_all (\<lambda>r. reason_name r \<in> set reducible) (kernel_reasons E k rq)"
  using assms kernel_reasons_Nil
  by (cases rule: evaluate_cases) (auto simp del: dval_eq_0)

theorem reduction_safe_witness:
  "\<exists>d f. evaluate rk_env (\<lambda>_. '''') rk_switch 1 1 (rk_request (Dec 10 0) ''max_order_notional'') True = Inr d \<and>
     0 < dval f \<and> dval f \<le> 1 \<and> dec_reduced_positions d = tp_positions (candidate (rk_request (Dec 10 0) ''max_order_notional'') f)"
  using rk_reduced reduction_safe by blast

text \<open>A reduction only shrinks the trade: at a factor between zero and one the reduced quantity lies between the
  current position and the target, as long as both and their difference have at most 28 digits.\<close>

theorem reduction_between:
  assumes "p \<in> set (tp_positions (rq_target rq))" "0 \<le> dval f" "dval f \<le> 1"
    and "c = dval (dict_get (ac_positions (rq_account rq)) (pos_id p) d0)" "q = dval (target_quantity p)"
    and "list_all dec_fits [c, q, q - c]"
  shows "\<exists>p' \<in> set (tp_positions (candidate rq f)). pos_id p' = pos_id p \<and>
    min c q \<le> dval (target_quantity p') \<and> dval (target_quantity p') \<le> max c q"
proof -
  let ?p = "p\<lparr>target_quantity := reduced_quantity (dict_get (ac_positions (rq_account rq)) (pos_id p) d0) (target_quantity p) f\<rparr>"
  have "?p \<in> set (tp_positions (candidate rq f))" using assms(1) by (auto simp: candidate_def Let_def)
  moreover have "min c q \<le> dval (target_quantity ?p) \<and> dval (target_quantity ?p) \<le> max c q"
    using reduced_quantity_between [OF assms(2,3), of "target_quantity p" "dict_get (ac_positions (rq_account rq)) (pos_id p) d0"]
      assms(6) by (simp add: assms(4,5))
  ultimately show ?thesis by (intro bexI [of _ ?p]) simp_all
qed

theorem reduction_between_witness:
  "\<exists>p' \<in> set (tp_positions (candidate (rk_request (Dec 10 0) ''max_order_notional'') (Dec 5 (- 1)))).
     5 \<le> dval (target_quantity p') \<and> dval (target_quantity p') \<le> 10"
proof -
  let ?rq = "rk_request (Dec 10 0) ''max_order_notional''"
  obtain p where p: "p \<in> set (tp_positions (rq_target ?rq))" "pos_id p = ''BTC''" "target_quantity p = Dec 10 0"
    by (simp add: rk_request_def rk_target_def rk_btc_def)
  have c: "dict_get (ac_positions (rq_account ?rq)) ''BTC'' d0 = Dec 5 0" by code_simp
  have f: "0 \<le> dval (Dec 5 (- 1))" "dval (Dec 5 (- 1)) \<le> 1" by (simp_all add: dval_Dec power_int_minus)
  have v: "5 = dval (dict_get (ac_positions (rq_account ?rq)) (pos_id p) d0)" "10 = dval (target_quantity p)"
    by (simp_all add: p c dval_Dec)
  have "list_all dec_fits [5, 10, 10 - 5]" using fits_int [of 5] fits_int [of 10] by simp
  from reduction_between [OF p(1) f v this] show ?thesis by auto
qed

text \<open>C23: A reduction cannot be extended: when the kernel reduces a target, the factor of the search is approved by the
  complete kernel, and at most 1e-14 above it there is a factor that the kernel refuses, unless the search came that
  close to the whole requested trade, which was refused as well.\<close>

theorem reduction_maximal:
  assumes "evaluate E sha k aid now rq allow = Inr d" "dec_outcome d = REDUCED"
  shows "\<exists>f h. dec_reduced_positions d = tp_positions (candidate rq f) \<and>
    kernel_reasons E k (rq\<lparr>rq_target := candidate rq f\<rparr>) = [] \<and> kernel_reasons E k rq \<noteq> [] \<and>
    (h = d1 \<or> kernel_reasons E k (rq\<lparr>rq_target := candidate rq h\<rparr>) \<noteq> []) \<and>
    0 < dval f \<and> dval f < dval h \<and> dval h \<le> 1 \<and> dval h \<le> dval f + 1 / 10 ^ 14"
  using assms(1)
proof (cases rule: evaluate_cases)
  case (reduced f)
  obtain h where h: "h = d1 \<or> approves E sha k aid now rq h = Inr False" "dval h \<le> 1"
    "\<bar>dval h - dval f - (dval d1 - dval d0) / 2 ^ 48\<bar> \<le> 2 * (3 / 10 ^ 27) * (1 - 1 / 2 ^ 48)"
    using bisect_bracket [OF reduced(9), of d1] by auto
  have "2 * (3 / 10 ^ 27) * (1 - 1 / 2 ^ 48) < (1 / 2 ^ 48 :: rat)"
    "1 / 2 ^ 48 + 2 * (3 / 10 ^ 27) * (1 - 1 / 2 ^ 48) \<le> (1 / 10 ^ 14 :: rat)" by simp_all
  moreover have "(dval d1 - dval d0) / 2 ^ 48 = 1 / 2 ^ 48" by simp
  ultimately have "dval f < dval h" "dval h \<le> dval f + 1 / 10 ^ 14" using h(3) by linarith+
  moreover have "h = d1 \<or> kernel_reasons E k (rq\<lparr>rq_target := candidate rq h\<rparr>) \<noteq> []" using h(1) approves_Inr by blast
  ultimately show ?thesis using reduced h(2) by blast
qed (use assms(2) in simp_all)

theorem reduction_maximal_witness:
  "\<exists>d f h. evaluate rk_env (\<lambda>_. '''') rk_switch 1 1 (rk_request (Dec 10 0) ''max_order_notional'') True = Inr d \<and>
     dec_outcome d = REDUCED \<and> dec_reduced_positions d = tp_positions (candidate (rk_request (Dec 10 0) ''max_order_notional'') f) \<and>
     0 < dval f \<and> dval f < dval h \<and> dval h \<le> dval f + 1 / 10 ^ 14"
  using rk_reduced reduction_maximal by blast

text \<open>C22: The kernel always decides: for every request whose parts their constructors let through, \<open>evaluate\<close> returns a
  decision, whatever the search for a reduction meets; it never raises, and it is APPROVED, REDUCED or
  REJECTED as the reasons and the search say.\<close>

theorem evaluate_total:
  assumes "request_ok E k rq"
  shows "\<exists>d. evaluate E sha k aid now rq allow = Inr d \<and>
    dec_outcome d = (if kernel_reasons E k rq = [] then APPROVED
      else if allow \<and> reduced_target E sha k aid now rq (kernel_reasons E k rq) \<noteq> Inr None then REDUCED else RISK_REJECTED)"
  by (rule evaluate_ok [OF assms])

theorem evaluate_total_witness:
  "\<exists>d. evaluate rk_env (\<lambda>_. '''') rk_switch 1 1 (rk_request (Dec 10 0) ''max_order_notional'') False = Inr d \<and>
     dec_outcome d = RISK_REJECTED"
proof -
  have "kernel_reasons rk_env rk_switch (rk_request (Dec 10 0) ''max_order_notional'') \<noteq> []" by code_simp
  then show ?thesis
    using evaluate_total [OF rk_request_ok [OF rk_name_tidy, of "Dec 10 0"], of "\<lambda>_. ''''" 1 1 False] by auto
qed

text \<open>
  What an order at price \<open>x\<close> and mark \<open>y\<close> would use of each limit that bounds a number, written out from the order, the
  account and the market; \<open>None\<close> stands for a number that is not known.  The other limits are about flags.
\<close>

definition order_measures :: "order \<Rightarrow> dec \<Rightarrow> dec \<Rightarrow> account \<Rightarrow> market \<Rightarrow> (string \<times> rat option) list" where
  "order_measures ord x y a m =
     (let i = canonical_id (ord_instrument ord); dir = (if lower (ord_side ord) = ''buy'' then d1 else Dec (- 1) 0);
          held = dadd (dict_get (ac_positions a) i d0) (dmul dir (ord_quantity ord));
          values = map (\<lambda>(n, v). dmul v (dict_get (rm_marks m) n d0)) (dict_set i held (ac_positions a));
          gross = dsum (map dabs values); worth = dmul x (ord_quantity ord)
      in [(''max_order_notional'', Some (dval worth)), (''max_turnover_notional'', Some (dval worth)),
          (''max_position_notional'', Some (dval (dabs (dmul held y)))),
          (''price_collar_bps'', Some (dval (dmul (ddiv (dabs (dsub x y)) y) (Dec 10000 0)))),
          (''max_gross_notional'', Some (dval gross)), (''max_net_notional'', Some (dval (dabs (dsum values)))),
          (''max_leverage'', Some (if 0 < dval (equity a) then dval (ddiv gross (equity a)) else 999999)),
          (''max_margin_used'', Some (dval (ac_margin_used a))), (''max_current_gross_notional'', Some (dval (gross_notional a))),
          (''max_daily_loss'', Some (dval (dneg (ac_daily_pnl a)))), (''max_rolling_loss'', Some (dval (dneg (ac_rolling_pnl a)))),
          (''max_drawdown'', Some (dval (drawdown a))),
          (''max_stale_seconds'', map_option of_int (map_of (rm_stale_seconds m) i)),
          (''max_clock_drift_seconds'', Some (of_int (rm_clock_drift m))),
          (''max_cash_deficit'', Some (dval (dneg (dsub (ac_cash a) (dmul dir worth))))),
          (''max_liquidation_buffer_deficit'', map_option (\<lambda>v. dval (dneg v))
             (if ac_liquidation_buffer a = None then ac_margin_available a else ac_liquidation_buffer a)),
          (''max_volatility'', map_option dval (map_of (rm_volatility m) i)),
          (''max_liquidity_participation'', map_option (\<lambda>v. if dval v = 0 then 999999 else dval (ddiv worth v)) (map_of (rm_liquidity m) i)),
          (''max_spread_bps'', Some (case map_of (rm_spread m) i of None \<Rightarrow> 999999 | Some v \<Rightarrow> dval v)),
          (''max_expected_slippage_bps'', Some (case map_of (rm_slippage m) i of None \<Rightarrow> 999999 | Some v \<Rightarrow> dval v)),
          (''max_expected_impact_bps'', Some (case map_of (rm_impact m) i of None \<Rightarrow> 999999 | Some v \<Rightarrow> dval v)),
          (''max_order_rate'', Some (of_int (rm_order_count m))), (''max_funding_cost_bps'', Some (dval (rm_funding_bps m))),
          (''max_borrow_cost_bps'', Some (dval (rm_borrow_bps m))),
          (''max_collateral_deficit'', map_option (\<lambda>v. dval (dneg v)) (if rm_collateral m = None then ac_margin_available a else rm_collateral m)),
          (''max_counterparty_exposure'', Some (dval (rm_counterparty m)))] @
         (if dval gross = 0 then [] else [(''max_concentration'', Some (dval (ddiv (dabs (dmul held y)) gross)))]))"

definition flag_limits :: "string list" where
  "flag_limits = [''max_data_disagreement'', ''max_model_drift'', ''max_unsupported_regime'', ''max_expired_forecast'',
     ''max_reconciliation_discrepancies'', ''max_venue_health'']"

text \<open>Every limit that the kernel knows is measured or about a flag; the concentration of an empty book is not.\<close>

lemma measured_limits:
  "set supported_limits \<subseteq> insert ''max_concentration'' (fst ` set (order_measures ord x y a m) \<union> set flag_limits)"
  unfolding supported_limits_def order_measures_def flag_limits_def Let_def by simp

lemma loss_le: "dval (loss v) \<le> u \<Longrightarrow> dval (dneg v) \<le> u"
  by (simp add: loss_def dval_dmax del: dval_eq_0)

text \<open>C36: An approved order is within every limit of the policy: all limits are known, the switch is not tripped, data and
  venue are in order (the limits on flags), and whatever number a limit bounds, from order size, turnover, position, gross,
  net, leverage and concentration over cash, losses and margin to spread, slippage, liquidity and order rate, is known
  and the order does not exceed it.\<close>

theorem order_approved_within:
  assumes "check_order E sha k ord a m p = Inr c" "chk_approved c"
    and "ord_price ord = Some x" "map_of (rm_marks m) (canonical_id (ord_instrument ord)) = Some y" "l \<in> set (hard_limits p)"
  shows "order_clear k ord a m p \<and> limit_name l \<in> set supported_limits \<and>
    (\<forall>u. (limit_name l, u) \<in> set (order_measures ord x y a m) \<longrightarrow> (\<exists>v. u = Some v \<and> v \<le> dval (limit_value l))) \<and>
    (limit_name l = ''max_venue_health'' \<longrightarrow> map_of (rm_venue_healthy m) (canonical_id (ord_instrument ord)) = Some True)"
proof -
  have empty: "order_gate_reasons k ord a m p = []" "order_limit_reasons ord a m p = []"
    using check_order_Inr [OF assms(1)] assms(2) by simp_all
  note none = order_limits_Nil [OF empty(2) assms(3-5)]
  have clear: "order_clear k ord a m p" using empty(1) by (simp add: order_gate_Nil)
  have "list_all (\<lambda>(name, u). limit_name l = name \<longrightarrow> (\<exists>v. u = Some v \<and> v \<le> dval (limit_value l))) (order_measures ord x y a m)"
    using none
    unfolding order_measures_def Let_def list.pred_inject list_all_append prod.case
    by (intro conjI impI)
      (auto simp: order_exposure_reasons_def order_market_reasons_def order_state_reasons_def view_order_def
        Let_def dlt_iff dnz_iff big_def dict_get_def dval_Dec not_less dest!: loss_le simp del: dval_eq_0 split: if_splits option.splits)
  then show ?thesis
    using clear assms(5) none(3) by (auto simp: list_all_iff order_clear_def Let_def order_state_reasons_def split: option.splits)
qed

definition rk_order :: order where
  "rk_order = \<lparr>artifact_id = 80, created_at = 0, parent_intent_id = 1, execution_plan_id = 2, ord_instrument = rk_btc, ord_side = ''buy'',
     ord_quantity = Dec 2 0, order_type = ''limit'', ord_price = Some (Dec 6 0), time_in_force = ''gtc'', idempotency_key = ''k'',
     ord_state = CREATED\<rparr>"

lemma rk_check: "\<exists>c. check_order rk_env (\<lambda>_. '''') rk_switch rk_order ex_account rk_market (rk_policy ''max_order_notional'') = Inr c \<and>
    chk_approved c"
proof -
  have "case check_order rk_env (\<lambda>_. '''') rk_switch rk_order ex_account rk_market (rk_policy ''max_order_notional'') of
      Inr c \<Rightarrow> chk_approved c | Inl _ \<Rightarrow> False" by code_simp
  then show ?thesis by (auto split: sum.splits)
qed

theorem order_approved_within_witness:
  "order_clear rk_switch rk_order ex_account rk_market (rk_policy ''max_order_notional'') \<and> dval (dmul (Dec 6 0) (Dec 2 0)) \<le> 15"
proof -
  obtain c where c: "check_order rk_env (\<lambda>_. '''') rk_switch rk_order ex_account rk_market (rk_policy ''max_order_notional'') = Inr c"
    "chk_approved c" using rk_check by blast
  obtain l where l: "l \<in> set (hard_limits (rk_policy ''max_order_notional''))" "limit_name l = ''max_order_notional''"
    "limit_value l = Dec 15 0" by (simp add: rk_policy_def)
  have o: "ord_price rk_order = Some (Dec 6 0)" "map_of (rm_marks rk_market) (canonical_id (ord_instrument rk_order)) = Some (Dec 6 0)"
    by (simp_all add: rk_order_def rk_market_def rk_btc_def)
  have "(limit_name l, Some (dval (dmul (Dec 6 0) (Dec 2 0)))) \<in> set (order_measures rk_order (Dec 6 0) (Dec 6 0) ex_account rk_market)"
    by (simp add: order_measures_def rk_order_def l(2) Let_def)
  with order_approved_within [OF c o l(1)] show ?thesis by (force simp: l(3) dval_Dec)
qed

text \<open>C8: Risk approval binds both checks to one state: if the order manager accepts a decision of the kernel together
  with a check of the kernel, then (unless the digest that binds them collides) both were made for the same
  account state hash, the same market hash and the same policy; the target met all limits there, and the
  order passed its gates.\<close>

theorem approval_binds_state:
  assumes "evaluate E sha k aid now rq allow = Inr d" "check_order E sha k' ord a m p = Inr c"
    and "approve_risk V oid d (Some c) s = (Inr r, s')"
    and "\<And>t. is_digest (rk_text_sha E t)"
    and "\<And>sn sn'. take_snapshot (rk_account_sha E) (rq_account rq) = Inr sn \<Longrightarrow> take_snapshot (rk_account_sha E) a = Inr sn' \<Longrightarrow>
      rk_text_sha E (sn_state_hash sn @ '':'' @ effective_hash sha (rq_market rq)) = rk_text_sha E (sn_state_hash sn' @ '':'' @ effective_hash sha m) \<Longrightarrow>
      sn_state_hash sn @ '':'' @ effective_hash sha (rq_market rq) = sn_state_hash sn' @ '':'' @ effective_hash sha m"
  shows "\<exists>sn sn'. take_snapshot (rk_account_sha E) (rq_account rq) = Inr sn \<and> take_snapshot (rk_account_sha E) a = Inr sn' \<and>
    sn_state_hash sn = sn_state_hash sn' \<and> effective_hash sha (rq_market rq) = effective_hash sha m \<and>
    artifact_id p = artifact_id (rq_policy rq) \<and> clear_state k rq \<and> list_all (limit_holds E rq) (hard_limits (rq_policy rq)) \<and>
    order_clear k' ord a m p"
proof -
  have acc: "dec_outcome d = APPROVED" "chk_approved c" "chk_policy_id c = Some (dec_risk_policy_id d)" "chk_state_hash c = Some (dec_state_hash d)"
    using assms(3) check_order_Inr(3) [OF assms(2)] by (auto simp: approve_risk_def split: if_splits)
  obtain h where h: "bound_hash E sha (rq_account rq) (rq_market rq) = Inr h" "dec_state_hash d = strip h"
      "dec_risk_policy_id d = artifact_id (rq_policy rq)"
    using evaluate_binds [OF assms(1)] by blast
  obtain sn where sn: "take_snapshot (rk_account_sha E) (rq_account rq) = Inr sn"
      "h = rk_text_sha E (sn_state_hash sn @ '':'' @ effective_hash sha (rq_market rq))"
    using bound_hash_Inr [OF h(1)] by blast
  obtain h' where h': "bound_hash E sha a m = Inr h'" "chk_state_hash c = Some h'" using check_order_Inr(4) [OF assms(2)] by blast
  obtain sn' where sn': "take_snapshot (rk_account_sha E) a = Inr sn'"
      "h' = rk_text_sha E (sn_state_hash sn' @ '':'' @ effective_hash sha m)"
    using bound_hash_Inr [OF h'(1)] by blast
  have "strip h = h" using sn(2) assms(4) is_digest_strip by simp
  then have "rk_text_sha E (sn_state_hash sn @ '':'' @ effective_hash sha (rq_market rq)) = rk_text_sha E (sn_state_hash sn' @ '':'' @ effective_hash sha m)"
    using acc(4) h(2) h'(2) sn(2) sn'(2) by simp
  then have "sn_state_hash sn @ '':'' @ effective_hash sha (rq_market rq) = sn_state_hash sn' @ '':'' @ effective_hash sha m"
    by (rule assms(5) [OF sn(1) sn'(1)])
  then have "sn_state_hash sn = sn_state_hash sn' \<and> effective_hash sha (rq_market rq) = effective_hash sha m"
    by (rule digest_text_inj) (use sn(1) sn'(1) snapshot_digest in blast)+
  moreover have "clear_state k rq \<and> list_all (limit_holds E rq) (hard_limits (rq_policy rq))"
    using assms(1) acc(1) kernel_reasons_Nil [of E k rq] by (cases rule: evaluate_cases) auto
  moreover have "order_clear k' ord a m p" using check_order_Inr [OF assms(2)] acc(2) order_gate_Nil by simp
  ultimately show ?thesis using sn(1) sn'(1) acc(3) h(3) check_order_Inr(3) [OF assms(2)] by auto
qed

definition rk_oms_env :: "(unit, unit) oms_env" where
  "rk_oms_env = \<lparr>v_submit = (\<lambda>r v. (Inl (RuntimeError ''''), v)), v_open_orders = (\<lambda>v. []), v_cancel = None, v_reconcile = None,
     v_bind = None, b_publish = None, e_uuid = (\<lambda>n. n), e_now = int\<rparr>"

definition rk_oms :: "(unit, unit) oms" where
  "rk_oms = \<lparr>om_ledgers = empty_ledgers, om_venue = (), om_bus = (), om_orders = [(80, rk_order)], om_fills = [], om_ambiguous = [],
     om_draws = 0\<rparr>"

theorem approval_binds_state_witness:
  "\<exists>d c r s'. evaluate rk_env (\<lambda>_. '''') rk_switch 1 1 (rk_request (Dec 6 0) ''max_order_notional'') True = Inr d \<and>
     check_order rk_env (\<lambda>_. '''') rk_switch rk_order ex_account rk_market (rk_policy ''max_order_notional'') = Inr c \<and>
     approve_risk rk_oms_env 80 d (Some c) rk_oms = (Inr r, s') \<and>
     order_clear rk_switch rk_order ex_account rk_market (rk_policy ''max_order_notional'')"
proof -
  let ?e = "evaluate rk_env (\<lambda>_. '''') rk_switch 1 1 (rk_request (Dec 6 0) ''max_order_notional'') True"
  let ?c = "check_order rk_env (\<lambda>_. '''') rk_switch rk_order ex_account rk_market (rk_policy ''max_order_notional'')"
  let ?a = "approve_risk rk_oms_env 80 (the_ok ?e) (Some (the_ok ?c)) rk_oms"
  have ok: "is_ok ?e" "is_ok ?c" "is_ok (fst ?a)" by code_simp+
  obtain r s' where a: "?a = (Inr r, s')" using is_ok_the_ok [OF ok(3)] by (cases ?a) auto
  have digest: "is_digest (rk_text_sha rk_env t)" for t
    by (simp add: rk_env_def is_digest_def list_all_iff is_hex_digit_def)
  have same: "rq_account (rk_request (Dec 6 0) ''max_order_notional'') = ex_account"
    "rq_market (rk_request (Dec 6 0) ''max_order_notional'') = rk_market"
    by (simp_all add: rk_request_def)
  have "order_clear rk_switch rk_order ex_account rk_market (rk_policy ''max_order_notional'')"
    using approval_binds_state [OF is_ok_the_ok [OF ok(1)] is_ok_the_ok [OF ok(2)] a digest] unfolding same by fastforce
  then show ?thesis using is_ok_the_ok [OF ok(1)] is_ok_the_ok [OF ok(2)] a by blast
qed

text \<open>C37: The kill switch survives a restart: after any trips and resets, failing ones included, a new switch over the
  same incident ledger is tripped just when the old one was, for the same reason.\<close>

theorem kill_switch_recovery:
  assumes "ks_keys_ok (ledger_events L NS_INCIDENT)" "s = ks_perform_all E cs (new_kill_switch (Some L) n)" "ks_ledgers s = Some M"
  shows "ks_tripped (new_kill_switch (Some M) j) = ks_tripped s \<and> ks_reason (new_kill_switch (Some M) j) = ks_reason s"
proof -
  have "ks_synced (new_kill_switch (Some L) n)" using assms(1) by (intro new_kill_switch_synced) simp
  then have "ks_synced s" unfolding assms(2) by (rule ks_perform_all_synced)
  then show ?thesis using assms(3) by (rule ks_synced_rebuild)
qed

theorem kill_switch_recovery_witness:
  "\<exists>M. ks_ledgers (ks_perform_all rk_env [Trip ''drawdown '', Trip '' '', Reset ''ops'', Trip ''venue''] (new_kill_switch (Some empty_ledgers) 0)) = Some M \<and>
     ks_tripped (new_kill_switch (Some M) 9) \<and> ks_reason (new_kill_switch (Some M) 9) = Some ''venue''"
proof -
  let ?s = "ks_perform_all rk_env [Trip ''drawdown '', Trip '' '', Reset ''ops'', Trip ''venue''] (new_kill_switch (Some empty_ledgers) 0)"
  have s: "ks_ledgers ?s \<noteq> None" "ks_tripped ?s" "ks_reason ?s = Some ''venue''" by code_simp+
  then obtain M where M: "ks_ledgers ?s = Some M" by blast
  have "ks_keys_ok (ledger_events empty_ledgers NS_INCIDENT)" by (simp add: ks_keys_ok_def ledger_events_def empty_ledgers_def)
  from kill_switch_recovery [OF this refl M, of 9] M s show ?thesis by auto
qed

text \<open>C40: A price collar in the policy makes the kernel refuse every target: the name is in the list of supported limits,
  and \<open>check_order\<close> enforces it, but \<open>_limit_value\<close> does not know it, so the evaluation of any target reports
  \<open>unsupported_hard_limit\<close>.\<close>

theorem price_collar_rejects_targets:
  assumes "l \<in> set (hard_limits (rq_policy rq))" "limit_name l = ''price_collar_bps''" "evaluate E sha k aid now rq allow = Inr d"
  shows "dec_outcome d = RISK_REJECTED"
proof -
  have none: "kernel_limit_value E rq ''price_collar_bps'' g n c = None" for g n c
    by (simp add: kernel_limit_value_def kernel_market_value_def Let_def)
  have r: "''unsupported_hard_limit:price_collar_bps'' \<in> set (kernel_reasons E k rq)"
    unfolding kernel_reasons_def limit_reasons_def Let_def using assms(1) none
    by (simp only: set_append set_concat set_map Un_iff UN_iff image_image) (rule disjI2, rule bexI [of _ l], simp_all add: assms(2))
  have "reason_name ''unsupported_hard_limit:price_collar_bps'' \<notin> set reducible" by code_simp
  with r have bad: "kernel_reasons E k rq \<noteq> []" "\<not> list_all (\<lambda>r. reason_name r \<in> set reducible) (kernel_reasons E k rq)"
    by (auto simp: list_all_iff)
  from assms(3) show ?thesis by (cases rule: evaluate_cases) (use bad in simp_all)
qed

theorem price_collar_rejects_targets_witness:
  "\<exists>d. evaluate rk_env (\<lambda>_. '''') rk_switch 1 1 (rk_request (Dec 5 0) ''price_collar_bps'') True = Inr d \<and> dec_outcome d = RISK_REJECTED"
proof -
  let ?e = "evaluate rk_env (\<lambda>_. '''') rk_switch 1 1 (rk_request (Dec 5 0) ''price_collar_bps'') True"
  have "is_ok ?e" by code_simp
  note e = is_ok_the_ok [OF this]
  obtain l where "l \<in> set (hard_limits (rq_policy (rk_request (Dec 5 0) ''price_collar_bps'')))" "limit_name l = ''price_collar_bps''"
    by (simp add: rk_request_def rk_policy_def)
  from price_collar_rejects_targets [OF this e] e show ?thesis by blast
qed

text \<open>The two halves of the kernel read the liquidation buffer differently: with a buffer of -5 and a margin of 5 the
  evaluation of a target finds no deficit where the check of an order does.\<close>

theorem buffer_read_differently:
  "let a = ex_account\<lparr>ac_liquidation_buffer := Some (Dec (- 5) 0), ac_margin_available := Some (Dec 5 0)\<rparr>;
       p = (rk_policy ''max_liquidation_buffer_deficit'')\<lparr>hard_limits :=
         map (\<lambda>l. l\<lparr>limit_value := d0\<rparr>) (hard_limits (rk_policy ''max_liquidation_buffer_deficit''))\<rparr>
   in kernel_reasons rk_env rk_switch ((rk_request (Dec 5 0) ''x'')\<lparr>rq_account := a, rq_policy := p\<rparr>) = [] \<and>
      order_limit_reasons rk_order a rk_market p = [''max_liquidation_buffer_deficit:5>0usd'']"
  by code_simp

end
