(* ===== verification/Portfolio.thy ===== *)
theory Portfolio
  imports Account
begin

text \<open>
  Target construction (\<open>src/advisorai/execution/portfolio.py\<close>) and the execution policy
  (\<open>src/advisorai/execution/policies.py\<close>): from desired quantities to a target portfolio with its expected cost
  and cash, and from a signed difference to an order.  The identifiers and the time of the artifacts that are
  made on the way are arguments.
\<close>

section \<open>Constraints and cost assumptions\<close>

record 'n portfolio_constraints =
  pc_max_gross :: "'n option"
  pc_max_net :: "'n option"
  pc_max_turnover :: "'n option"
  pc_max_position :: "'n option"
  pc_max_leverage :: "'n option"
  pc_max_concentration :: "'n option"
  pc_min_cash :: 'n
  pc_max_liquidity :: "'n option"
  pc_liquidity :: "(string, 'n) dict"

type_synonym constraints = "dec portfolio_constraints"

definition mk_constraints :: "raw_dec portfolio_constraints \<Rightarrow> constraints res" where
  "mk_constraints c =
     (let limits = [pc_max_gross c, pc_max_net c, pc_max_turnover c, pc_max_position c, pc_max_leverage c,
            pc_max_concentration c, pc_max_liquidity c, Some (pc_min_cash c)];
          above_one = opt_all (\<lambda>v. dle (raw_val v) d1)
      in if list_ex (\<lambda>v. \<not> opt_all (\<lambda>x. is_finite x \<and> \<not> dlt (raw_val x) d0) v) limits
      then Inl (ValueError ''portfolio constraints must be finite and non-negative'')
      else if \<not> above_one (pc_max_concentration c) then Inl (ValueError ''max_concentration cannot exceed one'')
      else if \<not> above_one (pc_max_liquidity c) then Inl (ValueError ''max_liquidity_participation cannot exceed one'')
      else if list_ex (\<lambda>(i, v). blank i \<or> \<not> is_finite v \<or> dle (raw_val v) d0) (pc_liquidity c)
      then Inl (ValueError ''liquidity bounds require positive finite instrument notionals'')
      else Inr \<lparr>pc_max_gross = map_option raw_val (pc_max_gross c), pc_max_net = map_option raw_val (pc_max_net c),
             pc_max_turnover = map_option raw_val (pc_max_turnover c), pc_max_position = map_option raw_val (pc_max_position c),
             pc_max_leverage = map_option raw_val (pc_max_leverage c),
             pc_max_concentration = map_option raw_val (pc_max_concentration c), pc_min_cash = raw_val (pc_min_cash c),
             pc_max_liquidity = map_option raw_val (pc_max_liquidity c), pc_liquidity = raw_dict (pc_liquidity c)\<rparr>)"

record builder =
  pb_min_trade :: dec
  pb_band :: dec
  pb_fee_bps :: dec
  pb_spread_bps :: dec
  pb_impact_bps :: dec

definition mk_builder :: "raw_dec \<Rightarrow> raw_dec \<Rightarrow> raw_dec \<Rightarrow> raw_dec \<Rightarrow> raw_dec \<Rightarrow> builder res" where
  "mk_builder trade band fee spread impact =
     (let vs = [trade, band, fee, spread, impact]
      in if \<not> list_all is_finite vs \<or> list_ex (\<lambda>v. dlt (raw_val v) d0) vs
         then Inl (ValueError ''portfolio thresholds and cost assumptions cannot be negative'')
         else Inr \<lparr>pb_min_trade = raw_val trade, pb_band = raw_val band, pb_fee_bps = raw_val fee,
                pb_spread_bps = raw_val spread, pb_impact_bps = raw_val impact\<rparr>)"

section \<open>Building a target\<close>

record building =
  bd_positions :: "target_position list"
  bd_cost :: dec
  bd_cash :: dec
  bd_seen :: "string list"

text \<open>The trade in one instrument: none inside the no-trade band, else its cash flow and its cost.\<close>

definition trade_of :: "builder \<Rightarrow> dec \<Rightarrow> dec \<Rightarrow> dec \<Rightarrow> (dec \<times> dec) option" where
  "trade_of b cur q mark =
     (let notional = dmul (dabs (dsub q cur)) mark
      in if dle notional (pb_band b) \<or> dlt notional (pb_min_trade b) then None
         else Some (dmul (dsub q cur) mark,
           ddiv (dmul notional (dadd (dadd (pb_fee_bps b) (pb_spread_bps b)) (pb_impact_bps b))) (Dec 10000 0)))"

definition build_step ::
  "builder \<Rightarrow> (nat \<Rightarrow> uuid) \<Rightarrow> utc \<Rightarrow> account \<Rightarrow> (string, raw_dec) dict \<Rightarrow> (string, raw_dec) dict \<Rightarrow>
   instrument \<times> raw_dec \<Rightarrow> building \<Rightarrow> building res" where
  "build_step b ids now a marks returns iq s =
     (let i = canonical_id (fst iq); cur = dict_get (ac_positions a) i d0
      in if i \<in> set (bd_seen s) then Inl (ValueError ''target portfolio cannot contain duplicate instruments'')
      else case map_of marks i of
        Some (Finite m) \<Rightarrow>
          if dle m d0 then Inl (ValueError ''missing positive mark'')
          else (case snd iq of
            NotFinite \<Rightarrow> Inl (ValueError ''target quantities must be finite'')
          | Finite q \<Rightarrow>
            let t = trade_of b cur q m
            in if map_of returns i = Some NotFinite then Inl (ValueError ''expected returns must be finite'')
               else rbind (mk_target_position (ids (length (bd_positions s))) (Aware now 0) (fst iq)
                        (Finite (case t of None \<Rightarrow> cur | Some _ \<Rightarrow> q)) (map_of returns i) [])
                 (\<lambda>p. Inr \<lparr>bd_positions = bd_positions s @ [p],
                          bd_cost = (case t of None \<Rightarrow> bd_cost s | Some (flow, cost) \<Rightarrow> dadd (bd_cost s) cost),
                          bd_cash = (case t of None \<Rightarrow> bd_cash s | Some (flow, cost) \<Rightarrow> dsub (bd_cash s) flow),
                          bd_seen = i # bd_seen s\<rparr>))
      | _ \<Rightarrow> Inl (ValueError ''missing positive mark''))"

fun build_steps ::
  "builder \<Rightarrow> (nat \<Rightarrow> uuid) \<Rightarrow> utc \<Rightarrow> account \<Rightarrow> (string, raw_dec) dict \<Rightarrow> (string, raw_dec) dict \<Rightarrow>
   (instrument \<times> raw_dec) list \<Rightarrow> building \<Rightarrow> building res" where
  "build_steps b ids now a marks returns [] s = Inr s"
| "build_steps b ids now a marks returns (iq # iqs) s =
     rbind (build_step b ids now a marks returns iq s) (build_steps b ids now a marks returns iqs)"

definition position_notionals :: "(string, raw_dec) dict \<Rightarrow> target_position list \<Rightarrow> (string, dec) dict" where
  "position_notionals marks ps =
     foldl (\<lambda>d p. dict_set (pos_id p) (dmul (target_quantity p) (raw_val (dict_get marks (pos_id p) (Finite d0)))) d) [] ps"

definition violates :: "dec option \<Rightarrow> dec \<Rightarrow> bool" where
  "violates bound v = (case bound of None \<Rightarrow> False | Some x \<Rightarrow> dlt x v)"

definition participation :: "account \<Rightarrow> (string, raw_dec) dict \<Rightarrow> constraints \<Rightarrow> string \<times> dec \<Rightarrow> unit res" where
  "participation a marks c iv =
     (case pc_max_liquidity c of
        None \<Rightarrow> Inr ()
      | Some bound \<Rightarrow>
        (case map_of (pc_liquidity c) (fst iv) of
           None \<Rightarrow> Inl (ValueError ''missing liquidity'')
         | Some liquidity \<Rightarrow>
           if dlt bound (ddiv (dabs (dsub (snd iv) (dmul (dict_get (ac_positions a) (fst iv) d0)
                (raw_val (dict_get marks (fst iv) (Finite d0)))))) liquidity)
           then Inl (ValueError ''target portfolio exceeds liquidity participation'') else Inr ()))"

fun each :: "('a \<Rightarrow> unit res) \<Rightarrow> 'a list \<Rightarrow> unit res" where
  "each f [] = Inr ()"
| "each f (x # xs) = rbind (f x) (\<lambda>_. each f xs)"

definition validate_constraints ::
  "account \<Rightarrow> target_position list \<Rightarrow> (string, raw_dec) dict \<Rightarrow> dec \<Rightarrow> constraints \<Rightarrow> unit res" where
  "validate_constraints a ps marks cash c =
     (let notionals = position_notionals marks ps; gross = dsum (map (\<lambda>(i, v). dabs v) notionals);
          net = dsum (map snd notionals);
          turnover = dsum (map (\<lambda>(i, v). dabs (dsub v (dmul (dict_get (ac_positions a) i d0)
            (raw_val (dict_get marks i (Finite d0)))))) notionals);
          leverage = (if dlt d0 (equity a) then ddiv gross (equity a) else if dnz gross then Dec 999999 0 else d0)
      in if violates (pc_max_gross c) gross then Inl (ValueError ''target portfolio exceeds max gross notional'')
      else if violates (pc_max_net c) (dabs net) then Inl (ValueError ''target portfolio exceeds max net notional'')
      else if violates (pc_max_turnover c) turnover then Inl (ValueError ''target portfolio exceeds max turnover notional'')
      else if list_ex (\<lambda>(i, v). violates (pc_max_position c) (dabs v)) notionals
      then Inl (ValueError ''target portfolio exceeds max position notional'')
      else if violates (pc_max_leverage c) leverage then Inl (ValueError ''target portfolio exceeds max leverage'')
      else if dnz gross \<and> violates (pc_max_concentration c) (dmax_default d0 (map (\<lambda>(i, v). ddiv (dabs v) gross) notionals))
      then Inl (ValueError ''target portfolio exceeds max concentration'')
      else if dlt cash (pc_min_cash c) then Inl (ValueError ''target portfolio violates minimum cash reserve'')
      else each (participation a marks c) notionals)"

definition build ::
  "builder \<Rightarrow> (nat \<Rightarrow> uuid) \<Rightarrow> utc \<Rightarrow> uuid \<Rightarrow> account \<Rightarrow> (instrument \<times> raw_dec) list \<Rightarrow> (string, raw_dec) dict \<Rightarrow>
   (string, raw_dec) dict \<Rightarrow> string \<Rightarrow> string \<Rightarrow> constraints option \<Rightarrow> target_portfolio res" where
  "build b ids now snap a targets marks returns meth version constraints =
     rbind (build_steps b ids now a marks returns (sort_key (\<lambda>iq. canonical_id (fst iq)) targets)
              \<lparr>bd_positions = [], bd_cost = d0, bd_cash = ac_cash a, bd_seen = []\<rparr>) (\<lambda>s.
     let cash = dsub (bd_cash s) (bd_cost s)
     in if dlt cash d0 then Inl (ValueError ''target portfolio costs exceed available account cash'')
     else rbind (case constraints of None \<Rightarrow> Inr () | Some c \<Rightarrow> validate_constraints a (bd_positions s) marks cash c) (\<lambda>_.
       mk_target_portfolio (ids (length (bd_positions s))) (Aware now 0) snap (bd_positions s) (Finite cash) meth
         (Finite (bd_cost s)) version ''explicit_current_positions_no_trade_baseline''))"

section \<open>Execution choices\<close>

datatype policy_kind = IMMEDIATE | PASSIVE_LIMIT

record quote_state =
  qs_mark :: dec
  qs_bid :: "dec option"
  qs_ask :: "dec option"

definition mk_quote :: "raw_dec \<Rightarrow> raw_dec option \<Rightarrow> raw_dec option \<Rightarrow> quote_state res" where
  "mk_quote mark bid ask =
     (let bad = (\<lambda>v. \<not> is_finite v \<or> dle (raw_val v) d0)
      in if bad mark then Inl (ValueError ''execution mark must be positive'')
      else if \<not> opt_all (\<lambda>v. \<not> bad v) bid then Inl (ValueError ''execution bid must be positive'')
      else if \<not> opt_all (\<lambda>v. \<not> bad v) ask then Inl (ValueError ''execution ask must be positive'')
      else if (case (bid, ask) of (Some x, Some y) \<Rightarrow> dlt (raw_val y) (raw_val x) | _ \<Rightarrow> False)
      then Inl (ValueError ''execution ask cannot be below bid'')
      else Inr \<lparr>qs_mark = raw_val mark, qs_bid = map_option raw_val bid, qs_ask = map_option raw_val ask\<rparr>)"

record execution_choice =
  ec_policy :: policy_kind
  ec_side :: string
  ec_quantity :: dec
  ec_order_type :: string
  ec_price :: dec
  ec_tif :: string
  ec_reason :: string

definition choose_execution :: "raw_dec \<Rightarrow> quote_state \<Rightarrow> policy_kind \<Rightarrow> raw_dec \<Rightarrow> execution_choice option res" where
  "choose_execution delta qs policy urgency =
     (case delta of
        NotFinite \<Rightarrow> Inl (ValueError ''signed execution delta must be finite'')
      | Finite x \<Rightarrow>
        if \<not> dnz x then Inr None
        else if \<not> is_finite urgency \<or> \<not> (dle d0 (raw_val urgency) \<and> dle (raw_val urgency) d1)
        then Inl (ValueError ''execution urgency must be between zero and one'')
        else let side = (if dlt d0 x then ''buy'' else ''sell'')
          in (case policy of
             IMMEDIATE \<Rightarrow> Inr (Some \<lparr>ec_policy = policy, ec_side = side, ec_quantity = dabs x, ec_order_type = ''market'',
               ec_price = (case (if side = ''buy'' then qs_ask qs else qs_bid qs) of
                  Some p \<Rightarrow> if dnz p then p else qs_mark qs | None \<Rightarrow> qs_mark qs),
               ec_tif = ''ioc'', ec_reason = ''immediate policy selected by deterministic urgency rule''\<rparr>)
           | PASSIVE_LIMIT \<Rightarrow> Inr (Some \<lparr>ec_policy = policy, ec_side = side, ec_quantity = dabs x, ec_order_type = ''passive_limit'',
               ec_price = (case (if side = ''buy'' then qs_bid qs else qs_ask qs) of Some p \<Rightarrow> p | None \<Rightarrow> qs_mark qs),
               ec_tif = ''gtc'', ec_reason = ''passive limit policy selected to reduce spread cost''\<rparr>)))"

definition build_order_from_choice ::
  "uuid \<Rightarrow> utc \<Rightarrow> execution_choice \<Rightarrow> uuid \<Rightarrow> uuid \<Rightarrow> instrument \<Rightarrow> string \<Rightarrow> order res" where
  "build_order_from_choice aid now c parent plan_id inst key =
     mk_order aid (Aware now 0) parent plan_id inst (ec_side c) (Finite (ec_quantity c)) (ec_order_type c)
       (Some (Finite (ec_price c))) (ec_tif c) key CREATED"

end
