(* ===== verification/Portfolio_Properties.thy ===== *)
theory Portfolio_Properties
  imports Portfolio Risk_Properties
begin

text \<open>
  What the target builder promises and how it composes with the risk kernel: the positions and the cash of a
  built target, the constraints that hold of it, and the limits of the kernel that these constraints already
  imply.  The last part turns an execution choice into an order that every validator accepts.
\<close>

section \<open>The steps of the builder\<close>

abbreviation target_id :: "instrument \<times> raw_dec \<Rightarrow> string" where
  "target_id iq \<equiv> canonical_id (fst iq)"

definition trade_in :: "builder \<Rightarrow> account \<Rightarrow> (string, raw_dec) dict \<Rightarrow> instrument \<times> raw_dec \<Rightarrow> (dec \<times> dec) option" where
  "trade_in b a marks iq = trade_of b (dict_get (ac_positions a) (target_id iq) d0) (raw_val (snd iq))
     (raw_val (dict_get marks (target_id iq) (Finite d0)))"

definition placed :: "builder \<Rightarrow> account \<Rightarrow> (string, raw_dec) dict \<Rightarrow> instrument \<times> raw_dec \<Rightarrow> target_position \<Rightarrow> bool" where
  "placed b a marks iq p \<longleftrightarrow> pos_instrument p = fst iq \<and>
     (\<exists>m. map_of marks (target_id iq) = Some (Finite m) \<and> 0 < dval m) \<and>
     (\<exists>q. snd iq = Finite q \<and> target_quantity p =
        (if trade_in b a marks iq = None then dict_get (ac_positions a) (target_id iq) d0 else q))"

definition flows :: "(dec \<times> dec) option list \<Rightarrow> dec \<Rightarrow> dec" where
  "flows ts cash = foldl (\<lambda>c t. case t of None \<Rightarrow> c | Some (flow, cost) \<Rightarrow> dsub c flow) cash ts"

definition costs :: "(dec \<times> dec) option list \<Rightarrow> dec \<Rightarrow> dec" where
  "costs ts k = foldl (\<lambda>c t. case t of None \<Rightarrow> c | Some (flow, cost) \<Rightarrow> dadd c cost) k ts"

lemma build_step_Inr:
  assumes "build_step b ids now a marks returns iq s = Inr s'"
  shows "\<exists>p. placed b a marks iq p \<and> bd_positions s' = bd_positions s @ [p] \<and> target_id iq \<notin> set (bd_seen s) \<and>
    bd_seen s' = target_id iq # bd_seen s \<and> bd_cost s' = costs [trade_in b a marks iq] (bd_cost s) \<and>
    bd_cash s' = flows [trade_in b a marks iq] (bd_cash s)"
proof -
  let ?i = "target_id iq" and ?cur = "dict_get (ac_positions a) (target_id iq) d0"
  obtain m where m: "map_of marks ?i = Some (Finite m)" "\<not> dle m d0" and fresh: "?i \<notin> set (bd_seen s)"
    using assms by (auto simp: build_step_def Let_def split: if_splits option.splits raw_dec.splits)
  obtain q where q: "snd iq = Finite q"
    using assms m fresh by (auto simp: build_step_def Let_def split: raw_dec.splits)
  have t: "trade_in b a marks iq = trade_of b ?cur q m"
    by (simp add: trade_in_def q m dict_get_def)
  obtain p where p: "mk_target_position (ids (length (bd_positions s))) (Aware now 0) (fst iq)
      (Finite (case trade_of b ?cur q m of None \<Rightarrow> ?cur | Some _ \<Rightarrow> q)) (map_of returns ?i) [] = Inr p"
    and s': "s' = \<lparr>bd_positions = bd_positions s @ [p],
        bd_cost = (case trade_of b ?cur q m of None \<Rightarrow> bd_cost s | Some (flow, cost) \<Rightarrow> dadd (bd_cost s) cost),
        bd_cash = (case trade_of b ?cur q m of None \<Rightarrow> bd_cash s | Some (flow, cost) \<Rightarrow> dsub (bd_cash s) flow),
        bd_seen = ?i # bd_seen s\<rparr>"
    using assms m fresh q by (auto simp: build_step_def Let_def rbind_eq_Inr split: if_splits)
  have "pos_instrument p = fst iq" "target_quantity p = (case trade_of b ?cur q m of None \<Rightarrow> ?cur | Some _ \<Rightarrow> q)"
    using p by (auto simp: mk_target_position_def rbind_eq_Inr require_finite_decimal_def)
  then have "placed b a marks iq p"
    using m q t by (auto simp: placed_def dle_iff split: option.splits)
  then show ?thesis
    using s' fresh t by (auto simp: costs_def flows_def)
qed

lemma build_steps_Inr:
  assumes "build_steps b ids now a marks returns iqs s = Inr s'"
  shows "\<exists>ps. list_all2 (placed b a marks) iqs ps \<and> bd_positions s' = bd_positions s @ ps \<and>
    distinct (map target_id iqs) \<and> set (map target_id iqs) \<inter> set (bd_seen s) = {} \<and>
    bd_cost s' = costs (map (trade_in b a marks) iqs) (bd_cost s) \<and>
    bd_cash s' = flows (map (trade_in b a marks) iqs) (bd_cash s)"
  using assms
proof (induction iqs arbitrary: s)
  case Nil
  then show ?case by (simp add: costs_def flows_def)
next
  case (Cons iq iqs)
  then obtain s1 where step: "build_step b ids now a marks returns iq s = Inr s1"
    and rest: "build_steps b ids now a marks returns iqs s1 = Inr s'"
    by (auto simp: rbind_eq_Inr)
  obtain p where p: "placed b a marks iq p" "bd_positions s1 = bd_positions s @ [p]" "target_id iq \<notin> set (bd_seen s)"
    "bd_seen s1 = target_id iq # bd_seen s" "bd_cost s1 = costs [trade_in b a marks iq] (bd_cost s)"
    "bd_cash s1 = flows [trade_in b a marks iq] (bd_cash s)"
    using build_step_Inr [OF step] by blast
  obtain ps where ps: "list_all2 (placed b a marks) iqs ps" "bd_positions s' = bd_positions s1 @ ps"
    "distinct (map target_id iqs)" "set (map target_id iqs) \<inter> set (bd_seen s1) = {}"
    "bd_cost s' = costs (map (trade_in b a marks) iqs) (bd_cost s1)"
    "bd_cash s' = flows (map (trade_in b a marks) iqs) (bd_cash s1)"
    using Cons.IH [OF rest] by blast
  show ?case
    by (rule exI [of _ "p # ps"]) (use p ps in \<open>auto simp: costs_def flows_def\<close>)
qed

lemma placed_ids: "list_all2 (placed b a marks) iqs ps \<Longrightarrow> map pos_id ps = map target_id iqs"
  by (induction rule: list_all2_induct) (auto simp: placed_def)

lemma build_Inr:
  assumes "build b ids now snap a targets marks returns meth version constraints = Inr tp"
  obtains s where "build_steps b ids now a marks returns (sort_key target_id targets)
      \<lparr>bd_positions = [], bd_cost = d0, bd_cash = ac_cash a, bd_seen = []\<rparr> = Inr s"
    "tp_positions tp = bd_positions s" "cash_target tp = dsub (bd_cash s) (bd_cost s)" "expected_cost tp = bd_cost s"
    "0 \<le> dval (cash_target tp)" "0 \<le> dval (expected_cost tp)" "risk_constraints_version tp = strip version"
    "\<And>c. constraints = Some c \<Longrightarrow>
      validate_constraints a (tp_positions tp) marks (cash_target tp) c = Inr ()"
  using assms
  by (auto simp: build_def rbind_eq_Inr Let_def if_Inl_eq mk_target_portfolio_def field_Inr require_finite_decimal_def
      dlt_iff not_less split: option.splits if_splits)

text \<open>
  The trade that a request asks for, without the code of the builder: its value at the mark, whether it is large enough to
  be made, the cash it moves and its cost in basis points of its value.
\<close>

definition wanted_change :: "account \<Rightarrow> instrument \<times> raw_dec \<Rightarrow> dec" where
  "wanted_change a iq = dsub (raw_val (snd iq)) (dict_get (ac_positions a) (target_id iq) d0)"

definition mark_of :: "(string, raw_dec) dict \<Rightarrow> instrument \<times> raw_dec \<Rightarrow> dec" where
  "mark_of marks iq = (case map_of marks (target_id iq) of None \<Rightarrow> d0 | Some v \<Rightarrow> raw_val v)"

definition trade_value :: "account \<Rightarrow> (string, raw_dec) dict \<Rightarrow> instrument \<times> raw_dec \<Rightarrow> dec" where
  "trade_value a marks iq = dmul (dabs (wanted_change a iq)) (mark_of marks iq)"

definition traded :: "builder \<Rightarrow> account \<Rightarrow> (string, raw_dec) dict \<Rightarrow> instrument \<times> raw_dec \<Rightarrow> bool" where
  "traded b a marks iq \<longleftrightarrow> dval (pb_band b) < dval (trade_value a marks iq) \<and> dval (pb_min_trade b) \<le> dval (trade_value a marks iq)"

definition trade_cost :: "builder \<Rightarrow> account \<Rightarrow> (string, raw_dec) dict \<Rightarrow> instrument \<times> raw_dec \<Rightarrow> dec" where
  "trade_cost b a marks iq =
     ddiv (dmul (trade_value a marks iq) (dadd (dadd (pb_fee_bps b) (pb_spread_bps b)) (pb_impact_bps b))) (Dec 10000 0)"

lemma trade_in_eq:
  "trade_in b a marks iq =
     (if traded b a marks iq then Some (dmul (wanted_change a iq) (mark_of marks iq), trade_cost b a marks iq) else None)"
  by (simp add: trade_in_def trade_of_def traded_def trade_cost_def trade_value_def wanted_change_def mark_of_def dict_get_def
      Let_def dle_iff dlt_iff not_less not_le split: option.split)

lemma costs_eq: "costs (map (trade_in b a marks) iqs) k = foldl (\<lambda>k iq. dadd k (trade_cost b a marks iq)) k (filter (traded b a marks) iqs)"
  by (induction iqs arbitrary: k) (simp_all add: costs_def trade_in_eq)

lemma flows_eq:
  "flows (map (trade_in b a marks) iqs) c =
   foldl (\<lambda>c iq. dsub c (dmul (wanted_change a iq) (mark_of marks iq))) c (filter (traded b a marks) iqs)"
  by (induction iqs arbitrary: c) (simp_all add: flows_def trade_in_eq)

text \<open>C25: A built target has one position for each requested instrument, in the order of the canonical
  identifiers and without duplicates.  A position takes the requested quantity exactly when the change is worth more
  than the no-trade band and at least the minimum trade, and keeps the current quantity otherwise.  The expected cost is
  the sum over the trades made of their value times fee, spread and impact in basis points; the cash is the account's
  cash less what the trades pay and less the expected cost, and it is not negative.\<close>

theorem build_positions:
  assumes "build b ids now snap a targets marks returns meth version constraints = Inr tp"
  defines "sorted_targets \<equiv> sort_key target_id targets"
  defines "trades \<equiv> filter (traded b a marks) sorted_targets"
  shows "list_all2 (\<lambda>iq p. pos_instrument p = fst iq \<and>
      (\<exists>m q. map_of marks (target_id iq) = Some (Finite m) \<and> 0 < dval m \<and> snd iq = Finite q \<and>
         target_quantity p = (if traded b a marks iq then q else dict_get (ac_positions a) (target_id iq) d0)))
      sorted_targets (tp_positions tp) \<and>
    distinct (map pos_id (tp_positions tp)) \<and> sorted (map pos_id (tp_positions tp)) \<and>
    expected_cost tp = foldl (\<lambda>k iq. dadd k (trade_cost b a marks iq)) d0 trades \<and>
    cash_target tp = dsub (foldl (\<lambda>c iq. dsub c (dmul (wanted_change a iq) (mark_of marks iq))) (ac_cash a) trades) (expected_cost tp) \<and>
    0 \<le> dval (cash_target tp)"
proof -
  obtain s where s: "build_steps b ids now a marks returns sorted_targets
      \<lparr>bd_positions = [], bd_cost = d0, bd_cash = ac_cash a, bd_seen = []\<rparr> = Inr s"
    "tp_positions tp = bd_positions s" "cash_target tp = dsub (bd_cash s) (bd_cost s)" "expected_cost tp = bd_cost s"
    "0 \<le> dval (cash_target tp)"
    using build_Inr [OF assms(1)] unfolding sorted_targets_def by metis
  obtain ps where ps: "list_all2 (placed b a marks) sorted_targets ps" "bd_positions s = ps" "distinct (map target_id sorted_targets)"
    "bd_cost s = costs (map (trade_in b a marks) sorted_targets) d0"
    "bd_cash s = flows (map (trade_in b a marks) sorted_targets) (ac_cash a)"
    using build_steps_Inr [OF s(1)] by auto
  have "map pos_id ps = map target_id sorted_targets"
    using placed_ids ps(1) by blast
  moreover have "sorted (map target_id sorted_targets)"
    unfolding sorted_targets_def by (rule sorted_sort_key)
  moreover have "list_all2 (\<lambda>iq p. pos_instrument p = fst iq \<and>
      (\<exists>m q. map_of marks (target_id iq) = Some (Finite m) \<and> 0 < dval m \<and> snd iq = Finite q \<and>
         target_quantity p = (if traded b a marks iq then q else dict_get (ac_positions a) (target_id iq) d0))) sorted_targets ps"
    using ps(1) by (rule list_all2_mono) (auto simp: placed_def trade_in_eq)
  ultimately show ?thesis
    using s ps by (simp add: costs_eq flows_eq trades_def)
qed

section \<open>Constraints of the builder and limits of the kernel\<close>

text \<open>The constraint of the builder that speaks about the same quantity as a limit of the kernel.  The builder's
  cash is never negative, which is the kernel's cash limit at zero.\<close>

definition builder_bound :: "constraints \<Rightarrow> string \<Rightarrow> dec option" where
  "builder_bound c name =
     (if name = ''max_gross_notional'' then pc_max_gross c
      else if name = ''max_net_notional'' then pc_max_net c
      else if name = ''max_position_notional'' then pc_max_position c
      else if name = ''max_leverage'' then pc_max_leverage c
      else if name = ''max_concentration'' then pc_max_concentration c
      else if name = ''max_cash_deficit'' then Some d0 else None)"

definition same_marks :: "(string, raw_dec) dict \<Rightarrow> market \<Rightarrow> target_portfolio \<Rightarrow> bool" where
  "same_marks marks m t \<longleftrightarrow> (\<forall>p \<in> set (tp_positions t). \<exists>x. map_of marks (pos_id p) = Some (Finite x) \<and>
     map_of (rm_marks m) (pos_id p) = Some x)"

lemma position_notionals_eq:
  assumes "same_marks marks m t"
  shows "position_notionals marks (tp_positions t) = proposed_notional t m"
  unfolding position_notionals_def proposed_notional_def
proof (rule foldl_cong)
  fix d :: "(string, dec) dict" and p
  assume "p \<in> set (tp_positions t)"
  then obtain x where "map_of marks (pos_id p) = Some (Finite x)" "map_of (rm_marks m) (pos_id p) = Some x"
    using assms unfolding same_marks_def by blast
  then show "dict_set (pos_id p) (dmul (target_quantity p) (raw_val (dict_get marks (pos_id p) (Finite d0)))) d =
      (case map_of (rm_marks m) (pos_id p) of None \<Rightarrow> d | Some x \<Rightarrow> dict_set (pos_id p) (dmul (target_quantity p) x) d)"
    by (simp add: dict_get_def)
qed simp_all

lemma violates_iff: "violates (Some x) v \<longleftrightarrow> dval x < dval v" "\<not> violates None v"
  by (simp_all add: violates_def dlt_iff)

lemma validate_constraints_Inr:
  assumes "validate_constraints a ps marks cash c = Inr ()"
  defines "d \<equiv> position_notionals marks ps"
  defines "gross \<equiv> dsum (map (\<lambda>(i, v). dabs v) d)"
  shows "\<not> violates (pc_max_gross c) gross" "\<not> violates (pc_max_net c) (dabs (dsum (map snd d)))"
    "\<forall>(i, v) \<in> set d. \<not> violates (pc_max_position c) (dabs v)"
    "\<not> violates (pc_max_leverage c) (if dlt d0 (equity a) then ddiv gross (equity a) else if dnz gross then Dec 999999 0 else d0)"
    "dnz gross \<Longrightarrow> \<not> violates (pc_max_concentration c) (dmax_default d0 (map (\<lambda>(i, v). ddiv (dabs v) gross) d))"
  using assms(1) unfolding validate_constraints_def Let_def if_Inl_eq d_def gross_def
  by (auto simp: list_ex_iff)

lemma dmax_default_le:
  assumes "\<And>x. x \<in> set xs \<Longrightarrow> dval x \<le> k" "dval v \<le> k"
  shows "dval (dmax_default v xs) \<le> k"
proof -
  have "dval (foldl dmax y ys) \<le> k" if "dval y \<le> k" "\<And>x. x \<in> set ys \<Longrightarrow> dval x \<le> k" for y ys
    using that by (induction ys arbitrary: y) (simp_all add: dval_dmax del: dval_eq_0)
  then show ?thesis
    using assms by (cases xs) (simp_all add: dmax_default_def)
qed

lemma mk_constraints_nonneg:
  assumes "mk_constraints raw = Inr c" "builder_bound c name = Some x"
  shows "0 \<le> dval x"
proof -
  have nonneg: "0 \<le> dval (raw_val v)" if "opt_all (\<lambda>x. is_finite x \<and> \<not> dlt (raw_val x) d0) (Some v)" for v
    using that by (simp add: dlt_iff not_less)
  have all: "list_all (opt_all (\<lambda>x. is_finite x \<and> \<not> dlt (raw_val x) d0))
      [pc_max_gross raw, pc_max_net raw, pc_max_turnover raw, pc_max_position raw, pc_max_leverage raw,
       pc_max_concentration raw, pc_max_liquidity raw, Some (pc_min_cash raw)]"
    using assms(1) unfolding mk_constraints_def Let_def if_Inl_eq
    by (simp only: list_ex_iff list_all_iff) blast
  have c: "pc_max_gross c = map_option raw_val (pc_max_gross raw)" "pc_max_net c = map_option raw_val (pc_max_net raw)"
    "pc_max_position c = map_option raw_val (pc_max_position raw)" "pc_max_leverage c = map_option raw_val (pc_max_leverage raw)"
    "pc_max_concentration c = map_option raw_val (pc_max_concentration raw)"
    using assms(1) unfolding mk_constraints_def Let_def if_Inl_eq by auto
  show ?thesis
    using assms(2) all nonneg by (auto simp: builder_bound_def c split: if_splits)
qed

lemma builder_limit_holds:
  assumes "mk_constraints raw = Inr c"
    and "build b ids now snap (rq_account rq) targets marks returns meth version (Some c) = Inr (rq_target rq)"
    and "same_marks marks (rq_market rq) (rq_target rq)"
    and "builder_bound c (limit_name l) = Some x" "dval x \<le> dval (limit_value l)"
  shows "limit_holds E rq l"
proof -
  let ?a = "rq_account rq" and ?t = "rq_target rq" and ?g = "target_gross rq"
  obtain cash: "0 \<le> dval (cash_target ?t)"
    and ok: "validate_constraints ?a (tp_positions ?t) marks (cash_target ?t) c = Inr ()"
    using build_Inr [OF assms(2)] by metis
  note eq = position_notionals_eq [OF assms(3)]
  have gross: "dsum (map (\<lambda>(i, v). dabs v) (proposed_notional ?t (rq_market rq))) = ?g"
    and net: "dsum (map snd (proposed_notional ?t (rq_market rq))) = target_net rq"
    by (simp_all add: target_gross_def target_net_def)
  note facts = validate_constraints_Inr [OF ok, unfolded eq gross net]
  have x0: "0 \<le> dval x" by (rule mk_constraints_nonneg [OF assms(1,4)])
  let ?v = "kernel_limit_value E rq (limit_name l) ?g (target_net rq) (gross_notional ?a)"
  consider "limit_name l = ''max_gross_notional''" "pc_max_gross c = Some x"
    | "limit_name l = ''max_net_notional''" "pc_max_net c = Some x"
    | "limit_name l = ''max_position_notional''" "pc_max_position c = Some x"
    | "limit_name l = ''max_leverage''" "pc_max_leverage c = Some x"
    | "limit_name l = ''max_concentration''" "pc_max_concentration c = Some x"
    | "limit_name l = ''max_cash_deficit''"
    using assms(4) by (auto simp: builder_bound_def split: if_splits)
  then have "\<exists>v. ?v = Some v \<and> dval v \<le> dval x"
  proof cases
    case 1
    then show ?thesis using facts(1) by (simp add: kernel_limit_value_def Let_def violates_iff not_less)
  next
    case 2
    then show ?thesis using facts(2) by (simp add: kernel_limit_value_def Let_def violates_iff not_less)
  next
    case 3
    then have "dval (dabs v) \<le> dval x" if "(i, v) \<in> set (proposed_notional ?t (rq_market rq))" for i v
      using facts(3) that by (auto simp: violates_iff not_less)
    then show ?thesis using 3 x0
      by (auto simp: kernel_limit_value_def Let_def simp del: dval_eq_0 intro!: dmax_default_le)
  next
    case 4
    then show ?thesis using facts(4)
      by (auto simp: kernel_limit_value_def Let_def violates_iff not_less big_def dle_iff dlt_iff simp del: dval_eq_0 split: if_splits)
  next
    case 5
    then show ?thesis using facts(5) x0
      by (cases "dnz ?g") (simp_all add: kernel_limit_value_def Let_def violates_iff not_less del: dval_eq_0)
  next
    case 6
    then show ?thesis using assms(4) cash
      by (auto simp: kernel_limit_value_def Let_def loss_def dval_dmax dval_dneg builder_bound_def rnd_neg rnd_nonneg_iff simp del: dval_eq_0)
  qed
  then show ?thesis
    using assms(5) by (auto simp: limit_holds_def)
qed

text \<open>C24: Builder and kernel agree on the six limits that both know (gross, net, position, leverage, concentration and cash
  deficit): when a target was built under constraints at least as strict as the hard limits of a policy that has only
  such limits, the kernel, looking at the same account and the same marks, finds no limit exceeded; only the
  state of the market, the policy or the kill switch can still speak against the target.\<close>

theorem builder_satisfies_kernel:
  assumes "mk_constraints raw = Inr c"
    and "build b ids now snap (rq_account rq) targets marks returns meth version (Some c) = Inr (rq_target rq)"
    and "same_marks marks (rq_market rq) (rq_target rq)"
    and "\<forall>l \<in> set (hard_limits (rq_policy rq)). \<exists>x. builder_bound c (limit_name l) = Some x \<and> dval x \<le> dval (limit_value l)"
  shows "kernel_reasons E k rq = state_reasons k rq"
proof -
  have "list_all (limit_holds E rq) (hard_limits (rq_policy rq))"
    using assms(4) builder_limit_holds [OF assms(1-3)] by (auto simp: list_all_iff)
  then show ?thesis by (simp add: kernel_reasons_def limit_reasons_Nil [symmetric])
qed

section \<open>Execution choices\<close>

lemma tokens [simp]:
  "execution_token ''buy'' = Inr ''buy''" "execution_token ''sell'' = Inr ''sell''" "execution_token ''market'' = Inr ''market''"
  "execution_token ''passive_limit'' = Inr ''passive_limit''" "execution_token ''ioc'' = Inr ''ioc''" "execution_token ''gtc'' = Inr ''gtc''"
  by code_simp+

lemma literals [simp]:
  "lower ''buy'' = ''buy''" "lower ''sell'' = ''sell''" "lower ''market'' = ''market''" "lower ''passive_limit'' = ''passive_limit''"
  "\<not> blank ''market''" "\<not> blank ''passive_limit''" "\<not> blank ''ioc''" "\<not> blank ''gtc''"
  by code_simp+

lemma field_min1_ok: "\<not> blank v \<Longrightarrow> field_min1 v = Inr (strip v)"
  by (simp add: field_min1_Inr)

lemma build_order_ok:
  assumes "ec_side c \<in> {''buy'', ''sell''}" "(ec_order_type c, ec_tif c) \<in> {(''market'', ''ioc''), (''passive_limit'', ''gtc'')}"
    and "0 < dval (ec_quantity c)" "0 < dval (ec_price c)" "\<not> blank key"
  shows "build_order_from_choice aid now c parent plan inst key = Inr \<lparr>artifact_id = aid, created_at = now, parent_intent_id = parent,
     execution_plan_id = plan, ord_instrument = inst, ord_side = ec_side c, ord_quantity = ec_quantity c,
     order_type = ec_order_type c, ord_price = Some (ec_price c), time_in_force = ec_tif c, idempotency_key = strip key,
     ord_state = CREATED\<rparr>"
  using assms
  by (auto simp: build_order_from_choice_def mk_order_def require_aware_def field_gt0_def require_finite_decimal_def
      optional_gt0_def field_min1_ok dlt_iff simp del: dval_eq_0)

lemma mk_quote_Inr:
  assumes "mk_quote mark bid ask = Inr qs"
  shows "0 < dval (qs_mark qs)" "opt_all (\<lambda>p. 0 < dval p) (qs_bid qs)" "opt_all (\<lambda>p. 0 < dval p) (qs_ask qs)"
    "qs_bid qs = Some x \<Longrightarrow> qs_ask qs = Some y \<Longrightarrow> dval x \<le> dval y"
  using assms unfolding mk_quote_def Let_def if_Inl_eq
  by (auto simp: dle_iff dlt_iff not_le not_less simp del: dval_eq_0 split: option.splits)
    (cases bid; cases ask; auto)+

definition side_of :: "dec \<Rightarrow> string" where
  "side_of x = (if 0 < dval x then ''buy'' else ''sell'')"

text \<open>The quote a choice must not be worse than: an immediate order takes the far side, a passive one its own side.\<close>

definition quote_for :: "policy_kind \<Rightarrow> dec \<Rightarrow> quote_state \<Rightarrow> dec option" where
  "quote_for policy x qs = (if (policy = IMMEDIATE) = (0 < dval x) then qs_ask qs else qs_bid qs)"

text \<open>C26: Every execution choice becomes a valid order: for a difference that is not zero, on a validated quote and with a
  urgency in range, the order has the side of the difference, its rounded size, the price of the proper side of
  the book (the mark where that side is missing), and no validator of the order contract refuses it.\<close>

theorem choice_makes_order:
  assumes "mk_quote mark bid ask = Inr qs" "coeff x \<noteq> 0" "0 \<le> dval u" "dval u \<le> 1" "\<not> blank key"
  shows "\<exists>c r. choose_execution (Finite x) qs policy (Finite u) = Inr (Some c) \<and>
    build_order_from_choice aid now c parent plan inst key = Inr r \<and> order_valid r \<and> ord_state r = CREATED \<and>
    ord_side r = side_of x \<and> ord_quantity r = dabs x \<and>
    ord_price r = Some (case quote_for policy x qs of None \<Rightarrow> qs_mark qs | Some p \<Rightarrow> p)"
proof -
  note quote = mk_quote_Inr [OF assms(1)]
  have x: "dval x \<noteq> 0" "dnz x" using assms(2) by (simp_all add: dnz_iff)
  then have size: "0 < dval (dabs x)" by (simp add: dval_dabs rnd_pos del: dval_eq_0)
  have price: "0 < dval (case quote_for policy x qs of None \<Rightarrow> qs_mark qs | Some p \<Rightarrow> p)"
    using quote(1-3) by (auto simp: quote_for_def split: option.splits)
  have nz: "dnz p" if "0 < dval p" for p using that by (simp add: dnz_iff del: dval_eq_0)
  obtain c where c: "choose_execution (Finite x) qs policy (Finite u) = Inr (Some c)" "ec_side c = side_of x"
    "ec_quantity c = dabs x" "ec_price c = (case quote_for policy x qs of None \<Rightarrow> qs_mark qs | Some p \<Rightarrow> p)"
    "(ec_order_type c, ec_tif c) \<in> {(''market'', ''ioc''), (''passive_limit'', ''gtc'')}"
    using x assms(3,4) quote(2,3) nz
    by (cases policy; cases "0 < dval x"; cases "qs_bid qs"; cases "qs_ask qs")
      (auto simp: choose_execution_def Let_def dle_iff dlt_iff side_of_def quote_for_def simp del: dval_eq_0)
  have "ec_side c \<in> {''buy'', ''sell''}" by (simp add: c side_of_def)
  note built = build_order_ok [OF this c(5), of key aid now parent plan inst]
  then obtain r where r: "build_order_from_choice aid now c parent plan inst key = Inr r" "ord_side r = side_of x" "ord_quantity r = dabs x"
    "ord_price r = Some (case quote_for policy x qs of None \<Rightarrow> qs_mark qs | Some p \<Rightarrow> p)" "ord_state r = CREATED"
    using size price assms(5) c by auto
  moreover have "order_valid r"
    using r(1) mk_order_valid unfolding build_order_from_choice_def by blast
  ultimately show ?thesis using c(1) by blast
qed

section \<open>A concrete target\<close>

text \<open>An account with 100 in cash and 5 BTC at mark 6 that wants 6 BTC: one trade of notional 6 at 10 basis points.\<close>

definition pf_builder :: builder where
  "pf_builder = \<lparr>pb_min_trade = d0, pb_band = Dec 1 0, pb_fee_bps = Dec 10 0, pb_spread_bps = d0, pb_impact_bps = d0\<rparr>"

definition pf_marks :: "(string, raw_dec) dict" where
  "pf_marks = [(''BTC'', Finite (Dec 6 0))]"

definition pf_raw :: "raw_dec portfolio_constraints" where
  "pf_raw = \<lparr>pc_max_gross = Some (Finite (Dec 50 0)), pc_max_net = None, pc_max_turnover = None, pc_max_position = None,
     pc_max_leverage = None, pc_max_concentration = None, pc_min_cash = Finite d0, pc_max_liquidity = None, pc_liquidity = []\<rparr>"

definition pf_build :: "constraints option \<Rightarrow> target_portfolio res" where
  "pf_build c = build pf_builder (\<lambda>n. n) 1 7 ex_account [(rk_btc, Finite (Dec 6 0))] pf_marks [] ''m'' ''v1'' c"

definition pf_constraints :: constraints where
  "pf_constraints = the_ok (mk_constraints pf_raw)"

definition pf_target :: target_portfolio where
  "pf_target = the_ok (pf_build (Some pf_constraints))"

lemma pf_constraints: "mk_constraints pf_raw = Inr pf_constraints"
  unfolding pf_constraints_def by (rule is_ok_the_ok) code_simp

lemma pf_target: "pf_build (Some pf_constraints) = Inr pf_target"
  unfolding pf_target_def by (rule is_ok_the_ok) code_simp

theorem build_positions_witness:
  "map target_quantity (tp_positions pf_target) = [Dec 6 0] \<and> traded pf_builder ex_account pf_marks (rk_btc, Finite (Dec 6 0)) \<and>
   expected_cost pf_target = dadd d0 (trade_cost pf_builder ex_account pf_marks (rk_btc, Finite (Dec 6 0))) \<and> dval (expected_cost pf_target) = 6 / 1000"
proof -
  have q: "map target_quantity (tp_positions pf_target) = [Dec 6 0]" by code_simp
  have "expected_cost pf_target = Dec 6 (- 3)" by code_simp
  then have c: "dval (expected_cost pf_target) = 6 / 1000" by (simp add: dval_Dec power_int_minus)
  have t: "traded pf_builder ex_account pf_marks (rk_btc, Finite (Dec 6 0))"
    unfolding traded_def dlt_iff [symmetric] dle_iff [symmetric] by code_simp
  from build_positions [OF pf_target [unfolded pf_build_def]] t
  have "expected_cost pf_target = dadd d0 (trade_cost pf_builder ex_account pf_marks (rk_btc, Finite (Dec 6 0)))" by simp
  then show ?thesis using q t c by blast
qed

text \<open>A policy with a limit for every constraint of the builder, and constraints that are just as strict.\<close>

definition pf_limit :: "string \<Rightarrow> dec \<Rightarrow> risk_limit" where
  "pf_limit name v = \<lparr>artifact_id = 71, created_at = 0, limit_name = name, limit_value = v, limit_unit = ''usd''\<rparr>"

definition pf_policy :: risk_policy where
  "pf_policy = (rk_policy '''')\<lparr>hard_limits := [pf_limit ''max_gross_notional'' (Dec 50 0), pf_limit ''max_net_notional'' (Dec 40 0),
     pf_limit ''max_position_notional'' (Dec 36 0), pf_limit ''max_leverage'' (Dec 1 0), pf_limit ''max_concentration'' (Dec 1 0),
     pf_limit ''max_cash_deficit'' d0]\<rparr>"

definition pf_raw_strict :: "raw_dec portfolio_constraints" where
  "pf_raw_strict = pf_raw\<lparr>pc_max_net := Some (Finite (Dec 40 0)), pc_max_position := Some (Finite (Dec 36 0)),
     pc_max_leverage := Some (Finite (Dec 1 0)), pc_max_concentration := Some (Finite (Dec 1 0))\<rparr>"

theorem builder_satisfies_kernel_witness:
  "\<exists>c t. mk_constraints pf_raw_strict = Inr c \<and> pf_build (Some c) = Inr t \<and> map target_quantity (tp_positions t) = [Dec 6 0] \<and>
     kernel_reasons rk_env rk_switch \<lparr>rq_target = t, rq_account = ex_account, rq_market = rk_market, rq_policy = pf_policy\<rparr> =
     state_reasons rk_switch \<lparr>rq_target = t, rq_account = ex_account, rq_market = rk_market, rq_policy = pf_policy\<rparr>"
proof -
  have "case mk_constraints pf_raw_strict of Inl e \<Rightarrow> False | Inr c \<Rightarrow>
      (case pf_build (Some c) of Inl e \<Rightarrow> False
       | Inr t \<Rightarrow> map target_quantity (tp_positions t) = [Dec 6 0] \<and> map pos_id (tp_positions t) = [''BTC''] \<and>
           list_all (\<lambda>l. case builder_bound c (limit_name l) of None \<Rightarrow> False | Some x \<Rightarrow> dle x (limit_value l)) (hard_limits pf_policy))"
    by code_simp
  then obtain c t where c: "mk_constraints pf_raw_strict = Inr c" and t: "pf_build (Some c) = Inr t"
    and q: "map target_quantity (tp_positions t) = [Dec 6 0]" "map pos_id (tp_positions t) = [''BTC'']"
    and strict: "list_all (\<lambda>l. case builder_bound c (limit_name l) of None \<Rightarrow> False | Some x \<Rightarrow> dle x (limit_value l)) (hard_limits pf_policy)"
    by (auto split: sum.splits)
  let ?rq = "\<lparr>rq_target = t, rq_account = ex_account, rq_market = rk_market, rq_policy = pf_policy\<rparr>"
  have "pos_id p = ''BTC''" if "p \<in> set (tp_positions t)" for p
    using that arg_cong [OF q(2), of set] by auto
  then have "same_marks pf_marks rk_market t"
    by (simp add: same_marks_def pf_marks_def rk_market_def)
  then have marks: "same_marks pf_marks (rq_market ?rq) (rq_target ?rq)" by simp
  have built: "build pf_builder (\<lambda>n. n) 1 7 (rq_account ?rq) [(rk_btc, Finite (Dec 6 0))] pf_marks [] ''m'' ''v1'' (Some c) = Inr (rq_target ?rq)"
    using t by (simp add: pf_build_def)
  have "\<forall>l \<in> set (hard_limits (rq_policy ?rq)). \<exists>x. builder_bound c (limit_name l) = Some x \<and> dval x \<le> dval (limit_value l)"
    using strict by (fastforce simp: list_all_iff dle_iff split: option.splits)
  from builder_satisfies_kernel [where E = rk_env and k = rk_switch, OF c built marks this] c t q(1) show ?thesis
    by (intro exI [of _ c] exI [of _ t] conjI)
qed

theorem choice_makes_order_witness:
  "\<exists>c r. choose_execution (Finite (Dec (- 3) 0)) \<lparr>qs_mark = Dec 6 0, qs_bid = Some (Dec 5 0), qs_ask = None\<rparr> PASSIVE_LIMIT (Finite d1) = Inr (Some c) \<and>
     build_order_from_choice 1 2 c 3 4 rk_btc ''k'' = Inr r \<and> ord_side r = ''sell'' \<and> ord_price r = Some (Dec 6 0)"
proof -
  have quote: "mk_quote (Finite (Dec 6 0)) (Some (Finite (Dec 5 0))) None = Inr \<lparr>qs_mark = Dec 6 0, qs_bid = Some (Dec 5 0), qs_ask = None\<rparr>"
    by code_simp
  have key: "\<not> blank ''k''" by code_simp
  show ?thesis
    using choice_makes_order [OF quote _ _ _ key, of "Dec (- 3) 0" d1 PASSIVE_LIMIT 1 2 3 4 rk_btc]
    by (force simp: side_of_def quote_for_def dval_Dec simp del: dval_eq_0)
qed

end
