(* ===== verification/Tca.thy ===== *)
theory Tca
  imports Account
begin

text \<open>
  Transaction-cost analysis (\<open>src/advisorai/execution/tca.py\<close>): the report with its bounds, and the
  computation of the report from the fills of an order.  The computation checks its own inputs; the lemmas
  here show that after those checks the validators of the report can no longer refuse it.
\<close>

record tca_report =
  tr_order_id :: uuid
  tr_arrival :: dec
  tr_filled :: dec
  tr_notional :: dec
  tr_fees :: dec
  tr_spread_cost :: dec
  tr_delay_cost :: dec
  tr_opportunity_cost :: dec
  tr_adverse :: dec
  tr_shortfall :: dec
  tr_fill_ratio :: dec
  tr_impact :: dec
  tr_venue :: "string option"
  tr_performance :: "dec option"

definition mk_tca_report :: "tca_report \<Rightarrow> tca_report res" where
  "mk_tca_report r =
     (if \<not> dlt d0 (tr_arrival r) then Inl (ValidationError ''arrival_price'')
      else if list_ex (\<lambda>v. dlt v d0) [tr_filled r, tr_notional r, tr_fees r, tr_spread_cost r, tr_delay_cost r,
          tr_opportunity_cost r, tr_adverse r]
      then Inl (ValidationError ''greater_than_equal'')
      else if dlt (tr_fill_ratio r) d0 \<or> dlt d1 (tr_fill_ratio r) then Inl (ValidationError ''fill_ratio'')
      else if dlt (tr_impact r) d0 then Inl (ValidationError ''market_impact'')
      else if \<not> opt_all (\<lambda>v. \<not> blank v) (tr_venue r) then Inl (ValidationError ''TCA venue cannot be blank'')
      else Inr r)"

record tca_costs =
  tc_delay :: raw_dec
  tc_opportunity :: raw_dec
  tc_adverse :: raw_dec
  tc_impact :: raw_dec

definition quote_bad :: "raw_dec option \<Rightarrow> bool" where
  "quote_bad q = (\<not> opt_all (\<lambda>v. is_finite v \<and> \<not> dle (raw_val v) d0) q)"

definition spread_cost :: "dec option \<Rightarrow> dec option \<Rightarrow> dec \<Rightarrow> dec res" where
  "spread_cost bid ask filled =
     (case (bid, ask) of
        (Some b, Some a) \<Rightarrow>
          if dlt a b then Inl (ValueError ''best ask cannot be below best bid'')
          else Inr (dmul (ddiv (dsub a b) (Dec 2 0)) filled)
      | _ \<Rightarrow> Inr d0)"

definition shortfall :: "string \<Rightarrow> dec \<Rightarrow> dec \<Rightarrow> dec \<Rightarrow> dec \<Rightarrow> dec \<Rightarrow> dec \<Rightarrow> dec \<Rightarrow> dec \<Rightarrow> dec \<Rightarrow> dec" where
  "shortfall side average arrival filled fees delay opportunity impact spread adverse =
     dadd (dadd (dadd (dadd (dadd
       (dmul (dmul (dsub average arrival) (if side = ''buy'' then d1 else Dec (- 1) 0)) filled) fees) delay) opportunity) impact)
       (dadd spread adverse)"

definition compute_tca ::
  "uuid \<Rightarrow> raw_dec \<Rightarrow> string \<Rightarrow> raw_dec \<Rightarrow> fill list \<Rightarrow> raw_dec option \<Rightarrow> raw_dec option \<Rightarrow> tca_costs \<Rightarrow> string option \<Rightarrow>
   raw_dec option \<Rightarrow> tca_report res" where
  "compute_tca oid quantity side0 arrival fills bid ask costs venue performance =
     (let side = lower (strip side0); cs = [tc_delay costs, tc_opportunity costs, tc_adverse costs, tc_impact costs];
          q = raw_val quantity; p = raw_val arrival
      in if side \<notin> {''buy'', ''sell''} \<or> \<not> is_finite arrival \<or> \<not> is_finite quantity \<or> \<not> list_all is_finite cs \<or>
           dle p d0 \<or> dle q d0 \<or> list_ex (\<lambda>c. dlt (raw_val c) d0) cs
      then Inl (ValueError ''invalid side, quantity, arrival price, or TCA cost'')
      else if \<not> opt_all (\<lambda>v. \<not> blank v) venue then Inl (ValueError ''TCA venue cannot be blank'')
      else if \<not> opt_all is_finite performance then Inl (ValueError ''TCA venue performance must be finite'')
      else if quote_bad bid \<or> quote_bad ask then Inl (ValueError ''best bid and ask must be positive when supplied'')
      else if list_ex (\<lambda>f. fill_order_id f \<noteq> oid) fills then Inl (ValueError ''TCA fills must belong to the requested order'')
      else let filled = dsum (map fill_quantity fills) in
        if dlt q filled then Inl (ValueError ''TCA fills cannot exceed the order quantity'')
        else let notional = dsum (map (\<lambda>f. dmul (fill_quantity f) (fill_price f)) fills);
                 fees = dsum (map fill_fee fills);
                 average = (if dnz filled then ddiv notional filled else p)
          in rbind (spread_cost (map_option raw_val bid) (map_option raw_val ask) filled) (\<lambda>spread.
             mk_tca_report \<lparr>tr_order_id = oid, tr_arrival = p, tr_filled = filled, tr_notional = notional, tr_fees = fees,
               tr_spread_cost = spread, tr_delay_cost = raw_val (tc_delay costs),
               tr_opportunity_cost = raw_val (tc_opportunity costs), tr_adverse = raw_val (tc_adverse costs),
               tr_shortfall = shortfall side average p filled fees (raw_val (tc_delay costs))
                 (raw_val (tc_opportunity costs)) (raw_val (tc_impact costs)) spread (raw_val (tc_adverse costs)),
               tr_fill_ratio = ddiv filled q, tr_impact = raw_val (tc_impact costs), tr_venue = map_option strip venue,
               tr_performance = map_option raw_val performance\<rparr>))"

section \<open>The report is always accepted\<close>

lemma spread_cost_Inr: "spread_cost bid ask filled = Inr v \<Longrightarrow> 0 \<le> dval filled \<Longrightarrow> 0 \<le> dval v"
  by (auto simp: spread_cost_def dlt_iff not_less dval_dmul dval_ddiv dval_dsub dval_Dec simp del: dval_eq_0
      intro!: ctx.round_nonneg mult_nonneg_nonneg divide_nonneg_nonneg split: option.splits if_splits)

lemma fill_sums:
  assumes "list_all fill_valid fills"
  shows "0 \<le> dval (dsum (map fill_quantity fills))" "0 \<le> dval (dsum (map fill_fee fills))"
    "0 \<le> dval (dsum (map (\<lambda>f. dmul (fill_quantity f) (fill_price f)) fills))"
proof -
  have v: "0 \<le> dval (fill_quantity f)" "0 \<le> dval (fill_price f)" "0 \<le> dval (fill_fee f)" if "f \<in> set fills" for f
    using assms that by (auto simp: list_all_iff fill_valid_def less_imp_le)
  show "0 \<le> dval (dsum (map fill_quantity fills))" "0 \<le> dval (dsum (map fill_fee fills))"
    "0 \<le> dval (dsum (map (\<lambda>f. dmul (fill_quantity f) (fill_price f)) fills))"
    using v by (auto intro!: dsum_nonneg ctx.round_nonneg simp: dval_dmul simp del: dval_eq_0)
qed

text \<open>The inputs pass the checks that the computation makes itself.\<close>

definition tca_inputs_ok ::
  "uuid \<Rightarrow> raw_dec \<Rightarrow> string \<Rightarrow> raw_dec \<Rightarrow> fill list \<Rightarrow> raw_dec option \<Rightarrow> raw_dec option \<Rightarrow> tca_costs \<Rightarrow> string option \<Rightarrow>
   raw_dec option \<Rightarrow> bool" where
  "tca_inputs_ok oid quantity side arrival fills bid ask costs venue performance \<longleftrightarrow>
     lower (strip side) \<in> {''buy'', ''sell''} \<and> (\<exists>p. arrival = Finite p \<and> 0 < dval p) \<and> (\<exists>q. quantity = Finite q \<and> 0 < dval q) \<and>
     list_all (\<lambda>c. \<exists>v. c = Finite v \<and> 0 \<le> dval v) [tc_delay costs, tc_opportunity costs, tc_adverse costs, tc_impact costs] \<and>
     opt_all (\<lambda>v. \<not> blank v) venue \<and> opt_all is_finite performance \<and> \<not> quote_bad bid \<and> \<not> quote_bad ask \<and>
     (case (bid, ask) of (Some b, Some a) \<Rightarrow> dval (raw_val b) \<le> dval (raw_val a) | _ \<Rightarrow> True) \<and>
     list_all (\<lambda>f. fill_order_id f = oid) fills \<and> dval (dsum (map fill_quantity fills)) \<le> dval (raw_val quantity)"

lemma quote_bad_Some: "\<not> quote_bad (Some v) \<longleftrightarrow> (\<exists>x. v = Finite x \<and> 0 < dval x)"
  by (cases v) (auto simp: quote_bad_def dle_iff)

lemma tca_report_ok:
  assumes "tca_inputs_ok oid quantity side arrival fills bid ask costs venue performance" "list_all fill_valid fills"
  obtains r where "compute_tca oid quantity side arrival fills bid ask costs venue performance = Inr r"
    "tr_filled r = dsum (map fill_quantity fills)" "tr_fill_ratio r = ddiv (dsum (map fill_quantity fills)) (raw_val quantity)"
    "0 \<le> dval (tr_fill_ratio r)" "dval (tr_fill_ratio r) \<le> 1" "0 \<le> dval (tr_spread_cost r)"
proof -
  obtain p q where p: "arrival = Finite p" "0 < dval p" and q: "quantity = Finite q" "0 < dval q"
    using assms(1) by (auto simp: tca_inputs_ok_def)
  let ?filled = "dsum (map fill_quantity fills)"
  have filled: "0 \<le> dval ?filled" "dval ?filled \<le> dval q"
    using assms fill_sums q by (auto simp: tca_inputs_ok_def)
  have "coeff q \<noteq> 0" using q(2) by (metis dval_eq_0 less_irrefl)
  then have ratio: "0 \<le> dval (ddiv ?filled q)" "dval (ddiv ?filled q) \<le> 1"
    using filled by (simp_all add: dval_ddiv ctx.round_nonneg ctx.round_ratio del: dval_eq_0)
  have "\<exists>v. spread_cost (map_option raw_val bid) (map_option raw_val ask) ?filled = Inr v \<and> 0 \<le> dval v"
  proof -
    obtain v where v: "spread_cost (map_option raw_val bid) (map_option raw_val ask) ?filled = Inr v"
      using assms(1) by (cases bid; cases ask) (auto simp: tca_inputs_ok_def spread_cost_def dlt_iff)
    then show ?thesis using spread_cost_Inr filled(1) by blast
  qed
  then obtain spread where spread: "spread_cost (map_option raw_val bid) (map_option raw_val ask) ?filled = Inr spread" "0 \<le> dval spread"
    by blast
  let ?notional = "dsum (map (\<lambda>f. dmul (fill_quantity f) (fill_price f)) fills)"
  let ?r = "\<lparr>tr_order_id = oid, tr_arrival = p, tr_filled = ?filled, tr_notional = ?notional, tr_fees = dsum (map fill_fee fills),
     tr_spread_cost = spread, tr_delay_cost = raw_val (tc_delay costs),
     tr_opportunity_cost = raw_val (tc_opportunity costs), tr_adverse = raw_val (tc_adverse costs),
     tr_shortfall = shortfall (lower (strip side)) (if dnz ?filled then ddiv ?notional ?filled else p) p ?filled
       (dsum (map fill_fee fills)) (raw_val (tc_delay costs)) (raw_val (tc_opportunity costs)) (raw_val (tc_impact costs)) spread
       (raw_val (tc_adverse costs)),
     tr_fill_ratio = ddiv ?filled q, tr_impact = raw_val (tc_impact costs), tr_venue = map_option strip venue,
     tr_performance = map_option raw_val performance\<rparr>"
  have costs: "0 \<le> dval (raw_val (tc_delay costs))" "0 \<le> dval (raw_val (tc_opportunity costs))"
    "0 \<le> dval (raw_val (tc_adverse costs))" "0 \<le> dval (raw_val (tc_impact costs))"
    "is_finite (tc_delay costs)" "is_finite (tc_opportunity costs)" "is_finite (tc_adverse costs)" "is_finite (tc_impact costs)"
    using assms(1) by (auto simp: tca_inputs_ok_def)
  have "mk_tca_report ?r = Inr ?r"
    using p q filled ratio spread(2) costs fill_sums [OF assms(2)] assms(1)
    by (cases venue) (simp_all add: mk_tca_report_def dlt_iff not_less tca_inputs_ok_def del: dval_eq_0)
  moreover have "compute_tca oid quantity side arrival fills bid ask costs venue performance = mk_tca_report ?r"
  proof -
    have side: "\<not> lower (strip side) \<notin> {''buy'', ''sell''}" and
      rest: "opt_all (\<lambda>v. \<not> blank v) venue" "opt_all is_finite performance" "\<not> quote_bad bid" "\<not> quote_bad ask"
        "\<not> list_ex (\<lambda>f. fill_order_id f \<noteq> oid) fills" "\<not> dlt q ?filled"
      using assms(1) filled q by (auto simp: tca_inputs_ok_def dlt_iff list_all_iff list_ex_iff)
    have bad: "\<not> dle p d0" "\<not> dle q d0" "\<not> list_ex (\<lambda>c. dlt (raw_val c) d0)
        [tc_delay costs, tc_opportunity costs, tc_adverse costs, tc_impact costs]"
      using p q costs by (simp_all add: dle_iff dlt_iff)
    show ?thesis
      unfolding compute_tca_def Let_def
      using p q costs spread(1) by (simp only: side simp_thms if_False if_True) (insert rest bad, simp)
  qed
  ultimately show thesis using that [of ?r] ratio spread(2) q by simp
qed

section \<open>Properties\<close>

text \<open>The analysis never fails on good inputs: when the inputs pass the checks that \<open>compute_tca\<close> makes, the
  validators of the report accept the result whatever the rounding did; the fill ratio is between zero and
  one, and the spread cost is not negative.\<close>

theorem compute_tca_total:
  assumes "tca_inputs_ok oid quantity side arrival fills bid ask costs venue performance" "list_all fill_valid fills"
  shows "\<exists>r. compute_tca oid quantity side arrival fills bid ask costs venue performance = Inr r \<and>
    0 \<le> dval (tr_fill_ratio r) \<and> dval (tr_fill_ratio r) \<le> 1 \<and> 0 \<le> dval (tr_spread_cost r)"
  by (rule tca_report_ok [OF assms]) blast

text \<open>One fill of 8 at 6 of an order for 8, on a quote of 5 to 7.\<close>

definition tca_ex :: "tca_report res" where
  "tca_ex = compute_tca 1 (Finite (Dec 8 0)) ''Buy '' (Finite (Dec 6 0))
     [\<lparr>artifact_id = 9, created_at = 0, fill_order_id = 1, venue_fill_id = ''x'', fill_quantity = Dec 8 0, fill_price = Dec 6 0,
       fill_fee = d1, fill_occurred_at = 10\<rparr>] (Some (Finite (Dec 5 0))) (Some (Finite (Dec 7 0)))
     \<lparr>tc_delay = Finite d0, tc_opportunity = Finite d0, tc_adverse = Finite d0, tc_impact = Finite d0\<rparr> None None"

theorem compute_tca_total_witness:
  "\<exists>r. tca_ex = Inr r \<and> 0 \<le> dval (tr_fill_ratio r) \<and> dval (tr_fill_ratio r) \<le> 1 \<and> tr_fill_ratio r = Dec 1 0 \<and> tr_spread_cost r = Dec 8 0"
proof -
  have inputs: "lower (strip ''Buy '') \<in> {''buy'', ''sell''}" "dval (dsum [Dec 8 0]) \<le> dval (Dec 8 0)" "\<not> blank ''x''"
    unfolding dle_iff [symmetric] by code_simp+
  have "\<exists>r. tca_ex = Inr r \<and> 0 \<le> dval (tr_fill_ratio r) \<and> dval (tr_fill_ratio r) \<le> 1 \<and> 0 \<le> dval (tr_spread_cost r)"
    unfolding tca_ex_def
    by (rule compute_tca_total)
      (use inputs in \<open>simp_all add: tca_inputs_ok_def quote_bad_def dle_iff dval_Dec fill_valid_def del: dval_eq_0\<close>)
  then obtain r where r: "tca_ex = Inr r" "0 \<le> dval (tr_fill_ratio r)" "dval (tr_fill_ratio r) \<le> 1" by blast
  moreover have "(case tca_ex of Inr r \<Rightarrow> tr_fill_ratio r = Dec 1 0 \<and> tr_spread_cost r = Dec 8 0 | Inl _ \<Rightarrow> False)"
    by code_simp
  then have "tr_fill_ratio r = Dec 1 0 \<and> tr_spread_cost r = Dec 8 0" by (simp only: r sum.case)
  ultimately show ?thesis by blast
qed

end
