(* ===== verification/Gates.thy ===== *)
theory Gates
  imports Ledger
begin

text \<open>
  The registry of phase gates (\<open>PhaseGateRegistry\<close> of \<open>src/advisorai/gates.py\<close>): records per phase, their
  projection from the model ledger, and the admission check along the chain of prerequisites.  The clock, the
  identifiers of ledger events and the digest of a record without its identity and time are parameters;
  \<open>pr_draws\<close> numbers the readings of the clock.
\<close>

record gate_env =
  ge_now :: "nat \<Rightarrow> utc"
  ge_uuid :: "nat \<Rightarrow> uuid"
  ge_sha :: "phase_gate \<Rightarrow> string"

record registry =
  pr_ledgers :: "ledgers option"
  pr_records :: "nat \<Rightarrow> phase_gate list"
  pr_draws :: nat

definition last_record :: "phase_gate list \<Rightarrow> phase_gate option" where
  "last_record gs = (if gs = [] then None else Some (last gs))"

text \<open>The phase a record depends on: the one it names, else the one before its own.\<close>

definition prerequisite_of :: "phase_gate \<Rightarrow> nat" where
  "prerequisite_of g = (case pg_prerequisite g of None \<Rightarrow> pg_phase g - 1 | Some q \<Rightarrow> q)"

text \<open>
  The recursion of \<open>is_admitted\<close> follows the prerequisite of the latest record.  A validated record of a phase
  above zero depends on the phase before it, so a prerequisite that is not earlier does not occur.
\<close>

function admitted :: "(nat \<Rightarrow> phase_gate list) \<Rightarrow> utc \<Rightarrow> nat \<Rightarrow> bool" where
  "admitted recs t ph =
     (case last_record (recs ph) of
        None \<Rightarrow> False
      | Some g \<Rightarrow> if \<not> gate_valid_at g t then False else if ph = 0 then True
          else if prerequisite_of g < ph then admitted recs t (prerequisite_of g) else False)"
  by pat_completeness auto
termination by (relation "measure (\<lambda>(recs, t, ph). ph)") auto

declare admitted.simps [simp del]

lemma admitted_iff: "admitted recs t ph \<longleftrightarrow> (\<exists>g. last_record (recs ph) = Some g \<and> gate_valid_at g t \<and>
    (ph = 0 \<or> prerequisite_of g < ph \<and> admitted recs t (prerequisite_of g)))"
  by (subst admitted.simps) (auto split: option.splits)

definition latest :: "registry \<Rightarrow> nat \<Rightarrow> phase_gate option res" where
  "latest s ph = (if 10 < ph then Inl (ValueError ''phase must be between zero and ten'') else Inr (last_record (pr_records s ph)))"

definition history :: "registry \<Rightarrow> nat option \<Rightarrow> phase_gate list res" where
  "history s ph = (case ph of
       None \<Rightarrow> Inr (concat (map (pr_records s) [0..<11]))
     | Some p \<Rightarrow> if 10 < p then Inl (ValueError ''phase must be between zero and ten'') else Inr (pr_records s p))"

definition is_admitted :: "registry \<Rightarrow> nat \<Rightarrow> pydatetime \<Rightarrow> bool res" where
  "is_admitted s ph at_time =
     rbind (aware ''phase gate evaluation timestamp must include a timezone'' at_time) (\<lambda>t.
     rbind (latest s ph) (\<lambda>_. Inr (admitted (pr_records s) t ph)))"

definition pr_now :: "gate_env \<Rightarrow> (registry, utc) action" where
  "pr_now E s = (Inr (ge_now E (pr_draws s)), s\<lparr>pr_draws := Suc (pr_draws s)\<rparr>)"

definition can_start :: "gate_env \<Rightarrow> nat \<Rightarrow> (registry, bool) action" where
  "can_start E ph = (if 10 < ph then sraise (ValueError ''phase must be between zero and ten'')
     else if ph = 0 then sreturn True
     else sbind (pr_now E) (\<lambda>t. spure (\<lambda>s. is_admitted s (ph - 1) (Aware t 0))))"

definition require_admitted :: "gate_env \<Rightarrow> nat \<Rightarrow> string \<Rightarrow> (registry, unit) action" where
  "require_admitted E ph component =
     (if blank component then sraise (ValueError ''gated component name cannot be blank'')
      else sbind (pr_now E) (\<lambda>t. sbind (spure (\<lambda>s. is_admitted s ph (Aware t 0))) (\<lambda>ok.
        if ok then sreturn () else sraise (PermissionError (component @ '' requires an admitted gate'')))))"

section \<open>Recording\<close>

definition prior_record :: "phase_gate \<Rightarrow> registry \<Rightarrow> phase_gate option" where
  "prior_record g s = find (\<lambda>r. pg_id r = pg_id g) (pr_records s (pg_phase g))"

definition need_prerequisite :: "gate_env \<Rightarrow> phase_gate \<Rightarrow> (registry, unit) action" where
  "need_prerequisite E g =
     (if pg_decision g = GATE_PASSED \<and> 0 < pg_phase g
      then sbind (pr_now E) (\<lambda>t. sbind (spure (\<lambda>s. is_admitted s (prerequisite_of g) (Aware t 0))) (\<lambda>ok.
             if ok then sreturn () else sraise (ValueError ''phase cannot pass before its prerequisite passes'')))
      else sreturn ())"

definition append_local :: "gate_env \<Rightarrow> phase_gate \<Rightarrow> (registry, unit) action" where
  "append_local E g =
     sbind (need_prerequisite E g) (\<lambda>_.
     sbind (sget (prior_record g)) (\<lambda>prior. case prior of
       Some r \<Rightarrow> if r \<noteq> g then sraise (ValueError ''phase gate record ID is immutable'') else sreturn ()
     | None \<Rightarrow> smodify (\<lambda>s. s\<lparr>pr_records := (pr_records s)(pg_phase g := pr_records s (pg_phase g) @ [g])\<rparr>)))"

definition gate_event_type :: string where
  "gate_event_type = ''phase_gate_recorded''"

definition gate_key :: "gate_env \<Rightarrow> phase_gate \<Rightarrow> string" where
  "gate_key E g = ''phase-gate:'' @ nat_str (pg_phase g) @ '':'' @ uuid_str (pg_id g) @ '':'' @
     ge_sha E (g\<lparr>pg_id := 0, pg_recorded_at := 0\<rparr>)"

definition gate_event :: "gate_env \<Rightarrow> phase_gate \<Rightarrow> nat \<Rightarrow> ledger_event" where
  "gate_event E g n = \<lparr>event_id = ge_uuid E n, ev_namespace = NS_MODEL, event_type = gate_event_type, ev_key = gate_key E g,
     ev_occurred_at = ge_now E n, ev_payload = [(''record'', PGate g), (''actor'', PText (pg_recorded_by g))]\<rparr>"

definition gate_append :: "gate_env \<Rightarrow> phase_gate \<Rightarrow> (registry, unit) action" where
  "gate_append E g s =
     (case pr_ledgers s of
        None \<Rightarrow> (Inr (), s)
      | Some L \<Rightarrow> let (r, M) = ledger_append (gate_event E g (pr_draws s)) L; t = s\<lparr>pr_ledgers := Some M, pr_draws := Suc (pr_draws s)\<rparr>
          in (case r of Inl e \<Rightarrow> (Inl e, t) | Inr _ \<Rightarrow> (Inr (), t)))"

definition record_gate :: "gate_env \<Rightarrow> phase_gate \<Rightarrow> (registry, phase_gate) action" where
  "record_gate E g =
     sbind (sget (prior_record g)) (\<lambda>prior. case prior of
       Some r \<Rightarrow> if r \<noteq> g then sraise (ValueError ''phase gate record ID is immutable'') else sreturn r
     | None \<Rightarrow> sbind (append_local E g) (\<lambda>_. sbind (gate_append E g) (\<lambda>_. sreturn g)))"

section \<open>Projection from the ledger\<close>

definition hydrate_gate :: "gate_env \<Rightarrow> ledger_event \<Rightarrow> (registry, unit) action" where
  "hydrate_gate E ev =
     (if event_type ev \<noteq> gate_event_type then sreturn ()
      else case map_of (ev_payload ev) ''record'' of
        Some (PGate g) \<Rightarrow> append_local E g
      | _ \<Rightarrow> sraise (ValueError ''phase gate ledger contains an invalid record''))"

fun hydrate_gates :: "gate_env \<Rightarrow> ledger_event list \<Rightarrow> (registry, unit) action" where
  "hydrate_gates E [] = sreturn ()"
| "hydrate_gates E (ev # evs) = sbind (hydrate_gate E ev) (\<lambda>_. hydrate_gates E evs)"

definition new_registry :: "gate_env \<Rightarrow> ledgers option \<Rightarrow> nat \<Rightarrow> unit res \<times> registry" where
  "new_registry E L n =
     (let s = \<lparr>pr_ledgers = L, pr_records = (\<lambda>_. []), pr_draws = n\<rparr>
      in case L of None \<Rightarrow> (Inr (), s) | Some M \<Rightarrow> hydrate_gates E (ledger_events M NS_MODEL) s)"

definition local_test_evidence ::
  "(string \<Rightarrow> string) \<Rightarrow> uuid \<Rightarrow> utc \<Rightarrow> string \<Rightarrow> bool \<Rightarrow> string \<Rightarrow> string \<Rightarrow> string \<Rightarrow> gate_evidence res" where
  "local_test_evidence sha gid now name passed command output verifier =
     (if blank command then Inl (ValueError ''local gate evidence requires a command'')
      else mk_gate_evidence gid name LOCAL_TEST passed (if passed then Some (sha output) else None) command verifier
             (Aware now 0) None ''captured command output hash'')"

section \<open>The chain of admission\<close>

text \<open>Every record of a phase was validated and belongs to the phase.\<close>

definition registry_ok :: "registry \<Rightarrow> bool" where
  "registry_ok s \<longleftrightarrow> (\<forall>ph. \<forall>g \<in> set (pr_records s ph). pg_phase g = ph \<and> gate_ok g)"

lemma last_record_Some: "last_record gs = Some g \<Longrightarrow> g \<in> set gs"
  by (auto simp: last_record_def split: if_splits)

lemma registry_ok_draws [simp]: "registry_ok (s\<lparr>pr_draws := n\<rparr>) = registry_ok s" "registry_ok (s\<lparr>pr_ledgers := L\<rparr>) = registry_ok s"
  by (simp_all add: registry_ok_def)

lemma append_local_keeps: "gate_ok g \<Longrightarrow> keeps registry_ok (append_local E g)"
  unfolding append_local_def need_prerequisite_def pr_now_def [abs_def]
  by (intro preserve_intros keepsI)
    (auto simp: registry_ok_def sbind_def smodify_def spure_def sreturn_def sraise_def split: sum.splits option.splits if_splits)

lemma gate_append_keeps: "keeps registry_ok (gate_append E g)"
  by (rule keepsI) (auto simp: gate_append_def Let_def split: option.splits prod.splits sum.splits)

lemma record_gate_keeps: "gate_ok g \<Longrightarrow> keeps registry_ok (record_gate E g)"
  unfolding record_gate_def by (intro preserve_intros append_local_keeps gate_append_keeps)

end
