(* ===== verification/Soak.thy ===== *)
theory Soak
  imports Ledger
begin

text \<open>
  The paper soak (\<open>PaperSoakController\<close> of \<open>src/advisorai/soak/controller.py\<close>): samples of intervals, recorded once
  and kept in the incident ledger, and the gate that is computed from all of them.  Times are in microseconds.
\<close>

record soak_env =
  so_uuid :: "nat \<Rightarrow> uuid"
  so_now :: "nat \<Rightarrow> utc"

record soak =
  sk_started_at :: utc
  sk_ledgers :: "ledgers option"
  sk_samples :: "sample list"
  sk_by_id :: "(uuid, sample) dict"
  sk_draws :: nat

definition soak_local :: "sample \<Rightarrow> (soak, unit) action" where
  "soak_local x s =
     (if ss_at x < sk_started_at s then (Inl (ValueError ''soak sample precedes soak start''), s)
      else case map_of (sk_by_id s) (ss_id x) of
        Some y \<Rightarrow> if y \<noteq> x then (Inl (ValueError ''soak sample ID is immutable''), s) else (Inr (), s)
      | None \<Rightarrow> (Inr (), s\<lparr>sk_by_id := dict_set (ss_id x) x (sk_by_id s), sk_samples := sk_samples s @ [x]\<rparr>))"

definition soak_event_type :: string where
  "soak_event_type = ''soak_sample_recorded''"

definition soak_event :: "soak_env \<Rightarrow> sample \<Rightarrow> nat \<Rightarrow> ledger_event" where
  "soak_event E x n = \<lparr>event_id = so_uuid E n, ev_namespace = NS_INCIDENT, event_type = soak_event_type,
     ev_key = ''soak:'' @ uuid_str (ss_id x), ev_occurred_at = so_now E n, ev_payload = [(''sample'', PSample x)]\<rparr>"

definition soak_append :: "soak_env \<Rightarrow> sample \<Rightarrow> (soak, unit) action" where
  "soak_append E x s =
     (case sk_ledgers s of
        None \<Rightarrow> (Inr (), s)
      | Some L \<Rightarrow> let (r, M) = ledger_append (soak_event E x (sk_draws s)) L; t = s\<lparr>sk_ledgers := Some M, sk_draws := Suc (sk_draws s)\<rparr>
          in (case r of Inl e \<Rightarrow> (Inl e, t) | Inr _ \<Rightarrow> (Inr (), t)))"

definition soak_record :: "soak_env \<Rightarrow> sample \<Rightarrow> (soak, unit) action" where
  "soak_record E x =
     sbind (sget (\<lambda>s. map_of (sk_by_id s) (ss_id x))) (\<lambda>prior.
     sbind (soak_local x) (\<lambda>_. if prior \<noteq> None then sreturn () else soak_append E x))"

fun hydrate_soak :: "ledger_event list \<Rightarrow> (soak, unit) action" where
  "hydrate_soak [] = sreturn ()"
| "hydrate_soak (ev # evs) =
     (if event_type ev \<noteq> soak_event_type then hydrate_soak evs
      else case map_of (ev_payload ev) ''sample'' of
        Some (PSample x) \<Rightarrow> sbind (soak_local x) (\<lambda>_. hydrate_soak evs)
      | _ \<Rightarrow> sraise (ValueError ''soak ledger contains an invalid sample payload''))"

definition new_soak :: "pydatetime \<Rightarrow> ledgers option \<Rightarrow> nat \<Rightarrow> soak res" where
  "new_soak started L n =
     rbind (aware ''soak timestamp must include a timezone'' started) (\<lambda>t.
     let s = \<lparr>sk_started_at = t, sk_ledgers = L, sk_samples = [], sk_by_id = [], sk_draws = n\<rparr>
     in case L of None \<Rightarrow> Inr s
        | Some M \<Rightarrow> (case hydrate_soak (ledger_events M NS_INCIDENT) s of (Inl e, _) \<Rightarrow> Inl e | (Inr _, s') \<Rightarrow> Inr s'))"

section \<open>The gate\<close>

definition day :: int where
  "day = 86400000000"

definition soak_days :: "soak \<Rightarrow> int" where
  "soak_days s = (case map ss_at (sk_samples s) of [] \<Rightarrow> 0 | t # ts \<Rightarrow> (fold max ts t - sk_started_at s) div day)"

definition soak_scenarios :: "soak \<Rightarrow> failure_scenario list" where
  "soak_scenarios s = sort_key scenario_value (remdups (concat (map ss_scenarios (sk_samples s))))"

definition soak_utility :: "soak \<Rightarrow> dec" where
  "soak_utility s = dsum (map ss_utility (sk_samples s))"

definition beaten :: "dec \<Rightarrow> dec option list \<Rightarrow> bool" where
  "beaten u vs = (let known = List.map_filter (\<lambda>v. v) vs in known = [] \<or> \<not> dle u (dsum known))"

definition soak_reasons :: "soak \<Rightarrow> int \<Rightarrow> int \<Rightarrow> dec \<Rightarrow> string list" where
  "soak_reasons s min_decisions min_trades headroom =
     (let xs = sk_samples s; reason = (\<lambda>b r. if b then [r] else [])
      in reason (soak_days s < 60) ''less_than_60_calendar_days'' @
         reason (int (sum_list (map ss_decisions xs)) < min_decisions) ''insufficient_decision_sample'' @
         reason (int (sum_list (map ss_trades xs)) < min_trades) ''insufficient_trade_sample'' @
         reason (soak_scenarios s = []) ''no_adverse_conditions_observed_or_injected'' @
         reason (\<not> list_all ss_resource_stable xs) ''resource_instability'' @
         reason (list_ex (\<lambda>x. \<not> ss_data_ok x \<or> \<not> ss_model_ok x \<or> \<not> ss_agent_ok x \<or> \<not> ss_risk_ok x \<or> \<not> ss_execution_ok x) xs)
           ''scorecard_failure'' @
         reason (list_ex (\<lambda>x. \<not> opt_all (\<lambda>v. \<not> dlt v headroom) (ss_headroom x)) xs) ''resource_headroom_breach'' @
         reason (\<not> beaten (soak_utility s) (map ss_no_trade_utility xs)) ''no_trade_not_beaten'' @
         reason (\<not> beaten (soak_utility s) (map ss_benchmark_utility xs)) ''benchmark_not_beaten'' @
         reason (\<not> list_all ss_reconciliation_clean xs) ''unresolved_reconciliation'' @
         reason (\<not> list_all ss_safety_clean xs) ''unresolved_safety_incident'' @
         reason (dle (soak_utility s) d0) ''non_positive_net_utility'')"

definition soak_gate_of :: "soak \<Rightarrow> int \<Rightarrow> int \<Rightarrow> raw_dec \<Rightarrow> soak_gate res" where
  "soak_gate_of s min_decisions min_trades headroom =
     (if sk_samples s = [] then Inl (ValueError ''cannot evaluate a soak without samples'')
      else if min_decisions < 1 \<or> min_trades < 1 then Inl (ValueError ''soak minimum samples must be positive'')
      else case headroom of
        NotFinite \<Rightarrow> Inl (ValueError ''soak minimum headroom must be finite and at least 1.5 GiB'')
      | Finite h \<Rightarrow>
        if dlt h (Dec 15 (- 1)) then Inl (ValueError ''soak minimum headroom must be finite and at least 1.5 GiB'')
        else let reasons = soak_reasons s min_decisions min_trades h
          in mk_soak_gate \<lparr>sg_days = soak_days s, sg_decisions = sum_list (map ss_decisions (sk_samples s)),
               sg_trades = sum_list (map ss_trades (sk_samples s)), sg_scenarios = soak_scenarios s,
               sg_resources_stable = list_all ss_resource_stable (sk_samples s),
               sg_unresolved_reconciliation = \<not> list_all ss_reconciliation_clean (sk_samples s),
               sg_unresolved_safety = \<not> list_all ss_safety_clean (sk_samples s), sg_utility = soak_utility s,
               sg_passed = (reasons = []), sg_reasons = reasons, sg_headroom = h\<rparr>)"

section \<open>The samples\<close>

text \<open>The index agrees with the list, and no sample precedes the start.\<close>

definition soak_ok :: "soak \<Rightarrow> bool" where
  "soak_ok s \<longleftrightarrow> sk_by_id s = map (\<lambda>x. (ss_id x, x)) (sk_samples s) \<and> distinct (map ss_id (sk_samples s)) \<and>
     (\<forall>x \<in> set (sk_samples s). sk_started_at s \<le> ss_at x)"

lemma soak_local_keeps: "keeps soak_ok (soak_local x)"
proof (rule keepsI)
  fix s assume ok: "soak_ok s"
  show "soak_ok (snd (soak_local x s))"
  proof (cases "sk_started_at s \<le> ss_at x \<and> map_of (sk_by_id s) (ss_id x) = None")
    case True
    then have "ss_id x \<notin> ss_id ` set (sk_samples s)"
      using ok by (force simp: soak_ok_def map_of_eq_None_iff)
    then show ?thesis using True ok by (auto simp: soak_local_def soak_ok_def dict_set_new)
  next
    case False
    then show ?thesis using ok by (auto simp: soak_local_def split: option.splits)
  qed
qed

lemma soak_append_keeps: "keeps soak_ok (soak_append E x)"
  by (rule keepsI) (auto simp: soak_append_def soak_ok_def Let_def split: option.splits prod.splits sum.splits)

lemma soak_record_keeps: "keeps soak_ok (soak_record E x)"
  unfolding soak_record_def by (intro preserve_intros soak_local_keeps soak_append_keeps)

lemma hydrate_soak_keeps: "keeps soak_ok (hydrate_soak evs)"
proof (induction evs)
  case Nil
  show ?case by (simp add: keeps_def)
next
  case (Cons ev evs)
  then show ?case by (auto intro!: preserve_intros soak_local_keeps split: option.splits pval.splits)
qed

primrec soak_record_all :: "soak_env \<Rightarrow> sample list \<Rightarrow> soak \<Rightarrow> soak" where
  "soak_record_all E [] s = s"
| "soak_record_all E (x # xs) s = soak_record_all E xs (snd (soak_record E x s))"

lemma soak_record_all_ok: "soak_ok s \<Longrightarrow> soak_ok (soak_record_all E xs s)"
  by (induction xs arbitrary: s) (use soak_record_keeps in \<open>auto simp: keeps_def\<close>)

lemma new_soak_ok:
  assumes "new_soak started L n = Inr s"
  shows "soak_ok s"
proof -
  obtain t where new: "(let s = \<lparr>sk_started_at = t, sk_ledgers = L, sk_samples = [], sk_by_id = [], sk_draws = n\<rparr>
      in case L of None \<Rightarrow> Inr s
        | Some M \<Rightarrow> (case hydrate_soak (ledger_events M NS_INCIDENT) s of (Inl e, _) \<Rightarrow> Inl e | (Inr _, s') \<Rightarrow> Inr s')) = Inr s"
    using assms by (auto simp: new_soak_def rbind_eq_Inr)
  let ?s = "\<lparr>sk_started_at = t, sk_ledgers = L, sk_samples = [], sk_by_id = [], sk_draws = n\<rparr>"
  have start: "soak_ok ?s" by (simp add: soak_ok_def)
  show ?thesis
  proof (cases L)
    case None
    then show ?thesis using new start by simp
  next
    case (Some M)
    then have "s = snd (hydrate_soak (ledger_events M NS_INCIDENT) ?s)"
      using new by (auto split: prod.splits sum.splits)
    then show ?thesis using hydrate_soak_keeps start by (simp add: keeps_def)
  qed
qed

lemma fold_max_ge: "(t :: int) \<le> fold max ts t"
  by (induction ts arbitrary: t) (auto intro: order_trans [OF max.cobounded2])

lemma soak_days_nonneg:
  assumes "soak_ok s"
  shows "0 \<le> soak_days s"
proof (cases "map ss_at (sk_samples s)")
  case (Cons t ts)
  then have "sk_started_at s \<le> t" using assms by (auto simp: soak_ok_def)
  then have "sk_started_at s \<le> fold max ts t" using fold_max_ge order_trans by blast
  then show ?thesis using Cons by (simp add: soak_days_def day_def pos_imp_zdiv_nonneg_iff)
qed (simp add: soak_days_def)

text \<open>What a passed soak stands for.\<close>

definition soak_passes :: "soak \<Rightarrow> int \<Rightarrow> int \<Rightarrow> dec \<Rightarrow> bool" where
  "soak_passes s min_decisions min_trades headroom \<longleftrightarrow>
     (let xs = sk_samples s
      in 60 \<le> soak_days s \<and> min_decisions \<le> int (sum_list (map ss_decisions xs)) \<and> min_trades \<le> int (sum_list (map ss_trades xs)) \<and>
         (\<exists>x \<in> set xs. ss_scenarios x \<noteq> []) \<and>
         (\<forall>x \<in> set xs. ss_resource_stable x \<and> ss_reconciliation_clean x \<and> ss_safety_clean x \<and> ss_data_ok x \<and> ss_model_ok x \<and>
            ss_agent_ok x \<and> ss_risk_ok x \<and> ss_execution_ok x \<and> opt_all (\<lambda>v. dval headroom \<le> dval v) (ss_headroom x)) \<and>
         0 < dval (soak_utility s) \<and>
         beaten (soak_utility s) (map ss_no_trade_utility xs) \<and> beaten (soak_utility s) (map ss_benchmark_utility xs))"

lemma soak_scenarios_Nil: "soak_scenarios s = [] \<longleftrightarrow> (\<forall>x \<in> set (sk_samples s). ss_scenarios x = [])"
proof -
  have "soak_scenarios s = [] \<longleftrightarrow> set (soak_scenarios s) = {}" by simp
  also have "\<dots> \<longleftrightarrow> (\<forall>x \<in> set (sk_samples s). ss_scenarios x = [])" by (auto simp: soak_scenarios_def)
  finally show ?thesis .
qed

lemma soak_reasons_Nil: "soak_reasons s d k h = [] \<longleftrightarrow> soak_passes s d k h"
  by (auto simp: soak_reasons_def soak_passes_def Let_def list_all_iff list_ex_iff soak_scenarios_Nil not_less not_le dle_iff dlt_iff
      simp del: dval_eq_0)

text \<open>C35: The soak gate is sound and never contradicts itself: over any samples that were hydrated and recorded, with thresholds in
  range, the gate is computed without an error (the record's validators always accept it), and it is passed
  exactly when the soak spans sixty days, has the decisions and trades, saw an adverse scenario, was stable,
  reconciled and safe in every sample, and earned more than nothing, than not trading and than the benchmark.\<close>

theorem soak_gate_sound:
  assumes "new_soak started L n = Inr s0" "s = soak_record_all E xs s0" "sk_samples s \<noteq> []"
    and "1 \<le> d" "1 \<le> k" "3 / 2 \<le> dval h"
  shows "\<exists>g. soak_gate_of s d k (Finite h) = Inr g \<and> (sg_passed g \<longleftrightarrow> soak_passes s d k h)"
proof -
  have ok: "soak_ok s" unfolding assms(2) by (intro soak_record_all_ok new_soak_ok [OF assms(1)])
  have h: "\<not> dlt h (Dec 15 (- 1))" using assms(6) by (simp add: dlt_iff dval_Dec)
  have "distinct (soak_scenarios s)" by (simp add: soak_scenarios_def)
  moreover have "\<not> sum_list (map ss_decisions (sk_samples s)) < 1" "\<not> sum_list (map ss_trades (sk_samples s)) < 1"
    if "soak_passes s d k h"
    using that assms(4,5) unfolding soak_passes_def Let_def by linarith+
  moreover have "60 \<le> soak_days s \<and> soak_scenarios s \<noteq> [] \<and> list_all ss_resource_stable (sk_samples s) \<and>
      list_all ss_reconciliation_clean (sk_samples s) \<and> list_all ss_safety_clean (sk_samples s) \<and> \<not> dle (soak_utility s) d0"
    if "soak_passes s d k h"
    using that unfolding soak_scenarios_Nil soak_passes_def Let_def by (auto simp: list_all_iff dle_iff simp del: dval_eq_0)
  ultimately show ?thesis
    using assms(3-5) h soak_days_nonneg [OF ok]
    by (auto simp: soak_gate_of_def Let_def soak_reasons_Nil mk_soak_gate_def)
qed

text \<open>A sample after sixty days over which everything went well.\<close>

definition soak_sample_ex :: sample where
  "soak_sample_ex = \<lparr>ss_id = 1, ss_at = 61 * day, ss_decisions = 5, ss_trades = 2, ss_utility = Dec 3 0, ss_resource_stable = True,
     ss_reconciliation_clean = True, ss_safety_clean = True, ss_scenarios = [VENUE_OUTAGE, PRICE_GAP], ss_data_ok = True, ss_model_ok = True,
     ss_agent_ok = True, ss_risk_ok = True, ss_execution_ok = True, ss_headroom = Some (Dec 2 0), ss_no_trade_utility = Some d0,
     ss_benchmark_utility = Some d1\<rparr>"

definition soak_ex :: soak where
  "soak_ex = soak_record_all \<lparr>so_uuid = (\<lambda>n. n), so_now = int\<rparr> [soak_sample_ex, soak_sample_ex]
     (the_ok (new_soak (Aware 0 0) (Some empty_ledgers) 0))"

theorem soak_gate_sound_witness:
  "\<exists>g. soak_gate_of soak_ex 1 1 (Finite (Dec 15 (- 1))) = Inr g \<and> sg_passed g \<and> soak_passes soak_ex 1 1 (Dec 15 (- 1))"
proof -
  have "is_ok (new_soak (Aware 0 0) (Some empty_ledgers) 0)" by code_simp
  note new = is_ok_the_ok [OF this]
  have "sk_samples soak_ex \<noteq> []" by code_simp
  then obtain g where g: "soak_gate_of soak_ex 1 1 (Finite (Dec 15 (- 1))) = Inr g" "sg_passed g \<longleftrightarrow> soak_passes soak_ex 1 1 (Dec 15 (- 1))"
    using soak_gate_sound [OF new soak_ex_def, of 1 1 "Dec 15 (- 1)"] by (auto simp: dval_Dec)
  have "(case soak_gate_of soak_ex 1 1 (Finite (Dec 15 (- 1))) of Inr g \<Rightarrow> sg_passed g | Inl _ \<Rightarrow> False)" by code_simp
  then show ?thesis using g by simp
qed

end
