(* ===== verification/Live.thy ===== *)
theory Live
  imports Gates Soak Risk
begin

text \<open>
  Controlled live operation (\<open>src/advisorai/live/guard.py\<close>): the readiness gate, the durable control plane with
  its states paper, ready, active and rolled back, and the guard of a single live order.  The clock, the
  identifiers of ledger events, the text of a time and the digest of a policy are parameters.  The registry of phase gates is shared with
  others: \<open>lp_gates\<close> is what it holds at the moment of a call.
\<close>

record live_env =
  lv_now :: "nat \<Rightarrow> utc"
  lv_uuid :: "nat \<Rightarrow> uuid"
  lv_iso :: "utc \<Rightarrow> string"

record live_plane =
  lp_ledgers :: "ledgers option"
  lp_gates :: "registry option"
  lp_auth :: "authorization option"
  lp_status :: live_status
  lp_draws :: nat

section \<open>Readiness\<close>

record gate_result =
  lr_passed :: bool
  lr_reasons :: "string list"
  lr_auth :: "uuid option"

definition mk_gate_result :: "bool \<Rightarrow> string list \<Rightarrow> uuid option \<Rightarrow> gate_result res" where
  "mk_gate_result passed reasons auth =
     rbind (check (list_all (\<lambda>r. \<not> blank r) reasons) ''live gate reasons cannot be blank'') (\<lambda>_.
     rbind (check (\<not> (passed \<and> reasons \<noteq> [])) ''a passed live gate cannot contain rejection reasons'') (\<lambda>_.
     rbind (check (\<not> (passed \<and> auth = None)) ''a passed live gate requires an authorization identity'') (\<lambda>_.
     rbind (check (distinct reasons) ''live gate reasons must be unique'') (\<lambda>_.
       Inr \<lparr>lr_passed = passed, lr_reasons = reasons, lr_auth = auth\<rparr>))))"

record offline_check =
  oc_llm_stopped :: bool
  oc_hermes_stopped :: bool
  oc_browser_stopped :: bool
  oc_research_stopped :: bool
  oc_risk_operational :: bool

definition offline_passed :: "offline_check \<Rightarrow> bool" where
  "offline_passed c \<longleftrightarrow> oc_llm_stopped c \<and> oc_hermes_stopped c \<and> oc_browser_stopped c \<and> oc_research_stopped c \<and> oc_risk_operational c"

record readiness_request =
  rr_soak :: soak_gate
  rr_clean :: bool
  rr_offline :: offline_check
  rr_at :: "pydatetime option"

definition evaluation_time :: "string \<Rightarrow> utc \<Rightarrow> pydatetime option \<Rightarrow> utc res" where
  "evaluation_time msg now at_time = (case at_time of None \<Rightarrow> Inr now | Some t \<Rightarrow> aware msg t)"

definition gates_admit :: "registry option \<Rightarrow> nat \<Rightarrow> utc \<Rightarrow> bool" where
  "gates_admit g ph t = (case g of None \<Rightarrow> True | Some r \<Rightarrow> is_admitted r ph (Aware t 0) = Inr True)"

definition authorization_reasons :: "authorization option \<Rightarrow> utc \<Rightarrow> string list" where
  "authorization_reasons auth t =
     (case auth of
        None \<Rightarrow> [''explicit_human_authorization_missing'']
      | Some a \<Rightarrow> reason_if (\<not> authorization_valid_at a t) ''live_authorization_expired_or_not_yet_active'' @
          reason_if (\<not> la_no_expansion a) ''simultaneous_expansion_not_frozen'' @
          reason_if (\<not> la_ai_stoppable a) ''AI-offline safety not authorized'')"

definition readiness_reasons :: "registry option \<Rightarrow> authorization option \<Rightarrow> readiness_request \<Rightarrow> utc \<Rightarrow> string list" where
  "readiness_reasons g auth rq t =
     reason_if (\<not> sg_passed (rr_soak rq)) ''paper_soak_gate_not_passed'' @
     reason_if (\<not> gates_admit g 7 t) ''phase_7_soak_gate_not_admitted'' @
     authorization_reasons auth t @
     reason_if (\<not> rr_clean rq) ''current_reconciliation_not_clean'' @
     reason_if (\<not> offline_passed (rr_offline rq)) ''offline_safety_check_failed''"

definition readiness :: "registry option \<Rightarrow> authorization option \<Rightarrow> readiness_request \<Rightarrow> utc \<Rightarrow> gate_result res" where
  "readiness g auth rq now =
     rbind (evaluation_time ''live readiness evaluation timestamp must include a timezone'' now (rr_at rq)) (\<lambda>t.
     let reasons = readiness_reasons g auth rq t
     in mk_gate_result (reasons = []) reasons (map_option la_id auth))"

section \<open>Control plane\<close>

definition paper_status :: "utc \<Rightarrow> live_status" where
  "paper_status t = \<lparr>lc_state = LIVE_PAPER, lc_authorization = None, lc_changed_at = t, lc_reason = None\<rparr>"

definition live_apply :: "ledger_event \<Rightarrow> authorization option \<times> live_status \<Rightarrow> (authorization option \<times> live_status) res" where
  "live_apply ev st =
     (if event_type ev = ''live_authorization_recorded''
      then (case map_of (ev_payload ev) ''authorization'' of
          Some (PAuth a) \<Rightarrow> Inr (Some a, snd st)
        | _ \<Rightarrow> Inl (ValueError ''live authorization ledger contains invalid payload''))
      else if event_type ev = ''live_state_changed''
      then (case map_of (ev_payload ev) ''status'' of
          Some (PLive x) \<Rightarrow>
            if lc_state x = LIVE_ACTIVE \<and> lc_state (snd st) \<noteq> LIVE_READY
            then Inl (ValueError ''live ledger contains an active state without readiness'')
            else if lc_state x \<in> {LIVE_READY, LIVE_ACTIVE} \<and> fst st = None
            then Inl (ValueError ''live ledger state requires a recorded authorization'')
            else if lc_state x \<in> {LIVE_READY, LIVE_ACTIVE} \<and> lc_authorization x \<noteq> map_option la_id (fst st)
            then Inl (ValueError ''live ledger state authorization does not match approval'')
            else Inr (fst st, x)
        | _ \<Rightarrow> Inl (ValueError ''live state ledger contains invalid payload''))
      else Inr st)"

fun hydrate_live :: "ledger_event list \<Rightarrow> authorization option \<times> live_status \<Rightarrow> (authorization option \<times> live_status) res" where
  "hydrate_live [] st = Inr st"
| "hydrate_live (ev # evs) st = rbind (live_apply ev st) (hydrate_live evs)"

definition new_live :: "live_env \<Rightarrow> ledgers option \<Rightarrow> registry option \<Rightarrow> nat \<Rightarrow> live_plane res" where
  "new_live E L g n =
     rbind (case L of None \<Rightarrow> Inr (None, paper_status (lv_now E n))
            | Some M \<Rightarrow> hydrate_live (ledger_events M NS_INCIDENT) (None, paper_status (lv_now E n)))
       (\<lambda>(auth, st). Inr \<lparr>lp_ledgers = L, lp_gates = g, lp_auth = auth, lp_status = st, lp_draws = Suc n\<rparr>)"

definition live_append :: "live_env \<Rightarrow> string \<Rightarrow> string \<Rightarrow> payload \<Rightarrow> (live_plane, unit) action" where
  "live_append E etype k p s =
     (case lp_ledgers s of
        None \<Rightarrow> (Inr (), s)
      | Some L \<Rightarrow>
        let n = lp_draws s;
            (r, M) = ledger_append \<lparr>event_id = lv_uuid E n, ev_namespace = NS_INCIDENT, event_type = etype, ev_key = k,
                        ev_occurred_at = lv_now E n, ev_payload = p\<rparr> L;
            t = s\<lparr>lp_ledgers := Some M, lp_draws := Suc n\<rparr>
        in (case r of Inl e \<Rightarrow> (Inl e, t) | Inr _ \<Rightarrow> (Inr (), t)))"

definition authorization_key :: "authorization \<Rightarrow> string" where
  "authorization_key a = ''live-authorization:'' @ uuid_str (la_id a)"

definition record_authorization :: "live_env \<Rightarrow> authorization \<Rightarrow> (live_plane, authorization) action" where
  "record_authorization E a =
     sbind (sget lp_auth) (\<lambda>old.
       if old \<noteq> None \<and> old \<noteq> Some a then sraise (ValueError ''live authorization is immutable once recorded'')
       else sbind (smodify (\<lambda>s. s\<lparr>lp_auth := Some a\<rparr>)) (\<lambda>_.
            sbind (live_append E ''live_authorization_recorded'' (authorization_key a) [(''authorization'', PAuth a)])
              (\<lambda>_. sreturn a)))"

definition status_key :: "live_env \<Rightarrow> live_status \<Rightarrow> string" where
  "status_key E x = ''live-state:'' @ live_state_value (lc_state x) @ '':'' @
     (case lc_authorization x of None \<Rightarrow> ''None'' | Some i \<Rightarrow> uuid_str i) @ '':'' @ lv_iso E (lc_changed_at x)"

definition lp_now :: "live_env \<Rightarrow> (live_plane, utc) action" where
  "lp_now E s = (Inr (lv_now E (lp_draws s)), s\<lparr>lp_draws := Suc (lp_draws s)\<rparr>)"

definition live_transition :: "live_env \<Rightarrow> live_state \<Rightarrow> uuid option \<Rightarrow> string option \<Rightarrow> (live_plane, live_status) action" where
  "live_transition E st auth reason =
     sbind (sget lp_status) (\<lambda>old.
       if st = LIVE_ACTIVE \<and> lc_state old \<noteq> LIVE_READY then sraise (PermissionError ''live active state must follow ready state'')
       else sbind (lp_now E) (\<lambda>t.
            sbind (spure (\<lambda>_. mk_live_status st (if auth \<noteq> None then auth else lc_authorization old) (Aware t 0) reason)) (\<lambda>x.
            sbind (smodify (\<lambda>s. s\<lparr>lp_status := x\<rparr>)) (\<lambda>_.
            sbind (live_append E ''live_state_changed'' (status_key E x) [(''status'', PLive x)]) (\<lambda>_. sreturn x)))))"

definition evaluate_readiness :: "live_env \<Rightarrow> readiness_request \<Rightarrow> (live_plane, gate_result) action" where
  "evaluate_readiness E rq =
     sbind (lp_now E) (\<lambda>now. sbind (spure (\<lambda>s. readiness (lp_gates s) (lp_auth s) rq now)) (\<lambda>r.
       if lr_passed r then sbind (live_transition E LIVE_READY (lr_auth r) None) (\<lambda>_. sreturn r) else sreturn r))"

definition live_start :: "live_env \<Rightarrow> pydatetime option \<Rightarrow> (live_plane, live_status) action" where
  "live_start E at_time =
     sbind (sget lp_auth) (\<lambda>auth. case auth of
       None \<Rightarrow> sraise (PermissionError ''live start requires explicit human authorization'')
     | Some a \<Rightarrow>
       sbind (lp_now E) (\<lambda>now.
       sbind (spure (\<lambda>_. evaluation_time ''live start evaluation timestamp must include a timezone'' now at_time)) (\<lambda>t. (\<lambda>s.
         if \<not> authorization_valid_at a t then (Inl (PermissionError ''live authorization is expired or not yet active''), s)
         else if \<not> gates_admit (lp_gates s) 10 t then (Inl (PermissionError ''live start requires an admitted Phase 10 gate''), s)
         else if lc_state (lp_status s) \<noteq> LIVE_READY
         then (Inl (PermissionError ''live start requires a passed readiness evaluation''), s)
         else live_transition E LIVE_ACTIVE None None s))))"

definition live_rollback :: "live_env \<Rightarrow> string \<Rightarrow> (live_plane, live_status) action" where
  "live_rollback E reason =
     (if blank reason then sraise (ValueError ''live rollback requires a reason'')
      else live_transition E LIVE_ROLLED_BACK None (Some (strip reason)))"

definition return_to_paper :: "live_env \<Rightarrow> (live_plane, live_status) action" where
  "return_to_paper E = live_transition E LIVE_PAPER None None"

section \<open>Guard of a live order\<close>

definition live_loss :: "account \<Rightarrow> dec" where
  "live_loss a = foldl dmax d0 [dneg (ac_realized_pnl a), dneg (ac_daily_pnl a), dneg (ac_rolling_pnl a), drawdown a]"

definition guard_reasons ::
  "(risk_policy \<Rightarrow> string) \<Rightarrow> authorization \<Rightarrow> order \<Rightarrow> account \<Rightarrow> risk_policy \<Rightarrow> risk_decision \<Rightarrow> string \<Rightarrow> utc \<Rightarrow> string list" where
  "guard_reasons policy_sha auth ord a p d h t =
     reason_if (\<not> authorization_valid_at auth t) ''live_authorization_expired_or_not_yet_active'' @
     reason_if (dec_outcome d \<noteq> APPROVED) ''risk_decision_not_approved'' @
     reason_if (dec_risk_policy_id d \<noteq> artifact_id p) ''risk_decision_policy_mismatch'' @
     reason_if (dec_state_hash d \<noteq> h) ''risk_decision_state_hash_mismatch'' @
     reason_if (policy_sha p \<noteq> la_policy_hash auth) ''live_authorization_policy_hash_mismatch'' @
     reason_if (canonical_id (ord_instrument ord) \<notin> set (la_instruments auth)) ''instrument_not_authorized'' @
     reason_if (la_venue auth \<noteq> None \<and> inst_venue (ord_instrument ord) \<noteq> la_venue auth) ''venue_not_authorized'' @
     reason_if (case ord_price ord of None \<Rightarrow> True | Some x \<Rightarrow> dlt (la_max_notional auth) (dmul x (ord_quantity ord)))
       ''order_notional_exceeds_live_budget'' @
     reason_if (dlt (la_loss_budget auth) (live_loss a)) ''fixed_loss_budget_exceeded''"

definition guard_approve ::
  "risk_env \<Rightarrow> (market_doc \<Rightarrow> string) \<Rightarrow> (risk_policy \<Rightarrow> string) \<Rightarrow> kill_switch \<Rightarrow> authorization \<Rightarrow> order \<Rightarrow> account \<Rightarrow> market \<Rightarrow>
   risk_policy \<Rightarrow> risk_decision \<Rightarrow> utc \<Rightarrow> pydatetime option \<Rightarrow> gate_result res" where
  "guard_approve E sha policy_sha k auth ord a m p d now at_time =
     rbind (evaluation_time ''live order evaluation timestamp must include a timezone'' now at_time) (\<lambda>t.
     rbind (bound_hash E sha a m) (\<lambda>h.
     rbind (check_order E sha k ord a m p) (\<lambda>c.
     let reasons = guard_reasons policy_sha auth ord a p d h t @ (if chk_approved c then [] else chk_reasons c)
     in mk_gate_result (reasons = []) reasons (Some (la_id auth)))))"

end
