(* ===== verification/Gate_Properties.thy ===== *)
theory Gate_Properties
  imports Gates
begin

text \<open>
  The registry of phase gates as a whole: what an admission means along the chain of phases, and when the
  projection of the ledger rebuilds the registry.
\<close>

section \<open>Admission\<close>

definition gate_supported :: "phase_gate \<Rightarrow> utc \<Rightarrow> bool" where
  "gate_supported g t \<longleftrightarrow> pg_decision g = GATE_PASSED \<and> pg_required g \<noteq> [] \<and>
     (\<forall>n \<in> set (pg_required g). \<exists>e. available (pg_evidence g) n = Some e \<and> gv_passed e \<and> evidence_valid_at e t) \<and>
     (pg_phase g \<in> {0, 7} \<longrightarrow> has_kind (pg_evidence g) (pg_required g) EXTERNAL_TIMED) \<and>
     (pg_phase g = 10 \<longrightarrow> has_kind (pg_evidence g) (pg_required g) HUMAN_APPROVAL)"

lemma gate_supported: "gate_ok g \<Longrightarrow> gate_valid_at g t \<Longrightarrow> gate_supported g t"
  by (auto simp: gate_supported_def gate_ok_def gate_valid_at_def passed_gate_ok_def list_all_iff evidence_holds_def
      split: option.splits if_splits)

lemma admitted_supported:
  assumes "registry_ok s" "admitted (pr_records s) t ph" "q \<le> ph"
  shows "\<exists>g. last_record (pr_records s q) = Some g \<and> pg_phase g = q \<and> gate_supported g t"
  using assms(2,3)
proof (induction ph)
  case (0)
  then obtain g where g: "last_record (pr_records s 0) = Some g" "gate_valid_at g t"
    by (auto simp: admitted_iff [of _ _ 0])
  then show ?case
    using 0 assms(1) last_record_Some [OF g(1)] gate_supported by (auto simp: registry_ok_def)
next
  case (Suc ph)
  then obtain g where g: "last_record (pr_records s (Suc ph)) = Some g" "gate_valid_at g t"
    and rest: "admitted (pr_records s) t (prerequisite_of g)"
    by (auto simp: admitted_iff [of _ _ "Suc ph"])
  have ok: "pg_phase g = Suc ph" "gate_ok g"
    using assms(1) last_record_Some [OF g(1)] by (auto simp: registry_ok_def)
  then have "prerequisite_of g = ph"
    by (auto simp: gate_ok_def prerequisite_of_def split: option.splits)
  then show ?case
    using Suc.IH Suc.prems(2) rest g ok gate_supported [OF ok(2) g(2)] by (cases "q = Suc ph") auto
qed

primrec record_gates :: "gate_env \<Rightarrow> phase_gate list \<Rightarrow> registry \<Rightarrow> registry" where
  "record_gates E [] s = s"
| "record_gates E (g # gs) s = record_gates E gs (snd (record_gate E g s))"

lemma record_gates_ok: "list_all gate_ok gs \<Longrightarrow> registry_ok s \<Longrightarrow> registry_ok (record_gates E gs s)"
  by (induction gs arbitrary: s) (use record_gate_keeps in \<open>auto simp: keeps_def\<close>)

definition ledger_gates_ok :: "ledger_event list \<Rightarrow> bool" where
  "ledger_gates_ok rows \<longleftrightarrow> (\<forall>ev \<in> set rows. \<forall>g. map_of (ev_payload ev) ''record'' = Some (PGate g) \<longrightarrow> gate_ok g)"

lemma hydrate_gates_ok: "ledger_gates_ok evs \<Longrightarrow> keeps registry_ok (hydrate_gates E evs)"
proof (induction evs)
  case (Cons ev evs)
  have "keeps registry_ok (hydrate_gate E ev)"
    using Cons.prems unfolding hydrate_gate_def ledger_gates_ok_def
    by (auto intro!: preserve_intros append_local_keeps split: option.splits pval.splits)
  then show ?case
    using Cons by (auto intro!: preserve_intros simp: ledger_gates_ok_def)
qed (simp add: preserve_intros)

lemma new_registry_ok:
  assumes "\<And>M. L = Some M \<Longrightarrow> ledger_gates_ok (ledger_events M NS_MODEL)"
  shows "registry_ok (snd (new_registry E L n))"
proof -
  have "registry_ok \<lparr>pr_ledgers = L, pr_records = (\<lambda>_. []), pr_draws = n\<rparr>" by (simp add: registry_ok_def)
  then show ?thesis
    using hydrate_gates_ok assms by (auto simp: new_registry_def Let_def keeps_def split: option.splits)
qed

text \<open>C15: Admission is a chain: whatever records were hydrated and recorded before, when a phase is admitted at
  a time, the latest record of that phase and of every earlier phase is a passed one whose required evidence is present,
  passed and valid at that time; phases 0 and 7 rest on external timed evidence and phase 10 on human approval.\<close>

theorem admission_chain:
  assumes "ledger_gates_ok (ledger_events L NS_MODEL)" "list_all gate_ok gs"
    and "s = record_gates E gs (snd (new_registry E (Some L) n))" "is_admitted s ph (Aware t off) = Inr True" "q \<le> ph"
  shows "\<exists>g. latest s q = Inr (Some g) \<and> pg_phase g = q \<and> gate_supported g t"
proof -
  have "registry_ok s"
    unfolding assms(3) using assms(1,2) by (intro record_gates_ok new_registry_ok) auto
  moreover have "admitted (pr_records s) t ph" "ph \<le> 10"
    using assms(4) by (auto simp: is_admitted_def latest_def split: if_splits)
  ultimately show ?thesis
    using admitted_supported assms(5) by (fastforce simp: latest_def)
qed

section \<open>Recovery\<close>

definition timeless :: "phase_gate \<Rightarrow> bool" where
  "timeless g \<longleftrightarrow> (\<forall>e \<in> set (pg_evidence g). gv_expires_at e = None)"

lemma available_mem: "available es n = Some e \<Longrightarrow> e \<in> set es"
  by (auto simp: available_def dest: map_of_SomeD)

lemma evidence_holds_mono: "timeless g \<Longrightarrow> evidence_holds (pg_evidence g) t n \<Longrightarrow> t \<le> u \<Longrightarrow> evidence_holds (pg_evidence g) u n"
  by (auto simp: timeless_def evidence_holds_def evidence_valid_at_def split: option.splits dest: available_mem)

lemma gate_valid_mono: "timeless g \<Longrightarrow> gate_valid_at g t \<Longrightarrow> t \<le> u \<Longrightarrow> gate_valid_at g u"
  using evidence_holds_mono by (simp add: gate_valid_at_def list_all_iff) blast

lemma admitted_mono:
  "(\<And>ph g. g \<in> set (recs ph) \<Longrightarrow> timeless g) \<Longrightarrow> admitted recs t ph \<Longrightarrow> t \<le> u \<Longrightarrow> admitted recs u ph"
proof (induction ph rule: less_induct)
  case (less ph)
  then obtain g where g: "last_record (recs ph) = Some g" "gate_valid_at g t"
    by (auto simp: admitted_iff [of _ t ph])
  then have "gate_valid_at g u" using less.prems gate_valid_mono last_record_Some by blast
  then show ?case
    using less.IH less.prems g by (auto simp: admitted_iff [of _ t ph] admitted_iff [of _ u ph])
qed

definition add_gate :: "phase_gate \<Rightarrow> (nat \<Rightarrow> phase_gate list) \<Rightarrow> nat \<Rightarrow> phase_gate list" where
  "add_gate g recs = recs(pg_phase g := recs (pg_phase g) @ [g])"

definition acceptable :: "utc \<Rightarrow> (nat \<Rightarrow> phase_gate list) \<Rightarrow> phase_gate \<Rightarrow> bool" where
  "acceptable T recs g \<longleftrightarrow> timeless g \<and> pg_id g < 2 ^ 128 \<and> find (\<lambda>r. pg_id r = pg_id g) (recs (pg_phase g)) = None \<and>
     (pg_decision g = GATE_PASSED \<and> 0 < pg_phase g \<longrightarrow> prerequisite_of g \<le> 10 \<and> (\<exists>t \<le> T. admitted recs t (prerequisite_of g)))"

fun replayable :: "utc \<Rightarrow> (nat \<Rightarrow> phase_gate list) \<Rightarrow> phase_gate list \<Rightarrow> bool" where
  "replayable T recs [] = True"
| "replayable T recs (g # gs) = (acceptable T recs g \<and> replayable T (add_gate g recs) gs)"

lemma replayable_snoc: "replayable T recs (gs @ [g]) \<longleftrightarrow> replayable T recs gs \<and> acceptable T (fold add_gate gs recs) g"
  by (induction gs arbitrary: recs) auto

lemma replayable_mono: "replayable T recs gs \<Longrightarrow> T \<le> U \<Longrightarrow> replayable U recs gs"
  by (induction gs arbitrary: recs) (auto simp: acceptable_def intro: order_trans)

text \<open>The rows of the ledger carry the recorded gates.\<close>

definition row_of :: "gate_env \<Rightarrow> nat \<Rightarrow> ledger_event \<Rightarrow> phase_gate \<Rightarrow> bool" where
  "row_of E n ev g \<longleftrightarrow> event_type ev = gate_event_type \<and> map_of (ev_payload ev) ''record'' = Some (PGate g) \<and>
     ev_key ev = gate_key E g \<and> pg_id g < 2 ^ 128 \<and> (\<exists>k < n. event_id ev = ge_uuid E k)"

definition registry_synced :: "gate_env \<Rightarrow> registry \<Rightarrow> bool" where
  "registry_synced E s \<longleftrightarrow> (\<exists>L gs. pr_ledgers s = Some L \<and> list_all2 (row_of E (pr_draws s)) (ledger_events L NS_MODEL) gs \<and>
     pr_records s = fold add_gate gs (\<lambda>_. []) \<and> replayable (ge_now E (pr_draws s)) (\<lambda>_. []) gs)"

lemma append_local_replay:
  assumes "acceptable T (pr_records s) g" "mono (ge_now E)" "T \<le> ge_now E (pr_draws s)"
    and "\<And>ph g. g \<in> set (pr_records s ph) \<Longrightarrow> timeless g"
  shows "\<exists>m. append_local E g s = (Inr (), s\<lparr>pr_records := add_gate g (pr_records s), pr_draws := pr_draws s + m\<rparr>)"
proof -
  have need: "\<exists>m. need_prerequisite E g s = (Inr (), s\<lparr>pr_draws := pr_draws s + m\<rparr>)"
  proof (cases "pg_decision g = GATE_PASSED \<and> 0 < pg_phase g")
    case True
    then obtain t where t: "t \<le> T" "admitted (pr_records s) t (prerequisite_of g)" "prerequisite_of g \<le> 10"
      using assms(1) by (auto simp: acceptable_def)
    have "admitted (pr_records s) (ge_now E (pr_draws s)) (prerequisite_of g)"
      by (rule admitted_mono [OF assms(4) t(2)]) (use t(1) assms(3) in auto)
    with t(3) have "need_prerequisite E g s = (Inr (), s\<lparr>pr_draws := Suc (pr_draws s)\<rparr>)"
      using True by (simp add: need_prerequisite_def pr_now_def sbind_def spure_def is_admitted_def latest_def sreturn_def)
    then show ?thesis by (intro exI [of _ 1]) simp
  next
    case False
    then have "need_prerequisite E g s = (Inr (), s\<lparr>pr_draws := pr_draws s + 0\<rparr>)"
      by (auto simp: need_prerequisite_def sreturn_def)
    then show ?thesis by blast
  qed
  then obtain m where m: "need_prerequisite E g s = (Inr (), s\<lparr>pr_draws := pr_draws s + m\<rparr>)" by blast
  have "find (\<lambda>r. pg_id r = pg_id g) (pr_records s (pg_phase g)) = None"
    using assms(1) by (simp add: acceptable_def)
  then show ?thesis
    by (intro exI [of _ m]) (simp add: append_local_def sbind_def sget_def smodify_def prior_record_def add_gate_def m)
qed

lemma hydrate_replay:
  assumes "list_all2 (row_of E k) evs gs" "replayable T (pr_records s) gs" "mono (ge_now E)" "T \<le> ge_now E (pr_draws s)"
    and "\<And>ph g. g \<in> set (pr_records s ph) \<Longrightarrow> timeless g"
  shows "\<exists>s'. hydrate_gates E evs s = (Inr (), s') \<and> pr_records s' = fold add_gate gs (pr_records s) \<and> pr_ledgers s' = pr_ledgers s"
  using assms
proof (induction arbitrary: s rule: list_all2_induct)
  case Nil
  then show ?case by (simp add: sreturn_def)
next
  case (Cons ev evs g gs)
  obtain m where m: "append_local E g s = (Inr (), s\<lparr>pr_records := add_gate g (pr_records s), pr_draws := pr_draws s + m\<rparr>)"
    using append_local_replay [of T s g E] Cons.prems by auto
  let ?s1 = "s\<lparr>pr_records := add_gate g (pr_records s), pr_draws := pr_draws s + m\<rparr>"
  have step: "hydrate_gate E ev s = (Inr (), ?s1)"
    using Cons.hyps(1) m by (simp add: hydrate_gate_def row_of_def)
  have "ge_now E (pr_draws s) \<le> ge_now E (pr_draws s + m)"
    using Cons.prems(2) by (simp add: monoD)
  moreover have "timeless h" if "h \<in> set (add_gate g (pr_records s) ph)" for h ph
    using that Cons.prems(1,4) by (auto simp: add_gate_def acceptable_def split: if_splits)
  ultimately obtain s' where "hydrate_gates E evs ?s1 = (Inr (), s')" "pr_records s' = fold add_gate gs (pr_records ?s1)"
    "pr_ledgers s' = pr_ledgers ?s1"
    using Cons.IH [of ?s1] Cons.prems by auto
  then show ?case using step by (auto simp: sbind_def)
qed

lemma row_of_mono: "row_of E n ev g \<Longrightarrow> n \<le> m \<Longrightarrow> row_of E m ev g"
  unfolding row_of_def by (meson less_le_trans)

lemma list_all2_member: "list_all2 P xs ys \<Longrightarrow> x \<in> set xs \<Longrightarrow> \<exists>y \<in> set ys. P x y"
  by (induction rule: list_all2_induct) auto

lemma registry_synced_draws: "registry_synced E s \<Longrightarrow> mono (ge_now E) \<Longrightarrow> registry_synced E (s\<lparr>pr_draws := pr_draws s + m\<rparr>)"
  unfolding registry_synced_def
  by (elim exE conjE, intro exI conjI) (auto simp: monoD elim!: list_all2_mono replayable_mono row_of_mono)

lemma gate_key_inj:
  assumes "gate_key E g = gate_key E h" "pg_id g < 2 ^ 128" "pg_id h < 2 ^ 128"
  shows "pg_phase g = pg_phase h \<and> pg_id g = pg_id h"
proof -
  let ?rest = "\<lambda>g. uuid_str (pg_id g) @ CHR '':'' # ge_sha E (g\<lparr>pg_id := 0, pg_recorded_at := 0\<rparr>)"
  have "nat_str (pg_phase g) @ CHR '':'' # ?rest g = nat_str (pg_phase h) @ CHR '':'' # ?rest h"
    using assms by (simp add: gate_key_def)
  then have "nat_str (pg_phase g) = nat_str (pg_phase h) \<and> ?rest g = ?rest h"
    by (rule split_at_first) (rule nat_str_no_colon)+
  moreover from this have "uuid_str (pg_id g) = uuid_str (pg_id h) \<and>
      ge_sha E (g\<lparr>pg_id := 0, pg_recorded_at := 0\<rparr>) = ge_sha E (h\<lparr>pg_id := 0, pg_recorded_at := 0\<rparr>)"
    by (intro split_at_first [of "uuid_str (pg_id g)" "CHR '':''" _ "uuid_str (pg_id h)"]) (simp_all del: nat_str_inj)
  ultimately show ?thesis using uuid_str_inj assms(2,3) by simp
qed

lemma fold_add_gate: "h \<in> set (fold add_gate gs recs ph) \<longleftrightarrow> h \<in> set (recs ph) \<or> h \<in> set gs \<and> pg_phase h = ph"
  by (induction gs arbitrary: recs) (auto simp: add_gate_def)

lemma need_prerequisite_result:
  assumes "need_prerequisite E g s = (r, s')"
  shows "\<exists>m. s' = s\<lparr>pr_draws := pr_draws s + m\<rparr>"
    and "r = Inr () \<Longrightarrow> pg_decision g = GATE_PASSED \<and> 0 < pg_phase g \<Longrightarrow>
      prerequisite_of g \<le> 10 \<and> admitted (pr_records s) (ge_now E (pr_draws s)) (prerequisite_of g)"
proof -
  have "\<exists>m \<in> {0, 1}. s' = s\<lparr>pr_draws := pr_draws s + m\<rparr>"
    using assms by (auto simp: need_prerequisite_def pr_now_def sbind_def spure_def sreturn_def sraise_def
        split: if_splits sum.splits)
  then show "\<exists>m. s' = s\<lparr>pr_draws := pr_draws s + m\<rparr>" by blast
  show "prerequisite_of g \<le> 10 \<and> admitted (pr_records s) (ge_now E (pr_draws s)) (prerequisite_of g)"
    if "r = Inr ()" "pg_decision g = GATE_PASSED \<and> 0 < pg_phase g"
    using assms that by (auto simp: need_prerequisite_def pr_now_def sbind_def spure_def sreturn_def sraise_def
        is_admitted_def latest_def split: if_splits sum.splits)
qed

lemma payload_record: "map_of (payload_json [(''record'', a), (''actor'', b)]) ''record'' = Some a"
  by (simp add: payload_json_def map_of_sort_key)

lemma gate_append_synced:
  assumes "registry_synced E s" "mono (ge_now E)" "inj (ge_uuid E)"
    and "acceptable (ge_now E (pr_draws s)) (pr_records s) g"
  shows "registry_synced E (snd (gate_append E g (s\<lparr>pr_records := add_gate g (pr_records s)\<rparr>)))"
proof -
  obtain L gs where L: "pr_ledgers s = Some L" and rows: "list_all2 (row_of E (pr_draws s)) (ledger_events L NS_MODEL) gs"
    and recs: "pr_records s = fold add_gate gs (\<lambda>_. [])" and play: "replayable (ge_now E (pr_draws s)) (\<lambda>_. []) gs"
    using assms(1) by (auto simp: registry_synced_def)
  let ?n = "pr_draws s" and ?ev = "gate_event E g (pr_draws s)"
  have fresh_key: "ev_key ev \<noteq> gate_key E g" and fresh_id: "event_id ev \<noteq> ge_uuid E ?n" if ev: "ev \<in> set (L NS_MODEL)" for ev
  proof -
    obtain h where h: "h \<in> set gs" "row_of E ?n ev h"
      using ev list_all2_member [OF rows] by (auto simp: ledger_events_def)
    show "ev_key ev \<noteq> gate_key E g"
    proof
      assume "ev_key ev = gate_key E g"
      then have "pg_phase h = pg_phase g" "pg_id h = pg_id g" using h(2) gate_key_inj assms(4) by (metis row_of_def acceptable_def)+
      moreover have "h \<in> set (pr_records s (pg_phase h))" using h(1) by (simp add: recs fold_add_gate)
      ultimately show False using assms(4) by (auto simp: acceptable_def find_None_iff)
    qed
    show "event_id ev \<noteq> ge_uuid E ?n" using h(2) assms(3) by (auto simp: row_of_def inj_eq)
  qed
  obtain r M where app: "ledger_append ?ev L = (r, M)" by (cases "ledger_append ?ev L")
  moreover have "find_key (ev_key ?ev) (L NS_MODEL) = None" "find_id (event_id ?ev) (L NS_MODEL) = None"
    using fresh_key fresh_id by (force simp: find_key_None find_id_None gate_event_def)+
  ultimately have new: "r = Inr ?ev" "M = L(NS_MODEL := L NS_MODEL @ [stored ?ev])"
    by (auto simp: ledger_append_def append_rows_eq gate_event_def)
  let ?s' = "s\<lparr>pr_records := add_gate g (pr_records s), pr_ledgers := Some M, pr_draws := Suc ?n\<rparr>"
  have "pg_id g < 2 ^ 128" using assms(4) by (simp add: acceptable_def)
  then have "row_of E (Suc ?n) (stored ?ev) g"
    unfolding row_of_def gate_event_def by (auto simp: payload_record)
  moreover have "list_all2 (row_of E (Suc ?n)) (ledger_events L NS_MODEL) gs"
    using rows by (auto elim!: list_all2_mono row_of_mono)
  ultimately have "list_all2 (row_of E (Suc ?n)) (ledger_events M NS_MODEL) (gs @ [g])"
    by (simp add: new ledger_events_def list_all2_appendI)
  moreover have "replayable (ge_now E (Suc ?n)) (\<lambda>_. []) (gs @ [g])"
    using play assms(4) monoD [OF assms(2), of ?n "Suc ?n"] replayable_mono unfolding replayable_snoc recs [symmetric]
    by (auto simp: acceptable_def intro: order_trans)
  ultimately have "registry_synced E ?s'"
    by (auto simp: registry_synced_def recs intro!: exI [of _ "gs @ [g]"])
  then show ?thesis
    using L app new by (simp add: gate_append_def)
qed

lemma record_gate_synced:
  assumes "registry_synced E s" "mono (ge_now E)" "inj (ge_uuid E)" "timeless g" "pg_id g < 2 ^ 128"
  shows "registry_synced E (snd (record_gate E g s))"
proof (cases "prior_record g s")
  case (Some r)
  then show ?thesis
    using assms(1) by (auto simp: record_gate_def sbind_def sget_def sreturn_def sraise_def)
next
  case None
  obtain r s1 where need: "need_prerequisite E g s = (r, s1)" by (cases "need_prerequisite E g s")
  then obtain m where s1: "s1 = s\<lparr>pr_draws := pr_draws s + m\<rparr>" using need_prerequisite_result(1) by blast
  have synced: "registry_synced E s1" unfolding s1 by (rule registry_synced_draws [OF assms(1,2)])
  show ?thesis
  proof (cases r)
    case (Inl e)
    then show ?thesis
      using need None synced by (simp add: record_gate_def append_local_def sbind_def sget_def)
  next
    case (Inr u)
    have "acceptable (ge_now E (pr_draws s1)) (pr_records s1) g"
      using assms(4,5) None need_prerequisite_result(2) [OF need] Inr monoD [OF assms(2), of "pr_draws s" "pr_draws s + m"]
      by (auto simp: acceptable_def prior_record_def s1)
    note app = gate_append_synced [OF synced assms(2,3) this]
    have "append_local E g s = (Inr (), s1\<lparr>pr_records := add_gate g (pr_records s1)\<rparr>)"
      using need None Inr by (simp add: append_local_def sbind_def sget_def smodify_def prior_record_def add_gate_def s1)
    then have "snd (record_gate E g s) = snd (gate_append E g (s1\<lparr>pr_records := add_gate g (pr_records s1)\<rparr>))"
      using None by (auto simp: record_gate_def sbind_def sget_def sreturn_def split: prod.splits sum.splits)
    then show ?thesis using app by simp
  qed
qed

lemma record_gates_synced:
  "registry_synced E s \<Longrightarrow> mono (ge_now E) \<Longrightarrow> inj (ge_uuid E) \<Longrightarrow>
   list_all (\<lambda>g. timeless g \<and> pg_id g < 2 ^ 128) gs \<Longrightarrow> registry_synced E (record_gates E gs s)"
  by (induction gs arbitrary: s) (simp_all add: record_gate_synced)

text \<open>The gates survive a restart as long as their evidence does: after any attempts to record gates whose evidence
  has no expiry, refused attempts included, a registry built later from the ledger has the same records, provided that the clock
  does not go back, record identifiers have 128 bits and event identifiers are not drawn twice.\<close>

theorem gate_recovery:
  assumes "s = record_gates E gs (snd (new_registry E (Some empty_ledgers) n))" "list_all (\<lambda>g. timeless g \<and> pg_id g < 2 ^ 128) gs"
    and "mono (ge_now E)" "inj (ge_uuid E)" "pr_ledgers s = Some L" "pr_draws s \<le> m"
  shows "fst (new_registry E (Some L) m) = Inr () \<and> pr_records (snd (new_registry E (Some L) m)) = pr_records s"
proof -
  have "registry_synced E (snd (new_registry E (Some empty_ledgers) n))"
    by (simp add: registry_synced_def new_registry_def empty_ledgers_def ledger_events_def sreturn_def)
  then have "registry_synced E s" unfolding assms(1) by (rule record_gates_synced [OF _ assms(3,4,2)])
  then obtain gs' where gs': "list_all2 (row_of E (pr_draws s)) (ledger_events L NS_MODEL) gs'"
    "pr_records s = fold add_gate gs' (\<lambda>_. [])" "replayable (ge_now E (pr_draws s)) (\<lambda>_. []) gs'"
    using assms(5) by (auto simp: registry_synced_def)
  have "ge_now E (pr_draws s) \<le> ge_now E m" using monoD [OF assms(3,6)] .
  then show ?thesis
    using hydrate_replay [OF gs'(1), of "ge_now E (pr_draws s)" "\<lparr>pr_ledgers = Some L, pr_records = (\<lambda>_. []), pr_draws = m\<rparr>"]
      gs'(2,3) assms(3) by (auto simp: new_registry_def)
qed

section \<open>Expired evidence blocks the restart\<close>

definition gt_env :: gate_env where
  "gt_env = \<lparr>ge_now = int, ge_uuid = (\<lambda>n. n), ge_sha = (\<lambda>_. ''h'')\<rparr>"

definition gt_evidence :: "string \<Rightarrow> evidence_kind \<Rightarrow> utc option \<Rightarrow> gate_evidence" where
  "gt_evidence n k ex = \<lparr>gv_id = 1, gv_name = n, gv_kind = k, gv_passed = True, gv_hash = Some (replicate 64 (CHR ''a'')),
     gv_source = ''s'', gv_verified_by = ''v'', gv_observed_at = 0, gv_expires_at = ex, gv_details = ''''\<rparr>"

definition gt_gate :: "nat \<Rightarrow> evidence_kind \<Rightarrow> utc option \<Rightarrow> phase_gate" where
  "gt_gate ph k ex = \<lparr>pg_id = 100 + ph, pg_phase = ph, pg_name = ''g'', pg_decision = GATE_PASSED, pg_required = [''e''],
     pg_evidence = [gt_evidence ''e'' k ex], pg_prerequisite = None, pg_recorded_by = ''r'', pg_recorded_at = 0, pg_reasons = []\<rparr>"

definition gt_gates :: "utc option \<Rightarrow> phase_gate list" where
  "gt_gates ex = [gt_gate 0 EXTERNAL_TIMED ex, gt_gate 1 LOCAL_TEST None, gt_gate 3 LOCAL_TEST None]"

definition gt_registry :: "utc option \<Rightarrow> registry" where
  "gt_registry ex = record_gates gt_env (gt_gates ex) (snd (new_registry gt_env (Some empty_ledgers) 0))"

lemma gt_ok: "ph < 7 \<Longrightarrow> k = EXTERNAL_TIMED \<or> 0 < ph \<Longrightarrow> 0 < ex \<Longrightarrow> gate_ok (gt_gate ph k (Some ex)) \<and> gate_ok (gt_gate ph k None)"
  by (auto simp: gate_ok_def gt_gate_def gt_evidence_def passed_gate_ok_def available_def evidence_holds_def evidence_valid_at_def has_kind_def)

theorem admission_chain_witness:
  "is_admitted (gt_registry None) 1 (Aware 50 0) = Inr True \<and>
   (\<exists>g. latest (gt_registry None) 0 = Inr (Some g) \<and> gate_supported g 50)"
proof -
  have a: "is_admitted (gt_registry None) 1 (Aware 50 0) = Inr True" by code_simp
  have gs: "list_all gate_ok (gt_gates None)"
    using gt_ok [of 0 EXTERNAL_TIMED 1] gt_ok [of 1 LOCAL_TEST 1] gt_ok [of 3 LOCAL_TEST 1] by (simp add: gt_gates_def)
  have "ledger_gates_ok (ledger_events empty_ledgers NS_MODEL)" by (simp add: ledger_gates_ok_def ledger_events_def empty_ledgers_def)
  from admission_chain [OF this gs gt_registry_def a, of 0] a show ?thesis by blast
qed

theorem gate_recovery_witness:
  "\<exists>L. pr_ledgers (gt_registry None) = Some L \<and> map pg_phase (pr_records (snd (new_registry gt_env (Some L) 60)) 1) = [1] \<and>
     pr_records (snd (new_registry gt_env (Some L) 60)) = pr_records (gt_registry None)"
proof -
  have L: "pr_ledgers (gt_registry None) \<noteq> None" "map pg_phase (pr_records (gt_registry None) 1) = [1]" "pr_draws (gt_registry None) \<le> 60"
    by code_simp+
  then obtain L where L': "pr_ledgers (gt_registry None) = Some L" by blast
  have "list_all (\<lambda>g. timeless g \<and> pg_id g < 2 ^ 128) (gt_gates None)" by (simp add: gt_gates_def gt_gate_def gt_evidence_def timeless_def)
  moreover have "mono (ge_now gt_env)" "inj (ge_uuid gt_env)" by (simp_all add: gt_env_def mono_def inj_def)
  ultimately show ?thesis
    using gate_recovery [OF gt_registry_def _ _ _ L' L(3)] L L' by auto
qed

text \<open>A restart after expiry fails: the projection checks the prerequisites of old records at the current time, so
  once the evidence of an earlier phase has expired, the ledger that was written correctly cannot be read any more.\<close>

theorem expired_evidence_blocks_restart:
  "\<exists>L. pr_ledgers (gt_registry (Some 20)) = Some L \<and> map pg_phase (pr_records (gt_registry (Some 20)) 1) = [1] \<and>
     fst (new_registry gt_env (Some L) 10) = Inr () \<and>
     fst (new_registry gt_env (Some L) 60) = Inl (ValueError ''phase cannot pass before its prerequisite passes'')"
proof -
  have L: "pr_ledgers (gt_registry (Some 20)) \<noteq> None" "map pg_phase (pr_records (gt_registry (Some 20)) 1) = [1]"
    "fst (new_registry gt_env (pr_ledgers (gt_registry (Some 20))) 10) = Inr ()"
    "fst (new_registry gt_env (pr_ledgers (gt_registry (Some 20))) 60) = Inl (ValueError ''phase cannot pass before its prerequisite passes'')"
    by code_simp+
  then show ?thesis by auto
qed

end
