(* ===== verification/Live_Properties.thy ===== *)
theory Live_Properties
  imports Live Gate_Properties Risk_Properties
begin

text \<open>
  The control plane of live operation against its abstract state machine, how it can become active, what a
  restart restores, and what an approved live order stands for.
\<close>

section \<open>The state machine\<close>

datatype live_call = Authorize authorization | Evaluate readiness_request | Start "pydatetime option" | Rollback string
  | To_Paper | Gates_Become "registry option"

primrec live_perform :: "live_env \<Rightarrow> live_call \<Rightarrow> live_plane \<Rightarrow> live_plane" where
  "live_perform E (Authorize a) s = snd (record_authorization E a s)"
| "live_perform E (Evaluate rq) s = snd (evaluate_readiness E rq s)"
| "live_perform E (Start t) s = snd (live_start E t s)"
| "live_perform E (Rollback r) s = snd (live_rollback E r s)"
| "live_perform E To_Paper s = snd (return_to_paper E s)"
| "live_perform E (Gates_Become g) s = s\<lparr>lp_gates := g\<rparr>"

primrec live_run :: "live_env \<Rightarrow> live_call list \<Rightarrow> live_plane \<Rightarrow> live_plane" where
  "live_run E [] s = s"
| "live_run E (c # cs) s = live_run E cs (live_perform E c s)"

lemma live_run_append [simp]: "live_run E (cs @ ds) s = live_run E ds (live_run E cs s)"
  by (induction cs arbitrary: s) simp_all

definition time_of :: "live_env \<Rightarrow> pydatetime option \<Rightarrow> live_plane \<Rightarrow> utc res" where
  "time_of E t s = evaluation_time '''' (lv_now E (lp_draws s)) t"

text \<open>The plane is ready to be made ready; the plane may start.\<close>

definition may_ready :: "live_env \<Rightarrow> readiness_request \<Rightarrow> live_plane \<Rightarrow> bool" where
  "may_ready E rq s \<longleftrightarrow> sg_passed (rr_soak rq) \<and> rr_clean rq \<and> offline_passed (rr_offline rq) \<and>
     (\<exists>t a. time_of E (rr_at rq) s = Inr t \<and> gates_admit (lp_gates s) 7 t \<and> lp_auth s = Some a \<and>
        authorization_valid_at a t \<and> la_no_expansion a \<and> la_ai_stoppable a)"

definition may_start :: "live_env \<Rightarrow> pydatetime option \<Rightarrow> live_plane \<Rightarrow> bool" where
  "may_start E at_time s \<longleftrightarrow>
     (\<exists>t a. time_of E at_time s = Inr t \<and> gates_admit (lp_gates s) 10 t \<and> lp_auth s = Some a \<and> authorization_valid_at a t)"

text \<open>The states without clock, ledger and times.\<close>

primrec live_next :: "live_env \<Rightarrow> live_call \<Rightarrow> live_plane \<Rightarrow> live_state" where
  "live_next E (Authorize a) s = lc_state (lp_status s)"
| "live_next E (Evaluate rq) s = (if may_ready E rq s then LIVE_READY else lc_state (lp_status s))"
| "live_next E (Start t) s = (if lc_state (lp_status s) = LIVE_READY \<and> may_start E t s then LIVE_ACTIVE else lc_state (lp_status s))"
| "live_next E (Rollback r) s = (if blank r then lc_state (lp_status s) else LIVE_ROLLED_BACK)"
| "live_next E To_Paper s = LIVE_PAPER"
| "live_next E (Gates_Become g) s = lc_state (lp_status s)"

lemma live_append_status [simp]:
  "lp_status (snd (live_append E et k p s)) = lp_status s" "lp_auth (snd (live_append E et k p s)) = lp_auth s"
  "lp_gates (snd (live_append E et k p s)) = lp_gates s"
  by (auto simp: live_append_def Let_def split: option.splits prod.splits sum.splits)

lemma mk_live_status_ok:
  "st \<noteq> LIVE_ROLLED_BACK \<Longrightarrow> mk_live_status st auth (Aware t 0) None = Inr \<lparr>lc_state = st, lc_authorization = auth, lc_changed_at = t, lc_reason = None\<rparr>"
  "\<not> blank r \<Longrightarrow> mk_live_status LIVE_ROLLED_BACK auth (Aware t 0) (Some (strip r)) =
     Inr \<lparr>lc_state = LIVE_ROLLED_BACK, lc_authorization = auth, lc_changed_at = t, lc_reason = Some (strip r)\<rparr>"
  by (simp_all add: mk_live_status_def require_aware_def)

definition status_after :: "live_env \<Rightarrow> live_state \<Rightarrow> uuid option \<Rightarrow> string option \<Rightarrow> live_plane \<Rightarrow> live_status" where
  "status_after E st auth reason s = \<lparr>lc_state = st, lc_authorization = (if auth \<noteq> None then auth else lc_authorization (lp_status s)),
     lc_changed_at = lv_now E (lp_draws s), lc_reason = reason\<rparr>"

text \<open>A transition that is allowed sets the status and writes it.\<close>

lemma live_transition_eq:
  assumes "st = LIVE_ACTIVE \<longrightarrow> lc_state (lp_status s) = LIVE_READY"
    and "reason = None \<and> st \<noteq> LIVE_ROLLED_BACK \<or> (\<exists>r. reason = Some (strip r) \<and> \<not> blank r \<and> st = LIVE_ROLLED_BACK)"
  shows "snd (live_transition E st auth reason s) = snd (live_append E ''live_state_changed'' (status_key E (status_after E st auth reason s))
    [(''status'', PLive (status_after E st auth reason s))] (s\<lparr>lp_draws := Suc (lp_draws s), lp_status := status_after E st auth reason s\<rparr>))"
proof -
  have "mk_live_status st (if auth \<noteq> None then auth else lc_authorization (lp_status s)) (Aware (lv_now E (lp_draws s)) 0) reason =
      Inr (status_after E st auth reason s)"
    using assms(2) by (auto simp: mk_live_status_ok status_after_def)
  then show ?thesis
    using assms(1) by (auto simp: live_transition_def sbind_def sget_def spure_def lp_now_def smodify_def sreturn_def
        split: prod.splits sum.splits)
qed

lemma live_transition_state:
  assumes "st = LIVE_ACTIVE \<longrightarrow> lc_state (lp_status s) = LIVE_READY"
    and "reason = None \<and> st \<noteq> LIVE_ROLLED_BACK \<or> (\<exists>r. reason = Some (strip r) \<and> \<not> blank r \<and> st = LIVE_ROLLED_BACK)"
  shows "lc_state (lp_status (snd (live_transition E st auth reason s))) = st"
    "lp_auth (snd (live_transition E st auth reason s)) = lp_auth s"
  unfolding live_transition_eq [OF assms] by (simp_all add: status_after_def)

lemma authorization_reasons_Nil:
  "authorization_reasons auth t = [] \<longleftrightarrow>
     (\<exists>a. auth = Some a \<and> authorization_valid_at a t \<and> la_no_expansion a \<and> la_ai_stoppable a)"
  by (cases auth) (auto simp: authorization_reasons_def)

lemma reason_texts:
  "list_all (\<lambda>r. \<not> blank r) [''live_authorization_expired_or_not_yet_active'', ''simultaneous_expansion_not_frozen'',
     ''AI-offline safety not authorized'', ''explicit_human_authorization_missing'', ''paper_soak_gate_not_passed'',
     ''phase_7_soak_gate_not_admitted'', ''current_reconciliation_not_clean'', ''offline_safety_check_failed'']"
  by code_simp

lemma readiness_passed:
  "(\<exists>r. readiness g auth rq now = Inr r \<and> lr_passed r) \<longleftrightarrow>
     (\<exists>t. evaluation_time '''' now (rr_at rq) = Inr t \<and> readiness_reasons g auth rq t = [])"
  "readiness g auth rq now = Inr r \<Longrightarrow> lr_auth r = map_option la_id auth"
proof -
  have time: "evaluation_time m now (rr_at rq) = Inr t \<longleftrightarrow> evaluation_time '''' now (rr_at rq) = Inr t" for m t
    by (auto simp: evaluation_time_def aware_eq_Inr split: option.splits)
  have passed: "mk_gate_result (rs = []) rs (map_option la_id auth) = Inr r \<Longrightarrow> lr_passed r \<longleftrightarrow> rs = []" for rs r
    by (auto simp: mk_gate_result_def split: if_splits)
  show "(\<exists>r. readiness g auth rq now = Inr r \<and> lr_passed r) \<longleftrightarrow>
     (\<exists>t. evaluation_time '''' now (rr_at rq) = Inr t \<and> readiness_reasons g auth rq t = [])"
  proof
    assume "\<exists>r. readiness g auth rq now = Inr r \<and> lr_passed r"
    then obtain r where r: "readiness g auth rq now = Inr r" "lr_passed r" by blast
    then obtain t where t: "evaluation_time ''live readiness evaluation timestamp must include a timezone'' now (rr_at rq) = Inr t"
      "mk_gate_result (readiness_reasons g auth rq t = []) (readiness_reasons g auth rq t) (map_option la_id auth) = Inr r"
      unfolding readiness_def rbind_eq_Inr Let_def by blast
    then show "\<exists>t. evaluation_time '''' now (rr_at rq) = Inr t \<and> readiness_reasons g auth rq t = []"
      using passed [OF t(2)] r(2) time [THEN iffD1, OF t(1)] by blast
  next
    assume "\<exists>t. evaluation_time '''' now (rr_at rq) = Inr t \<and> readiness_reasons g auth rq t = []"
    then obtain t where t: "evaluation_time '''' now (rr_at rq) = Inr t" "readiness_reasons g auth rq t = []" by blast
    then obtain a where "auth = Some a" by (auto simp: readiness_reasons_def authorization_reasons_Nil)
    then show "\<exists>r. readiness g auth rq now = Inr r \<and> lr_passed r"
      using time [THEN iffD2, OF t(1)] t(2) by (simp add: readiness_def mk_gate_result_def)
  qed
  show "readiness g auth rq now = Inr r \<Longrightarrow> lr_auth r = map_option la_id auth"
    by (auto simp: readiness_def rbind_eq_Inr Let_def mk_gate_result_def split: if_splits)
qed

lemma may_ready_iff:
  "may_ready E rq s \<longleftrightarrow> (\<exists>t. time_of E (rr_at rq) s = Inr t \<and> readiness_reasons (lp_gates s) (lp_auth s) rq t = [])"
  by (auto simp: may_ready_def readiness_reasons_def authorization_reasons_Nil)

lemma evaluate_state:
  "lc_state (lp_status (snd (evaluate_readiness E rq s))) = (if may_ready E rq s then LIVE_READY else lc_state (lp_status s))"
  "lp_auth (snd (evaluate_readiness E rq s)) = lp_auth s"
proof -
  let ?s1 = "s\<lparr>lp_draws := Suc (lp_draws s)\<rparr>"
  let ?r = "readiness (lp_gates s) (lp_auth s) rq (lv_now E (lp_draws s))"
  have eq: "snd (evaluate_readiness E rq s) = (case ?r of Inl e \<Rightarrow> ?s1
      | Inr r \<Rightarrow> if lr_passed r then snd (live_transition E LIVE_READY (lr_auth r) None ?s1) else ?s1)"
    by (auto simp: evaluate_readiness_def sbind_def lp_now_def spure_def sreturn_def split: sum.splits prod.splits)
  have "(\<exists>r. ?r = Inr r \<and> lr_passed r) \<longleftrightarrow> may_ready E rq s"
    unfolding readiness_passed(1) may_ready_iff time_of_def ..
  then show "lc_state (lp_status (snd (evaluate_readiness E rq s))) = (if may_ready E rq s then LIVE_READY else lc_state (lp_status s))"
    "lp_auth (snd (evaluate_readiness E rq s)) = lp_auth s"
    unfolding eq by (auto simp: live_transition_state split: sum.splits)
qed

lemma start_state:
  "lc_state (lp_status (snd (live_start E t s))) =
     (if lc_state (lp_status s) = LIVE_READY \<and> may_start E t s then LIVE_ACTIVE else lc_state (lp_status s))"
  "lp_auth (snd (live_start E t s)) = lp_auth s"
proof -
  let ?s1 = "s\<lparr>lp_draws := Suc (lp_draws s)\<rparr>"
  have eq: "snd (live_start E t s) = (case lp_auth s of None \<Rightarrow> s | Some a \<Rightarrow>
      (case time_of E t s of Inl e \<Rightarrow> ?s1 | Inr u \<Rightarrow>
        if authorization_valid_at a u \<and> gates_admit (lp_gates s) 10 u \<and> lc_state (lp_status s) = LIVE_READY
        then snd (live_transition E LIVE_ACTIVE None None ?s1) else ?s1))"
  proof (cases t)
    case None
    then show ?thesis by (auto simp: live_start_def time_of_def evaluation_time_def sbind_def sget_def lp_now_def spure_def sraise_def split: option.splits)
  next
    case (Some u)
    then show ?thesis
      by (cases u) (auto simp: live_start_def time_of_def evaluation_time_def sbind_def sget_def lp_now_def spure_def sraise_def split: option.splits)
  qed
  show "lc_state (lp_status (snd (live_start E t s))) =
     (if lc_state (lp_status s) = LIVE_READY \<and> may_start E t s then LIVE_ACTIVE else lc_state (lp_status s))"
    "lp_auth (snd (live_start E t s)) = lp_auth s"
    unfolding eq by (auto simp: live_transition_state may_start_def split: option.splits sum.splits)
qed

lemma rollback_state:
  "\<not> blank r \<Longrightarrow> lc_state (lp_status (snd (live_transition E LIVE_ROLLED_BACK None (Some (strip r)) s))) = LIVE_ROLLED_BACK"
  "\<not> blank r \<Longrightarrow> lp_auth (snd (live_transition E LIVE_ROLLED_BACK None (Some (strip r)) s)) = lp_auth s"
  by (rule live_transition_state; blast)+

lemma record_authorization_eq:
  "snd (record_authorization E a s) =
     (if lp_auth s \<noteq> None \<and> lp_auth s \<noteq> Some a then s
      else snd (live_append E ''live_authorization_recorded'' (authorization_key a) [(''authorization'', PAuth a)] (s\<lparr>lp_auth := Some a\<rparr>)))"
  by (auto simp: record_authorization_def sbind_def sget_def smodify_def sreturn_def sraise_def split: prod.splits sum.splits)

lemma perform_auth:
  "lp_auth (live_perform E c s) = (case c of Authorize a \<Rightarrow> if lp_auth s = None then Some a else lp_auth s | _ \<Rightarrow> lp_auth s)"
proof (cases c)
  case (Authorize a)
  then show ?thesis by (auto simp: record_authorization_eq)
next
  case (Rollback r)
  then show ?thesis by (simp add: live_rollback_def sraise_def rollback_state)
next
  case To_Paper
  then show ?thesis by (simp add: return_to_paper_def live_transition_state)
qed (simp_all add: evaluate_state start_state)

lemma perform_state: "lc_state (lp_status (live_perform E c s)) = live_next E c s"
proof (cases c)
  case (Authorize a)
  then show ?thesis by (auto simp: record_authorization_eq)
next
  case (Rollback r)
  then show ?thesis by (simp add: live_rollback_def sraise_def rollback_state)
next
  case To_Paper
  then show ?thesis by (simp add: return_to_paper_def live_transition_state)
qed (simp_all add: evaluate_state start_state)

lemma auth_kept: "lp_auth s = Some a \<Longrightarrow> lp_auth (live_run E cs s) = Some a"
proof (induction cs arbitrary: s)
  case (Cons c cs)
  have "lp_auth (live_perform E c s) = Some a" using Cons.prems by (simp add: perform_auth split: live_call.splits)
  then show ?case using Cons.IH by simp
qed simp

section \<open>Activation\<close>

text \<open>Calls that end a ready or active phase whatever the state is.\<close>

definition ends_live :: "live_call \<Rightarrow> bool" where
  "ends_live c \<longleftrightarrow> c = To_Paper \<or> (\<exists>r. c = Rollback r \<and> \<not> blank r)"

lemma live_next_cases:
  "live_next E c s = LIVE_READY \<Longrightarrow> (\<exists>rq. c = Evaluate rq \<and> may_ready E rq s) \<or> lc_state (lp_status s) = LIVE_READY \<and> \<not> ends_live c"
  "live_next E c s = LIVE_ACTIVE \<Longrightarrow> (\<exists>t. c = Start t \<and> lc_state (lp_status s) = LIVE_READY \<and> may_start E t s) \<or>
     lc_state (lp_status s) = LIVE_ACTIVE \<and> \<not> ends_live c"
  by (cases c; simp add: ends_live_def split: if_splits; blast)+

lemma live_ready_history:
  "lc_state (lp_status s0) = LIVE_PAPER \<Longrightarrow> lc_state (lp_status (live_run E cs s0)) = LIVE_READY \<Longrightarrow>
   \<exists>pre rq mid. cs = pre @ Evaluate rq # mid \<and> may_ready E rq (live_run E pre s0) \<and> (\<forall>c \<in> set mid. \<not> ends_live c)"
proof (induction cs rule: rev_induct)
  case (snoc c cs)
  then have "live_next E c (live_run E cs s0) = LIVE_READY" by (simp add: perform_state)
  then consider rq where "c = Evaluate rq" "may_ready E rq (live_run E cs s0)"
    | "lc_state (lp_status (live_run E cs s0)) = LIVE_READY" "\<not> ends_live c"
    using live_next_cases(1) by blast
  then show ?case
  proof cases
    case 1
    then show ?thesis by (intro exI [of _ cs] exI [of _ rq] exI [of _ "[]"]) simp
  next
    case 2
    then obtain pre rq mid where "cs = pre @ Evaluate rq # mid" "may_ready E rq (live_run E pre s0)" "\<forall>c \<in> set mid. \<not> ends_live c"
      using snoc by blast
    then show ?thesis using 2 by (intro exI [of _ pre] exI [of _ rq] exI [of _ "mid @ [c]"]) auto
  qed
qed simp

lemma live_active_history:
  "lc_state (lp_status s0) = LIVE_PAPER \<Longrightarrow> lc_state (lp_status (live_run E cs s0)) = LIVE_ACTIVE \<Longrightarrow>
   \<exists>pre t post. cs = pre @ Start t # post \<and> lc_state (lp_status (live_run E pre s0)) = LIVE_READY \<and>
     may_start E t (live_run E pre s0) \<and> (\<forall>c \<in> set post. \<not> ends_live c)"
proof (induction cs rule: rev_induct)
  case (snoc c cs)
  then have "live_next E c (live_run E cs s0) = LIVE_ACTIVE" by (simp add: perform_state)
  then consider t where "c = Start t" "lc_state (lp_status (live_run E cs s0)) = LIVE_READY" "may_start E t (live_run E cs s0)"
    | "lc_state (lp_status (live_run E cs s0)) = LIVE_ACTIVE" "\<not> ends_live c"
    using live_next_cases(2) by blast
  then show ?case
  proof cases
    case 1
    then show ?thesis by (intro exI [of _ cs] exI [of _ t] exI [of _ "[]"]) simp
  next
    case 2
    then obtain pre t post where "cs = pre @ Start t # post" "lc_state (lp_status (live_run E pre s0)) = LIVE_READY"
      "may_start E t (live_run E pre s0)" "\<forall>c \<in> set post. \<not> ends_live c"
      using snoc by blast
    then show ?thesis using 2 by (intro exI [of _ pre] exI [of _ t] exI [of _ "post @ [c]"]) auto
  qed
qed simp

text \<open>C13: Live operation starts only through its gates: in any sequence of calls, failing ones included, that makes a
  paper plane active, there was a readiness evaluation that passed (soak gate passed, reconciliation clean, offline
  safety, phase 7 admitted, and a recorded authorization valid at that time that freezes expansion), and later a
  start with that same authorization still valid and phase 10 admitted; since that evaluation no rollback and no
  return to paper happened.\<close>

theorem live_activation:
  assumes "lc_state (lp_status s0) = LIVE_PAPER" "lc_state (lp_status (live_run E cs s0)) = LIVE_ACTIVE"
  shows "\<exists>pre rq mid t post a. cs = pre @ Evaluate rq # mid @ Start t # post \<and>
    may_ready E rq (live_run E pre s0) \<and> may_start E t (live_run E (pre @ Evaluate rq # mid) s0) \<and>
    (\<forall>c \<in> set (mid @ post). \<not> ends_live c) \<and>
    lp_auth (live_run E pre s0) = Some a \<and> lp_auth (live_run E (pre @ Evaluate rq # mid) s0) = Some a \<and>
    lp_auth (live_run E cs s0) = Some a"
proof -
  obtain before t post where b: "cs = before @ Start t # post" "lc_state (lp_status (live_run E before s0)) = LIVE_READY"
    "may_start E t (live_run E before s0)" "\<forall>c \<in> set post. \<not> ends_live c"
    using live_active_history [OF assms] by blast
  obtain pre rq mid where p: "before = pre @ Evaluate rq # mid" "may_ready E rq (live_run E pre s0)" "\<forall>c \<in> set mid. \<not> ends_live c"
    using live_ready_history [OF assms(1) b(2)] by blast
  then obtain a where a: "lp_auth (live_run E pre s0) = Some a" by (auto simp: may_ready_def)
  have "lp_auth (live_run E before s0) = Some a" "lp_auth (live_run E cs s0) = Some a"
    unfolding b(1) p(1) live_run_append by (rule auth_kept, rule a, rule auth_kept, rule auth_kept, rule a)
  then show ?thesis
    using a b p by (intro exI [of _ pre] exI [of _ rq] exI [of _ mid] exI [of _ t] exI [of _ post] exI [of _ a]) auto
qed

section \<open>Recovery\<close>

definition same_status :: "live_status \<Rightarrow> live_status \<Rightarrow> bool" where
  "same_status x y \<longleftrightarrow> lc_state x = lc_state y \<and> lc_authorization x = lc_authorization y \<and> lc_reason x = lc_reason y"

lemma hydrate_live_snoc: "hydrate_live (evs @ [ev]) st = rbind (hydrate_live evs st) (live_apply ev)"
proof (induction evs arbitrary: st)
  case Nil
  show ?case by (cases "live_apply ev st") simp_all
next
  case (Cons e evs)
  then show ?case by (cases "live_apply e st") simp_all
qed

text \<open>
  Replaying the rows gives the recorded authorization and status; later event identifiers do not occur; the keys of
  status rows are those of the state changes so far; every row under an authorization key holds the authorization.
\<close>

definition live_rows_ok ::
  "live_env \<Rightarrow> string set \<Rightarrow> ledger_event list \<Rightarrow> authorization option \<Rightarrow> live_status \<Rightarrow> nat \<Rightarrow> bool" where
  "live_rows_ok E K rows auth x n \<longleftrightarrow>
     (\<forall>t. \<exists>st. hydrate_live rows (None, paper_status t) = Inr (auth, st) \<and> same_status st x) \<and>
     (\<forall>row \<in> set rows. \<forall>k \<ge> n. event_id row \<noteq> lv_uuid E k) \<and>
     (\<forall>row \<in> set rows. \<forall>y. ev_key row = status_key E y \<longrightarrow> ev_key row \<in> K) \<and>
     (\<forall>row \<in> set rows. \<forall>a. ev_key row = authorization_key a \<longrightarrow>
        (\<exists>b. auth = Some b \<and> event_type row = ''live_authorization_recorded'' \<and> ev_payload row = [(''authorization'', PAuth b)]))"

definition live_synced :: "live_env \<Rightarrow> string set \<Rightarrow> live_plane \<Rightarrow> bool" where
  "live_synced E K s \<longleftrightarrow>
     (case lp_ledgers s of None \<Rightarrow> True
      | Some L \<Rightarrow> live_rows_ok E K (ledger_events L NS_INCIDENT) (lp_auth s) (lp_status s) (lp_draws s)) \<and>
     (lc_state (lp_status s) \<in> {LIVE_READY, LIVE_ACTIVE} \<longrightarrow>
        (\<exists>a. lp_auth s = Some a \<and> lc_authorization (lp_status s) = Some (la_id a)))"

lemma live_rows_ok_mono:
  "live_rows_ok E K rows auth x n \<Longrightarrow> n \<le> m \<Longrightarrow> K \<subseteq> K' \<Longrightarrow> live_rows_ok E K' rows auth x m"
  unfolding live_rows_ok_def by (meson order_trans subsetD)

lemma live_synced_draws: "live_synced E K s \<Longrightarrow> live_synced E K (s\<lparr>lp_draws := Suc (lp_draws s)\<rparr>)"
  by (cases "lp_ledgers s") (auto simp: live_synced_def elim: live_rows_ok_mono)

lemma keys_differ: "status_key E x \<noteq> authorization_key a" "authorization_key a \<noteq> status_key E x"
  by (simp_all add: status_key_def authorization_key_def)

text \<open>A row with a fresh key and a fresh identifier is added.\<close>

lemma live_append_new:
  assumes "lp_ledgers s = Some L" "\<forall>row \<in> set (L NS_INCIDENT). ev_key row \<noteq> k \<and> event_id row \<noteq> lv_uuid E (lp_draws s)"
  shows "snd (live_append E etype k p s) = s\<lparr>lp_ledgers := Some (L(NS_INCIDENT := L NS_INCIDENT @ [stored \<lparr>event_id = lv_uuid E (lp_draws s),
     ev_namespace = NS_INCIDENT, event_type = etype, ev_key = k, ev_occurred_at = lv_now E (lp_draws s), ev_payload = p\<rparr>])),
     lp_draws := Suc (lp_draws s)\<rparr>"
proof -
  have "find_key k (L NS_INCIDENT) = None" "find_id (lv_uuid E (lp_draws s)) (L NS_INCIDENT) = None"
    using assms(2) by (force simp: find_key_None find_id_None)+
  then show ?thesis
    using assms(1) by (simp add: live_append_def ledger_append_def append_rows_eq Let_def)
qed

lemma live_transition_status:
  assumes "st = LIVE_ACTIVE \<longrightarrow> lc_state (lp_status s) = LIVE_READY"
    and "reason = None \<and> st \<noteq> LIVE_ROLLED_BACK \<or> (\<exists>r. reason = Some (strip r) \<and> \<not> blank r \<and> st = LIVE_ROLLED_BACK)"
  shows "lp_status (snd (live_transition E st auth reason s)) = status_after E st auth reason s"
  unfolding live_transition_eq [OF assms] by simp

lemma live_transition_synced:
  assumes "live_synced E K s" "inj (lv_uuid E)" "status_key E (status_after E st auth reason s) \<notin> K"
    and "st = LIVE_ACTIVE \<longrightarrow> lc_state (lp_status s) = LIVE_READY"
    and "reason = None \<and> st \<noteq> LIVE_ROLLED_BACK \<or> (\<exists>r. reason = Some (strip r) \<and> \<not> blank r \<and> st = LIVE_ROLLED_BACK)"
    and "st \<in> {LIVE_READY, LIVE_ACTIVE} \<longrightarrow> (\<exists>a. lp_auth s = Some a \<and> lc_authorization (status_after E st auth reason s) = Some (la_id a))"
  shows "live_synced E (insert (status_key E (status_after E st auth reason s)) K) (snd (live_transition E st auth reason s))"
proof -
  let ?x = "status_after E st auth reason s" and ?s1 = "s\<lparr>lp_draws := Suc (lp_draws s), lp_status := status_after E st auth reason s\<rparr>"
  let ?K = "insert (status_key E ?x) K"
  have x: "lc_state ?x = st" by (simp add: status_after_def)
  note eq = live_transition_eq [OF assms(4,5)]
  show ?thesis
  proof (cases "lp_ledgers s")
    case None
    then show ?thesis unfolding eq using assms(6) x by (simp add: live_append_def live_synced_def)
  next
    case (Some L)
    let ?rows = "L NS_INCIDENT"
    have ok: "live_rows_ok E K ?rows (lp_auth s) (lp_status s) (lp_draws s)"
      using assms(1) Some by (simp add: live_synced_def ledger_events_def)
    have fresh: "\<forall>row \<in> set ?rows. ev_key row \<noteq> status_key E ?x \<and> event_id row \<noteq> lv_uuid E (lp_draws ?s1)"
      using ok assms(3) unfolding live_rows_ok_def by fastforce
    define row where "row = stored \<lparr>event_id = lv_uuid E (lp_draws ?s1), ev_namespace = NS_INCIDENT, event_type = ''live_state_changed'',
      ev_key = status_key E ?x, ev_occurred_at = lv_now E (lp_draws ?s1), ev_payload = [(''status'', PLive ?x)]\<rparr>"
    have row: "event_id row = lv_uuid E (Suc (lp_draws s))" "ev_key row = status_key E ?x" "event_type row = ''live_state_changed''"
      "ev_payload row = [(''status'', PLive ?x)]" by (simp_all add: row_def)
    have new: "snd (live_transition E st auth reason s) = ?s1\<lparr>lp_ledgers := Some (L(NS_INCIDENT := ?rows @ [row])), lp_draws := Suc (Suc (lp_draws s))\<rparr>"
      unfolding eq row_def by (subst live_append_new [where L = L and s = ?s1]) (use fresh Some in simp_all)
    have "live_rows_ok E ?K (?rows @ [row]) (lp_auth s) ?x (Suc (Suc (lp_draws s)))"
      unfolding live_rows_ok_def
    proof (intro conjI allI)
      fix t
      obtain st0 where st0: "hydrate_live ?rows (None, paper_status t) = Inr (lp_auth s, st0)" "same_status st0 (lp_status s)"
        using ok unfolding live_rows_ok_def by blast
      have "live_apply row (lp_auth s, st0) = Inr (lp_auth s, ?x)"
        using assms(4,6) st0(2) x by (auto simp: live_apply_def row same_status_def)
      then show "\<exists>st. hydrate_live (?rows @ [row]) (None, paper_status t) = Inr (lp_auth s, st) \<and> same_status st ?x"
        unfolding hydrate_live_snoc st0(1) by (simp add: same_status_def)
    next
      show "\<forall>r \<in> set (?rows @ [row]). \<forall>k \<ge> Suc (Suc (lp_draws s)). event_id r \<noteq> lv_uuid E k"
        using ok assms(2) unfolding live_rows_ok_def by (auto simp: row inj_eq)
    next
      show "\<forall>r \<in> set (?rows @ [row]). \<forall>y. ev_key r = status_key E y \<longrightarrow> ev_key r \<in> ?K"
        using ok unfolding live_rows_ok_def by (auto simp: row)
    next
      show "\<forall>r \<in> set (?rows @ [row]). \<forall>a. ev_key r = authorization_key a \<longrightarrow> (\<exists>b. lp_auth s = Some b \<and>
          event_type r = ''live_authorization_recorded'' \<and> ev_payload r = [(''authorization'', PAuth b)])"
        using ok keys_differ unfolding live_rows_ok_def by (auto simp: row)
    qed
    then show ?thesis
      unfolding new using assms(6) x by (simp add: live_synced_def ledger_events_def)
  qed
qed

lemma authorize_synced:
  assumes "live_synced E K s" "inj (lv_uuid E)"
  shows "live_synced E K (snd (record_authorization E a s))"
proof (cases "lp_auth s = None \<or> lp_auth s = Some a")
  case False
  then show ?thesis using assms(1) by (simp add: record_authorization_eq)
next
  case auth: True
  let ?s1 = "s\<lparr>lp_auth := Some a\<rparr>"
  have eq: "snd (record_authorization E a s) = snd (live_append E ''live_authorization_recorded'' (authorization_key a) [(''authorization'', PAuth a)] ?s1)"
    using auth by (auto simp: record_authorization_eq)
  have ready: "lc_state (lp_status s) \<in> {LIVE_READY, LIVE_ACTIVE} \<longrightarrow> lc_authorization (lp_status s) = Some (la_id a)"
    using assms(1) auth by (auto simp: live_synced_def)
  show ?thesis
  proof (cases "lp_ledgers s")
    case None
    then show ?thesis unfolding eq using ready by (simp add: live_append_def live_synced_def)
  next
    case (Some L)
    let ?rows = "L NS_INCIDENT" and ?n = "lp_draws s"
    have ok: "live_rows_ok E K ?rows (lp_auth s) (lp_status s) ?n"
      using assms(1) Some by (simp add: live_synced_def ledger_events_def)
    have later: "live_rows_ok E K ?rows (lp_auth s) (lp_status s) (Suc ?n)" using live_rows_ok_mono [OF ok] by simp
    show ?thesis
    proof (cases "\<exists>row \<in> set ?rows. ev_key row = authorization_key a")
      case True
      then obtain row where row: "find_key (authorization_key a) ?rows = Some row" "row \<in> set ?rows" "ev_key row = authorization_key a"
        by (metis find_key_None find_key_SomeD imageI not_None_eq)
      then have same: "event_type row = ''live_authorization_recorded''" "ev_payload row = [(''authorization'', PAuth a)]" "lp_auth s = Some a"
        using ok auth unfolding live_rows_ok_def by auto
      then have "snd (live_append E ''live_authorization_recorded'' (authorization_key a) [(''authorization'', PAuth a)] ?s1) = s\<lparr>lp_draws := Suc ?n\<rparr>"
        using row(1) Some by (simp add: live_append_def ledger_append_def append_rows_eq Let_def matching_prior_def same_content_def)
      then show ?thesis unfolding eq using live_synced_draws [OF assms(1)] by simp
    next
      case False
      then have fresh: "\<forall>row \<in> set ?rows. ev_key row \<noteq> authorization_key a \<and> event_id row \<noteq> lv_uuid E (lp_draws ?s1)"
        using ok unfolding live_rows_ok_def by auto
      define row where "row = stored \<lparr>event_id = lv_uuid E ?n, ev_namespace = NS_INCIDENT, event_type = ''live_authorization_recorded'',
        ev_key = authorization_key a, ev_occurred_at = lv_now E ?n, ev_payload = [(''authorization'', PAuth a)]\<rparr>"
      have row: "event_id row = lv_uuid E ?n" "ev_key row = authorization_key a" "event_type row = ''live_authorization_recorded''"
        "ev_payload row = [(''authorization'', PAuth a)]" by (simp_all add: row_def)
      have new: "snd (record_authorization E a s) = ?s1\<lparr>lp_ledgers := Some (L(NS_INCIDENT := ?rows @ [row])), lp_draws := Suc ?n\<rparr>"
        unfolding eq row_def by (subst live_append_new [where L = L and s = ?s1]) (use fresh Some in simp_all)
      have "live_rows_ok E K (?rows @ [row]) (Some a) (lp_status s) (Suc ?n)"
        unfolding live_rows_ok_def
      proof (intro conjI allI)
        fix t
        obtain st0 where "hydrate_live ?rows (None, paper_status t) = Inr (lp_auth s, st0)" "same_status st0 (lp_status s)"
          using ok unfolding live_rows_ok_def by blast
        then show "\<exists>st. hydrate_live (?rows @ [row]) (None, paper_status t) = Inr (Some a, st) \<and> same_status st (lp_status s)"
          by (simp add: hydrate_live_snoc live_apply_def row)
      next
        show "\<forall>r \<in> set (?rows @ [row]). \<forall>k \<ge> Suc ?n. event_id r \<noteq> lv_uuid E k"
          using ok assms(2) unfolding live_rows_ok_def by (auto simp: row inj_eq)
      next
        show "\<forall>r \<in> set (?rows @ [row]). \<forall>y. ev_key r = status_key E y \<longrightarrow> ev_key r \<in> K"
          using later keys_differ unfolding live_rows_ok_def by (auto simp: row)
      next
        show "\<forall>r \<in> set (?rows @ [row]). \<forall>b. ev_key r = authorization_key b \<longrightarrow> (\<exists>c. Some a = Some c \<and>
            event_type r = ''live_authorization_recorded'' \<and> ev_payload r = [(''authorization'', PAuth c)])"
          using ok auth unfolding live_rows_ok_def by (auto simp: row)
      qed
      then show ?thesis
        unfolding new using ready by (simp add: live_synced_def ledger_events_def)
    qed
  qed
qed

text \<open>The calls that change the state, and the keys under which a run records its state changes.\<close>

definition changes_state :: "live_env \<Rightarrow> live_call \<Rightarrow> live_plane \<Rightarrow> bool" where
  "changes_state E c s = (case c of Authorize a \<Rightarrow> False | Evaluate rq \<Rightarrow> may_ready E rq s
     | Start t \<Rightarrow> lc_state (lp_status s) = LIVE_READY \<and> may_start E t s | Rollback r \<Rightarrow> \<not> blank r | To_Paper \<Rightarrow> True
     | Gates_Become g \<Rightarrow> False)"

definition change_keys :: "live_env \<Rightarrow> live_call \<Rightarrow> live_plane \<Rightarrow> string list" where
  "change_keys E c s = (if changes_state E c s then [status_key E (lp_status (live_perform E c s))] else [])"

primrec status_keys :: "live_env \<Rightarrow> live_call list \<Rightarrow> live_plane \<Rightarrow> string list" where
  "status_keys E [] s = []"
| "status_keys E (c # cs) s = change_keys E c s @ status_keys E cs (live_perform E c s)"

lemma may_code [code]:
  "may_ready E rq s = (case time_of E (rr_at rq) s of Inl e \<Rightarrow> False | Inr t \<Rightarrow> readiness_reasons (lp_gates s) (lp_auth s) rq t = [])"
  "may_start E at_time s = (case time_of E at_time s of Inl e \<Rightarrow> False
     | Inr t \<Rightarrow> gates_admit (lp_gates s) 10 t \<and> (case lp_auth s of None \<Rightarrow> False | Some a \<Rightarrow> authorization_valid_at a t))"
  by (auto simp: may_ready_iff may_start_def split: sum.splits option.splits)

lemma live_perform_synced:
  assumes "live_synced E K s" "inj (lv_uuid E)" "set (change_keys E c s) \<inter> K = {}"
  shows "live_synced E (set (change_keys E c s) \<union> K) (live_perform E c s)"
proof -
  let ?s1 = "s\<lparr>lp_draws := Suc (lp_draws s)\<rparr>"
  note s1 = live_synced_draws [OF assms(1)]
  have step: "live_synced E (set (change_keys E c s) \<union> K) (live_perform E c s)"
    if "live_perform E c s = snd (live_transition E st auth reason u)" "changes_state E c s" "live_synced E K u"
      "st = LIVE_ACTIVE \<longrightarrow> lc_state (lp_status u) = LIVE_READY"
      "reason = None \<and> st \<noteq> LIVE_ROLLED_BACK \<or> (\<exists>r. reason = Some (strip r) \<and> \<not> blank r \<and> st = LIVE_ROLLED_BACK)"
      "st \<in> {LIVE_READY, LIVE_ACTIVE} \<longrightarrow> (\<exists>a. lp_auth u = Some a \<and> lc_authorization (status_after E st auth reason u) = Some (la_id a))"
    for st auth reason u
  proof -
    have "change_keys E c s = [status_key E (status_after E st auth reason u)]"
      using that(1,2) live_transition_status [OF that(4,5)] by (simp add: change_keys_def)
    then show ?thesis
      using live_transition_synced [OF that(3) assms(2) _ that(4-6)] assms(3) that(1) by simp
  qed
  have idle: "live_synced E (set (change_keys E c s) \<union> K) (live_perform E c s)"
    if "\<not> changes_state E c s" "live_synced E K (live_perform E c s)"
    using that by (simp add: change_keys_def)
  show ?thesis
  proof (cases c)
    case (Authorize a)
    then show ?thesis using authorize_synced [OF assms(1,2)] by (intro idle) (simp_all add: changes_state_def)
  next
    case (Evaluate rq)
    let ?r = "readiness (lp_gates s) (lp_auth s) rq (lv_now E (lp_draws s))"
    have eq: "live_perform E c s = (case ?r of Inl e \<Rightarrow> ?s1
        | Inr r \<Rightarrow> if lr_passed r then snd (live_transition E LIVE_READY (lr_auth r) None ?s1) else ?s1)"
      using Evaluate by (auto simp: evaluate_readiness_def sbind_def lp_now_def spure_def sreturn_def split: sum.splits prod.splits)
    have may: "(\<exists>r. ?r = Inr r \<and> lr_passed r) \<longleftrightarrow> changes_state E c s"
      unfolding readiness_passed(1) changes_state_def by (simp add: Evaluate may_ready_iff time_of_def)
    show ?thesis
    proof (cases "changes_state E c s")
      case True
      then obtain r where r: "?r = Inr r" "lr_passed r" using may by blast
      obtain a where "lp_auth s = Some a" using True by (auto simp: changes_state_def Evaluate may_ready_def)
      then show ?thesis
        using readiness_passed(2) [OF r(1)] r
        by (intro step [OF _ True s1, of LIVE_READY "lr_auth r" None]) (simp_all add: eq status_after_def)
    next
      case False
      then have "live_perform E c s = ?s1" using may unfolding eq by (auto split: sum.splits)
      then show ?thesis using False s1 by (intro idle) simp_all
    qed
  next
    case (Start t)
    have eq: "live_perform E c s = s \<or> live_perform E c s = ?s1 \<or>
        changes_state E c s \<and> live_perform E c s = snd (live_transition E LIVE_ACTIVE None None ?s1)"
    proof (cases t)
      case None
      then show ?thesis
        by (auto simp: Start changes_state_def may_start_def live_start_def time_of_def evaluation_time_def sbind_def sget_def lp_now_def
            spure_def sraise_def split: option.splits)
    next
      case (Some u)
      then show ?thesis
        by (cases u) (auto simp: Start changes_state_def may_start_def live_start_def time_of_def evaluation_time_def sbind_def sget_def
            lp_now_def spure_def sraise_def split: option.splits)
    qed
    show ?thesis
    proof (cases "changes_state E c s")
      case True
      then have ready: "lc_state (lp_status s) = LIVE_READY" by (simp add: changes_state_def Start)
      have "lc_state (lp_status (live_perform E c s)) = LIVE_ACTIVE"
        using True by (simp add: Start start_state changes_state_def)
      then have "live_perform E c s = snd (live_transition E LIVE_ACTIVE None None ?s1)" using eq ready by auto
      moreover have "\<exists>a. lp_auth s = Some a \<and> lc_authorization (lp_status s) = Some (la_id a)"
        using assms(1) ready by (simp add: live_synced_def)
      ultimately show ?thesis
        using ready by (intro step [OF _ True s1, of LIVE_ACTIVE None None]) (simp_all add: status_after_def)
    next
      case False
      then show ?thesis using eq s1 assms(1) by (intro idle) auto
    qed
  next
    case (Rollback r)
    show ?thesis
    proof (cases "blank r")
      case True
      then show ?thesis using assms(1) by (intro idle) (simp_all add: Rollback changes_state_def live_rollback_def sraise_def)
    next
      case False
      then show ?thesis
        by (intro step [OF _ _ assms(1), of LIVE_ROLLED_BACK None "Some (strip r)"]) (auto simp: Rollback changes_state_def live_rollback_def)
    qed
  next
    case To_Paper
    then show ?thesis
      by (intro step [OF _ _ assms(1), of LIVE_PAPER None None]) (simp_all add: changes_state_def return_to_paper_def)
  next
    case (Gates_Become g)
    then show ?thesis using assms(1) by (intro idle) (cases "lp_ledgers s"; simp add: live_synced_def changes_state_def)+
  qed
qed

lemma live_run_synced:
  "live_synced E K s \<Longrightarrow> inj (lv_uuid E) \<Longrightarrow> distinct (status_keys E cs s) \<Longrightarrow> set (status_keys E cs s) \<inter> K = {} \<Longrightarrow>
   live_synced E (set (status_keys E cs s) \<union> K) (live_run E cs s)"
proof (induction cs arbitrary: s K)
  case (Cons c cs)
  let ?s = "live_perform E c s" and ?K = "set (change_keys E c s) \<union> K"
  have "live_synced E ?K ?s" using live_perform_synced [OF Cons.prems(1,2)] Cons.prems(4) by auto
  then have "live_synced E (set (status_keys E cs ?s) \<union> ?K) (live_run E cs ?s)"
    by (rule Cons.IH) (use Cons.prems in auto)
  then show ?case by (simp add: Un_ac)
qed simp

text \<open>The incident ledger holds rows of others only.\<close>

definition foreign_rows :: "live_env \<Rightarrow> ledger_event list \<Rightarrow> bool" where
  "foreign_rows E rows \<longleftrightarrow> (\<forall>row \<in> set rows. event_type row \<notin> {''live_authorization_recorded'', ''live_state_changed''} \<and>
     (\<forall>k. event_id row \<noteq> lv_uuid E k) \<and> (\<forall>x. ev_key row \<noteq> status_key E x) \<and> (\<forall>a. ev_key row \<noteq> authorization_key a))"

lemma hydrate_foreign: "foreign_rows E rows \<Longrightarrow> hydrate_live rows st = Inr st"
  by (induction rows) (auto simp: foreign_rows_def live_apply_def)

text \<open>C27: The control plane survives a restart: after any calls on a plane over a ledger that held only rows of other
  components, a plane built from the ledger has the recorded authorization, state, authorization identity and rollback reason;
  an active or rolled-back plane does not silently become paper.  The condition is that the state changes of the run have
  different keys, that is, no two changes to the same state under the same authorization carry the same time, and that event
  identifiers are not drawn twice; nothing else is asked of the clock.\<close>

theorem live_recovery:
  assumes "foreign_rows E (ledger_events L NS_INCIDENT)" "new_live E (Some L) g n = Inr s0" "s = live_run E cs s0" "lp_ledgers s = Some M"
    and "distinct (status_keys E cs s0)" "inj (lv_uuid E)"
  shows "\<exists>r. new_live E (Some M) g' m = Inr r \<and> lp_auth r = lp_auth s \<and> same_status (lp_status r) (lp_status s)"
proof -
  have s0: "s0 = \<lparr>lp_ledgers = Some L, lp_gates = g, lp_auth = None, lp_status = paper_status (lv_now E n), lp_draws = Suc n\<rparr>"
    using assms(2) hydrate_foreign [OF assms(1)] by (simp add: new_live_def)
  have "live_synced E {} s0"
    using assms(1) hydrate_foreign [OF assms(1)]
    by (auto simp: s0 live_synced_def live_rows_ok_def same_status_def paper_status_def foreign_rows_def)
  then have "live_synced E (set (status_keys E cs s0)) s" unfolding assms(3) using live_run_synced [of E "{}"] assms(5,6) by simp
  then have "live_rows_ok E (set (status_keys E cs s0)) (ledger_events M NS_INCIDENT) (lp_auth s) (lp_status s) (lp_draws s)"
    using assms(4) by (simp add: live_synced_def)
  then obtain st where "hydrate_live (ledger_events M NS_INCIDENT) (None, paper_status (lv_now E m)) = Inr (lp_auth s, st)"
    "same_status st (lp_status s)"
    unfolding live_rows_ok_def by blast
  then show ?thesis by (simp add: new_live_def)
qed

section \<open>Live orders\<close>

lemma foldl_dmax: "dval (foldl dmax x ys) = foldl max (dval x) (map dval ys)"
  by (induction ys arbitrary: x) (simp_all add: dval_dmax)

text \<open>C14: An order that the live guard passes is inside the authorization and the kernel: the authorization is valid at the time,
  the risk decision is an approval bound to this account and market under the authorized policy, instrument and venue are
  authorized, price times quantity is within the notional bound, realized, daily and rolling losses and the drawdown are within the loss
  budget, and the order check of the kernel has no objection.  Conversely the guard passes when all of this holds.\<close>

theorem live_order_guard:
  assumes "guard_approve E sha policy_sha k auth ord a m p d now at_time = Inr r" "b = dval (la_loss_budget auth)"
  shows "lr_passed r \<longleftrightarrow>
    (\<exists>t h c. evaluation_time '''' now at_time = Inr t \<and> authorization_valid_at auth t \<and>
      dec_outcome d = APPROVED \<and> dec_risk_policy_id d = artifact_id p \<and> bound_hash E sha a m = Inr h \<and> dec_state_hash d = h \<and>
      policy_sha p = la_policy_hash auth \<and> canonical_id (ord_instrument ord) \<in> set (la_instruments auth) \<and>
      (la_venue auth = None \<or> inst_venue (ord_instrument ord) = la_venue auth) \<and>
      (\<exists>x. ord_price ord = Some x \<and> dval (dmul x (ord_quantity ord)) \<le> dval (la_max_notional auth)) \<and>
      0 \<le> b \<and> dval (dneg (ac_realized_pnl a)) \<le> b \<and> dval (dneg (ac_daily_pnl a)) \<le> b \<and>
      dval (dneg (ac_rolling_pnl a)) \<le> b \<and> dval (drawdown a) \<le> b \<and>
      check_order E sha k ord a m p = Inr c \<and> chk_approved c)"
proof -
  have time: "evaluation_time msg now at_time = Inr t \<longleftrightarrow> evaluation_time '''' now at_time = Inr t" for msg t
    by (auto simp: evaluation_time_def aware_eq_Inr split: option.splits)
  obtain t h c where t: "evaluation_time '''' now at_time = Inr t" and h: "bound_hash E sha a m = Inr h" and c: "check_order E sha k ord a m p = Inr c"
    and r: "mk_gate_result (guard_reasons policy_sha auth ord a p d h t @ (if chk_approved c then [] else chk_reasons c) = [])
        (guard_reasons policy_sha auth ord a p d h t @ (if chk_approved c then [] else chk_reasons c)) (Some (la_id auth)) = Inr r"
    using assms(1) time [THEN iffD1] unfolding guard_approve_def rbind_eq_Inr Let_def by blast
  have "lr_passed r \<longleftrightarrow> guard_reasons policy_sha auth ord a p d h t = [] \<and> (if chk_approved c then [] else chk_reasons c) = []"
    using r by (auto simp: mk_gate_result_def split: if_splits)
  also have "(if chk_approved c then [] else chk_reasons c) = [] \<longleftrightarrow> chk_approved c"
    using check_order_Inr(2) [OF c] by auto
  also have "guard_reasons policy_sha auth ord a p d h t = [] \<longleftrightarrow>
      authorization_valid_at auth t \<and> dec_outcome d = APPROVED \<and> dec_risk_policy_id d = artifact_id p \<and> dec_state_hash d = h \<and>
      policy_sha p = la_policy_hash auth \<and> canonical_id (ord_instrument ord) \<in> set (la_instruments auth) \<and>
      (la_venue auth = None \<or> inst_venue (ord_instrument ord) = la_venue auth) \<and>
      (\<exists>x. ord_price ord = Some x \<and> dval (dmul x (ord_quantity ord)) \<le> dval (la_max_notional auth)) \<and> dval (live_loss a) \<le> b"
    by (auto simp: guard_reasons_def dlt_iff not_less assms(2) split: option.splits)
  also have "dval (live_loss a) \<le> b \<longleftrightarrow> 0 \<le> b \<and> dval (dneg (ac_realized_pnl a)) \<le> b \<and> dval (dneg (ac_daily_pnl a)) \<le> b \<and>
      dval (dneg (ac_rolling_pnl a)) \<le> b \<and> dval (drawdown a) \<le> b"
    by (simp add: live_loss_def dval_dmax conj_assoc del: dval_eq_0)
  finally show ?thesis using t h c by auto
qed

section \<open>A concrete plane\<close>

definition lx_env :: live_env where
  "lx_env = \<lparr>lv_now = int, lv_uuid = (\<lambda>n. n), lv_iso = (\<lambda>t. nat_str (nat (if 0 \<le> t then 2 * t else - 2 * t - 1)))\<rparr>"

definition lx_auth :: authorization where
  "lx_auth = \<lparr>la_id = 7, la_approver = ''ops'', la_approved_at = 0, la_instruments = [''BTC''], la_loss_budget = Dec 10 0,
     la_max_notional = Dec 15 0, la_policy_hash = replicate 64 (CHR ''b''), la_rollback = ''loss'', la_no_expansion = True,
     la_ai_stoppable = True, la_owner = None, la_venue = None, la_expires_at = Some 100, la_reference = None\<rparr>"

definition lx_request :: readiness_request where
  "lx_request = \<lparr>rr_soak = \<lparr>sg_days = 61, sg_decisions = 5, sg_trades = 2, sg_scenarios = [PRICE_GAP], sg_resources_stable = True,
       sg_unresolved_reconciliation = False, sg_unresolved_safety = False, sg_utility = Dec 3 0, sg_passed = True, sg_reasons = [],
       sg_headroom = Dec 2 0\<rparr>, rr_clean = True,
     rr_offline = \<lparr>oc_llm_stopped = True, oc_hermes_stopped = True, oc_browser_stopped = True, oc_research_stopped = True,
       oc_risk_operational = True\<rparr>, rr_at = None\<rparr>"

definition lx_calls :: "live_call list" where
  "lx_calls = [Start None, Authorize lx_auth, Evaluate lx_request, Rollback '' '', Start (Some (Aware 40 0))]"

definition lx_plane :: live_plane where
  "lx_plane = the_ok (new_live lx_env (Some empty_ledgers) None 0)"

lemma lx_plane: "new_live lx_env (Some empty_ledgers) None 0 = Inr lx_plane"
  unfolding lx_plane_def by (rule is_ok_the_ok) code_simp

theorem live_activation_witness:
  "lc_state (lp_status (live_run lx_env lx_calls lx_plane)) = LIVE_ACTIVE \<and>
   (\<exists>pre rq rest. lx_calls = pre @ Evaluate rq # rest \<and> may_ready lx_env rq (live_run lx_env pre lx_plane))"
proof -
  have paper: "lc_state (lp_status lx_plane) = LIVE_PAPER" by code_simp
  have active: "lc_state (lp_status (live_run lx_env lx_calls lx_plane)) = LIVE_ACTIVE" by code_simp
  obtain pre rq mid t post a where "lx_calls = pre @ Evaluate rq # mid @ Start t # post" "may_ready lx_env rq (live_run lx_env pre lx_plane)"
    using live_activation [OF paper active] by blast
  then show ?thesis using active by blast
qed

theorem live_recovery_witness:
  "\<exists>M r. lp_ledgers (live_run lx_env lx_calls lx_plane) = Some M \<and> new_live lx_env (Some M) None 50 = Inr r \<and>
     lp_auth r = Some lx_auth \<and> lc_state (lp_status r) = LIVE_ACTIVE"
proof -
  let ?s = "live_run lx_env lx_calls lx_plane"
  have s: "lp_ledgers ?s \<noteq> None" "lp_auth ?s = Some lx_auth" "lc_state (lp_status ?s) = LIVE_ACTIVE" by code_simp+
  then obtain M where M: "lp_ledgers ?s = Some M" by blast
  have keys: "distinct (status_keys lx_env lx_calls lx_plane)" by code_simp
  have uuid: "inj (lv_uuid lx_env)" by (simp add: lx_env_def inj_def)
  have "foreign_rows lx_env (ledger_events empty_ledgers NS_INCIDENT)"
    by (simp add: foreign_rows_def ledger_events_def empty_ledgers_def)
  from live_recovery [OF this lx_plane refl M keys uuid, of None 50] s M show ?thesis
    by (auto simp: same_status_def)
qed

text \<open>A clock that stands still: the second readiness has the key of the first and is not written.\<close>

definition lx_frozen :: live_env where
  "lx_frozen = lx_env\<lparr>lv_now := \<lambda>_. 5\<rparr>"

theorem frozen_clock_loses_state:
  "lc_state (lp_status (live_run lx_frozen [Authorize lx_auth, Evaluate lx_request, To_Paper, Evaluate lx_request] lx_plane)) = LIVE_READY \<and>
   (case lp_ledgers (live_run lx_frozen [Authorize lx_auth, Evaluate lx_request, To_Paper, Evaluate lx_request] lx_plane) of
      None \<Rightarrow> False
    | Some M \<Rightarrow> (case new_live lx_frozen (Some M) None 50 of Inl e \<Rightarrow> False | Inr r \<Rightarrow> lc_state (lp_status r) = LIVE_PAPER))"
  by (rule conjI; code_simp)

definition lx_decision :: risk_decision where
  "lx_decision = \<lparr>artifact_id = 90, created_at = 0, dec_target_portfolio_id = 60, dec_risk_policy_id = 70, dec_outcome = APPROVED,
     dec_state_hash = replicate 64 (CHR ''a''), dec_reasons = [], dec_reduced_positions = []\<rparr>"

theorem live_order_guard_witness:
  "\<exists>r. guard_approve rk_env (\<lambda>_. '''') (\<lambda>_. replicate 64 (CHR ''b'')) rk_switch lx_auth rk_order ex_account rk_market
     (rk_policy ''max_order_notional'') lx_decision 5 None = Inr r \<and> lr_passed r \<and> dval (drawdown ex_account) \<le> 10"
proof -
  let ?g = "guard_approve rk_env (\<lambda>_. '''') (\<lambda>_. replicate 64 (CHR ''b'')) rk_switch lx_auth rk_order ex_account rk_market
     (rk_policy ''max_order_notional'') lx_decision 5 None"
  have "(case ?g of Inr r \<Rightarrow> lr_passed r | Inl _ \<Rightarrow> False)" by code_simp
  then obtain r where r: "?g = Inr r" "lr_passed r" by (auto split: sum.splits)
  from live_order_guard [OF r(1) refl] r show ?thesis
    by (auto simp: lx_auth_def dval_Dec)
qed

text \<open>Readiness is not monotone: a readiness evaluation that passes while the plane is active takes it back to
  ready, so a periodic re-evaluation silently stops live operation, while one that fails leaves it active.\<close>

theorem reevaluation_demotes:
  "lc_state (lp_status (live_run lx_env (lx_calls @ [Evaluate lx_request]) lx_plane)) = LIVE_READY \<and>
   lc_state (lp_status (live_run lx_env (lx_calls @ [Evaluate (lx_request\<lparr>rr_clean := False\<rparr>)]) lx_plane)) = LIVE_ACTIVE"
  by (rule conjI; code_simp)

end
