(* ===== verification/Authority.thy ===== *)
theory Authority
  imports Contracts
begin

text \<open>
  The trading-boundary denylist of \<open>contracts/core.py\<close>: \<open>normalize_authority_action\<close>, which brings
  the spellings of an action name to one form, and \<open>is_forbidden_authority_action\<close>, which decides
  from the words of that form whether the name asks for order, risk or deployment authority. The
  capability broker, the foundry, the agent gateway and the ports call both.

  The two \<open>re.sub\<close> passes are functions on character lists. \<open>action_words\<close> is the reference the
  passes are compared with: it cuts the name into its words directly. A non-string argument (for
  which the source returns the empty name) has no value in the model.
\<close>

section \<open>The normal form of an action name\<close>

definition ascii_upper :: "char \<Rightarrow> bool" where
  "ascii_upper c = (let n = of_char c :: nat in 65 \<le> n \<and> n \<le> 90)"

definition ascii_low_digit :: "char \<Rightarrow> bool" where
  "ascii_low_digit c = (let n = of_char c :: nat in 97 \<le> n \<and> n \<le> 122 \<or> 48 \<le> n \<and> n \<le> 57)"

definition ascii_alnum :: "char \<Rightarrow> bool" where
  "ascii_alnum c = (ascii_upper c \<or> ascii_low_digit c)"

text \<open>\<open>re.sub(r"(?<=[a-z0-9])(?=[A-Z])", "_", value)\<close>.\<close>

fun camel_breaks :: "string \<Rightarrow> string" where
  "camel_breaks (c # d # s) =
     (if ascii_low_digit c \<and> ascii_upper d then c # CHR ''_'' # camel_breaks (d # s) else c # camel_breaks (d # s))"
| "camel_breaks s = s"

declare length_dropWhile_le [termination_simp]

lemma length_dropWhile_less [termination_simp]: "length (dropWhile P s) < Suc (length s)"
  by (simp add: length_dropWhile_le le_imp_less_Suc)

text \<open>\<open>re.sub("[...]+", "_", value)\<close> for a character class.\<close>

fun sub_runs :: "(char \<Rightarrow> bool) \<Rightarrow> string \<Rightarrow> string" where
  "sub_runs P [] = []"
| "sub_runs P (c # s) = (if P c then CHR ''_'' # sub_runs P (dropWhile P s) else c # sub_runs P s)"

text \<open>\<open>value.strip("_")\<close> and \<open>value.split("_")\<close>.\<close>

definition strip_bars :: "string \<Rightarrow> string" where
  "strip_bars s = rev (dropWhile (\<lambda>c. c = CHR ''_'') (rev (dropWhile (\<lambda>c. c = CHR ''_'') s)))"

fun split_bars :: "string \<Rightarrow> string list" where
  "split_bars [] = [[]]"
| "split_bars (c # s) = (if c = CHR ''_'' then [] # split_bars s
     else (case split_bars s of [] \<Rightarrow> [[c]] | w # ws \<Rightarrow> (c # w) # ws))"

definition normalize_authority_action :: "string \<Rightarrow> string" where
  "normalize_authority_action v =
     sub_runs (\<lambda>c. c = CHR ''_'') (lower (strip_bars (sub_runs (\<lambda>c. \<not> ascii_alnum c) (camel_breaks (strip v)))))"

section \<open>The denylist\<close>

definition forbidden_capability_actions :: "string list" where
  "forbidden_capability_actions = [''submit_order'', ''change_risk_limit'', ''live_deploy'']"

definition singular :: "string \<Rightarrow> string" where
  "singular t = (if t \<noteq> [] \<and> last t = CHR ''s'' then butlast t else t)"

definition touches :: "string list \<Rightarrow> string list \<Rightarrow> bool" where
  "touches ts ws = list_ex (\<lambda>t. t \<in> set ws) ts"

definition read_words :: "string list" where
  "read_words = [''read'', ''list'', ''query'', ''history'', ''status'']"

definition order_write_verbs :: "string list" where
  "order_write_verbs = [''amend'', ''cancel'', ''create'', ''delete'', ''execute'', ''place'', ''send'', ''submit'', ''write'']"

definition risk_write_verbs :: "string list" where
  "risk_write_verbs = [''change'', ''disable'', ''increase'', ''modify'', ''override'', ''relax'', ''set'', ''write'']"

definition risk_nouns :: "string list" where
  "risk_nouns = [''risk'', ''limit'', ''exposure'', ''leverage'', ''position'', ''margin'']"

definition is_forbidden_authority_action :: "string \<Rightarrow> bool" where
  "is_forbidden_authority_action v = (let normalized = normalize_authority_action v in
     if normalized = [] then False
     else if normalized \<in> set forbidden_capability_actions then True
     else let tokens = split_bars normalized; singular_tokens = map singular tokens in
       if touches tokens [''submitorder'', ''change_risk_limit'', ''livedeploy''] then True
       else if set [''live'', ''deploy''] \<subseteq> set tokens \<or> set [''production'', ''deploy''] \<subseteq> set tokens then True
       else if (''broker'' \<in> set singular_tokens \<or> ''exchange'' \<in> set singular_tokens \<or> ''venue'' \<in> set singular_tokens)
               \<and> touches tokens [''credential'', ''secret'', ''key'', ''token''] then True
       else if touches singular_tokens [''order''] \<and> \<not> touches tokens read_words then True
       else if touches singular_tokens [''order'', ''trade''] \<and> touches tokens order_write_verbs then True
       else if touches tokens [''execute'', ''place'', ''submit'', ''send'', ''trade''] \<and> \<not> touches tokens read_words then True
       else touches tokens risk_nouns \<and> touches tokens risk_write_verbs)"

section \<open>The words of a name\<close>

fun segments :: "string \<Rightarrow> string list" where
  "segments [] = [[]]"
| "segments (c # s) = (if \<not> ascii_alnum c then [] # segments s
     else if ascii_low_digit c \<and> s \<noteq> [] \<and> ascii_upper (hd s) then [c] # segments s
     else (case segments s of [] \<Rightarrow> [[c]] | w # ws \<Rightarrow> (c # w) # ws))"

definition action_words :: "string \<Rightarrow> string list" where
  "action_words v = map lower (filter (\<lambda>w. w \<noteq> []) (segments v))"

text \<open>What the words ask for.\<close>

definition forbidden_words :: "string set \<Rightarrow> bool" where
  "forbidden_words W \<longleftrightarrow>
     W \<inter> {''submitorder'', ''livedeploy''} \<noteq> {}
   \<or> ''deploy'' \<in> W \<and> W \<inter> {''live'', ''production''} \<noteq> {}
   \<or> singular ` W \<inter> {''broker'', ''exchange'', ''venue''} \<noteq> {} \<and> W \<inter> {''credential'', ''secret'', ''key'', ''token''} \<noteq> {}
   \<or> ''order'' \<in> singular ` W \<and> W \<inter> set read_words = {}
   \<or> singular ` W \<inter> {''order'', ''trade''} \<noteq> {} \<and> W \<inter> set order_write_verbs \<noteq> {}
   \<or> W \<inter> {''execute'', ''place'', ''submit'', ''send'', ''trade''} \<noteq> {} \<and> W \<inter> set read_words = {}
   \<or> W \<inter> set risk_nouns \<noteq> {} \<and> W \<inter> set risk_write_verbs \<noteq> {}"

fun join_bars :: "string list \<Rightarrow> string" where
  "join_bars [] = []"
| "join_bars [w] = w"
| "join_bars (w # ws) = w @ CHR ''_'' # join_bars ws"

lemma ascii_upper_alnum [simp]: "ascii_upper c \<Longrightarrow> ascii_alnum c" "ascii_low_digit c \<Longrightarrow> ascii_alnum c"
  by (simp_all add: ascii_alnum_def)

lemma bar_not_alnum [simp]: "\<not> ascii_alnum (CHR ''_'')" "\<not> ascii_upper (CHR ''_'')" "\<not> ascii_low_digit (CHR ''_'')"
  by (simp_all add: ascii_alnum_def ascii_upper_def ascii_low_digit_def)


text \<open>Cutting a text at the characters of a class; empty pieces are kept.\<close>

fun cut :: "(char \<Rightarrow> bool) \<Rightarrow> string \<Rightarrow> string list" where
  "cut P [] = [[]]"
| "cut P (c # s) = (if P c then [] # cut P s else (case cut P s of [] \<Rightarrow> [[c]] | w # ws \<Rightarrow> (c # w) # ws))"

abbreviation nonempty :: "string list \<Rightarrow> string list" where
  "nonempty \<equiv> filter (\<lambda>w. w \<noteq> [])"

lemma cut_not_Nil [simp]: "cut P s \<noteq> []"
  by (cases s) (auto split: list.splits)

lemma segments_cut: "segments s = cut (\<lambda>c. \<not> ascii_alnum c) (camel_breaks s)"
  by (induction s rule: camel_breaks.induct) (auto split: list.splits)

lemma split_bars_cut: "split_bars s = cut (\<lambda>c. c = CHR ''_'') s"
  by (induction s) auto

lemma cut_dropWhile: "nonempty (cut P (dropWhile P s)) = nonempty (cut P s)"
  by (induction s) auto

lemma cut_all: "nonempty (cut P s) = [] \<longleftrightarrow> (\<forall>c \<in> set s. P c)"
  by (induction s) (auto split: list.splits if_splits)

lemma cut_pieces: "w \<in> set (cut P s) \<Longrightarrow> c \<in> set w \<Longrightarrow> \<not> P c"
  by (induction s arbitrary: w) (fastforce split: list.splits if_splits)+


lemma cut_plain: "\<forall>c \<in> set w. \<not> P c \<Longrightarrow> cut P (w @ s) = (w @ hd (cut P s)) # tl (cut P s)"
  by (induction w) (auto split: list.splits)

lemma cut_word: "\<forall>c \<in> set w. \<not> P c \<Longrightarrow> P b \<Longrightarrow> cut P (w @ b # s) = w # cut P s"
  by (simp add: cut_plain)

lemma segments_not_Nil [simp]: "segments s \<noteq> []"
  by (simp add: segments_cut)

lemma space_not_alnum: "is_space c \<Longrightarrow> \<not> ascii_alnum c"
  by (auto simp: is_space_def ascii_alnum_def ascii_upper_def ascii_low_digit_def Let_def)

lemma segments_snoc: "\<not> ascii_alnum c \<Longrightarrow> segments (s @ [c]) = segments s @ [[]]"
proof (induction s)
  case (Cons d s)
  moreover have "\<not> ascii_upper c" using Cons.prems by (auto simp: ascii_alnum_def)
  moreover obtain w ws where "segments s = w # ws" using segments_not_Nil by (meson list.exhaust)
  ultimately show ?case by (auto simp: hd_append)
qed simp

lemma nonempty_segments_drop: "nonempty (segments (dropWhile is_space s)) = nonempty (segments s)"
  by (induction s) (auto dest: space_not_alnum)

lemma nonempty_segments_tail: "nonempty (segments (rev (dropWhile is_space (rev s)))) = nonempty (segments s)"
  by (induction s rule: rev_induct) (auto simp: segments_snoc dest: space_not_alnum)

lemma nonempty_segments_strip: "nonempty (segments (strip v)) = nonempty (segments v)"
  by (simp add: strip_def nonempty_segments_tail nonempty_segments_drop)

subsection \<open>What one substitution pass leaves\<close>

definition bar_if :: "bool \<Rightarrow> string" where
  "bar_if b = (if b then [CHR ''_''] else [])"

lemma join_bars_Cons: "join_bars (w # ws) = (if ws = [] then w else w @ CHR ''_'' # join_bars ws)"
  by (cases ws) auto

lemma join_bars_Nil_iff: "\<forall>w \<in> set ws. w \<noteq> [] \<Longrightarrow> join_bars ws = [] \<longleftrightarrow> ws = []"
  by (cases ws) (auto simp: join_bars_Cons)

lemma sub_runs_eq:
  "sub_runs P s = bar_if (s \<noteq> [] \<and> P (hd s)) @ join_bars (nonempty (cut P s)) @
     bar_if (nonempty (cut P s) \<noteq> [] \<and> P (last s))"
proof (induction P s rule: sub_runs.induct)
  case (2 P c s)
  show ?case
  proof (cases "P c")
    case True
    let ?t = "dropWhile P s"
    let ?ne = "nonempty (cut P s)"
    have "sub_runs P ?t = bar_if (?t \<noteq> [] \<and> P (hd ?t)) @ join_bars ?ne @ bar_if (?ne \<noteq> [] \<and> P (last ?t))"
      using 2 True by (simp add: cut_dropWhile)
    moreover have "bar_if (?t \<noteq> [] \<and> P (hd ?t)) = []" using dropWhile_hd [of P s] by (auto simp: bar_if_def)
    moreover have "s \<noteq> [] \<and> last s = last ?t" if "?ne \<noteq> []"
    proof -
      have "nonempty (cut P ?t) \<noteq> []" using that by (simp only: cut_dropWhile) simp
      then have "?t \<noteq> []" by (cases ?t) (simp_all del: dropWhile_eq_Nil_conv)
      then show ?thesis by (metis last_appendR takeWhile_dropWhile_id append_is_Nil_conv)
    qed
    ultimately have rest: "sub_runs P ?t = join_bars ?ne @ bar_if (?ne \<noteq> [] \<and> P (last (c # s)))"
      by (cases "?ne = []") (simp_all only: last.simps, simp_all)
    have "nonempty (cut P (c # s)) = ?ne" using True by simp
    then show ?thesis
      unfolding sub_runs.simps rest using True by (simp add: bar_if_def)
  next
    case False
    obtain w ws where cut: "cut P s = w # ws" by (cases "cut P s") auto
    have head: "w = [] \<longleftrightarrow> s = [] \<or> P (hd s)"
      using cut by (cases s) (auto split: if_splits list.splits)
    have "w = [] \<Longrightarrow> nonempty ws = [] \<Longrightarrow> \<forall>x \<in> set s. P x"
      using cut cut_all [of P s] by auto
    then have "w = [] \<Longrightarrow> nonempty ws = [] \<Longrightarrow> s \<noteq> [] \<Longrightarrow> P (last s)" by auto
    moreover have "s = [] \<Longrightarrow> w = [] \<and> ws = []" using cut by auto
    ultimately show ?thesis using 2 False head cut by (auto simp: bar_if_def join_bars_Cons)
  qed
qed (simp add: bar_if_def)

lemma join_bars_ends:
  assumes "ws \<noteq> []" "\<forall>w \<in> set ws. w \<noteq> [] \<and> CHR ''_'' \<notin> set w"
  shows "join_bars ws \<noteq> [] \<and> hd (join_bars ws) \<noteq> CHR ''_'' \<and> last (join_bars ws) \<noteq> CHR ''_''"
  using assms
proof (induction ws)
  case (Cons w ws)
  then show ?case
    by (cases "ws = []") (auto simp: join_bars_Cons hd_append in_set_conv_decomp [of "hd w" w]
        dest: hd_in_set last_in_set)
qed simp

lemma strip_bars_mid:
  assumes "t = [] \<or> hd t \<noteq> CHR ''_'' \<and> last t \<noteq> CHR ''_''" "t = [] \<Longrightarrow> \<not> b"
  shows "strip_bars (bar_if a @ t @ bar_if b) = t"
proof (cases "t = []")
  case False
  then have "dropWhile (\<lambda>c. c = CHR ''_'') (t @ x) = t @ x" "dropWhile (\<lambda>c. c = CHR ''_'') (rev t) = rev t" for x
    using assms(1) by (auto intro!: dropWhile_id simp: hd_rev)
  then show ?thesis by (auto simp: strip_bars_def bar_if_def)
qed (use assms(2) in \<open>auto simp: strip_bars_def bar_if_def\<close>)

lemma split_join_bars:
  "ws \<noteq> [] \<Longrightarrow> \<forall>w \<in> set ws. CHR ''_'' \<notin> set w \<Longrightarrow> split_bars (join_bars ws) = ws"
  unfolding split_bars_cut
proof (induction ws)
  case (Cons w ws)
  then show ?case
    using cut_plain [of w "\<lambda>c. c = CHR ''_''" "[]"] cut_word [of w "\<lambda>c. c = CHR ''_''" "CHR ''_''" "join_bars ws"]
    by (cases "ws = []") (auto simp: join_bars_Cons)
qed simp

lemma collapse_join_bars:
  assumes "\<forall>w \<in> set ws. w \<noteq> [] \<and> CHR ''_'' \<notin> set w"
  shows "sub_runs (\<lambda>c. c = CHR ''_'') (join_bars ws) = join_bars ws"
proof (cases "ws = []")
  case False
  have "nonempty ws = ws" using assms by (simp add: filter_id_conv)
  then show ?thesis
    using False join_bars_ends [OF False assms] split_join_bars [OF False] assms
    by (simp add: sub_runs_eq split_bars_cut [symmetric] bar_if_def)
qed simp


subsection \<open>The words of a normal form\<close>

lemma lower_char_bar: "lower_char c = CHR ''_'' \<longleftrightarrow> c = CHR ''_''" if "ascii_alnum c \<or> c = CHR ''_''"
  using that by (auto simp: lower_char_def is_upper_def ascii_alnum_def ascii_upper_def ascii_low_digit_def Let_def
      dest!: arg_cong [of _ _ "of_char :: char \<Rightarrow> nat"])

lemma lower_char_plain: "ascii_alnum c \<Longrightarrow> ascii_low_digit (lower_char c)"
  by (auto simp: lower_char_def is_upper_def ascii_alnum_def ascii_upper_def ascii_low_digit_def Let_def)

lemma lower_join: "lower (join_bars ws) = join_bars (map lower ws)"
  by (induction ws) (simp_all add: join_bars_Cons lower_def lower_char_bar)

lemma segments_alnum: "w \<in> set (segments v) \<Longrightarrow> c \<in> set w \<Longrightarrow> ascii_alnum c"
  using cut_pieces unfolding segments_cut by blast

definition plain_word :: "string \<Rightarrow> bool" where
  "plain_word w \<longleftrightarrow> w \<noteq> [] \<and> (\<forall>c \<in> set w. ascii_low_digit c)"

lemma plain_word_bar: "plain_word w \<Longrightarrow> w \<noteq> [] \<and> CHR ''_'' \<notin> set w"
  by (auto simp: plain_word_def)

lemma action_words_plain: "w \<in> set (action_words v) \<Longrightarrow> plain_word w"
  using segments_alnum lower_char_plain by (fastforce simp: action_words_def plain_word_def lower_def)

lemma normalize_words: "normalize_authority_action v = join_bars (action_words v)"
proof -
  let ?ws = "nonempty (segments v)"
  have pieces: "\<forall>w \<in> set ?ws. w \<noteq> [] \<and> CHR ''_'' \<notin> set w"
    using segments_alnum bar_not_alnum(1) by fastforce
  have mid: "join_bars ?ws = [] \<or> hd (join_bars ?ws) \<noteq> CHR ''_'' \<and> last (join_bars ?ws) \<noteq> CHR ''_''"
    using join_bars_ends [OF _ pieces] by (cases "?ws = []") auto
  have "join_bars ?ws = [] \<longleftrightarrow> ?ws = []" using pieces by (intro join_bars_Nil_iff) blast
  then have strip: "strip_bars (bar_if a @ join_bars ?ws @ bar_if (?ws \<noteq> [] \<and> q)) = join_bars ?ws" for a q
    by (intro strip_bars_mid [OF mid]) (simp del: filter_empty_conv)
  have cuts: "nonempty (cut (\<lambda>c. \<not> ascii_alnum c) (camel_breaks (strip v))) = ?ws"
    unfolding segments_cut [symmetric] by (rule nonempty_segments_strip)
  have "strip_bars (sub_runs (\<lambda>c. \<not> ascii_alnum c) (camel_breaks (strip v))) = join_bars ?ws"
    unfolding sub_runs_eq cuts by (rule strip)
  moreover have "map lower ?ws = action_words v" by (simp add: action_words_def)
  moreover have "\<forall>w \<in> set (action_words v). w \<noteq> [] \<and> CHR ''_'' \<notin> set w"
    using action_words_plain plain_word_bar by blast
  ultimately show ?thesis
    by (simp add: normalize_authority_action_def lower_join collapse_join_bars)
qed

lemma segments_plain: "\<forall>c \<in> set s. ascii_low_digit c \<or> c = CHR ''_'' \<Longrightarrow> segments s = split_bars s"
proof (induction s)
  case (Cons c s)
  have "s \<noteq> [] \<Longrightarrow> \<not> ascii_upper (hd s)"
    using Cons.prems by (cases s) (auto simp: ascii_upper_def ascii_low_digit_def Let_def)
  then show ?case using Cons by auto
qed simp

lemma words_normalize: "action_words (normalize_authority_action v) = action_words v"
proof (cases "action_words v = []")
  case False
  have plain: "\<forall>w \<in> set (action_words v). plain_word w" using action_words_plain by blast
  have "\<forall>c \<in> set (join_bars ws). ascii_low_digit c \<or> c = CHR ''_''" if "\<forall>w \<in> set ws. plain_word w" for ws
    using that by (induction ws) (auto simp: join_bars_Cons plain_word_def)
  then have "segments (normalize_authority_action v) = action_words v"
    using plain False plain_word_bar by (simp add: normalize_words segments_plain split_join_bars)
  moreover have "lower w = w" if "plain_word w" for w
    using that by (auto simp: plain_word_def lower_def lower_char_def is_upper_def ascii_low_digit_def Let_def
        intro!: map_idI)
  ultimately show ?thesis
    using plain by (auto simp: action_words_def [of "normalize_authority_action v"] plain_word_def filter_id_conv
        intro!: map_idI)
qed (simp add: normalize_words action_words_def)

lemma touches_iff: "touches ts ws \<longleftrightarrow> set ts \<inter> set ws \<noteq> {}"
  by (auto simp: touches_def list_ex_iff)

lemma bar_word_not_plain: "\<not> plain_word (a @ CHR ''_'' # b)"
  by (auto simp: plain_word_def)

lemma forbidden_eq: "is_forbidden_authority_action v = forbidden_words (set (action_words v))"
proof (cases "action_words v = []")
  case True
  then show ?thesis by (simp add: is_forbidden_authority_action_def normalize_words forbidden_words_def)
next
  case False
  let ?ws = "action_words v"
  have plain: "\<forall>w \<in> set ?ws. plain_word w" using action_words_plain by blast
  then have tokens: "split_bars (join_bars ?ws) = ?ws" "join_bars ?ws \<noteq> []"
    using False plain_word_bar by (auto simp: split_join_bars join_bars_Nil_iff)
  have denied: "join_bars ?ws \<in> set forbidden_capability_actions \<Longrightarrow>
      ?ws \<in> {[''submit'', ''order''], [''change'', ''risk'', ''limit''], [''live'', ''deploy'']}"
    using tokens(1) by (auto simp: forbidden_capability_actions_def)
  have "forbidden_words (set ws)"
    if "ws \<in> {[''submit'', ''order''], [''change'', ''risk'', ''limit''], [''live'', ''deploy'']}" for ws
    using that by (elim insertE emptyE)
      (simp_all add: forbidden_words_def read_words_def singular_def risk_nouns_def risk_write_verbs_def)
  then have named: "forbidden_words (set ?ws)" if "join_bars ?ws \<in> set forbidden_capability_actions"
    using denied [OF that] by blast
  have "''change_risk_limit'' \<notin> set ?ws"
    using plain by (auto simp: plain_word_def ascii_low_digit_def)
  then have compounds: "set ?ws \<inter> set [''submitorder'', ''change_risk_limit'', ''livedeploy''] \<noteq> {} \<longleftrightarrow>
      set ?ws \<inter> {''submitorder'', ''livedeploy''} \<noteq> {}"
    by auto
  have deploys: "set [''live'', ''deploy''] \<subseteq> W \<or> set [''production'', ''deploy''] \<subseteq> W \<longleftrightarrow>
      ''deploy'' \<in> W \<and> W \<inter> {''live'', ''production''} \<noteq> {}" for W
    by auto
  have venues: "''broker'' \<in> V \<or> ''exchange'' \<in> V \<or> ''venue'' \<in> V \<longleftrightarrow> V \<inter> {''broker'', ''exchange'', ''venue''} \<noteq> {}"
    "V \<inter> set [''order''] \<noteq> {} \<longleftrightarrow> ''order'' \<in> V" for V
    by auto
  show ?thesis
  proof (cases "join_bars ?ws \<in> set forbidden_capability_actions")
    case True
    then show ?thesis
      using named by (simp add: is_forbidden_authority_action_def normalize_words tokens(2))
  next
    case False
    then show ?thesis
      unfolding is_forbidden_authority_action_def normalize_words Let_def tokens(1) touches_iff forbidden_words_def
        compounds deploys venues set_map
      by (simp only: tokens(2) if_False list.set not_not) argo
  qed
qed

lemma forbidden_normalize [simp]:
  "is_forbidden_authority_action (normalize_authority_action v) = is_forbidden_authority_action v"
  by (simp add: forbidden_eq words_normalize)

lemma normalize_strip [simp]: "normalize_authority_action (strip v) = normalize_authority_action v"
  by (simp add: normalize_authority_action_def)

lemma forbidden_strip [simp]: "is_forbidden_authority_action (strip v) = is_forbidden_authority_action v"
  using forbidden_normalize [of "strip v"] by simp

section \<open>The check depends on the words only\<close>

text \<open>C31: The normal form of an action name is its words, cut at every character that is not a letter or
  digit and at every camel-case step, in lower case and joined by underscores, and the boundary check is
  a condition on the set of those words: the spelling, the order of the words and their repetition do
  not matter, the list of denied names adds nothing to the conditions on words, and a caller that
  normalises a name first (the broker, the foundry, the ports) asks the same question.\<close>

theorem authority_check_by_words:
  "normalize_authority_action v = join_bars (action_words v) \<and>
   is_forbidden_authority_action v = forbidden_words (set (action_words v)) \<and>
   normalize_authority_action (normalize_authority_action v) = normalize_authority_action v \<and>
   is_forbidden_authority_action (normalize_authority_action v) = is_forbidden_authority_action v"
  by (simp add: forbidden_eq words_normalize) (simp add: normalize_words words_normalize [unfolded normalize_words])

text \<open>
  The comment in \<open>normalize_authority_action\<close> says that plural resource names are normalised. Only the
  words \<open>order\<close>, \<open>trade\<close>, \<open>broker\<close>, \<open>exchange\<close> and \<open>venue\<close> are matched in the singular: the plural of a
  secret or of a risk noun passes the check.
\<close>

lemma plural_nouns_pass:
  "is_forbidden_authority_action ''readExchangeSecret'' \<and> \<not> is_forbidden_authority_action ''readExchangeSecrets''"
  "is_forbidden_authority_action ''increase.position'' \<and> \<not> is_forbidden_authority_action ''increase.positions''"
  "is_forbidden_authority_action ''set_limit'' \<and> \<not> is_forbidden_authority_action ''set_limits''"
  by code_simp+

lemma spellings_agree:
  "action_words ''submitOrder'' = [''submit'', ''order'']"
  "action_words '' orders/submit.v2 '' = [''orders'', ''submit'', ''v2'']"
  "is_forbidden_authority_action ''submitOrders''" "\<not> is_forbidden_authority_action ''list_orders''"
  by code_simp+

end
