(* ===== verification/Research_Artifacts.thy ===== *)
theory Research_Artifacts
  imports Authority
begin

text \<open>
  The artifacts of research and operation in \<open>src/advisorai/contracts/core.py\<close>: observations, snapshots,
  evidence, forecasts, attributions, model cards, agent runs and capability cards, each a record with the
  validation of its class.  As in \<open>Contracts\<close>, a constructor takes the values a caller passes and applies
  the field validators and then the model validator; text is stripped before its length is checked.
\<close>

section \<open>More field validators\<close>

definition field_min :: "nat \<Rightarrow> string \<Rightarrow> string res" where
  "field_min n v = (if length (strip v) < n then Inl (ValidationError ''too short'') else Inr (strip v))"

definition field_nat :: "int \<Rightarrow> nat res" where
  "field_nat v = (if v < 0 then Inl (ValidationError ''must not be negative'') else Inr (nat v))"

definition optional_nat :: "int option \<Rightarrow> nat option res" where
  "optional_nat v = (case v of None \<Rightarrow> Inr None | Some n \<Rightarrow> rbind (field_nat n) (Inr \<circ> Some))"

definition optional_ge0 :: "raw_dec option \<Rightarrow> dec option res" where
  "optional_ge0 v = (case v of None \<Rightarrow> Inr None | Some a \<Rightarrow> rbind (field_ge0 a) (Inr \<circ> Some))"

lemma field_min_Inr: "field_min n v = Inr w \<longleftrightarrow> w = strip v \<and> n \<le> length (strip v)"
  by (auto simp: field_min_def)

lemma optional_aware_Inr: "optional_aware t = Inr u \<longleftrightarrow>
    t = None \<and> u = None \<or> (\<exists>x off. t = Some (Aware x off) \<and> u = Some x)"
  by (cases t) (auto simp: optional_aware_def rbind_eq_Inr require_aware_Inr)

section \<open>Observations and snapshots\<close>

record observation = artifact +
  ob_instrument :: instrument
  ob_entity_id :: "string option"
  ob_event_time :: "utc option"
  ob_effective_time :: "utc option"
  ob_published_at :: "utc option"
  ob_first_available_at :: utc
  ob_ingested_at :: utc
  ob_source_revision :: "string option"
  ob_supersedes :: "uuid option"
  ob_raw_hash :: string
  ob_parser_version :: string
  ob_source_family :: string
  ob_origin :: string
  ob_syndication :: "string list"
  ob_grade :: source_grade
  ob_delay_seconds :: "nat option"
  ob_intended_use :: string
  ob_value :: string

definition mk_observation ::
  "uuid \<Rightarrow> pydatetime \<Rightarrow> instrument \<Rightarrow> string option \<Rightarrow> pydatetime option \<Rightarrow> pydatetime option \<Rightarrow> pydatetime option \<Rightarrow>
   pydatetime \<Rightarrow> pydatetime \<Rightarrow> string option \<Rightarrow> uuid option \<Rightarrow> string \<Rightarrow> string \<Rightarrow> string \<Rightarrow> string \<Rightarrow> string list \<Rightarrow>
   source_grade \<Rightarrow> int option \<Rightarrow> string \<Rightarrow> string \<Rightarrow> observation res" where
  "mk_observation aid created inst entity event effective published available ingested revision supersedes raw_hash
     parser family origin chain grade delay intended v =
     rbind (require_aware created) (\<lambda>ca. rbind (optional_aware event) (\<lambda>ev. rbind (optional_aware effective) (\<lambda>ef.
     rbind (optional_aware published) (\<lambda>pb. rbind (require_aware available) (\<lambda>av. rbind (require_aware ingested) (\<lambda>ig.
     rbind (require_digest (strip raw_hash)) (\<lambda>rh. rbind (field_min1 parser) (\<lambda>pv. rbind (field_min1 family) (\<lambda>sf.
     rbind (field_min1 origin) (\<lambda>og. rbind (optional_nat delay) (\<lambda>dl. rbind (field_min1 intended) (\<lambda>iu.
     rbind (field_min1 v) (\<lambda>vl.
     rbind (check (opt_all (\<lambda>p. p \<le> av) pb) ''first_available_at cannot precede source_published_at'') (\<lambda>_.
     rbind (check (av \<le> ig) ''ingested_at cannot precede first_available_at'') (\<lambda>_.
     rbind (check (opt_all (\<lambda>e. e \<le> ig) ev) ''event_time cannot be after ingestion'') (\<lambda>_.
     rbind (check (opt_all (\<lambda>e. e \<le> ig) ef) ''effective_time cannot be after ingestion'') (\<lambda>_.
     rbind (check (supersedes \<noteq> Some aid) ''an observation cannot supersede itself'') (\<lambda>_.
     rbind (check (distinct (map strip chain)) ''syndication chain entries must be unique'') (\<lambda>_.
       Inr \<lparr>artifact_id = aid, created_at = ca, ob_instrument = inst, ob_entity_id = map_option strip entity,
            ob_event_time = ev, ob_effective_time = ef, ob_published_at = pb, ob_first_available_at = av,
            ob_ingested_at = ig, ob_source_revision = map_option strip revision, ob_supersedes = supersedes,
            ob_raw_hash = rh, ob_parser_version = pv, ob_source_family = sf, ob_origin = og,
            ob_syndication = map strip chain, ob_grade = grade, ob_delay_seconds = dl, ob_intended_use = iu,
            ob_value = vl\<rparr>)))))))))))))))))))"

record data_snapshot = artifact +
  ds_as_of :: utc
  ds_purpose :: string
  ds_observation_ids :: "uuid list"
  ds_references :: "artifact_reference list"
  ds_quality :: string

definition mk_data_snapshot ::
  "uuid \<Rightarrow> pydatetime \<Rightarrow> pydatetime \<Rightarrow> string \<Rightarrow> uuid list \<Rightarrow> artifact_reference list \<Rightarrow> string \<Rightarrow> data_snapshot res" where
  "mk_data_snapshot aid created as_of purpose observations refs quality =
     rbind (require_aware created) (\<lambda>ca. rbind (require_aware as_of) (\<lambda>t. rbind (field_min1 purpose) (\<lambda>p.
     rbind (check (distinct observations) ''snapshot observation IDs must be unique'') (\<lambda>_.
     rbind (check (\<not> blank p \<and> \<not> blank quality) ''snapshot purpose and data quality state are required'') (\<lambda>_.
     rbind (check (list_all (\<lambda>r. ref_first_available_at r \<le> t) refs) ''snapshot contains artifacts unavailable as_of'') (\<lambda>_.
       Inr \<lparr>artifact_id = aid, created_at = ca, ds_as_of = t, ds_purpose = p, ds_observation_ids = observations,
            ds_references = refs, ds_quality = strip quality\<rparr>))))))"

section \<open>Evidence and forecasts\<close>

record evidence = artifact +
  ve_claim :: string
  ve_supports :: "bool option"
  ve_source_ids :: "uuid list"
  ve_source_family :: string
  ve_origin :: string
  ve_syndication :: "string list"
  ve_observed_at :: utc
  ve_first_available_at :: utc
  ve_lineage :: "string list"
  ve_model_version :: "string option"
  ve_provider_route :: "string option"
  ve_prompt_version :: "string option"
  ve_capability_version :: "string option"
  ve_assumptions :: "string list"
  ve_uncertainty :: dec
  ve_expires_at :: utc
  ve_invalidation :: "string list"

definition mk_evidence ::
  "uuid \<Rightarrow> pydatetime \<Rightarrow> string \<Rightarrow> bool option \<Rightarrow> uuid list \<Rightarrow> string \<Rightarrow> string \<Rightarrow> string list \<Rightarrow> pydatetime \<Rightarrow> pydatetime \<Rightarrow>
   string list \<Rightarrow> string option \<Rightarrow> string option \<Rightarrow> string option \<Rightarrow> string option \<Rightarrow> string list \<Rightarrow> raw_dec \<Rightarrow> pydatetime \<Rightarrow>
   string list \<Rightarrow> evidence res" where
  "mk_evidence aid created claim supports sources family origin chain observed available lineage model route prompt
     capability assumptions uncertainty expires invalidation =
     rbind (require_aware created) (\<lambda>ca. rbind (field_min1 claim) (\<lambda>cl. rbind (field_min1 family) (\<lambda>sf.
     rbind (field_min1 origin) (\<lambda>og. rbind (require_aware observed) (\<lambda>ob. rbind (require_aware available) (\<lambda>av.
     rbind (field_unit uncertainty) (\<lambda>u. rbind (require_aware expires) (\<lambda>ex.
     rbind (check (ob \<le> av) ''first_available_at cannot precede observed_at'') (\<lambda>_.
     rbind (check (av < ex) ''expires_at must be after first_available_at'') (\<lambda>_.
     rbind (check (distinct sources) ''evidence source artifact IDs must be unique'') (\<lambda>_.
     rbind (check (distinct (map strip chain)) ''evidence syndication chain entries must be unique'') (\<lambda>_.
       Inr \<lparr>artifact_id = aid, created_at = ca, ve_claim = cl, ve_supports = supports, ve_source_ids = sources,
            ve_source_family = sf, ve_origin = og, ve_syndication = map strip chain, ve_observed_at = ob,
            ve_first_available_at = av, ve_lineage = map strip lineage, ve_model_version = map_option strip model,
            ve_provider_route = map_option strip route, ve_prompt_version = map_option strip prompt,
            ve_capability_version = map_option strip capability, ve_assumptions = map strip assumptions,
            ve_uncertainty = u, ve_expires_at = ex, ve_invalidation = map strip invalidation\<rparr>))))))))))))"

record forecast = artifact +
  fc_instrument :: instrument
  fc_snapshot_id :: uuid
  fc_cutoff :: utc
  fc_horizon_seconds :: nat
  fc_target :: string
  fc_point :: "dec option"
  fc_quantiles :: "(dec \<times> dec) list"
  fc_distribution :: "string option"
  fc_confidence :: dec
  fc_abstained :: bool
  fc_abstention_reason :: "string option"
  fc_model_version :: string
  fc_data_hash :: string
  fc_feature_hash :: string
  fc_code_hash :: string
  fc_calibration :: string
  fc_training_cutoff :: utc
  fc_support_limits :: "string list"
  fc_failure_regimes :: "string list"
  fc_latency_ms :: nat
  fc_peak_ram :: nat
  fc_peak_vram :: nat

definition forecast_distribution :: "string option \<Rightarrow> string option res" where
  "forecast_distribution d = (case d of None \<Rightarrow> Inr None
     | Some v \<Rightarrow> if blank v then Inl (ValidationError ''forecast distribution cannot be blank'') else Inr (Some (strip v)))"

definition finite_pair :: "raw_dec \<times> raw_dec \<Rightarrow> (dec \<times> dec) res" where
  "finite_pair q = rbind (require_finite_decimal (fst q)) (\<lambda>p. rbind (require_finite_decimal (snd q)) (\<lambda>v. Inr (p, v)))"

fun finite_pairs :: "(raw_dec \<times> raw_dec) list \<Rightarrow> (dec \<times> dec) list res" where
  "finite_pairs [] = Inr []"
| "finite_pairs (q # qs) = rbind (finite_pair q) (\<lambda>p. rbind (finite_pairs qs) (\<lambda>ps. Inr (p # ps)))"

text \<open>
  The source sorts the probabilities and compares, and then compares the number of distinct values:
  together, each probability is below the next.
\<close>

fun strictly_ordered :: "dec list \<Rightarrow> bool" where
  "strictly_ordered (p # q # ps) = (dlt p q \<and> strictly_ordered (q # ps))"
| "strictly_ordered _ = True"

definition mk_forecast ::
  "uuid \<Rightarrow> pydatetime \<Rightarrow> instrument \<Rightarrow> uuid \<Rightarrow> pydatetime \<Rightarrow> int \<Rightarrow> string \<Rightarrow> raw_dec option \<Rightarrow> (raw_dec \<times> raw_dec) list \<Rightarrow>
   string option \<Rightarrow> raw_dec \<Rightarrow> bool \<Rightarrow> string option \<Rightarrow> string \<Rightarrow> string \<Rightarrow> string \<Rightarrow> string \<Rightarrow> string \<Rightarrow> pydatetime \<Rightarrow>
   string list \<Rightarrow> string list \<Rightarrow> int \<Rightarrow> int \<Rightarrow> int \<Rightarrow> forecast res" where
  "mk_forecast aid created inst snap cutoff horizon target point quantiles distribution confidence abstained reason
     model data_hash feature_hash code_hash calibration training limits regimes latency ram vram =
     rbind (require_aware created) (\<lambda>ca. rbind (require_aware cutoff) (\<lambda>co.
     rbind (check (0 < horizon) ''must be greater than zero'') (\<lambda>_. rbind (field_min1 target) (\<lambda>tg.
     rbind (optional_finite_decimal point) (\<lambda>pf. rbind (finite_pairs quantiles) (\<lambda>qs.
     rbind (forecast_distribution distribution) (\<lambda>dist. rbind (field_unit confidence) (\<lambda>cf.
     rbind (field_min1 model) (\<lambda>mv. rbind (require_digest (strip data_hash)) (\<lambda>dh.
     rbind (require_digest (strip feature_hash)) (\<lambda>fh. rbind (require_digest (strip code_hash)) (\<lambda>ch.
     rbind (field_min1 calibration) (\<lambda>cv. rbind (require_aware training) (\<lambda>tc. rbind (field_nat latency) (\<lambda>lat.
     rbind (field_nat ram) (\<lambda>rm. rbind (field_nat vram) (\<lambda>vm.
     let why = map_option strip reason in
     rbind (check (tc \<le> co) ''training_cutoff cannot be after forecast cutoff'') (\<lambda>_.
     rbind (check (\<not> (abstained \<and> (why = None \<or> why = Some []))) ''abstained forecasts require abstention_reason'') (\<lambda>_.
     rbind (check (\<not> (abstained \<and> (pf \<noteq> None \<or> qs \<noteq> [] \<or> dist \<noteq> None)))
              ''abstained forecasts cannot carry a forecast payload'') (\<lambda>_.
     rbind (check (\<not> (\<not> abstained \<and> pf = None \<and> qs = [] \<and> dist = None))
              ''forecast needs a point, quantile, or distribution payload unless abstained'') (\<lambda>_.
     rbind (check (list_all (\<lambda>(p, v). dle d0 p \<and> dle p d1) qs)
              ''forecast quantile probabilities must be between zero and one'') (\<lambda>_.
     rbind (check (strictly_ordered (map fst qs)) ''forecast quantile probabilities must be strictly ordered'') (\<lambda>_.
       Inr \<lparr>artifact_id = aid, created_at = ca, fc_instrument = inst, fc_snapshot_id = snap, fc_cutoff = co,
            fc_horizon_seconds = nat horizon, fc_target = tg, fc_point = pf, fc_quantiles = qs, fc_distribution = dist,
            fc_confidence = cf, fc_abstained = abstained, fc_abstention_reason = why, fc_model_version = mv,
            fc_data_hash = dh, fc_feature_hash = fh, fc_code_hash = ch, fc_calibration = cv, fc_training_cutoff = tc,
            fc_support_limits = map strip limits, fc_failure_regimes = map strip regimes, fc_latency_ms = lat,
            fc_peak_ram = rm, fc_peak_vram = vm\<rparr>)))))))))))))))))))))))"

section \<open>Attribution, model cards and agent runs\<close>

record attribution = artifact +
  at_reconciliation_id :: uuid
  at_data_forecast :: dec
  at_allocation_selection :: dec
  at_risk_overlay :: dec
  at_execution_financing :: dec
  at_regime_capacity :: dec
  at_unexplained_residual :: dec
  at_currency :: string
  at_total_pnl :: "dec option"

definition attribution_components :: "attribution \<Rightarrow> dec list" where
  "attribution_components a = [at_data_forecast a, at_allocation_selection a, at_risk_overlay a,
     at_execution_financing a, at_regime_capacity a, at_unexplained_residual a]"

definition mk_attribution ::
  "uuid \<Rightarrow> pydatetime \<Rightarrow> uuid \<Rightarrow> raw_dec \<Rightarrow> raw_dec \<Rightarrow> raw_dec \<Rightarrow> raw_dec \<Rightarrow> raw_dec \<Rightarrow> raw_dec \<Rightarrow> string \<Rightarrow> raw_dec option \<Rightarrow>
   attribution res" where
  "mk_attribution aid created recon forecast allocation overlay financing regime residual currency tot =
     rbind (require_aware created) (\<lambda>ca. rbind (require_finite_decimal forecast) (\<lambda>f.
     rbind (require_finite_decimal allocation) (\<lambda>al. rbind (require_finite_decimal overlay) (\<lambda>ov.
     rbind (require_finite_decimal financing) (\<lambda>fi. rbind (require_finite_decimal regime) (\<lambda>rg.
     rbind (require_finite_decimal residual) (\<lambda>rs.
     rbind (if blank currency then Inl (ValidationError ''attribution currency is required'')
            else Inr (upper_case (strip currency))) (\<lambda>cu.
     rbind (optional_finite_decimal tot) (\<lambda>tp.
     let a = \<lparr>artifact_id = aid, created_at = ca, at_reconciliation_id = recon, at_data_forecast = f,
            at_allocation_selection = al, at_risk_overlay = ov, at_execution_financing = fi, at_regime_capacity = rg,
            at_unexplained_residual = rs, at_currency = cu, at_total_pnl = tp\<rparr>
     in rbind (check (opt_all (\<lambda>x. deq x (dsum (attribution_components a))) tp)
            ''attribution total P&L must equal all components'') (\<lambda>_. Inr a))))))))))"

record model_card = artifact +
  mc_name :: string
  mc_version :: string
  mc_role :: string
  mc_data_hash :: string
  mc_code_hash :: string
  mc_training_cutoff :: utc
  mc_calibration_version :: "string option"
  mc_support_limits :: "string list"
  mc_failure_regimes :: "string list"
  mc_lifecycle :: string
  mc_family :: "string option"
  mc_independent_of :: "string list"
  mc_evaluation_hash :: "string option"
  mc_net_utility :: "dec option"
  mc_calibration_score :: "dec option"
  mc_resource_envelope :: "string option"

definition model_ancestry :: "string list \<Rightarrow> string list res" where
  "model_ancestry xs = (let ys = map strip xs in
     if list_ex (\<lambda>y. y = []) ys \<or> \<not> distinct ys
     then Inl (ValidationError ''model ancestry entries must be unique and non-blank'') else Inr ys)"

definition mk_model_card ::
  "uuid \<Rightarrow> pydatetime \<Rightarrow> string \<Rightarrow> string \<Rightarrow> string \<Rightarrow> string \<Rightarrow> string \<Rightarrow> pydatetime \<Rightarrow> string option \<Rightarrow> string list \<Rightarrow>
   string list \<Rightarrow> string \<Rightarrow> string option \<Rightarrow> string list \<Rightarrow> string option \<Rightarrow> raw_dec option \<Rightarrow> raw_dec option \<Rightarrow>
   string option \<Rightarrow> model_card res" where
  "mk_model_card aid created name version role data_hash code_hash training calibration limits regimes lifecycle family
     ancestry evaluation utility score resources =
     rbind (require_aware created) (\<lambda>ca. rbind (require_digest (strip data_hash)) (\<lambda>dh.
     rbind (require_digest (strip code_hash)) (\<lambda>ch. rbind (require_aware training) (\<lambda>tc.
     rbind (model_ancestry ancestry) (\<lambda>an. rbind (optional_digest (map_option strip evaluation)) (\<lambda>eh.
     rbind (optional_finite_decimal utility) (\<lambda>nu. rbind (optional_finite_decimal score) (\<lambda>cs.
     rbind (check (\<not> blank name \<and> \<not> blank version \<and> \<not> blank role) ''model card name, version, and role are required'') (\<lambda>_.
     rbind (check (opt_all (\<lambda>f. \<not> blank f) family) ''model family cannot be blank'') (\<lambda>_.
     rbind (check (opt_all (\<lambda>e. \<not> blank e) resources) ''model resource envelope cannot be blank'') (\<lambda>_.
     rbind (check (opt_all (\<lambda>x. dle d0 x \<and> dle x d1) cs) ''model calibration score must be between zero and one'') (\<lambda>_.
       Inr \<lparr>artifact_id = aid, created_at = ca, mc_name = strip name, mc_version = strip version, mc_role = strip role,
            mc_data_hash = dh, mc_code_hash = ch, mc_training_cutoff = tc,
            mc_calibration_version = map_option strip calibration, mc_support_limits = map strip limits,
            mc_failure_regimes = map strip regimes, mc_lifecycle = strip lifecycle, mc_family = map_option strip family,
            mc_independent_of = an, mc_evaluation_hash = eh, mc_net_utility = nu, mc_calibration_score = cs,
            mc_resource_envelope = map_option strip resources\<rparr>))))))))))))"

record agent_run = artifact +
  ar_mission_id :: uuid
  ar_role :: string
  ar_mode :: string
  ar_snapshot_id :: uuid
  ar_provider :: "string option"
  ar_model_route :: "string option"
  ar_prompt_version :: "string option"
  ar_tool_versions :: "string list"
  ar_inputs :: "uuid list"
  ar_outputs :: "uuid list"
  ar_latency_ms :: nat
  ar_token_count :: "nat option"
  ar_cost_usd :: "dec option"

definition mk_agent_run ::
  "uuid \<Rightarrow> pydatetime \<Rightarrow> uuid \<Rightarrow> string \<Rightarrow> string \<Rightarrow> uuid \<Rightarrow> string option \<Rightarrow> string option \<Rightarrow> string option \<Rightarrow> string list \<Rightarrow>
   uuid list \<Rightarrow> uuid list \<Rightarrow> int \<Rightarrow> int option \<Rightarrow> raw_dec option \<Rightarrow> agent_run res" where
  "mk_agent_run aid created mission role mode snap provider route prompt tools inputs outputs latency tokens cost =
     rbind (require_aware created) (\<lambda>ca. rbind (field_nat latency) (\<lambda>lat. rbind (optional_nat tokens) (\<lambda>tk.
     rbind (optional_ge0 cost) (\<lambda>co.
     rbind (check (\<not> blank role \<and> \<not> blank mode) ''agent runs require a role and operating mode'') (\<lambda>_.
     rbind (check (provider = None \<longleftrightarrow> route = None) ''agent run provider and model route must be supplied together'') (\<lambda>_.
     rbind (check (opt_all (\<lambda>p. \<not> blank p) provider) ''agent run provider cannot be blank'') (\<lambda>_.
     rbind (check (opt_all (\<lambda>p. \<not> blank p) route) ''agent run model route cannot be blank'') (\<lambda>_.
     rbind (check (opt_all (\<lambda>p. \<not> blank p) prompt) ''agent run prompt version cannot be blank'') (\<lambda>_.
     rbind (check (list_all (\<lambda>t. \<not> blank t) tools) ''agent run tool versions cannot be blank'') (\<lambda>_.
     rbind (check (distinct (map strip tools)) ''agent run tool versions must be unique'') (\<lambda>_.
     rbind (check (distinct inputs) ''agent run input artifact IDs must be unique'') (\<lambda>_.
     rbind (check (distinct outputs) ''agent run output artifact IDs must be unique'') (\<lambda>_.
       Inr \<lparr>artifact_id = aid, created_at = ca, ar_mission_id = mission, ar_role = strip role, ar_mode = strip mode,
            ar_snapshot_id = snap, ar_provider = map_option strip provider, ar_model_route = map_option strip route,
            ar_prompt_version = map_option strip prompt, ar_tool_versions = map strip tools, ar_inputs = inputs,
            ar_outputs = outputs, ar_latency_ms = lat, ar_token_count = tk, ar_cost_usd = co\<rparr>)))))))))))))"

section \<open>Capability cards\<close>

datatype capability_lifecycle =
    GAP | SCOUT | PIN | INSPECT | SANDBOX | WRAP_BUILD | CONTRACT_TESTED | SECURITY_TESTED | PERFORMANCE_BENCHMARKED
  | SHADOW | ACTIVE_READ | ACTIVE_WRITE_LIMITED | DEPRECATED

record capability_card = artifact +
  cc_name :: string
  cc_version :: string
  cc_lifecycle :: capability_lifecycle
  cc_inputs :: "string list"
  cc_outputs :: "string list"
  cc_actions :: "string list"
  cc_secrets :: "string list"
  cc_network :: bool
  cc_resource_envelope :: string
  cc_latency_class :: string
  cc_deterministic :: bool
  cc_grade :: "source_grade option"
  cc_failure_modes :: "string list"
  cc_tests :: "string list"
  cc_score :: "dec option"

definition prohibit_trading_authority :: "string list \<Rightarrow> string list res" where
  "prohibit_trading_authority actions = (let ns = map normalize_authority_action actions in
     if list_ex is_forbidden_authority_action ns
     then Inl (ValidationError ''capability cannot receive trading authority'')
     else if length actions \<noteq> length (remdups ns) \<or> list_ex blank actions
     then Inl (ValidationError ''capability actions must be unique and non-blank'')
     else Inr ns)"

definition mk_capability_card ::
  "uuid \<Rightarrow> pydatetime \<Rightarrow> string \<Rightarrow> string \<Rightarrow> capability_lifecycle \<Rightarrow> string list \<Rightarrow> string list \<Rightarrow> string list \<Rightarrow> string list \<Rightarrow>
   bool \<Rightarrow> string \<Rightarrow> string \<Rightarrow> bool \<Rightarrow> source_grade option \<Rightarrow> string list \<Rightarrow> string list \<Rightarrow> raw_dec option \<Rightarrow>
   capability_card res" where
  "mk_capability_card aid created name version lifecycle inputs outputs actions secrets network resources latency
     deterministic grade failures tests score =
     rbind (require_aware created) (\<lambda>ca. rbind (prohibit_trading_authority (map strip actions)) (\<lambda>ac.
     rbind (optional_finite_decimal score) (\<lambda>sc.
     rbind (check (\<not> blank name \<and> \<not> blank version) ''capability name and version are required'') (\<lambda>_.
     rbind (check (inputs \<noteq> [] \<and> outputs \<noteq> []) ''capabilities require typed inputs and outputs'') (\<lambda>_.
     rbind (check (\<not> blank resources \<and> \<not> blank latency) ''capabilities require resource and latency metadata'') (\<lambda>_.
       Inr \<lparr>artifact_id = aid, created_at = ca, cc_name = strip name, cc_version = strip version, cc_lifecycle = lifecycle,
            cc_inputs = map strip inputs, cc_outputs = map strip outputs, cc_actions = ac, cc_secrets = map strip secrets,
            cc_network = network, cc_resource_envelope = strip resources, cc_latency_class = strip latency,
            cc_deterministic = deterministic, cc_grade = grade, cc_failure_modes = map strip failures,
            cc_tests = map strip tests, cc_score = sc\<rparr>))))))"

section \<open>What the validators leave\<close>

definition evidence_valid :: "evidence \<Rightarrow> bool" where
  "evidence_valid e \<longleftrightarrow> \<not> blank (ve_origin e) \<and> \<not> blank (ve_source_family e) \<and> \<not> blank (ve_claim e) \<and>
     ve_observed_at e \<le> ve_first_available_at e \<and> ve_first_available_at e < ve_expires_at e \<and>
     distinct (ve_source_ids e) \<and> distinct (ve_syndication e) \<and> 0 \<le> dval (ve_uncertainty e) \<and> dval (ve_uncertainty e) \<le> 1"

lemma mk_evidence_valid:
  "mk_evidence aid created claim supports sources family origin chain observed available lineage model route prompt
     capability assumptions uncertainty expires invalidation = Inr e \<Longrightarrow> evidence_valid e"
  by (auto simp: mk_evidence_def rbind_eq_Inr field_Inr evidence_valid_def split: if_splits)

text \<open>A snapshot holds nothing that was not available at its time; an observation is ordered in time.\<close>

lemma mk_data_snapshot_available:
  "mk_data_snapshot aid created as_of purpose observations refs quality = Inr d \<Longrightarrow>
   (\<forall>r \<in> set (ds_references d). ref_first_available_at r \<le> ds_as_of d) \<and> distinct (ds_observation_ids d) \<and>
   \<not> blank (ds_purpose d) \<and> \<not> blank (ds_quality d)"
  by (auto simp: mk_data_snapshot_def rbind_eq_Inr field_Inr list_all_iff split: if_splits)

lemma mk_observation_ordered:
  "mk_observation aid created inst entity event effective published available ingested revision supersedes raw_hash
     parser family origin chain grade delay intended v = Inr o' \<Longrightarrow>
   opt_all (\<lambda>p. p \<le> ob_first_available_at o') (ob_published_at o') \<and> ob_first_available_at o' \<le> ob_ingested_at o' \<and>
   opt_all (\<lambda>e. e \<le> ob_ingested_at o') (ob_event_time o') \<and> ob_supersedes o' \<noteq> Some (artifact_id o')"
  by (auto simp: mk_observation_def rbind_eq_Inr field_Inr split: if_splits)

text \<open>A capability card never holds an action of the denylist, whatever the spelling of the request.\<close>

lemma prohibit_trading_authority_Inr:
  "prohibit_trading_authority actions = Inr ns \<longleftrightarrow>
     ns = map normalize_authority_action actions \<and> distinct ns \<and> (\<forall>a \<in> set actions. \<not> is_forbidden_authority_action a) \<and>
     (\<forall>a \<in> set actions. \<not> blank a)"
proof -
  have "length actions = length (remdups ns) \<longleftrightarrow> distinct ns" if "ns = map normalize_authority_action actions" for ns
  proof -
    have "length actions = length ns" using that by simp
    then show ?thesis by (simp add: eq_commute [of "length ns"] length_remdups_eq remdups_id_iff_distinct)
  qed
  then show ?thesis
    by (auto simp: prohibit_trading_authority_def Let_def list_ex_iff)
qed

lemma mk_capability_card_safe:
  assumes "mk_capability_card aid created name version lifecycle inputs outputs actions secrets network resources latency
     deterministic grade failures tests score = Inr c"
  shows "(\<forall>a \<in> set (cc_actions c). \<not> is_forbidden_authority_action a) \<and> distinct (cc_actions c) \<and>
    set (cc_actions c) = normalize_authority_action ` set actions"
  using assms
  by (auto simp: mk_capability_card_def rbind_eq_Inr prohibit_trading_authority_Inr split: if_splits)

end
