(* ===== verification/Fusion.thy ===== *)
theory Fusion
  imports Research_Artifacts "HOL-Library.Multiset"
begin

text \<open>
  The evidence dependency graph and the decision bundle (\<open>src/advisorai/agents/fusion.py\<close>): nodes are added
  once per evidence artifact; \<open>gate\<close> collapses evidence that shares an origin or a syndication chain, then
  evidence with the same model ancestry, and decides whether enough independent support is left.

  A Python set of origin names is the list of its members; the two parallel lists of groups and of their
  nodes are one list of pairs.
\<close>

section \<open>Nodes and results\<close>

record evidence_node =
  en_evidence :: evidence
  en_factor :: string
  en_ancestry :: "string option"

definition mk_evidence_node :: "evidence \<Rightarrow> string \<Rightarrow> string option \<Rightarrow> evidence_node res" where
  "mk_evidence_node e factor ancestry =
     rbind (check (factor \<noteq> [] \<and> \<not> blank factor) ''evidence factor family cannot be blank'') (\<lambda>_.
     rbind (check (opt_all (\<lambda>a. \<not> blank a) ancestry) ''evidence model ancestry cannot be blank'') (\<lambda>_.
       Inr \<lparr>en_evidence = e, en_factor = strip factor, en_ancestry = map_option strip ancestry\<rparr>))"

record evidence_gate =
  er_passed :: bool
  er_origins :: "string list"
  er_source_families :: "string list"
  er_factor_families :: "string list"
  er_discounted :: "uuid list"
  er_reasons :: "string list"

definition mk_evidence_gate :: "bool \<Rightarrow> string list \<Rightarrow> string list \<Rightarrow> string list \<Rightarrow> uuid list \<Rightarrow> string list \<Rightarrow> evidence_gate res" where
  "mk_evidence_gate passed origins families factors discounted reasons =
     rbind (check (\<not> (passed \<and> reasons \<noteq> [])) ''a passed evidence gate cannot retain rejection reasons'') (\<lambda>_.
     rbind (check (\<not> (passed \<and> (origins = [] \<or> families = [] \<or> factors = [])))
              ''a passed evidence gate requires independent evidence identities'') (\<lambda>_.
     rbind (check (\<not> (\<not> passed \<and> reasons = [])) ''a failed evidence gate requires rejection reasons'') (\<lambda>_.
     rbind (check (distinct discounted) ''discounted evidence IDs must be unique'') (\<lambda>_.
       Inr \<lparr>er_passed = passed, er_origins = origins, er_source_families = families, er_factor_families = factors,
            er_discounted = discounted, er_reasons = reasons\<rparr>))))"

section \<open>The graph\<close>

type_synonym evidence_graph = "(uuid, evidence_node) dict"

abbreviation node_id :: "evidence_node \<Rightarrow> uuid" where
  "node_id n \<equiv> artifact_id (en_evidence n)"

definition graph_add :: "evidence \<Rightarrow> string \<Rightarrow> string option \<Rightarrow> (evidence_graph, evidence_node) action" where
  "graph_add e factor ancestry g =
     (if blank factor then (Inl (ValueError ''evidence factor_family is required''), g)
      else case mk_evidence_node e factor ancestry of
        Inl err \<Rightarrow> (Inl err, g)
      | Inr n \<Rightarrow>
        (case map_of g (artifact_id e) of
           Some prior \<Rightarrow> if prior \<noteq> n then (Inl (ValueError ''evidence artifact ID is immutable''), g) else (Inr prior, g)
         | None \<Rightarrow> (Inr n, dict_set (artifact_id e) n g)))"

datatype standing = NotYetAvailable | NoLongerValid | Opposing | Eligible

definition standing :: "utc option \<Rightarrow> evidence_node \<Rightarrow> standing" where
  "standing cutoff n = (let e = en_evidence n in
     case cutoff of
       Some t \<Rightarrow> if t < ve_first_available_at e then NotYetAvailable
                 else if ve_expires_at e \<le> t then NoLongerValid
                 else if ve_supports e = Some False then Opposing else Eligible
     | None \<Rightarrow> if ve_supports e = Some False then Opposing else Eligible)"

definition timing_reason :: "standing \<Rightarrow> string list" where
  "timing_reason st = (case st of NotYetAvailable \<Rightarrow> [''future_evidence_unavailable_at_cutoff'']
     | NoLongerValid \<Rightarrow> [''expired_evidence_at_cutoff''] | _ \<Rightarrow> [])"

subsection \<open>Origin groups\<close>

definition origin_names :: "evidence_node \<Rightarrow> string list" where
  "origin_names n = ve_origin (en_evidence n) # ve_syndication (en_evidence n)"

definition meets :: "string list \<Rightarrow> string list \<Rightarrow> bool" where
  "meets xs ys = list_ex (\<lambda>x. x \<in> set ys) xs"

type_synonym origin_group = "string list \<times> evidence_node list"

text \<open>
  The node joins the first group it meets, and that group absorbs the other groups the node meets, the
  last one first.
\<close>

definition place_node :: "evidence_node \<Rightarrow> origin_group list \<Rightarrow> origin_group list" where
  "place_node n gs =
     (let hit = (\<lambda>g. meets (fst g) (origin_names n)) in
      case dropWhile (\<lambda>g. \<not> hit g) gs of
        [] \<Rightarrow> gs @ [(origin_names n, [n])]
      | g # rest \<Rightarrow>
        let others = rev (filter hit rest) in
        takeWhile (\<lambda>g. \<not> hit g) gs @
        (fst g @ origin_names n @ concat (map fst others), snd g @ [n] @ concat (map snd others)) #
        filter (\<lambda>g. \<not> hit g) rest)"

definition origin_groups :: "evidence_node list \<Rightarrow> origin_group list" where
  "origin_groups ns = fold place_node ns []"

subsection \<open>Model ancestry\<close>

definition evidence_ancestry :: "evidence \<Rightarrow> string option" where
  "evidence_ancestry e =
     (let vs = concat (map (case_option [] (\<lambda>v. [v])) [ve_model_version e, ve_provider_route e, ve_prompt_version e,
                 ve_capability_version e]) @ ve_lineage e;
          text = join ''|'' (filter (\<lambda>v. v \<noteq> []) vs)
      in if text = [] then None else Some text)"


definition node_ancestry :: "evidence_node \<Rightarrow> string option" where
  "node_ancestry n = (case en_ancestry n of
     Some a \<Rightarrow> if a = [] then evidence_ancestry (en_evidence n) else Some a
   | None \<Rightarrow> evidence_ancestry (en_evidence n))"

text \<open>Buckets in the order of their first member; a node without ancestry stays on its own.\<close>

definition bucket_node :: "evidence_node \<Rightarrow> (string, evidence_node list) dict \<Rightarrow> (string, evidence_node list) dict" where
  "bucket_node n d = (case node_ancestry n of None \<Rightarrow> d | Some a \<Rightarrow> dict_set a (dict_get d a [] @ [n]) d)"

definition ancestry_buckets :: "evidence_node list \<Rightarrow> evidence_node list list" where
  "ancestry_buckets ns = map snd (fold bucket_node ns [])"

definition without_ancestry :: "evidence_node list \<Rightarrow> evidence_node list" where
  "without_ancestry ns = filter (\<lambda>n. node_ancestry n = None) ns"

subsection \<open>The gate\<close>

definition eligible_nodes :: "utc option \<Rightarrow> evidence_graph \<Rightarrow> evidence_node list" where
  "eligible_nodes cutoff g = filter (\<lambda>n. standing cutoff n = Eligible) (map snd g)"

definition opposing_ids :: "utc option \<Rightarrow> evidence_graph \<Rightarrow> uuid list" where
  "opposing_ids cutoff g = map node_id (filter (\<lambda>n. standing cutoff n = Opposing) (map snd g))"

definition origin_heads :: "evidence_node list \<Rightarrow> evidence_node list" where
  "origin_heads ns = map (hd \<circ> snd) (origin_groups ns)"

definition origin_copies :: "evidence_node list \<Rightarrow> evidence_node list" where
  "origin_copies ns = concat (map (tl \<circ> snd) (origin_groups ns))"

definition independent_nodes :: "evidence_node list \<Rightarrow> evidence_node list" where
  "independent_nodes ns = without_ancestry (origin_heads ns) @ map hd (ancestry_buckets (origin_heads ns))"

definition discounted_ids :: "utc option \<Rightarrow> evidence_graph \<Rightarrow> uuid list" where
  "discounted_ids cutoff g = (let ns = eligible_nodes cutoff g in
     opposing_ids cutoff g @ map node_id (origin_copies ns) @ map node_id (concat (map tl (ancestry_buckets (origin_heads ns)))))"

definition deterministic_factors :: "string list" where
  "deterministic_factors = [''deterministic_check'', ''risk'', ''data_quality'', ''data_verifier'']"

definition has_deterministic_check :: "evidence_node list \<Rightarrow> bool" where
  "has_deterministic_check ns = list_ex (\<lambda>n. en_factor n \<in> set deterministic_factors) ns"

definition sorted_names :: "string list \<Rightarrow> string list" where
  "sorted_names xs = sort (remdups xs)"

definition below_minimum :: "string \<Rightarrow> nat \<Rightarrow> int \<Rightarrow> string list" where
  "below_minimum name n m = (if int n < m then [name @ '':'' @ nat_str n @ ''<'' @ int_str m] else [])"

definition graph_gate :: "int \<Rightarrow> int \<Rightarrow> bool \<Rightarrow> pydatetime option \<Rightarrow> evidence_graph \<Rightarrow> evidence_gate res" where
  "graph_gate min_sources min_factors material cutoff g =
     (if min_sources < 1 \<or> min_factors < 1
      then Inl (ValueError ''evidence gates require positive minimum family counts'')
      else rbind (case cutoff of None \<Rightarrow> Inr None
          | Some t \<Rightarrow> rbind (aware ''evidence cutoff must include a timezone'' t) (Inr \<circ> Some)) (\<lambda>c.
        let ns = eligible_nodes c g;
            timing = concat (map (timing_reason \<circ> standing c) (map snd g));
            independent = independent_nodes ns;
            discounted = discounted_ids c g;
            origins = sorted_names (map (ve_origin \<circ> en_evidence) independent);
            families = sorted_names (map (ve_source_family \<circ> en_evidence) independent);
            factors = sorted_names (map en_factor independent);
            reasons = fromkeys timing @ below_minimum ''source_families'' (length families) min_sources @
              below_minimum ''factor_families'' (length factors) min_factors @
              (if ns = [] \<and> discounted \<noteq> [] then [''unsupported_evidence_abstained''] else []) @
              (if material \<and> \<not> has_deterministic_check independent then [''missing_deterministic_check''] else [])
        in mk_evidence_gate (reasons = []) origins families factors discounted reasons))"

section \<open>Decisions\<close>

record decision_bundle =
  db_mission_id :: uuid
  db_snapshot_id :: uuid
  db_created_at :: utc
  db_target :: target_portfolio
  db_evidence_ids :: "uuid list"
  db_consensus :: string
  db_dissent :: "string list"
  db_missing :: "string list"
  db_confidence :: dec
  db_abstained :: bool
  db_expires_at :: utc
  db_gate :: evidence_gate

definition mk_decision_bundle ::
  "uuid \<Rightarrow> uuid \<Rightarrow> pydatetime \<Rightarrow> target_portfolio \<Rightarrow> uuid list \<Rightarrow> string \<Rightarrow> string list \<Rightarrow> string list \<Rightarrow> raw_dec \<Rightarrow>
   bool \<Rightarrow> pydatetime \<Rightarrow> evidence_gate \<Rightarrow> decision_bundle res" where
  "mk_decision_bundle mission snap created target ids consensus dissent missing confidence abstained expires gate =
     rbind (require_aware created) (\<lambda>ca. rbind (field_unit confidence) (\<lambda>cf. rbind (require_aware expires) (\<lambda>ex.
     rbind (check (tp_snapshot_id target = snap) ''decision target portfolio must use the decision snapshot'') (\<lambda>_.
     rbind (check (distinct ids) ''decision evidence IDs must be unique'') (\<lambda>_.
     rbind (check (\<not> (\<not> abstained \<and> ids = [])) ''non-abstained decisions require evidence IDs'') (\<lambda>_.
     rbind (check (\<not> (abstained \<and> er_passed gate)) ''a passed evidence gate cannot produce an abstained decision'') (\<lambda>_.
     rbind (check (\<not> (abstained \<and> \<not> deq cf d0)) ''abstained decisions must have zero confidence'') (\<lambda>_.
     rbind (check (list_all (\<lambda>x. \<not> blank x) (dissent @ missing)) ''decision dissent and missing-evidence entries cannot be blank'') (\<lambda>_.
     rbind (check (distinct dissent) ''decision dissent entries must be unique'') (\<lambda>_.
     rbind (check (distinct missing) ''decision missing-evidence entries must be unique'') (\<lambda>_.
     rbind (check (\<not> blank consensus) ''decision bundles require a consensus summary'') (\<lambda>_.
     rbind (check (\<not> (\<not> abstained \<and> \<not> er_passed gate)) ''non-abstained decisions require a passed evidence gate'') (\<lambda>_.
     rbind (check (ca < ex) ''decision bundle must expire after its creation cutoff'') (\<lambda>_.
       Inr \<lparr>db_mission_id = mission, db_snapshot_id = snap, db_created_at = ca, db_target = target, db_evidence_ids = ids,
            db_consensus = consensus, db_dissent = dissent, db_missing = missing, db_confidence = cf,
            db_abstained = abstained, db_expires_at = ex, db_gate = gate\<rparr>))))))))))))))"


section \<open>Origin groups are the connected components\<close>

definition shares :: "evidence_node \<Rightarrow> evidence_node \<Rightarrow> bool" where
  "shares a b \<longleftrightarrow> set (origin_names a) \<inter> set (origin_names b) \<noteq> {}"

definition linked :: "evidence_node set \<Rightarrow> evidence_node \<Rightarrow> evidence_node \<Rightarrow> bool" where
  "linked N a b \<longleftrightarrow> (a, b) \<in> {(x, y). x \<in> N \<and> y \<in> N \<and> shares x y}\<^sup>*"

lemma meets_iff: "meets xs ys \<longleftrightarrow> set xs \<inter> set ys \<noteq> {}"
  by (auto simp: meets_def list_ex_iff)

lemma shares_sym: "shares a b \<Longrightarrow> shares b a"
  by (auto simp: shares_def)

lemma linked_refl [simp]: "linked N a a"
  by (simp add: linked_def)

lemma linked_step: "a \<in> N \<Longrightarrow> b \<in> N \<Longrightarrow> shares a b \<Longrightarrow> linked N a b"
  by (auto simp: linked_def)

lemma linked_trans: "linked N a b \<Longrightarrow> linked N b c \<Longrightarrow> linked N a c"
  unfolding linked_def by (rule rtrancl_trans)

lemma linked_sym: "linked N a b \<Longrightarrow> linked N b a"
  unfolding linked_def
  by (metis (mono_tags, lifting) case_prodD case_prodI mem_Collect_eq shares_sym symD symI sym_rtrancl)

lemma linked_mono: "linked N a b \<Longrightarrow> N \<subseteq> M \<Longrightarrow> linked M a b"
  unfolding linked_def by (erule rtrancl_mono [THEN subsetD, rotated]) auto

definition group_ok :: "evidence_node set \<Rightarrow> origin_group \<Rightarrow> bool" where
  "group_ok N g \<longleftrightarrow> snd g \<noteq> [] \<and> set (fst g) = (\<Union>n \<in> set (snd g). set (origin_names n)) \<and>
     (\<forall>a \<in> set (snd g). \<forall>b \<in> set (snd g). linked N a b)"

definition apart :: "origin_group list \<Rightarrow> bool" where
  "apart gs \<longleftrightarrow> sorted_wrt (\<lambda>g h. set (fst g) \<inter> set (fst h) = {}) gs"

definition groups_ok :: "evidence_node list \<Rightarrow> origin_group list \<Rightarrow> bool" where
  "groups_ok ns gs \<longleftrightarrow> mset (concat (map snd gs)) = mset ns \<and> (\<forall>g \<in> set gs. group_ok (set ns) g) \<and> apart gs"

lemma mset_concat_filter:
  "mset (concat (map f (filter P xs))) + mset (concat (map f (filter (\<lambda>x. \<not> P x) xs))) = mset (concat (map f xs))"
  by (induction xs) auto

lemma mset_concat_rev: "mset (concat (map f (rev xs))) = mset (concat (map f xs))"
  by (induction xs) auto

lemma group_ok_mono: assumes "group_ok N g" "N \<subseteq> M" shows "group_ok M g"
proof -
  have "linked M a b" if "linked N a b" for a b using that assms(2) by (rule linked_mono)
  then show ?thesis using assms(1) by (simp add: group_ok_def)
qed

lemma group_joins:
  assumes "group_ok N g" "meets (fst g) (origin_names n)" "set (snd g) \<subseteq> N" "n \<in> N" "a \<in> set (snd g)"
  shows "linked N a n"
proof -
  obtain x b where "x \<in> set (origin_names n)" "b \<in> set (snd g)" "x \<in> set (origin_names b)"
    using assms(1,2) by (auto simp: group_ok_def meets_iff)
  then have "shares b n" "b \<in> set (snd g)" by (auto simp: shares_def)
  then show ?thesis using assms linked_step linked_trans by (metis group_ok_def subsetD)
qed

lemma apart_unique:
  assumes "apart gs" "g \<in> set gs" "h \<in> set gs" "x \<in> set (fst g)" "x \<in> set (fst h)"
  shows "g = h"
  using assms by (induction gs) (auto simp: apart_def)

lemma place_node_cases:
  obtains (new) "\<forall>g \<in> set gs. \<not> meets (fst g) (origin_names n)" "place_node n gs = gs @ [(origin_names n, [n])]"
  | (joins) A g rest B where "gs = A @ g # rest" "\<forall>h \<in> set A. \<not> meets (fst h) (origin_names n)"
      "meets (fst g) (origin_names n)" "B = filter (\<lambda>g. meets (fst g) (origin_names n)) rest"
      "place_node n gs = A @ (fst g @ origin_names n @ concat (map fst (rev B)), snd g @ [n] @ concat (map snd (rev B))) #
         filter (\<lambda>g. \<not> meets (fst g) (origin_names n)) rest"
proof (cases "dropWhile (\<lambda>g. \<not> meets (fst g) (origin_names n)) gs")
  case Nil
  show thesis
  proof (rule new)
    show "place_node n gs = gs @ [(origin_names n, [n])]" by (simp only: place_node_def Let_def Nil list.case)
    show "\<forall>g \<in> set gs. \<not> meets (fst g) (origin_names n)" using Nil by (simp add: dropWhile_eq_Nil_conv)
  qed
next
  case (Cons g rest)
  show thesis
  proof (rule joins)
    show "gs = takeWhile (\<lambda>g. \<not> meets (fst g) (origin_names n)) gs @ g # rest"
      using Cons by (metis takeWhile_dropWhile_id)
    show "meets (fst g) (origin_names n)" using Cons by (metis dropWhile_eq_Cons_conv)
  qed (auto simp: place_node_def Cons Let_def dest: set_takeWhileD)
qed

lemma place_node_ok:
  assumes "groups_ok ns gs" shows "groups_ok (ns @ [n]) (place_node n gs)"
proof -
  let ?hit = "\<lambda>g. meets (fst g) (origin_names n)" and ?N = "set (ns @ [n])"
  have apart: "apart gs" using assms by (simp add: groups_ok_def)
  have old: "group_ok ?N g" "set (snd g) \<subseteq> ?N" if "g \<in> set gs" for g
  proof -
    have "set (snd g) \<subseteq> set (concat (map snd gs))" using that by auto
    moreover have "set (concat (map snd gs)) = set ns" using assms by (metis groups_ok_def set_mset_mset)
    ultimately show "set (snd g) \<subseteq> ?N" by auto
    show "group_ok ?N g" using assms that group_ok_mono [of "set ns" g ?N] by (auto simp: groups_ok_def)
  qed
  show ?thesis
  proof (cases rule: place_node_cases [of gs n])
    case new
    then have "apart (gs @ [(origin_names n, [n])])"
      using apart by (simp add: apart_def sorted_wrt_append meets_iff)
    moreover have "group_ok ?N (origin_names n, [n])" by (simp add: group_ok_def)
    ultimately show ?thesis using assms old(1) unfolding new(2) groups_ok_def by auto
  next
    case (joins A g rest B)
    let ?C = "filter (\<lambda>g. \<not> ?hit g) rest"
    let ?g = "(fst g @ origin_names n @ concat (map fst (rev B)), snd g @ [n] @ concat (map snd (rev B)))"
    have B: "h \<in> set gs" "?hit h" if "h \<in> set B" for h using that joins(1,4) by auto
    have g: "g \<in> set gs" using joins(1) by simp
    have away: "set (fst h) \<inter> set (fst ?g) = {}" if h: "h \<in> set gs" "\<not> ?hit h" for h
    proof -
      have "x \<notin> set (fst k)" if "x \<in> set (fst h)" "k \<in> set gs" "?hit k" for x k
        using apart_unique [OF apart h(1) that(2,1)] h(2) that(3) by blast
      then have "x \<notin> set (fst g)" "\<forall>k \<in> set B. x \<notin> set (fst k)" if "x \<in> set (fst h)" for x
        using that g joins(3) B by blast+
      then show ?thesis using h(2) by (auto simp: meets_iff)
    qed
    let ?P = "\<lambda>g h :: origin_group. set (fst g) \<inter> set (fst h) = {}"
    have "sorted_wrt ?P (A @ ?C)" using apart joins(1) by (auto simp: apart_def sorted_wrt_append sorted_wrt_filter)
    moreover have "\<forall>h \<in> set A. ?P h ?g" using away joins(1,2) by (metis Un_iff set_append)
    moreover have "\<forall>k \<in> set ?C. ?P ?g k"
    proof
      fix k assume "k \<in> set ?C"
      then have "k \<in> set gs" "\<not> ?hit k" using joins(1) by auto
      then show "?P ?g k" using away by (metis Int_commute)
    qed
    ultimately have "apart (A @ ?g # ?C)"
      unfolding apart_def sorted_wrt_append by (simp only: sorted_wrt.simps list.set ball_simps) blast
    moreover have "mset (concat (map snd (A @ ?g # ?C))) = mset (ns @ [n])"
      using assms mset_concat_filter [of snd ?hit rest] joins(1,4) by (simp add: groups_ok_def mset_concat_rev)
    moreover have "group_ok ?N ?g"
    proof -
      have joined: "linked ?N a n" if "k \<in> set gs" "?hit k" "a \<in> set (snd k)" for k a
        using group_joins [OF old(1) [OF that(1)] that(2) old(2) [OF that(1)] _ that(3)] by simp
      have members: "linked ?N a n" if a: "a \<in> set (snd ?g)" for a
      proof -
        have "a \<in> set (snd g) \<or> a = n \<or> (\<exists>k \<in> set B. a \<in> set (snd k))" using a by auto
        then show ?thesis using joined [OF g joins(3)] joined [OF B] by (elim disjE bexE) (simp, simp, blast)
      qed
      have names: "set (fst h) = (\<Union>m \<in> set (snd h). set (origin_names m))" if "h \<in> set gs" for h
        using old(1) [OF that] by (simp add: group_ok_def)
      have "set (fst ?g) = (\<Union>m \<in> set (snd ?g). set (origin_names m))"
        using names [OF g] names [OF B(1)] by auto
      moreover have "linked ?N a b" if "a \<in> set (snd ?g)" "b \<in> set (snd ?g)" for a b
        using members [OF that(1)] members [OF that(2)] linked_sym linked_trans by blast
      ultimately show ?thesis by (simp add: group_ok_def)
    qed
    ultimately show ?thesis
      unfolding groups_ok_def joins(5) using old(1) joins(1) by auto
  qed
qed

lemma origin_groups_ok: "groups_ok ns (origin_groups ns)"
proof (induction ns rule: rev_induct)
  case Nil
  then show ?case by (simp add: origin_groups_def groups_ok_def apart_def)
next
  case (snoc n ns)
  then show ?case using place_node_ok by (simp add: origin_groups_def)
qed

lemma group_member:
  assumes "groups_ok ns gs" "a \<in> set ns" obtains g where "g \<in> set gs" "a \<in> set (snd g)"
proof -
  have "a \<in> set (concat (map snd gs))" using assms by (metis groups_ok_def set_mset_mset)
  then show thesis using that by auto
qed

lemma same_group_linked:
  assumes "groups_ok ns gs" "g \<in> set gs" "a \<in> set (snd g)" "linked (set ns) a b"
  shows "b \<in> set (snd g)"
  using assms(4) unfolding linked_def
proof (induction rule: rtrancl_induct)
  case base
  then show ?case by (rule assms(3))
next
  case (step b c)
  then obtain h where h: "h \<in> set gs" "c \<in> set (snd h)" using group_member [OF assms(1)] by blast
  obtain x where x: "x \<in> set (origin_names b)" "x \<in> set (origin_names c)" using step.hyps(2) by (auto simp: shares_def)
  have "group_ok (set ns) g" "group_ok (set ns) h" using assms(1,2) h(1) by (auto simp: groups_ok_def)
  then have "x \<in> set (fst g)" "x \<in> set (fst h)" using x step.IH h(2) by (auto simp: group_ok_def)
  then have "g = h" using assms(1,2) h(1) by (intro apart_unique [of gs g h x]) (auto simp: groups_ok_def)
  then show ?case using h(2) by simp
qed

section \<open>Buckets of model ancestry\<close>

definition buckets_ok :: "evidence_node list \<Rightarrow> (string, evidence_node list) dict \<Rightarrow> bool" where
  "buckets_ok ns d \<longleftrightarrow> dict_ok d \<and> (\<forall>(a, l) \<in> set d. l \<noteq> [] \<and> (\<forall>n \<in> set l. node_ancestry n = Some a)) \<and>
     mset (concat (map snd d)) = mset (filter (\<lambda>n. node_ancestry n \<noteq> None) ns)"

lemma mset_bucket:
  "mset (concat (map snd (dict_set a (dict_get d a [] @ [n]) d))) = add_mset n (mset (concat (map snd d)))"
proof (induction d)
  case (Cons p d)
  then show ?case by (cases p) (auto simp: dict_get_def)
qed (simp add: dict_get_def)

lemma bucket_node_ok:
  assumes "buckets_ok ns d" shows "buckets_ok (ns @ [n]) (bucket_node n d)"
proof (cases "node_ancestry n")
  case (Some a)
  have "\<forall>m \<in> set (dict_get d a []). node_ancestry m = Some a"
    using assms dict_get_cases [of d a "[]"] by (fastforce simp: buckets_ok_def)
  then have "l \<noteq> [] \<and> (\<forall>m \<in> set l. node_ancestry m = Some b)"
    if "(b, l) \<in> set (dict_set a (dict_get d a [] @ [n]) d)" for b l
    using assms Some set_dict_set [OF that] by (fastforce simp: buckets_ok_def)
  then show ?thesis
    using assms Some mset_bucket [of a d n] by (auto simp: buckets_ok_def bucket_node_def simp del: mset_concat)
qed (use assms in \<open>auto simp: buckets_ok_def bucket_node_def\<close>)

lemma ancestry_buckets_ok: "buckets_ok ns (fold bucket_node ns [])"
  by (induction ns rule: rev_induct) (simp_all add: buckets_ok_def [of "[]"] bucket_node_ok)


section \<open>The gate\<close>

definition graph_ok :: "evidence_graph \<Rightarrow> bool" where
  "graph_ok g \<longleftrightarrow> dict_ok g \<and> (\<forall>(i, n) \<in> set g. node_id n = i)"

lemma graph_add_ok: "graph_ok g \<Longrightarrow> graph_add e f a g = (r, g') \<Longrightarrow> graph_ok g'"
  by (auto simp: graph_add_def graph_ok_def mk_evidence_node_def dest!: set_dict_set
      split: if_splits sum.splits option.splits)

lemma graph_ids: "graph_ok g \<Longrightarrow> map (node_id \<circ> snd) g = map fst g"
  by (force simp: graph_ok_def)

lemma graph_nodes_distinct: "graph_ok g \<Longrightarrow> distinct (map snd g) \<and> inj_on node_id (set (map snd g))"
proof -
  assume ok: "graph_ok g"
  then have "distinct (map node_id (map snd g))" by (simp add: graph_ids graph_ok_def dict_ok_def)
  then show ?thesis by (metis distinct_map)
qed

lemma heads_copies: "\<forall>l \<in> set ls. l \<noteq> [] \<Longrightarrow> mset (map hd ls @ concat (map tl ls)) = mset (concat ls)"
proof (induction ls)
  case (Cons l ls)
  then show ?case by (cases l) auto
qed simp

lemma origin_partition: "mset (origin_heads ns @ origin_copies ns) = mset ns"
proof -
  have "\<forall>l \<in> set (map snd (origin_groups ns)). l \<noteq> []"
    using origin_groups_ok [of ns] by (auto simp: groups_ok_def group_ok_def)
  then show ?thesis
    using heads_copies [of "map snd (origin_groups ns)"] origin_groups_ok [of ns]
    by (simp add: origin_heads_def origin_copies_def groups_ok_def)
qed

lemma bucket_partition:
  "mset (independent_nodes ns @ concat (map tl (ancestry_buckets (origin_heads ns)))) = mset (origin_heads ns)"
proof -
  let ?hs = "origin_heads ns"
  have "\<forall>l \<in> set (ancestry_buckets ?hs). l \<noteq> []"
    using ancestry_buckets_ok [of ?hs] by (auto simp: ancestry_buckets_def buckets_ok_def)
  then have "mset (map hd (ancestry_buckets ?hs) @ concat (map tl (ancestry_buckets ?hs))) =
      mset (filter (\<lambda>n. node_ancestry n \<noteq> None) ?hs)"
    using heads_copies [of "ancestry_buckets ?hs"] ancestry_buckets_ok [of ?hs]
    by (simp only: ancestry_buckets_def buckets_ok_def)
  then show ?thesis
    unfolding independent_nodes_def without_ancestry_def mset_append [symmetric] append_assoc
    by (simp add: add.assoc)
qed

lemma eligible_partition:
  assumes "graph_ok g"
  shows "mset (map node_id (independent_nodes (eligible_nodes c g)) @ discounted_ids c g) =
    mset (map node_id (filter (\<lambda>n. standing c n \<in> {Eligible, Opposing}) (map snd g)))"
proof -
  let ?ns = "eligible_nodes c g" and ?hs = "origin_heads (eligible_nodes c g)"
  have "image_mset node_id (mset (independent_nodes ?ns @ concat (map tl (ancestry_buckets ?hs)) @ origin_copies ?ns)) =
      image_mset node_id (mset ?ns)"
    using bucket_partition [of ?ns] origin_partition [of ?ns] by (simp add: add.assoc [symmetric])
  moreover have "mset (filter (\<lambda>n. standing c n \<in> {Eligible, Opposing}) (map snd g)) =
      mset (filter (\<lambda>n. standing c n = Eligible) (map snd g)) + mset (filter (\<lambda>n. standing c n = Opposing) (map snd g))"
    by (induction g) auto
  ultimately show ?thesis
    by (simp add: discounted_ids_def opposing_ids_def eligible_nodes_def Let_def ac_simps)
qed


lemma independent_heads: "set (independent_nodes ns) \<subseteq> set (origin_heads ns)"
  using bucket_partition [of ns] by (metis mset_subset_eq_add_left mset_append set_mset_mono set_mset_mset)

lemma heads_unlinked:
  assumes "a \<in> set (origin_heads ns)" "b \<in> set (origin_heads ns)" "linked (set ns) a b"
  shows "a = b"
proof -
  note ok = origin_groups_ok [of ns]
  obtain g h where g: "g \<in> set (origin_groups ns)" "a = hd (snd g)" and h: "h \<in> set (origin_groups ns)" "b = hd (snd h)"
    using assms(1,2) by (auto simp: origin_heads_def)
  have gh: "group_ok (set ns) g" "group_ok (set ns) h" using ok g(1) h(1) by (auto simp: groups_ok_def)
  then have mem: "a \<in> set (snd g)" "b \<in> set (snd h)" using g(2) h(2) by (simp_all add: group_ok_def)
  then have "b \<in> set (snd g)" using same_group_linked [OF ok g(1) _ assms(3)] by blast
  then have "ve_origin (en_evidence b) \<in> set (fst g)" "ve_origin (en_evidence b) \<in> set (fst h)"
    using gh mem by (auto simp: group_ok_def origin_names_def)
  then have "g = h" using ok g(1) h(1) by (intro apart_unique [of "origin_groups ns"]) (simp_all add: groups_ok_def)
  then show ?thesis using g h by simp
qed

lemma head_of:
  assumes "n \<in> set ns" obtains h where "h \<in> set (origin_heads ns)" "linked (set ns) n h"
proof -
  note ok = origin_groups_ok [of ns]
  obtain g where g: "g \<in> set (origin_groups ns)" "n \<in> set (snd g)" using group_member [OF ok assms] by blast
  then have "group_ok (set ns) g" using ok by (auto simp: groups_ok_def)
  then have "linked (set ns) n (hd (snd g))" using g(2) by (auto simp: group_ok_def)
  then show thesis using g(1) by (intro that) (auto simp: origin_heads_def)
qed

lemma bucket_of:
  assumes "h \<in> set (origin_heads ns)"
  obtains w where "w \<in> set (independent_nodes ns)" "w = h \<or> node_ancestry h \<noteq> None \<and> node_ancestry w = node_ancestry h"
proof (cases "node_ancestry h")
  case None
  then show thesis using assms by (intro that [of h]) (auto simp: independent_nodes_def without_ancestry_def)
next
  case (Some a)
  let ?d = "fold bucket_node (origin_heads ns) []"
  have ok: "buckets_ok (origin_heads ns) ?d" by (rule ancestry_buckets_ok)
  have "set_mset (mset (concat (map snd ?d))) = set_mset (mset (filter (\<lambda>n. node_ancestry n \<noteq> None) (origin_heads ns)))"
    using ok by (simp only: buckets_ok_def)
  then have "h \<in> set (concat (map snd ?d))" using assms Some by simp
  then obtain b l where bl: "(b, l) \<in> set ?d" "h \<in> set l" by auto
  then have "l \<noteq> []" "\<forall>n \<in> set l. node_ancestry n = Some b" using ok by (auto simp: buckets_ok_def)
  moreover have "hd l \<in> set (independent_nodes ns)" using bl(1) by (force simp: independent_nodes_def ancestry_buckets_def)
  ultimately show thesis using bl(2) by (intro that [of "hd l"]) auto
qed

lemma independent_ancestry:
  assumes "a \<in> set (independent_nodes ns)" "b \<in> set (independent_nodes ns)" "node_ancestry a = Some x" "node_ancestry b = Some x"
  shows "a = b"
proof -
  let ?d = "fold bucket_node (origin_heads ns) []"
  have ok: "buckets_ok (origin_heads ns) ?d" by (rule ancestry_buckets_ok)
  have "\<exists>l. (x, l) \<in> set ?d \<and> n = hd l" if "n \<in> set (independent_nodes ns)" "node_ancestry n = Some x" for n
  proof -
    have "n \<in> hd ` set (map snd ?d)"
      using that unfolding independent_nodes_def without_ancestry_def ancestry_buckets_def by auto
    then obtain y l where "(y, l) \<in> set ?d" "n = hd l" by auto
    moreover from this have "node_ancestry n = Some y" using ok by (auto simp: buckets_ok_def)
    ultimately show ?thesis using that(2) by auto
  qed
  then obtain l m where "(x, l) \<in> set ?d" "a = hd l" "(x, m) \<in> set ?d" "b = hd m" using assms by metis
  then show ?thesis using ok by (metis buckets_ok_def dict_ok_def map_of_eq_Some_iff option.inject)
qed

lemma mk_gate_ok:
  "e = mk_evidence_gate (rs = []) os fs xs ds rs \<Longrightarrow> distinct ds \<Longrightarrow> (rs = [] \<Longrightarrow> os \<noteq> [] \<and> fs \<noteq> [] \<and> xs \<noteq> []) \<Longrightarrow>
   e = Inr \<lparr>er_passed = (rs = []), er_origins = os, er_source_families = fs, er_factor_families = xs,
            er_discounted = ds, er_reasons = rs\<rparr>"
  by (simp add: mk_evidence_gate_def)

lemma below_minimum_Nil [simp]: "below_minimum name n m = [] \<longleftrightarrow> m \<le> int n"
  by (simp add: below_minimum_def)

lemma sorted_names_card: "length (sorted_names xs) = card (set xs)" "sorted_names xs = [] \<longleftrightarrow> xs = []"
  by (auto simp: sorted_names_def length_remdups_card_conv) (metis length_0_conv length_sort remdups_eq_nil_iff)

lemma timing_Nil: "concat (map (timing_reason \<circ> standing c) ns) = [] \<longleftrightarrow>
    (\<forall>n \<in> set ns. standing c n \<notin> {NotYetAvailable, NoLongerValid})"
  by (auto simp: timing_reason_def split: standing.splits)

lemma graph_gate_result:
  assumes "1 \<le> ms" "1 \<le> mf" "ns = eligible_nodes c g" "W = independent_nodes ns" "distinct (discounted_ids c g)"
  obtains r where "graph_gate ms mf material (map_option (\<lambda>u. Aware u off) c) g = Inr r" "er_discounted r = discounted_ids c g"
    "er_passed r \<longleftrightarrow> concat (map (timing_reason \<circ> standing c) (map snd g)) = [] \<and>
       ms \<le> int (card ((ve_source_family \<circ> en_evidence) ` set W)) \<and> mf \<le> int (card (en_factor ` set W)) \<and>
       \<not> (ns = [] \<and> discounted_ids c g \<noteq> []) \<and> (material \<longrightarrow> has_deterministic_check W)"
proof -
  let ?D = "discounted_ids c g"
  let ?timing = "concat (map (timing_reason \<circ> standing c) (map snd g))"
  let ?names = "\<lambda>f. sorted_names (map f W)"
  define rs where "rs = fromkeys ?timing @
    below_minimum ''source_families'' (length (?names (ve_source_family \<circ> en_evidence))) ms @
    below_minimum ''factor_families'' (length (?names en_factor)) mf @
    (if ns = [] \<and> ?D \<noteq> [] then [''unsupported_evidence_abstained''] else []) @
    (if material \<and> \<not> has_deterministic_check W then [''missing_deterministic_check''] else [])"
  have rs: "rs = [] \<longleftrightarrow> ?timing = [] \<and> ms \<le> int (card ((ve_source_family \<circ> en_evidence) ` set W)) \<and>
      mf \<le> int (card (en_factor ` set W)) \<and> \<not> (ns = [] \<and> ?D \<noteq> []) \<and> (material \<longrightarrow> has_deterministic_check W)"
    by (simp add: rs_def sorted_names_card)
  have cut: "rbind (case map_option (\<lambda>u. Aware u off) c of None \<Rightarrow> Inr None
      | Some t \<Rightarrow> rbind (aware ''evidence cutoff must include a timezone'' t) (Inr \<circ> Some)) f = f c" for f
    by (cases c) simp_all
  have "\<not> (ms < 1 \<or> mf < 1)" using assms(1,2) by simp
  then have "graph_gate ms mf material (map_option (\<lambda>u. Aware u off) c) g =
      mk_evidence_gate (rs = []) (?names (ve_origin \<circ> en_evidence)) (?names (ve_source_family \<circ> en_evidence))
        (?names en_factor) ?D rs"
    unfolding graph_gate_def Let_def cut rs_def assms(4) assms(3) by (simp only: if_False)
  moreover have "rs = [] \<Longrightarrow> W \<noteq> []" using rs assms(1) by auto
  moreover note assms(5)
  moreover define r where "r = \<lparr>er_passed = (rs = []), er_origins = ?names (ve_origin \<circ> en_evidence),
        er_source_families = ?names (ve_source_family \<circ> en_evidence), er_factor_families = ?names en_factor,
        er_discounted = ?D, er_reasons = rs\<rparr>"
  ultimately have "graph_gate ms mf material (map_option (\<lambda>u. Aware u off) c) g = Inr r"
    unfolding r_def by (intro mk_gate_ok) (simp_all only: sorted_names_card map_is_Nil_conv simp_thms)
  then show thesis by (rule that) (simp add: r_def, simp only: r_def evidence_gate.select_convs rs)
qed

text \<open>C30: The evidence gate: with positive minimum counts it always returns a result. It passes exactly when no
  evidence is from the future or expired and the independent nodes come from enough source and factor
  families, with a deterministic check among them for a material decision. Independence is real: two
  independent nodes are not connected by any chain of shared origins or syndication among the supporting
  evidence and never have the same model ancestry, and it is not stricter than that: every supporting node
  is connected to an independent one or to one with the ancestry of an independent one. Each supporting or
  opposing node is counted once, as independent or as discounted.\<close>

theorem evidence_gate_sound:
  assumes "graph_ok g" "1 \<le> ms" "1 \<le> mf" "ns = eligible_nodes c g" "W = independent_nodes ns"
  shows "\<exists>r. graph_gate ms mf material (map_option (\<lambda>u. Aware u off) c) g = Inr r \<and>
    (er_passed r \<longleftrightarrow> (\<forall>n \<in> set (map snd g). standing c n \<notin> {NotYetAvailable, NoLongerValid}) \<and>
       ms \<le> int (card ((ve_source_family \<circ> en_evidence) ` set W)) \<and> mf \<le> int (card (en_factor ` set W)) \<and>
       (material \<longrightarrow> (\<exists>n \<in> set W. en_factor n \<in> set deterministic_factors))) \<and>
    (\<forall>a \<in> set W. \<forall>b \<in> set W. a \<noteq> b \<longrightarrow> \<not> linked (set ns) a b \<and>
       (node_ancestry a = None \<or> node_ancestry a \<noteq> node_ancestry b)) \<and>
    (\<forall>n \<in> set ns. \<exists>h. linked (set ns) n h \<and>
       (\<exists>w \<in> set W. w = h \<or> node_ancestry h \<noteq> None \<and> node_ancestry w = node_ancestry h)) \<and>
    distinct (map node_id W @ er_discounted r) \<and>
    set (map node_id W @ er_discounted r) = node_id ` {n \<in> set (map snd g). standing c n \<in> {Eligible, Opposing}}"
proof -
  let ?nodes = "filter (\<lambda>n. standing c n \<in> {Eligible, Opposing}) (map snd g)" and ?D = "discounted_ids c g"
  have part: "mset (map node_id W @ ?D) = mset (map node_id ?nodes)"
    using eligible_partition [OF assms(1)] assms(4,5) by simp
  have "distinct (map node_id ?nodes)"
    using graph_nodes_distinct [OF assms(1)] by (auto simp: distinct_map intro: inj_on_subset)
  then have dist: "distinct (map node_id W @ ?D)" using part by (metis mset_eq_imp_distinct_iff)
  have ids: "set (map node_id W @ ?D) = node_id ` {n \<in> set (map snd g). standing c n \<in> {Eligible, Opposing}}"
    using arg_cong [OF part, of set_mset] by (simp only: set_mset_mset set_map set_filter)
  have "distinct ?D" using dist by simp
  from graph_gate_result [OF assms(2-5) this] obtain r where
    r: "graph_gate ms mf material (map_option (\<lambda>u. Aware u off) c) g = Inr r" "er_discounted r = ?D"
    "er_passed r \<longleftrightarrow> concat (map (timing_reason \<circ> standing c) (map snd g)) = [] \<and>
       ms \<le> int (card ((ve_source_family \<circ> en_evidence) ` set W)) \<and> mf \<le> int (card (en_factor ` set W)) \<and>
       \<not> (ns = [] \<and> ?D \<noteq> []) \<and> (material \<longrightarrow> has_deterministic_check W)"
    by blast
  have check: "has_deterministic_check W \<longleftrightarrow> (\<exists>n \<in> set W. en_factor n \<in> set deterministic_factors)"
    by (auto simp: has_deterministic_check_def list_ex_iff)
  have nonvoid: "\<not> (ns = [] \<and> ?D \<noteq> [])" if "ms \<le> int (card ((ve_source_family \<circ> en_evidence) ` set W))"
  proof -
    have "W \<noteq> []" using that assms(2) by auto
    then have "origin_heads ns \<noteq> []" using independent_heads [of ns] assms(5) by auto
    then show ?thesis by (auto simp: origin_heads_def origin_groups_def)
  qed
  have apart: "\<not> linked (set ns) a b \<and> (node_ancestry a = None \<or> node_ancestry a \<noteq> node_ancestry b)"
    if "a \<in> set W" "b \<in> set W" "a \<noteq> b" for a b
  proof -
    have "\<not> linked (set ns) a b" using heads_unlinked [of a ns b] that independent_heads [of ns] assms(5) by blast
    moreover have "node_ancestry a \<noteq> node_ancestry b" if "node_ancestry a = Some x" for x
      using independent_ancestry [of a ns b x] that \<open>a \<in> set W\<close> \<open>b \<in> set W\<close> \<open>a \<noteq> b\<close> assms(5) by auto
    ultimately show ?thesis by (cases "node_ancestry a") auto
  qed
  have cover: "\<exists>h. linked (set ns) n h \<and> (\<exists>w \<in> set W. w = h \<or> node_ancestry h \<noteq> None \<and> node_ancestry w = node_ancestry h)"
    if "n \<in> set ns" for n
    using head_of [OF that] bucket_of assms(5) by metis
  show ?thesis
    unfolding r(1,2)
  proof (intro exI [of _ r] conjI ballI impI)
    show "er_passed r \<longleftrightarrow> (\<forall>n \<in> set (map snd g). standing c n \<notin> {NotYetAvailable, NoLongerValid}) \<and>
       ms \<le> int (card ((ve_source_family \<circ> en_evidence) ` set W)) \<and> mf \<le> int (card (en_factor ` set W)) \<and>
       (material \<longrightarrow> (\<exists>n \<in> set W. en_factor n \<in> set deterministic_factors))"
      unfolding r(3) timing_Nil check using nonvoid by blast
  qed (use apart cover dist ids r(2) in simp_all)
qed


definition fx_node :: "nat \<Rightarrow> string \<Rightarrow> string list \<Rightarrow> string \<Rightarrow> bool option \<Rightarrow> evidence_node" where
  "fx_node i origin chain family supports =
     \<lparr>en_evidence = \<lparr>artifact_id = i, created_at = 0, ve_claim = ''c'', ve_supports = supports, ve_source_ids = [],
        ve_source_family = family, ve_origin = origin, ve_syndication = chain, ve_observed_at = 0, ve_first_available_at = 1,
        ve_lineage = [], ve_model_version = None, ve_provider_route = None, ve_prompt_version = None,
        ve_capability_version = None, ve_assumptions = [], ve_uncertainty = d0, ve_expires_at = 9, ve_invalidation = []\<rparr>,
      en_factor = family, en_ancestry = None\<rparr>"

definition fx_graph :: evidence_graph where
  "fx_graph = [(1, fx_node 1 ''wire'' [] ''news'' None), (2, fx_node 2 ''desk'' [''lab''] ''risk'' (Some True)),
     (3, fx_node 3 ''blog'' [''wire'', ''desk''] ''macro'' None), (4, fx_node 4 ''bank'' [] ''risk'' None),
     (5, fx_node 5 ''other'' [] ''macro'' (Some False))]"

theorem evidence_gate_sound_witness:
  "\<exists>r. graph_gate 2 2 True (Some (Aware 5 0)) fx_graph = Inr r \<and> er_passed r \<and> er_discounted r = [5, 3, 2] \<and>
     (\<exists>h. linked (set (eligible_nodes (Some 5) fx_graph)) (fx_node 2 ''desk'' [''lab''] ''risk'' (Some True)) h \<and>
        (\<exists>w \<in> set (independent_nodes (eligible_nodes (Some 5) fx_graph)). w = h \<or> node_ancestry h \<noteq> None \<and> node_ancestry w = node_ancestry h))"
proof -
  have ok: "graph_ok fx_graph" by (simp add: graph_ok_def fx_graph_def fx_node_def dict_ok_def)
  have mem: "fx_node 2 ''desk'' [''lab''] ''risk'' (Some True) \<in> set (eligible_nodes (Some 5) fx_graph)"
    by (simp add: eligible_nodes_def fx_graph_def fx_node_def standing_def)
  have run: "graph_gate 2 2 True (Some (Aware 5 0)) fx_graph = Inr \<lparr>er_passed = True, er_origins = [''bank'', ''wire''],
      er_source_families = [''news'', ''risk''], er_factor_families = [''news'', ''risk''], er_discounted = [5, 3, 2], er_reasons = []\<rparr>"
    by code_simp
  show ?thesis
    using evidence_gate_sound [OF ok, of 2 2 "eligible_nodes (Some 5) fx_graph" "Some 5"
        "independent_nodes (eligible_nodes (Some 5) fx_graph)" True 0] mem run
    by auto
qed

end
