(* ===== verification/Instruments.thy ===== *)
theory Instruments
  imports Contracts
begin

text \<open>
  The instrument identity registry (\<open>src/advisorai/identity/instruments.py\<close>): per canonical identifier the
  registered identities, whose half-open validity windows must not overlap, and the resolution of an
  identifier at a time.
\<close>

type_synonym instrument_registry = "(string, instrument list) dict"

definition windows_overlap :: "instrument \<Rightarrow> instrument \<Rightarrow> bool" where
  "windows_overlap i p =
     ((case (valid_from i, valid_to p) of (Some f, Some t) \<Rightarrow> f < t | _ \<Rightarrow> True) \<and>
      (case (valid_from p, valid_to i) of (Some f, Some t) \<Rightarrow> f < t | _ \<Rightarrow> True))"

definition register_instrument :: "instrument \<Rightarrow> (instrument_registry, unit) action" where
  "register_instrument i g =
     (let existing = dict_get g (canonical_id i) [] in
      case find (\<lambda>x. artifact_id x = artifact_id i) existing of
        Some x \<Rightarrow> if x \<noteq> i then (Inl (ValueError ''instrument identity artifact is immutable''), g) else (Inr (), g)
      | None \<Rightarrow>
        if list_ex (windows_overlap i) existing
        then (Inl (ValueError ''instrument validity windows overlap for canonical ID''), g)
        else (Inr (), dict_set (canonical_id i) (existing @ [i]) g))"

definition valid_at :: "utc \<Rightarrow> instrument \<Rightarrow> bool" where
  "valid_at t i \<longleftrightarrow> opt_all (\<lambda>f. f \<le> t) (valid_from i) \<and> opt_all (\<lambda>e. t < e) (valid_to i)"

definition resolve_instrument :: "string \<Rightarrow> pydatetime \<Rightarrow> instrument_registry \<Rightarrow> instrument res" where
  "resolve_instrument cid as_of g =
     rbind (aware ''instrument resolution cutoff must include a timezone'' as_of) (\<lambda>t.
       case find (valid_at t) (dict_get g cid []) of
         Some i \<Rightarrow> Inr i
       | None \<Rightarrow> Inl (KeyError ''no valid instrument identity''))"

section \<open>Resolution is unambiguous\<close>

definition window_ok :: "instrument \<Rightarrow> bool" where
  "window_ok i \<longleftrightarrow> (case (valid_from i, valid_to i) of (Some f, Some t) \<Rightarrow> f < t | _ \<Rightarrow> True)"

definition registry_fits :: "instrument_registry \<Rightarrow> bool" where
  "registry_fits g \<longleftrightarrow> (\<forall>cid. \<forall>i \<in> set (dict_get g cid []). canonical_id i = cid \<and> window_ok i) \<and>
     (\<forall>cid. \<forall>i \<in> set (dict_get g cid []). \<forall>j \<in> set (dict_get g cid []). i \<noteq> j \<longrightarrow> \<not> windows_overlap i j)"

lemma mk_instrument_window: "mk_instrument a c cid cls v s b q f t = Inr i \<Longrightarrow> window_ok i"
  by (auto simp: mk_instrument_def rbind_eq_Inr window_ok_def split: if_splits option.splits)

lemma windows_overlap_sym: "windows_overlap i j \<longleftrightarrow> windows_overlap j i"
  by (auto simp: windows_overlap_def)

text \<open>The overlap test is right: two non-empty windows overlap when a time lies in both.\<close>

lemma overlap_iff:
  assumes "window_ok i" "window_ok j"
  shows "windows_overlap i j \<longleftrightarrow> (\<exists>t. valid_at t i \<and> valid_at t j)"
proof
  assume "\<exists>t. valid_at t i \<and> valid_at t j"
  then show "windows_overlap i j"
    by (auto simp: windows_overlap_def valid_at_def opt_all_def split: option.splits)
next
  let ?lo = "\<lambda>x d :: utc. case valid_from x of None \<Rightarrow> d | Some f \<Rightarrow> f"
  assume over: "windows_overlap i j"
  show "\<exists>t. valid_at t i \<and> valid_at t j"
  proof (cases "valid_from i = None \<and> valid_from j = None")
    case True
    define t where "t = min (case valid_to i of None \<Rightarrow> 0 | Some e \<Rightarrow> e) (case valid_to j of None \<Rightarrow> 0 | Some e \<Rightarrow> e) - 1"
    have "valid_at t i \<and> valid_at t j" using True by (auto simp: t_def valid_at_def opt_all_def split: option.splits)
    then show ?thesis by blast
  next
    case False
    define t where "t = max (?lo i (?lo j 0)) (?lo j (?lo i 0))"
    have "valid_at t i \<and> valid_at t j"
      using False over assms by (auto simp: t_def valid_at_def opt_all_def windows_overlap_def window_ok_def split: option.splits)
    then show ?thesis by blast
  qed
qed

lemma register_cases:
  assumes "register_instrument i g = (r, g')"
  obtains (same) "g' = g" | (new) "g' = dict_set (canonical_id i) (dict_get g (canonical_id i) [] @ [i]) g"
    "\<forall>j \<in> set (dict_get g (canonical_id i) []). \<not> windows_overlap i j" "r = Inr ()"
  using assms by (auto simp: register_instrument_def Let_def list_ex_iff split: option.splits if_splits)

lemma dict_get_dict_set [simp]: "dict_get (dict_set k v d) j w = (if j = k then v else dict_get d j w)"
  by (simp add: dict_get_def)

lemma register_fits:
  assumes "registry_fits g" "window_ok i" "register_instrument i g = (r, g')"
  shows "registry_fits g'"
  using assms(3)
proof (cases rule: register_cases)
  case new
  then show ?thesis using assms(1,2) windows_overlap_sym unfolding registry_fits_def new(1) by auto
qed (use assms(1) in simp)

lemma at_most_one:
  assumes "registry_fits g" "i \<in> set (dict_get g cid [])" "j \<in> set (dict_get g cid [])" "valid_at t i" "valid_at t j"
  shows "i = j"
  using assms overlap_iff [of i j] unfolding registry_fits_def by blast

lemma resolve_iff:
  assumes "registry_fits g"
  shows "resolve_instrument cid (Aware t off) g = Inr i \<longleftrightarrow> i \<in> set (dict_get g cid []) \<and> valid_at t i"
  using at_most_one [OF assms, of _ cid _ t]
  by (auto simp: resolve_instrument_def find_None_iff split: option.splits) (auto simp: find_Some_iff in_set_conv_nth)

fun register_all :: "instrument list \<Rightarrow> instrument_registry \<Rightarrow> instrument_registry" where
  "register_all [] g = g"
| "register_all (i # is) g = register_all is (snd (register_instrument i g))"

lemma register_all_fits: "registry_fits g \<Longrightarrow> list_all window_ok is \<Longrightarrow> registry_fits (register_all is g)"
proof (induction "is" g rule: register_all.induct)
  case (2 i "is" g)
  then show ?case using register_fits [of g i] by (cases "register_instrument i g") auto
qed simp

lemma register_keeps:
  assumes "j \<in> set (dict_get g cid [])" shows "j \<in> set (dict_get (snd (register_instrument i g)) cid [])"
proof -
  obtain r g' where run: "register_instrument i g = (r, g')" by fastforce
  then have "j \<in> set (dict_get g' cid [])" using assms by (cases rule: register_cases) auto
  then show ?thesis by (simp add: run)
qed

lemma register_all_keeps: "j \<in> set (dict_get g cid []) \<Longrightarrow> j \<in> set (dict_get (register_all is g) cid [])"
  by (induction "is" g rule: register_all.induct) (simp_all add: register_keeps)

text \<open>C32: Instrument resolution: after any registrations of validated identities (refused ones included) an
  identifier resolves at a time to an identity exactly when that identity is registered under it and valid
  then, at most one is, and later registrations never change a resolution.\<close>

theorem instrument_resolution:
  assumes "list_all window_ok is" "list_all window_ok js" "g = register_all is []"
  shows "(resolve_instrument cid (Aware t off) g = Inr i \<longleftrightarrow> i \<in> set (dict_get g cid []) \<and> valid_at t i) \<and>
    (\<forall>k \<in> set (dict_get g cid []). \<forall>l \<in> set (dict_get g cid []). valid_at t k \<and> valid_at t l \<longrightarrow> k = l) \<and>
    (resolve_instrument cid (Aware t off) g = Inr i \<longrightarrow>
       resolve_instrument cid (Aware t off) (register_all js g) = Inr i)"
proof -
  have "registry_fits []" by (simp add: registry_fits_def dict_get_def)
  then have g: "registry_fits g" using assms(1,3) register_all_fits by blast
  then have h: "registry_fits (register_all js g)" using assms(2) register_all_fits by blast
  show ?thesis
    using resolve_iff [OF g] resolve_iff [OF h] at_most_one [OF g] register_all_keeps by blast
qed

definition ix_inst :: "nat \<Rightarrow> utc option \<Rightarrow> utc option \<Rightarrow> instrument" where
  "ix_inst i f t = \<lparr>artifact_id = i, created_at = 0, canonical_id = ''BTC'', asset_class = Crypto, inst_venue = None,
     venue_symbol = None, base_asset = None, quote_asset = None, valid_from = f, valid_to = t\<rparr>"

theorem instrument_resolution_witness:
  "resolve_instrument ''BTC'' (Aware 5 0) (register_all [ix_inst 3 (Some 3) None]
     (register_all [ix_inst 1 None (Some 5), ix_inst 2 (Some 5) (Some 9), ix_inst 4 (Some 8) None] [])) = Inr (ix_inst 2 (Some 5) (Some 9))"
proof -
  let ?is = "[ix_inst 1 None (Some 5), ix_inst 2 (Some 5) (Some 9), ix_inst 4 (Some 8) None]"
  have "resolve_instrument ''BTC'' (Aware 5 0) (register_all ?is []) = Inr (ix_inst 2 (Some 5) (Some 9))" by code_simp
  moreover have "list_all window_ok ?is" "list_all window_ok [ix_inst 3 (Some 3) None]"
    by (simp_all add: window_ok_def ix_inst_def)
  ultimately show ?thesis using instrument_resolution by blast
qed

end
