(* ===== verification/Reconcile.thy ===== *)
theory Reconcile
  imports Oms_Recovery Account_Ledger Risk_Properties
begin

text \<open>
  The reconciliation service (\<open>src/advisorai/execution/reconciliation.py\<close>): an independent view of the
  account by the venue, the comparison of orders, fills, account and venue view, and the idempotent record
  of the outcome in the order ledger.

  The digests of the account document and of the canonical JSON of a reconciliation are parameters, as is
  \<open>uuid5\<close> of a name.  The document of a reconciliation leaves its identity and creation time out.
\<close>

section \<open>The view of the venue\<close>

record ('n, 't) venue_view =
  vv_as_of :: 't
  vv_cash :: 'n
  vv_positions :: "(string, 'n) dict"
  vv_margin_used :: "'n option"
  vv_margin_available :: "'n option"
  vv_open_orders :: "uuid list option"

type_synonym venue_snapshot = "(dec, utc) venue_view"

definition view_value :: "(raw_dec, pydatetime) venue_view \<Rightarrow> utc \<Rightarrow> venue_snapshot" where
  "view_value v t = \<lparr>vv_as_of = t, vv_cash = raw_val (vv_cash v), vv_positions = raw_dict (vv_positions v),
     vv_margin_used = map_option raw_val (vv_margin_used v), vv_margin_available = map_option raw_val (vv_margin_available v),
     vv_open_orders = vv_open_orders v\<rparr>"

definition mk_venue_snapshot :: "(raw_dec, pydatetime) venue_view \<Rightarrow> venue_snapshot res" where
  "mk_venue_snapshot v =
     rbind (aware ''venue snapshot timestamp must include a timezone'' (vv_as_of v)) (\<lambda>t.
     if \<not> is_finite (vv_cash v) \<or> list_ex (\<lambda>(k, x). \<not> is_finite x) (vv_positions v)
     then Inl (ValueError ''venue account values must be finite'')
     else if list_ex (\<lambda>(k, x). blank k) (vv_positions v)
     then Inl (ValueError ''venue position identifiers cannot be blank'')
     else if \<not> opt_all (\<lambda>x. is_finite x \<and> \<not> dlt (raw_val x) d0) (vv_margin_used v)
     then Inl (ValueError ''venue margin used must be finite and non-negative'')
     else if \<not> opt_all (\<lambda>x. is_finite x \<and> \<not> dlt (raw_val x) d0) (vv_margin_available v)
     then Inl (ValueError ''venue margin available must be finite and non-negative'')
     else Inr (view_value v t))"

section \<open>Discrepancies\<close>

definition open_states :: "order_state list" where
  "open_states = [ROUTED, ACKNOWLEDGED, PARTIALLY_FILLED, CANCEL_PENDING]"

definition terminal_states :: "order_state list" where
  "terminal_states = [FILLED, CANCELLED, REJECTED, EXPIRED]"

definition order_discrepancies :: "(string, fill) dict \<Rightarrow> order \<Rightarrow> string list" where
  "order_discrepancies fills r =
     (let fq = filled_quantity (artifact_id r) fills in
      reason_if (dlt (ord_quantity r) fq)
        (''order_fill_quantity_overrun:'' @ uuid_str (artifact_id r) @ '':'' @ dec_str fq @ ''>'' @ dec_str (ord_quantity r)) @
      reason_if (ord_state r = FILLED \<and> \<not> deq fq (ord_quantity r))
        (''filled_order_quantity_mismatch:'' @ uuid_str (artifact_id r)) @
      reason_if (ord_state r = PARTIALLY_FILLED \<and> order_fills (artifact_id r) fills = [])
        (''partial_order_without_fill:'' @ uuid_str (artifact_id r)))"

definition oms_discrepancies :: "('v, 'b) oms \<Rightarrow> string list" where
  "oms_discrepancies m =
     reason_if (om_ambiguous m \<noteq> []) ''ambiguous_order_acknowledgement_pending'' @
     reason_if (list_ex (\<lambda>(i, r). ord_state r = ROUTED) (om_orders m)) ''routed_order_acknowledgement_pending'' @
     reason_if (list_ex (\<lambda>(v, f). \<not> dict_has (om_orders m) (fill_order_id f)) (om_fills m)) ''fills_reference_unknown_order'' @
     concat (map (\<lambda>(i, r). order_discrepancies (om_fills m) r) (om_orders m))"

definition booking_discrepancies :: "('v, 'b) oms \<Rightarrow> 'c acct_ledger option \<Rightarrow> string list" where
  "booking_discrepancies m ledger = (case ledger of None \<Rightarrow> []
     | Some al \<Rightarrow>
       let missing = filter (\<lambda>v. PText v \<notin> applied_fill_ids al) (map (\<lambda>(v, f). venue_fill_id f) (om_fills m))
       in reason_if (missing \<noteq> []) (''fills_missing_from_account_ledger:'' @ join '','' (sort missing)))"

definition terminal_discrepancies :: "('v, 'b) oms \<Rightarrow> string list" where
  "terminal_discrepancies m =
     reason_if (list_ex (\<lambda>(i, r). ord_state r \<in> set terminal_states) (om_orders m)) ''terminal_orders_not_reconciled''"

definition position_discrepancies :: "snapshot \<Rightarrow> venue_snapshot \<Rightarrow> string list" where
  "position_discrepancies sn v =
     concat (map (\<lambda>i. let lv = dict_get (sn_positions sn) i d0; vv = dict_get (vv_positions v) i d0
        in reason_if (\<not> deq lv vv) (''venue_position_mismatch:'' @ i @ '':'' @ dec_str vv @ ''!='' @ dec_str lv))
       (sort (remdups (map fst (sn_positions sn) @ map fst (vv_positions v)))))"

definition open_order_discrepancies :: "('v, 'b) oms \<Rightarrow> venue_snapshot \<Rightarrow> string list" where
  "open_order_discrepancies m v = (case vv_open_orders v of None \<Rightarrow> []
     | Some ids \<Rightarrow>
       let local = map (\<lambda>(i, r). artifact_id r) (filter (\<lambda>(i, r). ord_state r \<in> set open_states) (om_orders m));
           missing = sort_key uuid_str (remdups (filter (\<lambda>i. i \<notin> set ids) local));
           unknown = sort_key uuid_str (remdups (filter (\<lambda>i. i \<notin> set local) ids))
       in reason_if (missing \<noteq> []) (''local_open_orders_missing_at_venue:'' @ join '','' (map uuid_str missing)) @
          reason_if (unknown \<noteq> []) (''venue_open_orders_unknown_locally:'' @ join '','' (map uuid_str unknown)))"

definition venue_discrepancies :: "('v, 'b) oms \<Rightarrow> snapshot \<Rightarrow> venue_snapshot option \<Rightarrow> string list" where
  "venue_discrepancies m sn view = (case view of None \<Rightarrow> []
     | Some v \<Rightarrow>
       reason_if (sn_as_of sn < vv_as_of v) ''local_account_state_lags_venue_snapshot'' @
       reason_if (\<not> deq (vv_cash v) (sn_cash sn))
         (''venue_cash_mismatch:'' @ dec_str (vv_cash v) @ ''!='' @ dec_str (sn_cash sn)) @
       position_discrepancies sn v @
       (case vv_margin_used v of None \<Rightarrow> [] | Some x \<Rightarrow>
          reason_if (\<not> deq x (sn_margin_used sn))
            (''venue_margin_used_mismatch:'' @ dec_str x @ ''!='' @ dec_str (sn_margin_used sn))) @
       (case vv_margin_available v of None \<Rightarrow> [] | Some x \<Rightarrow>
          reason_if (case sn_margin_available sn of None \<Rightarrow> True | Some y \<Rightarrow> \<not> deq x y)
            (''venue_margin_available_mismatch:'' @ dec_str x @ ''!='' @
             (case sn_margin_available sn of None \<Rightarrow> ''None'' | Some y \<Rightarrow> dec_str y))) @
       open_order_discrepancies m v)"

definition discrepancies :: "('v, 'b) oms \<Rightarrow> snapshot \<Rightarrow> 'c acct_ledger option \<Rightarrow> venue_snapshot option \<Rightarrow> string list" where
  "discrepancies m sn ledger view =
     oms_discrepancies m @ booking_discrepancies m ledger @ terminal_discrepancies m @ venue_discrepancies m sn view"

section \<open>The service\<close>

record rc_env =
  rc_sha :: "account_doc \<Rightarrow> string"
  rc_hash :: "reconciliation \<Rightarrow> string"
  rc_uuid5 :: "string \<Rightarrow> uuid"
  rc_uuid :: "nat \<Rightarrow> uuid"
  rc_now :: "nat \<Rightarrow> utc"

record rc_service =
  rs_ledgers :: "ledgers option"
  rs_draws :: nat

definition logical_reconciliation :: "reconciliation \<Rightarrow> reconciliation" where
  "logical_reconciliation c = c\<lparr>artifact_id := 0, created_at := 0\<rparr>"

definition compare_books ::
  "rc_env \<Rightarrow> nat \<Rightarrow> account \<Rightarrow> ('v, 'b) oms \<Rightarrow> 'c acct_ledger option \<Rightarrow> venue_snapshot option \<Rightarrow> reconciliation res" where
  "compare_books E n a m ledger view =
     rbind (take_snapshot (rc_sha E) a) (\<lambda>sn.
       let ds = discrepancies m sn ledger view in
       mk_reconciliation (rc_uuid E n) (Aware (rc_now E n) 0) (Aware (ac_as_of a) 0) (sn_state_hash sn)
         (sort_key uuid_str (map fst (om_orders m)))
         (sort_key uuid_str (map (\<lambda>(v, f). artifact_id f) (om_fills m)))
         (ds = []) ds)"

definition final_reconciliation :: "rc_env \<Rightarrow> reconciliation \<Rightarrow> reconciliation" where
  "final_reconciliation E c =
     c\<lparr>artifact_id := rc_uuid5 E (''advisorai-v3/reconciliation/'' @ rc_hash E (logical_reconciliation c)),
       created_at := rec_as_of c\<rparr>"

definition reconciliation_key :: "rc_env \<Rightarrow> reconciliation \<Rightarrow> string" where
  "reconciliation_key E c =
     ''reconciliation:'' @ rec_account_state_hash c @ '':'' @ take 24 (rc_hash E (logical_reconciliation c))"

definition reconciliation_event :: "rc_env \<Rightarrow> reconciliation \<Rightarrow> nat \<Rightarrow> ledger_event" where
  "reconciliation_event E c n =
     \<lparr>event_id = rc_uuid E n, ev_namespace = NS_ORDER, event_type = ''reconciliation_recorded'',
      ev_key = reconciliation_key E c, ev_occurred_at = rc_now E n,
      ev_payload = [(''artifact'', PRecon (final_reconciliation E c))]\<rparr>"

definition run_reconciliation ::
  "rc_env \<Rightarrow> account \<Rightarrow> ('v, 'b) oms \<Rightarrow> 'c acct_ledger option \<Rightarrow> venue_snapshot option \<Rightarrow> (rc_service, reconciliation) action" where
  "run_reconciliation E a m ledger view =
     sbind (sget rs_draws) (\<lambda>n.
     sbind (smodify (\<lambda>s. s\<lparr>rs_draws := Suc n\<rparr>)) (\<lambda>_.
     sbind (spure (\<lambda>_. compare_books E n a m ledger view)) (\<lambda>c.
     sbind (sget rs_ledgers) (\<lambda>L. case L of
       None \<Rightarrow> sreturn c
     | Some M \<Rightarrow>
       (\<lambda>s. let (r, M') = ledger_append (reconciliation_event E c (Suc n)) M
            in (rbind r (\<lambda>_. Inr (final_reconciliation E c)),
                s\<lparr>rs_draws := Suc (Suc n), rs_ledgers := Some M'\<rparr>))))))"


section \<open>What a clean reconciliation means\<close>

definition order_settled :: "(string, fill) dict \<Rightarrow> order \<Rightarrow> bool" where
  "order_settled fills r \<longleftrightarrow>
     ord_state r \<in> {CREATED, RISK_APPROVED, ACKNOWLEDGED, PARTIALLY_FILLED, CANCEL_PENDING, RECONCILED} \<and>
     dval (filled_quantity (artifact_id r) fills) \<le> dval (ord_quantity r) \<and>
     (ord_state r = PARTIALLY_FILLED \<longrightarrow> order_fills (artifact_id r) fills \<noteq> [])"

definition view_agrees :: "('v, 'b) oms \<Rightarrow> snapshot \<Rightarrow> venue_snapshot \<Rightarrow> bool" where
  "view_agrees m sn v \<longleftrightarrow> vv_as_of v \<le> sn_as_of sn \<and> dval (vv_cash v) = dval (sn_cash sn) \<and>
     (\<forall>i. dval (dict_get (vv_positions v) i d0) = dval (dict_get (sn_positions sn) i d0)) \<and>
     opt_all (\<lambda>x. dval x = dval (sn_margin_used sn)) (vv_margin_used v) \<and>
     opt_all (\<lambda>x. map_option dval (sn_margin_available sn) = Some (dval x)) (vv_margin_available v) \<and>
     opt_all (\<lambda>ids. set ids = {artifact_id r | i r. (i, r) \<in> set (om_orders m) \<and> ord_state r \<in> set open_states})
       (vv_open_orders v)"

definition books_agree :: "('v, 'b) oms \<Rightarrow> snapshot \<Rightarrow> 'c acct_ledger option \<Rightarrow> venue_snapshot option \<Rightarrow> bool" where
  "books_agree m sn ledger view \<longleftrightarrow> om_ambiguous m = [] \<and>
     (\<forall>(i, r) \<in> set (om_orders m). order_settled (om_fills m) r) \<and>
     (\<forall>(v, f) \<in> set (om_fills m). dict_has (om_orders m) (fill_order_id f)) \<and>
     opt_all (\<lambda>al. \<forall>(v, f) \<in> set (om_fills m). PText (venue_fill_id f) \<in> applied_fill_ids al) ledger \<and>
     opt_all (view_agrees m sn) view"

lemma order_discrepancies_Nil:
  "order_discrepancies fills r = [] \<longleftrightarrow> dval (filled_quantity (artifact_id r) fills) \<le> dval (ord_quantity r) \<and>
     (ord_state r = FILLED \<longrightarrow> dval (filled_quantity (artifact_id r) fills) = dval (ord_quantity r)) \<and>
     (ord_state r = PARTIALLY_FILLED \<longrightarrow> order_fills (artifact_id r) fills \<noteq> [])"
  by (auto simp: order_discrepancies_def Let_def dcmp)

lemma settled_iff:
  "order_settled fills r \<longleftrightarrow>
     order_discrepancies fills r = [] \<and> ord_state r \<noteq> ROUTED \<and> ord_state r \<notin> set terminal_states"
  by (cases "ord_state r") (auto simp: order_settled_def order_discrepancies_Nil terminal_states_def)

lemma booking_discrepancies_Nil:
  "booking_discrepancies m ledger = [] \<longleftrightarrow>
     opt_all (\<lambda>al. \<forall>(v, f) \<in> set (om_fills m). PText (venue_fill_id f) \<in> applied_fill_ids al) ledger"
  by (cases ledger) (auto simp: booking_discrepancies_def opt_all_def Let_def filter_empty_conv split: prod.splits)

lemma dict_get_absent: "i \<notin> fst ` set d \<Longrightarrow> dict_get d i v = v"
  by (force simp: dict_get_def split: option.splits dest: map_of_SomeD)

lemma position_discrepancies_Nil:
  "position_discrepancies sn v = [] \<longleftrightarrow>
     (\<forall>i. dval (dict_get (vv_positions v) i d0) = dval (dict_get (sn_positions sn) i d0))"
proof -
  let ?S = "fst ` set (sn_positions sn) \<union> fst ` set (vv_positions v)"
  have "position_discrepancies sn v = [] \<longleftrightarrow>
      (\<forall>i \<in> ?S. dval (dict_get (vv_positions v) i d0) = dval (dict_get (sn_positions sn) i d0))"
    by (auto simp: position_discrepancies_def Let_def dcmp ball_Un)
  moreover have "dval (dict_get (vv_positions v) i d0) = dval (dict_get (sn_positions sn) i d0)" if "i \<notin> ?S" for i
    using that by (simp add: dict_get_absent)
  ultimately show ?thesis by blast
qed

lemma open_order_discrepancies_Nil:
  "open_order_discrepancies m v = [] \<longleftrightarrow>
     opt_all (\<lambda>ids. set ids = {artifact_id r | i r. (i, r) \<in> set (om_orders m) \<and> ord_state r \<in> set open_states})
       (vv_open_orders v)"
proof (cases "vv_open_orders v")
  case (Some ids)
  let ?local = "{artifact_id r | i r. (i, r) \<in> set (om_orders m) \<and> ord_state r \<in> set open_states}"
  have local: "set (map (\<lambda>(i, r). artifact_id r) (filter (\<lambda>(i, r). ord_state r \<in> set open_states) (om_orders m))) = ?local"
    by force
  have "sort_key uuid_str (remdups xs) = [] \<longleftrightarrow> xs = []" for xs
    by (metis remdups_eq_nil_iff set_empty set_sort)
  then show ?thesis
    unfolding open_order_discrepancies_def Some option.case Let_def local
    by (auto simp: Some opt_all_def filter_empty_conv local [simplified])
qed (simp add: open_order_discrepancies_def opt_all_def)

lemma discrepancies_Nil: "discrepancies m sn ledger view = [] \<longleftrightarrow> books_agree m sn ledger view"
proof -
  have "venue_discrepancies m sn view = [] \<longleftrightarrow> opt_all (view_agrees m sn) view"
    by (cases view) (auto simp: venue_discrepancies_def view_agrees_def opt_all_def position_discrepancies_Nil
        open_order_discrepancies_Nil dcmp split: option.splits)
  moreover have "oms_discrepancies m = [] \<and> terminal_discrepancies m = [] \<longleftrightarrow> om_ambiguous m = [] \<and>
      (\<forall>(i, r) \<in> set (om_orders m). order_settled (om_fills m) r) \<and>
      (\<forall>(v, f) \<in> set (om_fills m). dict_has (om_orders m) (fill_order_id f))"
    by (fastforce simp: oms_discrepancies_def terminal_discrepancies_def settled_iff list_ex_iff)
  ultimately show ?thesis
    by (auto simp: discrepancies_def books_agree_def booking_discrepancies_Nil)
qed


section \<open>Recording\<close>

lemma snapshot_is_digest: "take_snapshot sha a = Inr s \<Longrightarrow> is_digest (sn_state_hash s)"
  by (auto simp: take_snapshot_def check_snapshot_def split: if_splits)

lemma compare_books_Inr:
  assumes "compare_books E n a m ledger view = Inr c"
  obtains sn where "take_snapshot (rc_sha E) a = Inr sn" "rec_reconciled c \<longleftrightarrow> books_agree m sn ledger view"
    "rec_discrepancies c = map strip (discrepancies m sn ledger view)" "rec_account_state_hash c = sn_state_hash sn"
  using assms
  by (auto simp: compare_books_def rbind_eq_Inr Let_def mk_reconciliation_def field_Inr discrepancies_Nil is_digest_strip
      split: if_splits dest: snapshot_is_digest)

lemma compare_books_logical:
  assumes "compare_books E n a m ledger view = Inr c"
  shows "\<exists>c'. compare_books E k a m ledger view = Inr c' \<and> logical_reconciliation c' = logical_reconciliation c"
  using assms
  by (auto simp: compare_books_def rbind_eq_Inr Let_def mk_reconciliation_def require_aware_def logical_reconciliation_def
      split: if_splits)

lemma logical_determines:
  assumes "logical_reconciliation c' = logical_reconciliation c"
  shows "final_reconciliation E c' = final_reconciliation E c" "reconciliation_key E c' = reconciliation_key E c"
proof -
  have same: "rec_as_of c' = rec_as_of c" "rec_account_state_hash c' = rec_account_state_hash c"
    using arg_cong [OF assms, of rec_as_of] arg_cong [OF assms, of rec_account_state_hash]
    by (simp_all add: logical_reconciliation_def)
  show "final_reconciliation E c' = final_reconciliation E c"
    using assms same unfolding final_reconciliation_def
    by (cases c; cases c') (simp add: logical_reconciliation_def)
  show "reconciliation_key E c' = reconciliation_key E c"
    using assms same by (simp add: reconciliation_key_def)
qed

lemma run_reconciliation_eq:
  "rs_ledgers s = Some M \<Longrightarrow> run_reconciliation E a m ledger view s =
     (case compare_books E (rs_draws s) a m ledger view of
        Inl e \<Rightarrow> (Inl e, s\<lparr>rs_draws := Suc (rs_draws s)\<rparr>)
      | Inr c \<Rightarrow> let (r, M') = ledger_append (reconciliation_event E c (Suc (rs_draws s))) M
          in (rbind r (\<lambda>_. Inr (final_reconciliation E c)), s\<lparr>rs_draws := Suc (Suc (rs_draws s)), rs_ledgers := Some M'\<rparr>))"
  by (auto simp: run_reconciliation_def Let_def split: sum.split prod.split)

lemma append_again:
  assumes "ledger_append e M = (Inr x, M')" "ev_namespace e' = ev_namespace e" "ev_key e' = ev_key e"
    "event_type e' = event_type e" "ev_payload e' = ev_payload e"
  shows "\<exists>y. ledger_append e' M' = (Inr y, M')"
proof -
  let ?ns = "ev_namespace e"
  obtain r rows where app: "append_rows e (M ?ns) = (r, rows)" by fastforce
  then have M': "r = Inr x" "M' = M(?ns := rows)" using assms(1) by (auto simp: ledger_append_def)
  have "\<exists>y. find_key (ev_key e) rows = Some y \<and> same_content y e"
  proof (cases "find_key (ev_key e) (M ?ns)")
    case None
    then have "rows = M ?ns @ [stored e]" using app M'(1) by (auto simp: append_rows_eq split: if_splits)
    moreover have "find_key (ev_key e) [stored e] = Some (stored e)" by (simp add: find_key_def)
    ultimately show ?thesis using None by (simp add: find_key_append)
  qed (use app M'(1) in \<open>auto simp: append_rows_eq matching_prior_def split: if_splits\<close>)
  then show ?thesis
    using assms(2-5) by (auto simp: ledger_append_def M'(2) append_rows_eq matching_prior_def same_content_def fun_upd_idem)
qed

text \<open>A reconciliation row is invisible to the recovery of the order manager.\<close>

lemma hydrate_reconciliation: "hydrate_event O' (stored (reconciliation_event E c n)) = sreturn ()"
  by (auto simp: hydrate_event_def reconciliation_event_def stored_def payload_json_single Let_def starts_order_def
      catch_as_def sreturn_def)

lemma run_reconciliation_Inr:
  assumes "run_reconciliation E a m ledger view s = (Inr c, s')"
  obtains c0 where "compare_books E (rs_draws s) a m ledger view = Inr c0" "c = c0 \<or> c = final_reconciliation E c0"
  using assms
  by (auto simp: run_reconciliation_def Let_def rbind_eq_Inr split: option.splits prod.splits sum.splits)

lemma final_reconciliation_fields [simp]:
  "rec_reconciled (final_reconciliation E c) = rec_reconciled c" "rec_discrepancies (final_reconciliation E c) = rec_discrepancies c"
  "rec_account_state_hash (final_reconciliation E c) = rec_account_state_hash c"
  by (simp_all add: final_reconciliation_def)

lemma compare_books_ok:
  assumes "acct_ok a" "is_digest (rc_sha E (account_doc a))" "dict_ok (om_orders m)"
    and "distinct (map (\<lambda>(v, f). artifact_id f) (om_fills m))"
  shows "\<exists>c. compare_books E n a m ledger view = Inr c"
proof -
  obtain sn where "take_snapshot (rc_sha E) a = Inr sn" "sn_state_hash sn = rc_sha E (account_doc a)"
    using take_snapshot_ok [OF assms(1), of "rc_sha E"] assms(2) by blast
  then show ?thesis
    using assms by (simp add: compare_books_def mk_reconciliation_def Let_def require_aware_def is_digest_strip dict_ok_def
        require_digest_def is_digest_def)
qed

lemma in_sort_key [simp]: "set (sort_key k xs) = set xs"
  by simp

text \<open>C28: The verdict of a reconciliation: for a well-formed account and order manager the service returns a
  record (without a ledger it cannot fail), bound to the hash of the account it saw, and the record is
  reconciled exactly when no acknowledgement is pending, every order is settled within its quantity, every
  fill belongs to an order and is in the account ledger, and the view of the venue (when given) agrees in
  time, cash, every position, margins and open orders; otherwise it names a discrepancy.\<close>

theorem reconciliation_verdict:
  assumes "acct_ok a" "is_digest (rc_sha E (account_doc a))" "dict_ok (om_orders m)"
    and "distinct (map (\<lambda>(v, f). artifact_id f) (om_fills m))"
  shows "\<exists>sn. take_snapshot (rc_sha E) a = Inr sn \<and>
    (\<forall>s c s'. run_reconciliation E a m ledger view s = (Inr c, s') \<longrightarrow>
       rec_account_state_hash c = sn_state_hash sn \<and> (rec_reconciled c \<longleftrightarrow> books_agree m sn ledger view) \<and>
       (rec_reconciled c \<longleftrightarrow> rec_discrepancies c = [])) \<and>
    (\<forall>s. rs_ledgers s = None \<longrightarrow> is_ok (fst (run_reconciliation E a m ledger view s)))"
proof -
  obtain sn where sn: "take_snapshot (rc_sha E) a = Inr sn" using take_snapshot_ok [OF assms(1), of "rc_sha E"] assms(2) by blast
  have "rec_account_state_hash c = sn_state_hash sn \<and> (rec_reconciled c \<longleftrightarrow> books_agree m sn ledger view) \<and>
      (rec_reconciled c \<longleftrightarrow> rec_discrepancies c = [])"
    if run: "run_reconciliation E a m ledger view s = (Inr c, s')" for s c s'
  proof -
    obtain c0 where c0: "compare_books E (rs_draws s) a m ledger view = Inr c0" "c = c0 \<or> c = final_reconciliation E c0"
      using run_reconciliation_Inr [OF run] by blast
    show ?thesis
      by (rule compare_books_Inr [OF c0(1)]) (use c0(2) sn in \<open>auto simp: discrepancies_Nil\<close>)
  qed
  moreover have "is_ok (fst (run_reconciliation E a m ledger view s))" if "rs_ledgers s = None" for s
    using that compare_books_ok [OF assms, of "rs_draws s" ledger view] by (auto simp: run_reconciliation_def)
  ultimately show ?thesis using sn by blast
qed

lemma reconciliation_key_final: "reconciliation_key E (final_reconciliation E c) = reconciliation_key E c"
  by (simp add: reconciliation_key_def final_reconciliation_def logical_reconciliation_def)

text \<open>C29: A reconciliation is in the ledger, once: after a successful run the order ledger has a row under the key of
  the reconciliation (state hash and digest of the content) whose payload is the record that is returned; the row is
  appended just when no row had that key, and nothing else of any ledger changes; running again on unchanged books returns
  the same record and changes no ledger, although every run draws new identifiers and times; and the restart of
  an order manager reads past the row: it rebuilds the same orders, fills and pending acknowledgements as without it.\<close>

theorem reconciliation_recorded:
  assumes run: "run_reconciliation E a m ledger view s = (Inr c, s')" and M: "rs_ledgers s = Some M"
  shows "\<exists>M' rows row. rs_ledgers s' = Some M' \<and> M' = M(NS_ORDER := M NS_ORDER @ rows) \<and>
    rows = (if reconciliation_key E c \<in> ev_key ` set (M NS_ORDER) then [] else [row]) \<and>
    row \<in> set (M' NS_ORDER) \<and> ev_key row = reconciliation_key E c \<and> event_type row = ''reconciliation_recorded'' \<and>
    ev_payload row = [(''artifact'', PRecon c)] \<and>
    (\<exists>s''. run_reconciliation E a m ledger view s' = (Inr c, s'') \<and> rs_ledgers s'' = Some M') \<and>
    (\<forall>O' v b k r t. new_order_manager O' M v b k = (r, t) \<longrightarrow> is_ok r \<longrightarrow>
       new_order_manager O' M' v b k = (r, t\<lparr>om_ledgers := M'\<rparr>))"
proof -
  let ?n = "rs_draws s" and ?e = "\<lambda>c. reconciliation_event E c"
  obtain c0 where c0: "compare_books E ?n a m ledger view = Inr c0" using run_reconciliation_Inr [OF run] by blast
  obtain x M' where app: "ledger_append (?e c0 (Suc ?n)) M = (Inr x, M')" and c: "c = final_reconciliation E c0"
    and s': "s' = s\<lparr>rs_draws := Suc (Suc ?n), rs_ledgers := Some M'\<rparr>"
    using run by (auto simp: run_reconciliation_eq [OF M] c0 Let_def rbind_eq_Inr split: prod.splits)
  have key: "ev_key (?e c0 (Suc ?n)) = reconciliation_key E c" "ev_namespace (?e c0 (Suc ?n)) = NS_ORDER"
    by (simp_all add: c reconciliation_event_def reconciliation_key_final)
  have content: "event_type row = ''reconciliation_recorded'' \<and> ev_payload row = [(''artifact'', PRecon c)]"
    if "same_content row (?e c0 (Suc ?n))" for row
    using that by (simp add: same_content_def reconciliation_event_def c payload_json_def)
  obtain rows row where rows: "M' = M(NS_ORDER := M NS_ORDER @ rows)" "rows = (if reconciliation_key E c \<in> ev_key ` set (M NS_ORDER) then [] else [row])"
    "row \<in> set (M' NS_ORDER)" "ev_key row = reconciliation_key E c" "same_content row (?e c0 (Suc ?n))" "rows = [] \<or> rows = [stored (?e c0 (Suc ?n))]"
    using app
  proof (cases rule: ledger_append_cases)
    case (prior row)
    then have "reconciliation_key E c \<in> ev_key ` set (M NS_ORDER)" using key by force
    then show thesis using that [of "[]" row] prior key by simp
  next
    case new
    then show thesis
      using that [of "[stored (?e c0 (Suc ?n))]" "stored (?e c0 (Suc ?n))"] key by (simp add: same_content_def)
  qed simp
  obtain c1 where c1: "compare_books E (Suc (Suc ?n)) a m ledger view = Inr c1"
    "final_reconciliation E c1 = c" "reconciliation_key E c1 = reconciliation_key E c0"
    using compare_books_logical [OF c0, of "Suc (Suc ?n)"] logical_determines c by metis
  obtain y where "ledger_append (?e c1 (Suc (Suc (Suc ?n)))) M' = (Inr y, M')"
    using append_again [OF app, of "?e c1 (Suc (Suc (Suc ?n)))"] c1 c by (auto simp: reconciliation_event_def)
  then have again: "\<exists>s''. run_reconciliation E a m ledger view s' = (Inr c, s'') \<and> rs_ledgers s'' = Some M'"
    by (simp add: run_reconciliation_eq s' c1)
  have restart: "new_order_manager O' M' v b k = (r, t\<lparr>om_ledgers := M'\<rparr>)"
    if "new_order_manager O' M v b k = (r, t)" "is_ok r" for O' v b k r t
  proof -
    let ?s0 = "\<lparr>om_ledgers = M, om_venue = v, om_bus = b, om_orders = [], om_fills = [], om_ambiguous = [], om_draws = k\<rparr>"
    have "hydrate_events O' rows = sreturn ()" using rows(6) by (auto simp: hydrate_reconciliation)
    moreover have "hydrate_events O' (M NS_ORDER) ?s0 = (Inr (), t)" "r = Inr ()"
      using that by (cases r; simp add: new_order_manager_def ledger_events_def)+
    moreover from this have "hydrate_events O' (M NS_ORDER) (?s0\<lparr>om_ledgers := M'\<rparr>) = (Inr (), t\<lparr>om_ledgers := M'\<rparr>)"
      by (simp only: hydrate_events_ledgers) simp
    moreover have "M' NS_ORDER = M NS_ORDER @ rows" by (simp add: rows(1))
    ultimately show ?thesis
      by (simp add: new_order_manager_def ledger_events_def hydrate_events_append sbind_apply)
  qed
  have stored: "rs_ledgers s' = Some M'" by (simp add: s')
  show ?thesis
    by (rule exI [of _ M'], rule exI [of _ rows], rule exI [of _ row], intro conjI allI impI)
      (rule stored rows(1-4) content [OF rows(5), THEN conjunct1] content [OF rows(5), THEN conjunct2] again restart | assumption)+
qed

section \<open>Witnesses\<close>

definition rx_env :: rc_env where
  "rx_env = \<lparr>rc_sha = ex_digest, rc_hash = (\<lambda>c. if rec_reconciled c then ''good'' else ''bad''),
     rc_uuid5 = length, rc_uuid = (\<lambda>n. 200 + n), rc_now = int\<rparr>"

definition rx_oms :: "order_state \<Rightarrow> (unit, unit) oms" where
  "rx_oms st = rk_oms\<lparr>om_orders := [(artifact_id rk_order, rk_order\<lparr>ord_state := st\<rparr>)]\<rparr>"

definition rx_view :: "int \<Rightarrow> venue_snapshot" where
  "rx_view c = \<lparr>vv_as_of = 0, vv_cash = Dec c 0, vv_positions = [(''ETH'', d0), (''BTC'', Dec 50 (-1))], vv_margin_used = Some d0,
     vv_margin_available = None, vv_open_orders = Some [artifact_id rk_order]\<rparr>"

definition rx_start :: rc_service where
  "rx_start = \<lparr>rs_ledgers = Some empty_ledgers, rs_draws = 0\<rparr>"

abbreviation rx_run :: "order_state \<Rightarrow> int \<Rightarrow> (rc_service, reconciliation) action" where
  "rx_run st c \<equiv> run_reconciliation rx_env ex_account (rx_oms st) (None :: unit acct_ledger option) (Some (rx_view c))"

theorem reconciliation_verdict_witness:
  "rec_reconciled (the_ok (fst (rx_run ACKNOWLEDGED 100 rx_start))) \<and>
   (\<exists>sn. take_snapshot ex_digest ex_account = Inr sn \<and>
      books_agree (rx_oms ACKNOWLEDGED) sn (None :: unit acct_ledger option) (Some (rx_view 100))) \<and>
   rec_discrepancies (the_ok (fst (rx_run ROUTED 101 rx_start))) =
     [''routed_order_acknowledgement_pending'', ''venue_cash_mismatch:101!=100'']"
proof (intro conjI)
  have ok: "acct_ok ex_account"
    by (rule mk_account_ok [OF ex_account_mk]) (simp_all add: ex_raw_def dict_ok_def)
  have pre: "is_digest (rc_sha rx_env (account_doc ex_account))" "dict_ok (om_orders (rx_oms st))"
    "distinct (map (\<lambda>(v, f). artifact_id f) (om_fills (rx_oms st)))" for st
    by (simp_all add: rx_env_def ex_digest_def is_digest_def list_all_iff is_hex_digit_def rx_oms_def dict_ok_def rk_oms_def)
  show r: "rec_reconciled (the_ok (fst (rx_run ACKNOWLEDGED 100 rx_start)))" by code_simp
  have "is_ok (fst (rx_run ACKNOWLEDGED 100 rx_start))" by code_simp
  then have run: "rx_run ACKNOWLEDGED 100 rx_start =
      (Inr (the_ok (fst (rx_run ACKNOWLEDGED 100 rx_start))), snd (rx_run ACKNOWLEDGED 100 rx_start))"
    by (metis is_ok_the_ok prod.collapse)
  show "\<exists>sn. take_snapshot ex_digest ex_account = Inr sn \<and>
      books_agree (rx_oms ACKNOWLEDGED) sn (None :: unit acct_ledger option) (Some (rx_view 100))"
    using reconciliation_verdict [OF ok pre, of ACKNOWLEDGED "None :: unit acct_ledger option" "Some (rx_view 100)"] run r
    by (auto simp: rx_env_def)
  show "rec_discrepancies (the_ok (fst (rx_run ROUTED 101 rx_start))) =
     [''routed_order_acknowledgement_pending'', ''venue_cash_mismatch:101!=100'']"
    by code_simp
qed

theorem reconciliation_recorded_witness:
  "\<exists>M' row c. fst (rx_run ACKNOWLEDGED 100 rx_start) = Inr c \<and> rs_ledgers (snd (rx_run ACKNOWLEDGED 100 rx_start)) = Some M' \<and>
     M' NS_ORDER = [row] \<and> ev_payload row = [(''artifact'', PRecon c)] \<and>
     rs_ledgers (snd (rx_run ACKNOWLEDGED 100 (snd (rx_run ACKNOWLEDGED 100 rx_start)))) = Some M'"
proof -
  have "is_ok (fst (rx_run ACKNOWLEDGED 100 rx_start))" by code_simp
  then obtain c s' where run: "rx_run ACKNOWLEDGED 100 rx_start = (Inr c, s')"
    by (metis is_ok_the_ok prod.collapse)
  have M: "rs_ledgers rx_start = Some empty_ledgers" by (simp add: rx_start_def)
  from reconciliation_recorded [OF run M] show ?thesis
    unfolding run by (auto simp: empty_ledgers_def)
qed

end
