(* ===== verification/Cadence.thy ===== *)
theory Cadence
  imports Contracts
begin

text \<open>
  The cadence gate (\<open>src/advisorai/runtime/cadence.py\<close>): the closed observation buckets that must exist before
  a decision, and the readiness verdict.  Times are microseconds since the epoch; \<open>int(timestamp())\<close> truncates
  toward zero.
\<close>

record cadence_policy =
  cp_observation :: int
  cp_decision :: int
  cp_context :: int

definition mk_cadence_policy :: "int \<Rightarrow> int \<Rightarrow> int \<Rightarrow> cadence_policy res" where
  "mk_cadence_policy observation decision ctxt =
     rbind (check (60 \<le> observation \<and> observation \<le> 3600) ''observation_interval_seconds'') (\<lambda>_.
     rbind (check (300 \<le> decision \<and> decision \<le> 86400) ''decision_interval_seconds'') (\<lambda>_.
     rbind (check (3600 \<le> ctxt \<and> ctxt \<le> 86400) ''context_interval_seconds'') (\<lambda>_.
     rbind (check (decision mod observation = 0) ''decision interval must contain whole observation intervals'') (\<lambda>_.
     rbind (check (ctxt mod decision = 0) ''context interval must contain whole decision intervals'') (\<lambda>_.
       Inr \<lparr>cp_observation = observation, cp_decision = decision, cp_context = ctxt\<rparr>)))))"

definition second :: int where
  "second = 1000000"

definition whole_seconds :: "utc \<Rightarrow> int" where
  "whole_seconds t = (if t < 0 then - (- t div second) else t div second)"

definition closed_time :: "cadence_policy \<Rightarrow> string \<Rightarrow> pydatetime \<Rightarrow> utc res" where
  "closed_time P label t =
     rbind (aware (label @ '' must include a timezone'') t) (\<lambda>u.
       if whole_seconds u mod cp_observation P \<noteq> 0
       then Inl (ValueError (label @ '' must align to the configured cadence'')) else Inr u)"

definition expected_observation_cutoffs :: "cadence_policy \<Rightarrow> pydatetime \<Rightarrow> utc list res" where
  "expected_observation_cutoffs P cutoff =
     rbind (closed_time P ''decision cutoff'' cutoff) (\<lambda>c.
     let interval = cp_observation P * second;
         count = nat (cp_decision P div cp_observation P);
         start = c - cp_decision P * second + interval
     in Inr (map (\<lambda>index. start + interval * int index) [0..<count]))"

record cadence_readiness =
  rd_cutoff :: utc
  rd_expected :: "utc list"
  rd_observed :: "utc list"
  rd_missing :: "utc list"
  rd_passed :: bool
  rd_reasons :: "string list"

definition mk_cadence_readiness :: "utc \<Rightarrow> utc list \<Rightarrow> utc list \<Rightarrow> utc list \<Rightarrow> bool \<Rightarrow> string list \<Rightarrow> cadence_readiness res" where
  "mk_cadence_readiness cutoff expected observed missing passed reasons =
     rbind (check (\<not> (passed \<and> reasons \<noteq> [])) ''passed cadence readiness cannot contain reasons'') (\<lambda>_.
     rbind (check (\<not> (\<not> passed \<and> reasons = [])) ''failed cadence readiness requires reasons'') (\<lambda>_.
     rbind (check (sorted expected) ''expected cadence cutoffs must be sorted'') (\<lambda>_.
       Inr \<lparr>rd_cutoff = cutoff, rd_expected = expected, rd_observed = observed, rd_missing = missing, rd_passed = passed,
            rd_reasons = reasons\<rparr>)))"

fun closed_times :: "cadence_policy \<Rightarrow> pydatetime list \<Rightarrow> utc list res" where
  "closed_times P [] = Inr []"
| "closed_times P (t # ts) = rbind (closed_time P ''observation cutoff'' t) (\<lambda>u. rbind (closed_times P ts) (\<lambda>us. Inr (u # us)))"

definition quality_admitted :: "string \<Rightarrow> bool" where
  "quality_admitted q \<longleftrightarrow> lower q \<in> {''validated'', ''gold''}"

definition check_cadence ::
  "cadence_policy \<Rightarrow> pydatetime \<Rightarrow> pydatetime list \<Rightarrow> pydatetime option \<Rightarrow> string option \<Rightarrow> cadence_readiness res" where
  "check_cadence P cutoff observations as_of quality =
     rbind (closed_time P ''decision cutoff'' cutoff) (\<lambda>c.
     rbind (expected_observation_cutoffs P (Aware c 0)) (\<lambda>expected.
     rbind (closed_times P observations) (\<lambda>seen.
     let observed = sorted_list_of_set (set seen);
         missing = filter (\<lambda>t. t \<notin> set observed) expected;
         gap = (if missing \<noteq> [] then [''missing_closed_observation_data''] else [])
     in rbind (case as_of of
            None \<Rightarrow> Inr []
          | Some t \<Rightarrow> rbind (aware ''snapshot cutoff must include a timezone'' t) (\<lambda>u.
              Inr (if c < u then [''snapshot_after_cutoff''] else []))) (\<lambda>late.
        let poor = (case quality of None \<Rightarrow> [] | Some q \<Rightarrow> if quality_admitted q then [] else [''data_quality:'' @ q]);
            reasons = gap @ late @ poor
        in mk_cadence_readiness c expected observed missing (reasons = []) (fromkeys reasons)))))"

section \<open>The buckets of a decision\<close>

lemma mk_cadence_policy_Inr:
  "mk_cadence_policy a b c = Inr P \<Longrightarrow>
   60 \<le> cp_observation P \<and> cp_observation P \<le> cp_decision P \<and> cp_observation P dvd cp_decision P \<and> cp_decision P dvd cp_context P"
  by (auto simp: mk_cadence_policy_def rbind_eq_Inr dvd_eq_mod_eq_0 intro: zdvd_imp_le split: if_splits)

lemma closed_time_Inr:
  "closed_time P label t = Inr u \<longleftrightarrow> (\<exists>off. t = Aware u off) \<and> cp_observation P dvd whole_seconds u"
  by (auto simp: closed_time_def rbind_eq_Inr aware_eq_Inr dvd_eq_mod_eq_0 split: if_splits)

lemma closed_times_total:
  "\<forall>t \<in> set ts. \<exists>u off. t = Aware u off \<and> cp_observation P dvd whole_seconds u \<Longrightarrow> \<exists>us. closed_times P ts = Inr us"
proof (induction ts)
  case (Cons t ts)
  then obtain u off us where "t = Aware u off" "cp_observation P dvd whole_seconds u" "closed_times P ts = Inr us" by auto
  then show ?case by (simp add: closed_time_def dvd_eq_mod_eq_0)
qed simp

lemma closed_times_set:
  "closed_times P ts = Inr us \<Longrightarrow> set us = {u. \<exists>off. Aware u off \<in> set ts}"
proof (induction ts arbitrary: us)
  case (Cons t ts)
  then obtain u vs where "us = u # vs" "closed_time P ''observation cutoff'' t = Inr u" "closed_times P ts = Inr vs"
    by (auto simp: rbind_eq_Inr)
  with Cons.IH [of vs] show ?case by (auto simp: closed_time_Inr)
qed simp

text \<open>
  The expected cutoffs of a decision are the grid points of the observation interval in the half-open window
  of one decision interval that ends at the cutoff.
\<close>

lemma expected_sorted: "0 < i \<Longrightarrow> sorted (map (\<lambda>k. a + i * int k) [0..<n])"
  by (simp add: sorted_map sorted_wrt_iff_nth_less)

lemma grid_points:
  fixes c D i t :: int
  assumes "0 < i" "i dvd D" "0 < D"
  shows "(\<exists>k < nat (D div i). t = c - D + i + i * int k) \<longleftrightarrow> c - D < t \<and> t \<le> c \<and> i dvd (c - t)"
proof
  from assms obtain n where D: "D = i * n" "0 < n" by (metis dvdE zero_less_mult_pos)
  have n: "D div i = n" using D assms(1) by simp
  show "c - D < t \<and> t \<le> c \<and> i dvd (c - t)" if "\<exists>k < nat (D div i). t = c - D + i + i * int k"
  proof -
    from that obtain k where "k < nat (D div i)" and t: "t = c - D + i + i * int k" by blast
    then have k: "int k < n" using n by linarith
    have "c - t = i * (n - 1 - int k)" using t D by (simp add: algebra_simps)
    moreover have "0 \<le> i * (n - 1 - int k)" using k assms(1) by simp
    moreover have "i * (n - 1 - int k) < i * n" using assms(1) by simp
    ultimately show ?thesis using D by auto
  qed
  show "\<exists>k < nat (D div i). t = c - D + i + i * int k" if t: "c - D < t \<and> t \<le> c \<and> i dvd (c - t)"
  proof -
    from t obtain m where m: "c - t = i * m" by blast
    have "0 \<le> m" using t m assms(1) by (metis diff_ge_0_iff_ge zero_le_mult_iff less_le_not_le)
    moreover have "i * m < i * n" using t m D by linarith
    then have "m < n" using assms(1) by simp
    ultimately have "int (nat (n - 1 - m)) = n - 1 - m" "nat (n - 1 - m) < nat n" by auto
    moreover have "t = c - D + i + i * (n - 1 - m)" using m D by (simp add: algebra_simps)
    ultimately show ?thesis unfolding n by metis
  qed
qed

definition policy_ok :: "cadence_policy \<Rightarrow> bool" where
  "policy_ok P \<longleftrightarrow> 0 < cp_observation P \<and> 0 < cp_decision P \<and> cp_observation P dvd cp_decision P"

lemma policy_ok_built: "mk_cadence_policy a b c = Inr P \<Longrightarrow> policy_ok P"
  using mk_cadence_policy_Inr by (fastforce simp: policy_ok_def)

lemma expected_set:
  assumes P: "policy_ok P" and e: "expected_observation_cutoffs P (Aware c off) = Inr es"
  shows "set es = {t. c - cp_decision P * second < t \<and> t \<le> c \<and> cp_observation P * second dvd c - t}" "sorted es"
proof -
  let ?i = "cp_observation P * second" and ?D = "cp_decision P * second"
  have pos: "0 < ?i" "?i dvd ?D" "0 < ?D" using P by (auto simp: policy_ok_def second_def)
  have div: "?D div ?i = cp_decision P div cp_observation P" by (simp add: second_def)
  have es: "es = map (\<lambda>k. c - ?D + ?i + ?i * int k) [0..<nat (?D div ?i)]"
    using e unfolding div by (auto simp: expected_observation_cutoffs_def closed_time_def rbind_eq_Inr Let_def split: if_splits)
  show "set es = {t. c - ?D < t \<and> t \<le> c \<and> ?i dvd c - t}"
  proof (rule set_eqI)
    fix t
    have "t \<in> set es \<longleftrightarrow> (\<exists>k < nat (?D div ?i). t = c - ?D + ?i + ?i * int k)" unfolding es by auto
    then show "t \<in> set es \<longleftrightarrow> t \<in> {t. c - ?D < t \<and> t \<le> c \<and> ?i dvd c - t}" using grid_points [OF pos, of t c] by simp
  qed
  show "sorted es" unfolding es using expected_sorted [OF pos(1)] .
qed

lemma fromkeys_Nil [simp]: "fromkeys xs = [] \<longleftrightarrow> xs = []"
  by (cases xs) simp_all

text \<open>C7: A decision is ready exactly when every closed observation bucket of its window was seen.  For a policy that its
  validators admit and a cutoff and observations on the cadence, the check returns a verdict; it is positive exactly when
  every grid point of the observation interval in the decision interval that ends at the cutoff is among the observed
  cutoffs, the snapshot (if given) is not after the cutoff and its quality (if given) is admitted; and the missing
  cutoffs it lists are exactly the unobserved ones.\<close>

theorem cadence_ready_iff:
  assumes P: "mk_cadence_policy a b d = Inr P"
    and c: "cp_observation P dvd whole_seconds c"
    and obs: "\<forall>t \<in> set observations. \<exists>u off. t = Aware u off \<and> cp_observation P dvd whole_seconds u"
    and as_of: "opt_all (\<lambda>t. \<exists>u off. t = Aware u off) as_of"
  shows "\<exists>r. check_cadence P (Aware c off) observations as_of quality = Inr r \<and>
     (let window = {t. c - cp_decision P * second < t \<and> t \<le> c \<and> cp_observation P * second dvd c - t};
          seen = {u. \<exists>off. Aware u off \<in> set observations}
      in (rd_passed r \<longleftrightarrow> window \<subseteq> seen \<and> opt_all (\<lambda>t. \<exists>u off. t = Aware u off \<and> u \<le> c) as_of \<and>
            opt_all quality_admitted quality) \<and>
         set (rd_missing r) = window - seen \<and> c \<in> window)"
proof -
  have ok: "policy_ok P" using P by (rule policy_ok_built)
  have cl: "closed_time P ''decision cutoff'' (Aware c x) = Inr c" for x using c by (simp add: closed_time_Inr)
  obtain es where es: "expected_observation_cutoffs P (Aware c 0) = Inr es"
    by (simp add: expected_observation_cutoffs_def cl Let_def)
  note set_es = expected_set [OF ok es]
  obtain us where us: "closed_times P observations = Inr us"
    using closed_times_total [OF obs] by blast
  note set_us = closed_times_set [OF us]
  define late where "late = (case as_of of None \<Rightarrow> False | Some t \<Rightarrow> (\<exists>u off. t = Aware u off \<and> c < u))"
  have late: "(case as_of of None \<Rightarrow> Inr [] | Some t \<Rightarrow> rbind (aware ''snapshot cutoff must include a timezone'' t) (\<lambda>u.
      Inr (if c < u then [''snapshot_after_cutoff''] else []))) = Inr (if late then [''snapshot_after_cutoff''] else [])"
    using as_of by (auto simp: late_def opt_all_def split: option.splits)
  have not_late: "\<not> late \<longleftrightarrow> opt_all (\<lambda>t. \<exists>u off. t = Aware u off \<and> u \<le> c) as_of"
    using as_of by (auto simp: late_def opt_all_def split: option.splits)
  have c_in: "c \<in> set es" using ok by (auto simp: set_es policy_ok_def second_def)
  define reasons where "reasons = (if filter (\<lambda>t. t \<notin> set us) es \<noteq> [] then [''missing_closed_observation_data''] else []) @
    (if late then [''snapshot_after_cutoff''] else []) @
    (case quality of None \<Rightarrow> [] | Some q \<Rightarrow> if quality_admitted q then [] else [''data_quality:'' @ q])"
  have reasons: "reasons = [] \<longleftrightarrow> set es \<subseteq> set us \<and> \<not> late \<and> opt_all quality_admitted quality"
    by (auto simp: reasons_def opt_all_def filter_empty_conv split: option.splits)
  have "check_cadence P (Aware c off) observations as_of quality =
      mk_cadence_readiness c es (sorted_list_of_set (set us)) (filter (\<lambda>t. t \<notin> set us) es) (reasons = []) (fromkeys reasons)"
    by (simp only: check_cadence_def cl es us late rbind_simps Let_def reasons_def set_sorted_list_of_set [OF finite_set] append_assoc)
  also have "\<dots> = Inr \<lparr>rd_cutoff = c, rd_expected = es, rd_observed = sorted_list_of_set (set us),
      rd_missing = filter (\<lambda>t. t \<notin> set us) es, rd_passed = (reasons = []), rd_reasons = fromkeys reasons\<rparr>"
    using set_es(2) by (simp add: mk_cadence_readiness_def)
  finally have chk: "check_cadence P (Aware c off) observations as_of quality = \<dots>" .
  show ?thesis
    unfolding set_es(1) [symmetric] set_us [symmetric] Let_def not_late [symmetric] chk
    by (intro exI conjI refl) (use c_in in \<open>auto simp: reasons\<close>)
qed

theorem cadence_ready_iff_witness:
  "\<exists>r. check_cadence \<lparr>cp_observation = 1800, cp_decision = 3600, cp_context = 14400\<rparr> (Aware (7200 * second) 0)
      [Aware (7200 * second) 0, Aware (5400 * second) 60] None (Some ''Gold'') = Inr r \<and> rd_passed r"
proof -
  let ?P = "\<lparr>cp_observation = 1800, cp_decision = 3600, cp_context = 14400\<rparr>"
  have P: "mk_cadence_policy 1800 3600 14400 = Inr ?P" by (simp add: mk_cadence_policy_def)
  let ?seen = "{u. \<exists>off. Aware u off \<in> set [Aware (7200 * second) 0, Aware (5400 * second) 60]}"
  let ?window = "{t. 7200 * second - cp_decision ?P * second < t \<and> t \<le> 7200 * second \<and> cp_observation ?P * second dvd 7200 * second - t}"
  have window: "?window \<subseteq> ?seen"
  proof
    fix t assume "t \<in> ?window"
    then obtain k where k: "7200 * second - t = 1800 * second * k" "7200 * second - 3600 * second < t" "t \<le> 7200 * second"
      by (auto simp: dvd_def)
    then have "0 \<le> k" "k < 2" by (simp_all add: second_def)
    then have "k = 0 \<or> k = 1" by auto
    with k(1) show "t \<in> ?seen" by (auto simp: second_def)
  qed
  have q: "quality_admitted ''Gold''" by code_simp
  have c: "cp_observation ?P dvd whole_seconds (7200 * second)" "cp_observation ?P dvd whole_seconds (5400 * second)"
    by (simp_all add: whole_seconds_def second_def)
  have obs: "\<forall>t \<in> set [Aware (7200 * second) 0, Aware (5400 * second) 60]. \<exists>u off. t = Aware u off \<and> cp_observation ?P dvd whole_seconds u"
    using c by auto
  obtain r where "check_cadence ?P (Aware (7200 * second) 0) [Aware (7200 * second) 0, Aware (5400 * second) 60] None (Some ''Gold'') = Inr r"
      "rd_passed r \<longleftrightarrow> ?window \<subseteq> ?seen \<and> opt_all (\<lambda>t. \<exists>u off. t = Aware u off \<and> u \<le> 7200 * second) None \<and>
         opt_all quality_admitted (Some ''Gold'')"
    using cadence_ready_iff [OF P c(1) obs, of None 0 "Some ''Gold''"] by (auto simp only: Let_def opt_all_def option.case)
  then show ?thesis using window q by (auto simp only: opt_all_def option.case)
qed

end
