(* ===== verification/Learning.thy ===== *)
theory Learning
  imports Ledger
begin

text \<open>
  The paper learning loop (\<open>PaperLearningLoop\<close> of \<open>src/advisorai/learning/paper.py\<close>), the incident ledger it
  writes to (\<open>src/advisorai/observability/incidents.py\<close>) and the scorecard store
  (\<open>src/advisorai/memory/scorecards.py\<close>).  The digests of canonical JSON and \<open>uuid5\<close> are parameters.
\<close>

record replay_output =
  ro_passed :: bool
  ro_regression_test :: "string option"
  ro_details :: "string list"
  ro_rest :: "(string \<times> string) list"

record learning_env =
  ln_uuid :: "nat \<Rightarrow> uuid"
  ln_now :: "nat \<Rightarrow> utc"
  ln_uuid5 :: "string \<Rightarrow> uuid"
  ln_incident_hash :: "incident \<Rightarrow> string"
  ln_outcome_hash :: "paper_outcome \<Rightarrow> string"
  ln_output_hash :: "replay_output \<Rightarrow> string"

section \<open>Incidents\<close>

record incident_log =
  il_ledgers :: ledgers
  il_draws :: nat

definition is_object :: "pval \<Rightarrow> bool" where
  "is_object v = (case v of PText t \<Rightarrow> False | PDec d \<Rightarrow> False | PTime t \<Rightarrow> False | PUuid u \<Rightarrow> False | _ \<Rightarrow> True)"

text \<open>The latest version of every incident, in the order in which the incidents were first recorded.\<close>

fun latest_incidents :: "ledger_event list \<Rightarrow> (uuid, incident) dict \<Rightarrow> (uuid, incident) dict res" where
  "latest_incidents [] d = Inr d"
| "latest_incidents (ev # evs) d =
     (if event_type ev \<noteq> ''incident_recorded'' then latest_incidents evs d
      else case map_of (ev_payload ev) ''incident'' of
        Some (PIncident i) \<Rightarrow> rbind (revalidate_incident i) (\<lambda>j. latest_incidents evs (dict_set (in_id j) j d))
      | Some v \<Rightarrow> if is_object v then Inl (ValidationError ''incident'')
          else Inl (ValueError ''incident ledger contains an invalid incident payload'')
      | None \<Rightarrow> Inl (ValueError ''incident ledger contains an invalid incident payload''))"

definition all_incidents :: "incident_log \<Rightarrow> (uuid, incident) dict res" where
  "all_incidents s = latest_incidents (ledger_events (il_ledgers s) NS_INCIDENT) []"

definition incident_hash :: "learning_env \<Rightarrow> incident \<Rightarrow> string" where
  "incident_hash E i = ln_incident_hash E (i\<lparr>in_opened_at := 0\<rparr>)"

definition incident_key :: "learning_env \<Rightarrow> incident \<Rightarrow> string" where
  "incident_key E i = ''incident:'' @ uuid_str (in_id i) @ '':'' @ incident_hash E i"

definition incident_event :: "learning_env \<Rightarrow> incident \<Rightarrow> nat \<Rightarrow> ledger_event" where
  "incident_event E i n = \<lparr>event_id = ln_uuid E n, ev_namespace = NS_INCIDENT, event_type = ''incident_recorded'',
     ev_key = incident_key E i, ev_occurred_at = ln_now E n, ev_payload = [(''incident'', PIncident i)]\<rparr>"

definition append_incident :: "learning_env \<Rightarrow> incident \<Rightarrow> (incident_log, unit) action" where
  "append_incident E i s =
     (let (r, L) = ledger_append (incident_event E i (il_draws s)) (il_ledgers s)
      in (rbind r (\<lambda>_. Inr ()), s\<lparr>il_ledgers := L, il_draws := Suc (il_draws s)\<rparr>))"

definition record_incident :: "learning_env \<Rightarrow> incident \<Rightarrow> (incident_log, incident) action" where
  "record_incident E i =
     sbind (spure (\<lambda>_. revalidate_incident i)) (\<lambda>j.
     sbind (spure all_incidents) (\<lambda>d. case map_of d (in_id j) of
       Some p \<Rightarrow> if incident_hash E p = incident_hash E j then sreturn p
                 else sbind (append_incident E j) (\<lambda>_. sreturn j)
     | None \<Rightarrow> sbind (append_incident E j) (\<lambda>_. sreturn j)))"

definition close_incident ::
  "learning_env \<Rightarrow> uuid \<Rightarrow> string \<Rightarrow> string \<Rightarrow> string \<Rightarrow> string \<Rightarrow> string option \<Rightarrow> pydatetime option \<Rightarrow> (incident_log, incident) action" where
  "close_incident E iid cause test link reconciled entry closing =
     sbind (spure all_incidents) (\<lambda>d. case map_of d iid of
       None \<Rightarrow> sraise (KeyError (uuid_str iid))
     | Some i \<Rightarrow>
         if in_closed_at i \<noteq> None
         then if in_root_cause i \<noteq> Some cause \<or> in_corrective_test i \<noteq> Some test \<or> in_rollback_link i \<noteq> Some link
              then sraise (ValueError ''closed incident is immutable'') else sreturn i
         else sbind (sget il_draws) (\<lambda>n.
           let when = (case closing of None \<Rightarrow> Aware (ln_now E n) 0 | Some t \<Rightarrow> t);
               lines = in_timeline i @ (case entry of None \<Rightarrow> [] | Some t \<Rightarrow> if t = [] then [] else [strip t])
           in sbind (smodify (\<lambda>s. s\<lparr>il_draws := Suc n\<rparr>)) (\<lambda>_.
              sbind (spure (\<lambda>_. mk_incident (i\<lparr>in_timeline := lines, in_root_cause := Some cause, in_corrective_test := Some test,
                  in_rollback_link := Some link, in_reconciliation := reconciled\<rparr>) (Aware (in_opened_at i) 0) (Some when)))
                (record_incident E))))"

section \<open>Scorecards\<close>

text \<open>The table of the scorecard store: a card is immutable under its identifier.\<close>

definition find_card :: "uuid \<Rightarrow> scorecard list \<Rightarrow> scorecard option" where
  "find_card i cards = find (\<lambda>c. sc_id c = i) cards"

definition store_card :: "scorecard \<Rightarrow> (scorecard list, scorecard) action" where
  "store_card c cards = (case find_card (sc_id c) cards of
     Some d \<Rightarrow> if d \<noteq> c then (Inl (ValueError ''scorecard ID is immutable''), cards) else (Inr c, cards)
   | None \<Rightarrow> (Inr c, cards @ [c]))"

definition latest_card :: "string \<Rightarrow> string \<Rightarrow> scorecard list \<Rightarrow> scorecard option res" where
  "latest_card subject version cards =
     (if blank subject \<or> blank version then Inl (ValueError ''scorecard lookup requires subject and version'')
      else Inr (foldl (\<lambda>best c. if sc_subject c = strip subject \<and> sc_subject_version c = strip version \<and>
                 opt_all (\<lambda>b. sc_recorded_at b \<le> sc_recorded_at c) best then Some c else best) None cards))"

section \<open>The state of the loop\<close>

record learning =
  lp_ledgers :: ledgers
  lp_decisions :: "(uuid, paper_decision) dict"
  lp_problems :: "(uuid, problem) dict"
  lp_replays :: "(uuid, replay_result) dict"
  lp_outcomes :: "(uuid \<times> utc, string \<times> scorecard) dict"
  lp_cards :: "scorecard list"
  lp_draws :: nat

text \<open>An entry of the loop: identifier and time are drawn from the process.\<close>

definition learning_append :: "learning_env \<Rightarrow> ledger_namespace \<Rightarrow> string \<Rightarrow> string \<Rightarrow> payload \<Rightarrow> (learning, unit) action" where
  "learning_append E ns etype key p s =
     (let n = lp_draws s;
          ev = \<lparr>event_id = ln_uuid E n, ev_namespace = ns, event_type = etype, ev_key = key, ev_occurred_at = ln_now E n, ev_payload = p\<rparr>;
          (r, L) = ledger_append ev (lp_ledgers s)
      in (rbind r (\<lambda>_. Inr ()), s\<lparr>lp_ledgers := L, lp_draws := Suc n\<rparr>))"

section \<open>Decisions\<close>

definition record_decision :: "learning_env \<Rightarrow> paper_decision \<Rightarrow> (learning, paper_decision) action" where
  "record_decision E d s =
     (if (case map_of (lp_decisions s) (pd_decision_id d) of None \<Rightarrow> False | Some p \<Rightarrow> p \<noteq> d)
      then (Inl (ValueError ''paper decision ID is immutable''), s)
      else sbind (learning_append E NS_MISSION ''paper_decision_chain'' (''paper-decision:'' @ uuid_str (pd_decision_id d))
             [(''decision'', PDecision d)]) (\<lambda>_.
           sbind (smodify (\<lambda>s. s\<lparr>lp_decisions := dict_set (pd_decision_id d) d (lp_decisions s)\<rparr>)) (\<lambda>_. sreturn d)) s)"

section \<open>Problems and replays\<close>

definition incident_kinds :: "problem_kind list" where
  "incident_kinds = [RISK_REJECTION, VENUE_API, RECONCILIATION, RESOURCES, OPERATOR_PROCESS]"

definition on_incidents :: "(incident_log, 'a) action \<Rightarrow> (learning, 'a) action" where
  "on_incidents m s = (let (r, l) = m \<lparr>il_ledgers = lp_ledgers s, il_draws = lp_draws s\<rparr>
     in (r, s\<lparr>lp_ledgers := il_ledgers l, lp_draws := il_draws l\<rparr>))"

definition problem_incident :: "learning_env \<Rightarrow> problem \<Rightarrow> nat \<Rightarrow> incident res" where
  "problem_incident E p n =
     mk_incident \<lparr>in_id = ln_uuid E n, in_severity = pb_severity p, in_owner = ''paper-learning'', in_summary = pb_summary p,
       in_runbook = ''docs/runbooks/paper-problem-'' @ problem_kind_value (pb_kind p) @ ''.md'', in_evidence_ids = pb_evidence_ids p,
       in_timeline = [], in_containment = ''keep paper runtime fail-closed; do not promote a challenger'',
       in_reconciliation = ''pending'', in_root_cause = None, in_corrective_test = None, in_rollback_link = None,
       in_opened_at = 0, in_closed_at = None\<rparr> (Aware (ln_now E n) 0) None"

definition open_incident :: "learning_env \<Rightarrow> problem \<Rightarrow> (learning, problem) action" where
  "open_incident E p =
     sbind (sget lp_draws) (\<lambda>n. sbind (smodify (\<lambda>s. s\<lparr>lp_draws := Suc n\<rparr>)) (\<lambda>_.
     sbind (spure (\<lambda>_. problem_incident E p n)) (\<lambda>i.
     sbind (on_incidents (record_incident E i)) (\<lambda>_. sreturn (p\<lparr>pb_incident_id := Some (in_id i)\<rparr>)))))"

definition set_problem :: "problem \<Rightarrow> (learning, unit) action" where
  "set_problem p = smodify (\<lambda>s. s\<lparr>lp_problems := dict_set (pb_id p) p (lp_problems s)\<rparr>)"

definition record_problem :: "learning_env \<Rightarrow> problem \<Rightarrow> bool option \<Rightarrow> (learning, problem) action" where
  "record_problem E p create s =
     (if map_of (lp_decisions s) (pb_decision_id p) = None then (Inl (KeyError ''unknown paper decision''), s)
      else if (case map_of (lp_problems s) (pb_id p) of None \<Rightarrow> False | Some x \<Rightarrow> x \<noteq> p)
      then (Inl (ValueError ''paper learning problem ID is immutable''), s)
      else sbind (if (case create of None \<Rightarrow> pb_kind p \<in> set incident_kinds | Some b \<Rightarrow> b) \<and> pb_incident_id p = None
                  then open_incident E p else sreturn p) (\<lambda>q.
           sbind (learning_append E NS_MISSION ''paper_learning_problem'' (''paper-problem:'' @ uuid_str (pb_id q))
             [(''problem'', PProblem q)]) (\<lambda>_.
           sbind (set_problem q) (\<lambda>_. sreturn q))) s)"

text \<open>The replay of a problem by a runner that the caller supplies.\<close>

definition replay_id :: "learning_env \<Rightarrow> uuid \<Rightarrow> string \<Rightarrow> uuid" where
  "replay_id E pid h = ln_uuid5 E (''advisorai-v3/paper-replay/'' @ uuid_str pid @ ''/'' @ h)"

definition replay_test :: "replay_output \<Rightarrow> string" where
  "replay_test out = (case ro_regression_test out of None \<Rightarrow> ''tests/replay/test_paper_problem.py'' | Some t \<Rightarrow> t)"

definition replay_of :: "learning_env \<Rightarrow> uuid \<Rightarrow> paper_decision \<Rightarrow> replay_output \<Rightarrow> replay_result res" where
  "replay_of E pid d out =
     mk_replay_result \<lparr>rr_id = replay_id E pid (ln_output_hash E out), rr_problem_id = pid, rr_passed = ro_passed out,
       rr_output_hash = ln_output_hash E out, rr_regression_test = replay_test out,
       rr_details = filter (\<lambda>t. \<not> blank t) (ro_details out), rr_replayed_at = 0\<rparr> (Aware (pd_recorded_at d) 0)"

definition replay_problem :: "learning_env \<Rightarrow> uuid \<Rightarrow> (paper_decision \<Rightarrow> replay_output res) \<Rightarrow> (learning, replay_result) action" where
  "replay_problem E pid runner =
     sbind (spure (\<lambda>s. case map_of (lp_problems s) pid of None \<Rightarrow> Inl (KeyError (uuid_str pid)) | Some p \<Rightarrow> Inr p)) (\<lambda>p.
     sbind (spure (\<lambda>s. case map_of (lp_decisions s) (pb_decision_id p) of
         None \<Rightarrow> Inl (KeyError (uuid_str (pb_decision_id p))) | Some d \<Rightarrow> Inr d)) (\<lambda>d.
     sbind (spure (\<lambda>_. runner d)) (\<lambda>out.
     sbind (sget (\<lambda>s. map_of (lp_replays s) pid)) (\<lambda>prior.
       if (case prior of None \<Rightarrow> False | Some x \<Rightarrow> rr_output_hash x \<noteq> ln_output_hash E out)
       then sraise (ValueError ''a paper problem cannot be replayed with a different output'')
       else sbind (spure (\<lambda>_. replay_of E pid d out)) (\<lambda>r.
         let q = p\<lparr>pb_replay_id := Some (rr_id r), pb_replay_required := False, pb_corrective_test := Some (replay_test out)\<rparr>
         in sbind (smodify (\<lambda>s. s\<lparr>lp_problems := dict_set pid q (lp_problems s), lp_replays := dict_set pid r (lp_replays s)\<rparr>)) (\<lambda>_.
            sbind (learning_append E NS_MISSION ''paper_replay_recorded'' (''paper-replay:'' @ uuid_str (rr_id r))
              [(''replay'', PReplay r), (''problem'', PProblem q)]) (\<lambda>_.
            sbind (learning_append E NS_MISSION ''paper_learning_problem''
              (''paper-problem-replayed:'' @ uuid_str pid @ '':'' @ uuid_str (rr_id r)) [(''problem'', PProblem q)]) (\<lambda>_.
            sreturn r))))))))"

section \<open>Outcomes\<close>

definition outcome_calibration :: "paper_outcome \<Rightarrow> dec" where
  "outcome_calibration x = (case (oc_forecast x, oc_realized x) of
     (Some f, Some r) \<Rightarrow> (let v = dsub d1 (dabs (dsub f r)) in if dlt d0 v then v else d0)
   | _ \<Rightarrow> d1)"

definition outcome_card :: "learning_env \<Rightarrow> paper_decision \<Rightarrow> paper_outcome \<Rightarrow> scorecard res" where
  "outcome_card E d x =
     mk_scorecard \<lparr>sc_id = ln_uuid5 E (''advisorai-v3/paper-scorecard/'' @ uuid_str (oc_decision_id x) @ ''/'' @ ln_outcome_hash E x),
       sc_subject = pd_subject d, sc_subject_version = pd_subject_version d, sc_role = pd_role d, sc_asset = pd_asset d,
       sc_horizon = pd_horizon d, sc_regime = pd_regime d, sc_factual_precision = outcome_calibration x,
       sc_calibration = outcome_calibration x, sc_abstention_quality = oc_data_reliability x,
       sc_contradiction_detection = oc_fill_quality x, sc_net_utility = oc_net_utility x, sc_latency_ms = oc_latency_ms x,
       sc_api_cost_usd = oc_cost_usd x, sc_failure_rate = oc_failure_rate x,
       sc_eligible = (deq (oc_failure_rate x) d0 \<and> dle (Dec 8 (-1)) (oc_data_reliability x)), sc_recorded_at = 0\<rparr>
     (Aware (oc_as_of x) 0)"

definition on_cards :: "(scorecard list, 'a) action \<Rightarrow> (learning, 'a) action" where
  "on_cards m s = (let (r, cs) = m (lp_cards s) in (r, s\<lparr>lp_cards := cs\<rparr>))"

definition record_outcome :: "learning_env \<Rightarrow> paper_outcome \<Rightarrow> (learning, scorecard) action" where
  "record_outcome E x =
     sbind (spure (\<lambda>s. case map_of (lp_decisions s) (oc_decision_id x) of
         None \<Rightarrow> Inl (KeyError ''unknown paper decision'') | Some d \<Rightarrow> Inr d)) (\<lambda>d.
       if oc_as_of x < pd_horizon_end d
       then sraise (ValueError ''scorecards cannot be recorded before the forecast horizon closes'')
       else sbind (sget (\<lambda>s. map_of (lp_outcomes s) (oc_decision_id x, oc_as_of x))) (\<lambda>prior. case prior of
         Some (h, crd) \<Rightarrow>
           if h \<noteq> ln_outcome_hash E x then sraise (ValueError ''paper outcome is immutable for a decision and as_of'')
           else sreturn crd
       | None \<Rightarrow>
           sbind (spure (\<lambda>_. outcome_card E d x)) (\<lambda>c.
           sbind (on_cards (store_card c)) (\<lambda>crd.
           sbind (learning_append E NS_MODEL ''paper_scorecard_recorded'' (''paper-scorecard:'' @ uuid_str (sc_id crd))
             [(''scorecard'', PScorecard crd), (''decision_id'', PUuid (oc_decision_id x)), (''outcome'', POutcome x)]) (\<lambda>_.
           sbind (smodify (\<lambda>s. s\<lparr>lp_outcomes := dict_set (oc_decision_id x, oc_as_of x) (ln_outcome_hash E x, crd) (lp_outcomes s)\<rparr>))
             (\<lambda>_. sreturn crd))))))"

section \<open>Recovery\<close>

definition revalidate_decision :: "paper_decision \<Rightarrow> paper_decision res" where
  "revalidate_decision d = mk_paper_decision d (Aware (pd_cutoff d) 0) (Aware (pd_horizon_end d) 0) (Aware (pd_recorded_at d) 0)"

definition revalidate_outcome :: "paper_outcome \<Rightarrow> paper_outcome res" where
  "revalidate_outcome x =
     mk_outcome \<lparr>oc_decision_id = oc_decision_id x, oc_forecast = map_option Finite (oc_forecast x),
       oc_realized = map_option Finite (oc_realized x), oc_net_utility = Finite (oc_net_utility x), oc_cost_usd = Finite (oc_cost_usd x),
       oc_fill_quality = Finite (oc_fill_quality x), oc_data_reliability = Finite (oc_data_reliability x),
       oc_latency_ms = oc_latency_ms x, oc_failure_rate = Finite (oc_failure_rate x)\<rparr> (Aware (oc_as_of x) 0)"

text \<open>One event of the first, the second and the third pass over the ledgers.\<close>

definition hydrate_mission :: "ledger_event \<Rightarrow> learning \<Rightarrow> learning res" where
  "hydrate_mission ev s =
     (if event_type ev = ''paper_decision_chain''
      then (case map_of (ev_payload ev) ''decision'' of
          Some (PDecision d) \<Rightarrow> rbind (revalidate_decision d) (\<lambda>e. Inr (s\<lparr>lp_decisions := dict_set (pd_decision_id e) e (lp_decisions s)\<rparr>))
        | Some v \<Rightarrow> if is_object v then Inl (ValidationError ''decision'') else Inr s
        | None \<Rightarrow> Inr s)
      else if event_type ev = ''paper_learning_problem''
      then (case map_of (ev_payload ev) ''problem'' of
          Some (PProblem p) \<Rightarrow> rbind (mk_problem p (Aware (pb_detected_at p) 0)) (\<lambda>q.
            Inr (s\<lparr>lp_problems := dict_set (pb_id q) q (lp_problems s)\<rparr>))
        | Some v \<Rightarrow> if is_object v then Inl (ValidationError ''problem'') else Inr s
        | None \<Rightarrow> Inr s)
      else Inr s)"

definition hydrate_model :: "learning_env \<Rightarrow> ledger_event \<Rightarrow> learning \<Rightarrow> learning res" where
  "hydrate_model E ev s =
     (if event_type ev \<noteq> ''paper_scorecard_recorded'' then Inr s
      else case (map_of (ev_payload ev) ''scorecard'', map_of (ev_payload ev) ''decision_id'') of
        (Some v, Some w) \<Rightarrow>
          if \<not> is_object v \<or> is_object w then Inr s
          else (case v of
            PScorecard c \<Rightarrow> rbind (mk_scorecard c (Aware (sc_recorded_at c) 0)) (\<lambda>crd.
              case map_of (ev_payload ev) ''outcome'' of
                Some (POutcome x) \<Rightarrow> rbind (revalidate_outcome x) (\<lambda>y.
                  Inr (s\<lparr>lp_outcomes := dict_set (oc_decision_id y, oc_as_of y) (ln_outcome_hash E y, crd) (lp_outcomes s)\<rparr>))
              | Some o' \<Rightarrow> if is_object o' then Inl (ValidationError ''outcome'') else Inr s
              | None \<Rightarrow> Inr s)
          | _ \<Rightarrow> Inl (ValidationError ''scorecard''))
      | _ \<Rightarrow> Inr s)"

definition hydrate_replay :: "ledger_event \<Rightarrow> learning \<Rightarrow> learning res" where
  "hydrate_replay ev s =
     (if event_type ev \<noteq> ''paper_replay_recorded'' then Inr s
      else case map_of (ev_payload ev) ''replay'' of
        Some (PReplay r) \<Rightarrow> rbind (mk_replay_result r (Aware (rr_replayed_at r) 0)) (\<lambda>q.
          Inr (s\<lparr>lp_replays := dict_set (rr_problem_id q) q (lp_replays s)\<rparr>))
      | Some v \<Rightarrow> if is_object v then Inl (ValidationError ''replay'') else Inr s
      | None \<Rightarrow> Inr s)"

fun hydrate_pass :: "(ledger_event \<Rightarrow> learning \<Rightarrow> learning res) \<Rightarrow> ledger_event list \<Rightarrow> learning \<Rightarrow> learning res" where
  "hydrate_pass f [] s = Inr s"
| "hydrate_pass f (ev # evs) s = rbind (f ev s) (hydrate_pass f evs)"

definition new_learning :: "learning_env \<Rightarrow> ledgers \<Rightarrow> scorecard list \<Rightarrow> nat \<Rightarrow> learning res" where
  "new_learning E L cards n =
     rbind (hydrate_pass hydrate_mission (ledger_events L NS_MISSION)
       \<lparr>lp_ledgers = L, lp_decisions = [], lp_problems = [], lp_replays = [], lp_outcomes = [], lp_cards = cards, lp_draws = n\<rparr>) (\<lambda>s.
     rbind (hydrate_pass (hydrate_model E) (ledger_events L NS_MODEL) s) (\<lambda>t.
     hydrate_pass hydrate_replay (ledger_events L NS_MISSION) t))"

end
