(* ===== verification/Paper_Runtime.thy ===== *)
theory Paper_Runtime
  imports Cadence Fusion Reconcile Learning Portfolio
begin

text \<open>
  The paper runtime (\<open>PaperRuntime\<close> of \<open>src/advisorai/runtime/paper.py\<close>): one decision cycle from the cutoff to
  the orders at the venue, the reconciliation that may trip the kill switch, and the control by an operator or
  by the commands of the dashboard.

  The state holds the order manager, the kill switch, the learning loop and the account.  The four components
  of the source write to one database: the ledgers of the order manager are that database, and they are handed
  to the kill switch, the learning loop and the reconciliation service for the time of a call.  The providers
  of snapshot, market, decision, orders and observations are callables given by the caller; they are
  parameters and may raise.  They also get the number of draws made so far, so that two calls may differ.
\<close>

section \<open>Configuration\<close>

record runtime_config =
  cf_environment :: string
  cf_instruments :: "string list"
  cf_observation_interval :: int
  cf_decision_interval :: int
  cf_run_id :: string
  cf_max_order_count :: int

definition paper_only :: "string \<Rightarrow> string res" where
  "paper_only v =
     (let n = lower (strip v)
      in if n \<in> {''paper'', ''testnet'', ''paper_testnet''} then Inr n
         else Inl (ValidationError ''PaperRuntime accepts only paper/testnet environments''))"

definition v3_core_instruments :: "string list \<Rightarrow> string list res" where
  "v3_core_instruments items =
     (let n = map (\<lambda>i. upper_case (strip i)) (filter (\<lambda>i. \<not> blank i) items)
      in if n = [] \<or> list_ex (\<lambda>i. i \<notin> {''BTC'', ''ETH''}) n
         then Inl (ValidationError ''transition runtime is fixed to BTC and ETH'')
         else if \<not> distinct n then Inl (ValidationError ''runtime instruments must be unique'')
         else Inr n)"

definition mk_runtime_config :: "runtime_config \<Rightarrow> runtime_config res" where
  "mk_runtime_config c =
     rbind (paper_only (cf_environment c)) (\<lambda>env. rbind (v3_core_instruments (cf_instruments c)) (\<lambda>items.
     rbind (check (60 \<le> cf_observation_interval c \<and> cf_observation_interval c \<le> 3600) ''observation_interval_seconds'') (\<lambda>_.
     rbind (check (300 \<le> cf_decision_interval c \<and> cf_decision_interval c \<le> 86400) ''decision_interval_seconds'') (\<lambda>_.
     rbind (min_length 1 (cf_run_id c)) (\<lambda>_.
     rbind (check (0 \<le> cf_max_order_count c \<and> cf_max_order_count c \<le> 100) ''max_order_count_per_cycle'') (\<lambda>_.
       Inr (c\<lparr>cf_environment := env, cf_instruments := items\<rparr>)))))))"

section \<open>Default orders\<close>

text \<open>
  The orders of an admitted target, one position after the other; \<open>text\<close> is the fingerprint of the text that
  identifies an order, \<open>ids\<close> and \<open>now\<close> the identity and the time of the n-th order.
\<close>

definition order_text :: "decision_bundle \<Rightarrow> string \<Rightarrow> execution_choice \<Rightarrow> string" where
  "order_text d iid c = uuid_str (db_mission_id d) @ '':'' @ uuid_str (artifact_id (db_target d)) @ '':'' @ iid @ '':'' @
     ec_side c @ '':'' @ dec_str (ec_quantity c)"

fun default_orders ::
  "(string \<Rightarrow> string) \<Rightarrow> (nat \<Rightarrow> uuid) \<Rightarrow> (nat \<Rightarrow> utc) \<Rightarrow> nat \<Rightarrow> decision_bundle \<Rightarrow> uuid \<Rightarrow> account \<Rightarrow> market \<Rightarrow> policy_kind \<Rightarrow>
   target_position list \<Rightarrow> order list res" where
  "default_orders sha ids now n d plan a m kind [] = Inr []"
| "default_orders sha ids now n d plan a m kind (p # ps) =
     (let iid = pos_id p;
          delta = dsub (target_quantity p) (dict_get (ac_positions a) iid d0)
      in case map_of (rm_marks m) iid of
           None \<Rightarrow> Inl (KeyError iid)
         | Some mark \<Rightarrow>
           rbind (mk_quote (Finite mark) None None) (\<lambda>qs.
           rbind (choose_execution (Finite delta) qs kind (Finite (Dec 5 (-1)))) (\<lambda>choice. case choice of
             None \<Rightarrow> default_orders sha ids now n d plan a m kind ps
           | Some c \<Rightarrow>
               rbind (build_order_from_choice (ids n) (now n) c (db_mission_id d) plan (pos_instrument p)
                   (''paper:'' @ take 32 (sha (order_text d iid c)))) (\<lambda>ord.
               rbind (default_orders sha ids now (Suc n) d plan a m kind ps) (\<lambda>ords. Inr (ord # ords))))))"

definition build_default_orders ::
  "(string \<Rightarrow> string) \<Rightarrow> (nat \<Rightarrow> uuid) \<Rightarrow> (nat \<Rightarrow> utc) \<Rightarrow> nat \<Rightarrow> decision_bundle \<Rightarrow> risk_decision option \<Rightarrow> account \<Rightarrow> market \<Rightarrow>
   policy_kind \<Rightarrow> order list res" where
  "build_default_orders sha ids now n d risk a m kind = (case risk of
     None \<Rightarrow> Inr []
   | Some r \<Rightarrow>
     if dec_outcome r = RISK_REJECTED then Inr []
     else let t = db_target d in
       rbind (mk_execution_plan (ids n) (Aware (db_created_at d) 0) (artifact_id r) (artifact_id t) (risk_constraints_version t)
           [''deterministic paper target rebalance''] (Aware (db_expires_at d) 0)) (\<lambda>plan.
         default_orders sha ids now (Suc n) d (artifact_id plan) a m kind (tp_positions t)))"

section \<open>State and collaborators\<close>

record ('v, 'b) runtime_env =
  rt_config :: runtime_config
  rt_oms_env :: "('v, 'b) oms_env"
  rt_risk_env :: risk_env
  rt_market_sha :: "market_doc \<Rightarrow> string"
  rt_policy :: risk_policy
  rt_rc_env :: rc_env
  rt_learning_env :: learning_env
  rt_snapshot :: "nat \<Rightarrow> utc \<Rightarrow> data_snapshot res"
  rt_market :: "nat \<Rightarrow> data_snapshot \<Rightarrow> market res"
  rt_decide :: "nat \<Rightarrow> data_snapshot \<Rightarrow> account \<Rightarrow> market \<Rightarrow> decision_bundle res"
  rt_orders :: "nat \<Rightarrow> decision_bundle \<Rightarrow> risk_decision \<Rightarrow> account \<Rightarrow> market \<Rightarrow> order list res"
  rt_cadence :: "(cadence_policy \<times> (nat \<Rightarrow> utc \<Rightarrow> pydatetime list res)) option"
  rt_account_snapshot :: "('v, venue_snapshot) action option"
  rt_uuid :: "nat \<Rightarrow> uuid"
  rt_now :: "nat \<Rightarrow> utc"

record ('v, 'b) runtime =
  rt_oms :: "('v, 'b) oms"
  rt_kill :: kill_switch
  rt_learning :: "learning option"
  rt_account :: account
  rt_stopped :: bool
  rt_draws :: nat

text \<open>Calls of the components on the shared database.\<close>

definition on_oms :: "(('v, 'b) oms, 'a) action \<Rightarrow> (('v, 'b) runtime, 'a) action" where
  "on_oms m s = (let (r, o') = m (rt_oms s) in (r, s\<lparr>rt_oms := o'\<rparr>))"

definition shared :: "('v, 'b) runtime \<Rightarrow> ledgers" where
  "shared s = om_ledgers (rt_oms s)"

definition set_shared :: "ledgers \<Rightarrow> ('v, 'b) runtime \<Rightarrow> ('v, 'b) runtime" where
  "set_shared L s = s\<lparr>rt_oms := (rt_oms s)\<lparr>om_ledgers := L\<rparr>\<rparr>"

definition on_kill :: "(kill_switch, 'a) action \<Rightarrow> (('v, 'b) runtime, 'a) action" where
  "on_kill m s =
     (let (r, k) = m ((rt_kill s)\<lparr>ks_ledgers := Some (shared s)\<rparr>)
      in (r, (set_shared (case ks_ledgers k of None \<Rightarrow> shared s | Some L \<Rightarrow> L) s)\<lparr>rt_kill := k\<rparr>))"

definition on_ledger :: "(ledgers, 'a) action \<Rightarrow> (('v, 'b) runtime, 'a) action" where
  "on_ledger m s = (let (r, L) = m (shared s) in (r, set_shared L s))"

definition draw :: "(('v, 'b) runtime, nat) action" where
  "draw s = (Inr (rt_draws s), s\<lparr>rt_draws := Suc (rt_draws s)\<rparr>)"

definition error_name :: "py_error \<Rightarrow> string" where
  "error_name e = (case e of
     ValueError m \<Rightarrow> ''ValueError'' | ValidationError m \<Rightarrow> ''ValidationError'' | OrderStateError m \<Rightarrow> ''OrderStateError''
   | IdempotencyConflict m \<Rightarrow> ''IdempotencyConflict'' | EventIdempotencyConflict m \<Rightarrow> ''EventIdempotencyConflict''
   | KeyError m \<Rightarrow> ''KeyError'' | RuntimeError m \<Rightarrow> ''RuntimeError'' | AmbiguousAcknowledgement \<Rightarrow> ''AmbiguousAcknowledgement''
   | InvalidOperation m \<Rightarrow> ''InvalidOperation'' | ZeroDivisionError \<Rightarrow> ''DivisionByZero'' | PermissionError m \<Rightarrow> ''PermissionError'')"

section \<open>Cycle records\<close>

definition cycle_key :: "('v, 'b) runtime_env \<Rightarrow> runtime_cycle \<Rightarrow> string" where
  "cycle_key E c = ''runtime:'' @ cf_run_id (rt_config E) @ '':'' @ uuid_str (cy_id c) @ '':'' @ stage_value (cy_stage c)"

definition cycle_event :: "('v, 'b) runtime_env \<Rightarrow> runtime_cycle \<Rightarrow> nat \<Rightarrow> ledger_event" where
  "cycle_event E c n = \<lparr>event_id = rt_uuid E n, ev_namespace = NS_MISSION, event_type = ''paper_runtime_cycle'',
     ev_key = cycle_key E c, ev_occurred_at = cy_created_at c, ev_payload = [(''cycle'', PCycle c)]\<rparr>"

definition record_cycle :: "('v, 'b) runtime_env \<Rightarrow> runtime_cycle \<Rightarrow> (('v, 'b) runtime, unit) action" where
  "record_cycle E c = sbind draw (\<lambda>n. sbind (on_ledger (ledger_append (cycle_event E c n))) (\<lambda>_. sreturn ()))"

definition finished_cycle :: "runtime_cycle \<Rightarrow> runtime_stage \<Rightarrow> string list \<Rightarrow> uuid option \<Rightarrow> uuid list \<Rightarrow> runtime_cycle" where
  "finished_cycle c stage reasons snap ids =
     c\<lparr>cy_stage := stage, cy_reasons := fromkeys (filter (\<lambda>r. r \<noteq> []) reasons),
       cy_snapshot_id := (case snap of None \<Rightarrow> cy_snapshot_id c | Some i \<Rightarrow> Some i), cy_order_ids := ids\<rparr>"

definition finish ::
  "('v, 'b) runtime_env \<Rightarrow> runtime_cycle \<Rightarrow> runtime_stage \<Rightarrow> string list \<Rightarrow> uuid option \<Rightarrow> uuid list \<Rightarrow>
   (('v, 'b) runtime, runtime_cycle) action" where
  "finish E c stage reasons snap ids =
     sbind (record_cycle E (finished_cycle c stage reasons snap ids)) (\<lambda>_. sreturn (finished_cycle c stage reasons snap ids))"

section \<open>Dashboard control\<close>

text \<open>The texts of a payload are stored as text values.\<close>

definition payload_text :: "payload \<Rightarrow> string \<Rightarrow> string \<Rightarrow> string" where
  "payload_text p k d = (case map_of p k of Some (PText t) \<Rightarrow> t | _ \<Rightarrow> d)"

definition accepted_command :: "ledger_event \<Rightarrow> (string \<times> string \<times> string) option" where
  "accepted_command ev =
     (if event_type ev \<noteq> ''dashboard_command_recorded'' then None
      else case map_of (ev_payload ev) ''receipt'' of
        Some (PDict receipt) \<Rightarrow>
          (let command = payload_text receipt ''command'' ''''
           in if payload_text receipt ''status'' '''' \<noteq> ''accepted'' \<or> command \<notin> {''halt_paper'', ''resume_paper''} then None
              else Some (command, payload_text (ev_payload ev) ''reason'' ''dashboard control'',
                         payload_text (ev_payload ev) ''actor'' ''owner''))
      | _ \<Rightarrow> None)"

text \<open>The newest command that no security event follows; the accumulator is the command seen so far.\<close>

fun newest_command :: "ledger_event list \<Rightarrow> (string \<times> string \<times> string) option \<Rightarrow> (string \<times> string \<times> string) option" where
  "newest_command [] acc = acc"
| "newest_command (ev # evs) acc =
     (if event_type ev \<in> {''kill_switch_tripped'', ''kill_switch_reset''} then newest_command evs None
      else newest_command evs (case accepted_command ev of None \<Rightarrow> acc | Some c \<Rightarrow> Some c))"

definition stop_runtime :: "(('v, 'b) runtime, unit) action" where
  "stop_runtime = smodify (\<lambda>s. s\<lparr>rt_stopped := True\<rparr>)"

definition halt :: "('v, 'b) runtime_env \<Rightarrow> string \<Rightarrow> (('v, 'b) runtime, unit) action" where
  "halt E reason = sbind (on_kill (ks_trip (rt_risk_env E) reason)) (\<lambda>_. stop_runtime)"

definition resume :: "('v, 'b) runtime_env \<Rightarrow> string \<Rightarrow> (('v, 'b) runtime, unit) action" where
  "resume E approver =
     sbind (on_kill (ks_reset (rt_risk_env E) approver)) (\<lambda>_. smodify (\<lambda>s. s\<lparr>rt_stopped := False\<rparr>))"

definition sync_dashboard_control :: "('v, 'b) runtime_env \<Rightarrow> (('v, 'b) runtime, unit) action" where
  "sync_dashboard_control E =
     sbind (sget (\<lambda>s. newest_command (ledger_events (shared s) NS_INCIDENT) None)) (\<lambda>newest. case newest of
       None \<Rightarrow> sreturn ()
     | Some (command, reason, actor) \<Rightarrow>
         if command = ''halt_paper'' then sbind (on_kill (ks_trip (rt_risk_env E) reason)) (\<lambda>_. stop_runtime)
         else sbind (sget (\<lambda>s. ks_tripped (rt_kill s))) (\<lambda>tripped.
           if tripped
           then sbind (on_kill (ks_reset (rt_risk_env E) actor)) (\<lambda>_. smodify (\<lambda>s. s\<lparr>rt_stopped := False\<rparr>))
           else sreturn ()))"

section \<open>Learning records\<close>

definition on_learning :: "(learning, 'a) action \<Rightarrow> (('v, 'b) runtime, unit) action" where
  "on_learning m s = (case rt_learning s of
     None \<Rightarrow> (Inr (), s)
   | Some l \<Rightarrow> let (r, l') = m (l\<lparr>lp_ledgers := shared s\<rparr>)
       in (rbind r (\<lambda>_. Inr ()), (set_shared (lp_ledgers l') s)\<lparr>rt_learning := Some l'\<rparr>))"

definition decision_id :: "('v, 'b) runtime_env \<Rightarrow> decision_bundle \<Rightarrow> uuid" where
  "decision_id E d = ln_uuid5 (rt_learning_env E)
     (''advisorai-v3/decision/'' @ uuid_str (db_mission_id d) @ ''/'' @ uuid_str (db_snapshot_id d))"

definition decision_assets :: "decision_bundle \<Rightarrow> string" where
  "decision_assets d =
     (let assets = join '','' (sorted_list_of_set (set (map pos_id (tp_positions (db_target d)))))
      in if assets = [] then ''BTC,ETH'' else assets)"

definition decision_record ::
  "('v, 'b) runtime_env \<Rightarrow> utc \<Rightarrow> decision_bundle \<Rightarrow> data_snapshot \<Rightarrow> risk_decision option \<Rightarrow> uuid list \<Rightarrow> paper_decision res" where
  "decision_record E now d snap risk ids =
     mk_paper_decision
       \<lparr>pd_decision_id = decision_id E d, pd_mission_id = db_mission_id d, pd_snapshot_id = artifact_id snap,
        pd_quality_report_ids = [], pd_evidence_ids = db_evidence_ids d, pd_forecast_ids = [],
        pd_target_id = Some (artifact_id (db_target d)), pd_risk_decision_id = map_option artifact_id risk, pd_order_ids = ids,
        pd_fill_ids = [], pd_reconciliation_id = None, pd_tca_id = None, pd_attribution_id = None,
        pd_subject = ''decision-pipeline'', pd_subject_version = ''paper-runtime-v1'', pd_role = ''synthesizer'',
        pd_asset = decision_assets d, pd_horizon = ''1h'', pd_regime = ''unknown'', pd_cutoff = 0, pd_horizon_end = 0,
        pd_recorded_at = 0\<rparr>
       (Aware (db_created_at d) 0) (Aware (db_expires_at d) 0) (Aware now 0)"

definition record_learning_decision ::
  "('v, 'b) runtime_env \<Rightarrow> decision_bundle \<Rightarrow> data_snapshot \<Rightarrow> risk_decision option \<Rightarrow> uuid list \<Rightarrow> (('v, 'b) runtime, unit) action" where
  "record_learning_decision E d snap risk ids =
     sbind (sget rt_learning) (\<lambda>l. if l = None then sreturn () else
     sbind draw (\<lambda>n. sbind (spure (\<lambda>_. decision_record E (rt_now E n) d snap risk ids)) (\<lambda>rec.
       on_learning (record_decision (rt_learning_env E) rec))))"

section \<open>Orders of a cycle\<close>

text \<open>The check of an order against the kernel, with the switch as it is now.\<close>

definition order_check :: "('v, 'b) runtime_env \<Rightarrow> order \<Rightarrow> market \<Rightarrow> (('v, 'b) runtime, order_risk_check) action" where
  "order_check E ord m =
     spure (\<lambda>s. check_order (rt_risk_env E) (rt_market_sha E) (rt_kill s) ord (rt_account s) m (rt_policy E))"

text \<open>
  The orders one after the other: every early end of the source's loop, and its normal end, is a stage with
  its reasons and the orders to report.
\<close>

fun route_orders ::
  "('v, 'b) runtime_env \<Rightarrow> risk_decision \<Rightarrow> market \<Rightarrow> order list \<Rightarrow> uuid list \<Rightarrow>
   (('v, 'b) runtime, runtime_stage \<times> string list \<times> uuid list) action" where
  "route_orders E risk m [] routed = sreturn (if routed = [] then STAGE_NO_TRADE else STAGE_ORDERS_ROUTED, [], routed)"
| "route_orders E risk m (ord # ords) routed =
     sbind (on_oms (create_order (rt_oms_env E) ord)) (\<lambda>created.
     sbind (order_check E created m) (\<lambda>chk.
       if \<not> chk_approved chk
       then sbind (on_oms (transition (rt_oms_env E) (artifact_id created) REJECTED)) (\<lambda>_.
              sreturn (STAGE_RISK_REJECTED, chk_reasons chk, routed))
       else
         sbind (on_oms (approve_risk (rt_oms_env E) (artifact_id created) risk (Some chk))) (\<lambda>_.
         sbind (on_oms (route (rt_oms_env E) (artifact_id created))) (\<lambda>ack. case ack of
           None \<Rightarrow> sreturn (STAGE_RECONCILIATION_FAILED, [''ambiguous_order_acknowledgement_pending''], routed @ [artifact_id created])
         | Some a \<Rightarrow>
             if \<not> ack_accepted a
             then sreturn (STAGE_FAILED, [''venue_rejected_order''], routed @ [artifact_id created])
             else route_orders E risk m ords (routed @ [artifact_id created])))))"

section \<open>One cycle\<close>

definition micros_per_hour :: int where
  "micros_per_hour = 3600000000"

definition closed_cutoff :: "pydatetime \<Rightarrow> utc res" where
  "closed_cutoff t =
     rbind (aware ''decision cutoff must include a timezone'' t) (\<lambda>u.
       if u mod micros_per_hour \<noteq> 0 then Inl (ValueError ''paper decisions require a closed one-hour cutoff'') else Inr u)"

definition kill_text :: "kill_switch \<Rightarrow> string" where
  "kill_text k = ''kill_switch:'' @ (case ks_reason k of None \<Rightarrow> ''None'' | Some r \<Rightarrow> r)"

text \<open>The part of the cycle after the decision was admitted by the evidence gate.\<close>

definition run_admitted ::
  "('v, 'b) runtime_env \<Rightarrow> runtime_cycle \<Rightarrow> data_snapshot \<Rightarrow> market \<Rightarrow> decision_bundle \<Rightarrow> (('v, 'b) runtime, runtime_cycle) action" where
  "run_admitted E base snap m d =
     sbind draw (\<lambda>n.
     sbind (spure (\<lambda>s. evaluate (rt_risk_env E) (rt_market_sha E) (rt_kill s) (rt_uuid E n) (rt_now E n)
         \<lparr>rq_target = db_target d, rq_account = rt_account s, rq_market = m, rq_policy = rt_policy E\<rparr> False)) (\<lambda>risk.
     let c = base\<lparr>cy_risk_decision_id := Some (artifact_id risk)\<rparr> in
     if dec_outcome risk = RISK_REJECTED
     then sbind (record_learning_decision E d snap (Some risk) []) (\<lambda>_. finish E c STAGE_RISK_REJECTED (dec_reasons risk) None [])
     else sbind draw (\<lambda>k. sbind (spure (\<lambda>s. rt_orders E k d risk (rt_account s) m)) (\<lambda>ords.
       if int (length ords) > cf_max_order_count (rt_config E)
       then sbind (record_learning_decision E d snap (Some risk) []) (\<lambda>_.
              finish E c STAGE_RISK_REJECTED [''max_order_count_per_cycle''] None [])
       else sbind (route_orders E risk m ords []) (\<lambda>(stage, reasons, ids).
            sbind (record_learning_decision E d snap (Some risk) ids) (\<lambda>_. finish E c stage reasons None ids))))))"

definition decided_cycle :: "('v, 'b) runtime_env \<Rightarrow> runtime_cycle \<Rightarrow> data_snapshot \<Rightarrow> decision_bundle \<Rightarrow> runtime_cycle" where
  "decided_cycle E c snap d = c\<lparr>cy_snapshot_id := Some (artifact_id snap), cy_decision_id := Some (decision_id E d)\<rparr>"

definition run_decision ::
  "('v, 'b) runtime_env \<Rightarrow> runtime_cycle \<Rightarrow> data_snapshot \<Rightarrow> (('v, 'b) runtime, runtime_cycle) action" where
  "run_decision E c snap =
     sbind draw (\<lambda>n. sbind (spure (\<lambda>_. rt_market E n snap)) (\<lambda>m.
     sbind (spure (\<lambda>s. rt_decide E n snap (rt_account s) m)) (\<lambda>d.
     if db_abstained d \<or> \<not> er_passed (db_gate d)
     then sbind (record_learning_decision E d snap None []) (\<lambda>_.
            finish E (decided_cycle E c snap d) STAGE_ABSTAINED (if db_missing d \<noteq> [] then db_missing d else er_reasons (db_gate d)) None [])
     else run_admitted E (decided_cycle E c snap d) snap m d)))"

definition run_snapshot :: "('v, 'b) runtime_env \<Rightarrow> runtime_cycle \<Rightarrow> (('v, 'b) runtime, runtime_cycle) action" where
  "run_snapshot E c =
     sbind draw (\<lambda>n. sbind (spure (\<lambda>_. rt_snapshot E n (cy_cutoff c))) (\<lambda>snap.
     if cy_cutoff c < ds_as_of snap
     then finish E c STAGE_ABSTAINED [''snapshot_after_cutoff''] (Some (artifact_id snap)) []
     else if \<not> quality_admitted (ds_quality snap)
     then finish E c STAGE_ABSTAINED [''data_quality:'' @ ds_quality snap] (Some (artifact_id snap)) []
     else run_decision E c snap))"

definition run_cadence :: "('v, 'b) runtime_env \<Rightarrow> runtime_cycle \<Rightarrow> (('v, 'b) runtime, runtime_cycle) action" where
  "run_cadence E c = (case rt_cadence E of
     None \<Rightarrow> run_snapshot E c
   | Some (P, observed) \<Rightarrow>
       sbind draw (\<lambda>n. sbind (spure (\<lambda>_. rbind (observed n (cy_cutoff c)) (\<lambda>obs. check_cadence P (Aware (cy_cutoff c) 0) obs None None))) (\<lambda>r.
         if \<not> rd_passed r then finish E c STAGE_ABSTAINED (rd_reasons r) None []
         else run_snapshot E c)))"

definition run_body :: "('v, 'b) runtime_env \<Rightarrow> runtime_cycle \<Rightarrow> (('v, 'b) runtime, runtime_cycle) action" where
  "run_body E c =
     sbind (sync_dashboard_control E) (\<lambda>_.
     sbind (sget rt_kill) (\<lambda>k.
       if ks_tripped k then finish E c STAGE_ABSTAINED [kill_text k] None [] else run_cadence E c))"

definition run_once :: "('v, 'b) runtime_env \<Rightarrow> pydatetime \<Rightarrow> (('v, 'b) runtime, runtime_cycle) action" where
  "run_once E cutoff =
     sbind (spure (\<lambda>_. closed_cutoff cutoff)) (\<lambda>u.
     sbind draw (\<lambda>n.
     sbind (spure (\<lambda>_. mk_runtime_cycle (rt_uuid E n) (cf_run_id (rt_config E)) (Aware u 0) STAGE_STARTED (Aware (rt_now E n) 0))) (\<lambda>c.
     sbind (record_cycle E c) (\<lambda>_. (\<lambda>s. case run_body E c s of
         (Inl e, t) \<Rightarrow> finish E c STAGE_FAILED [error_name e] None [] t
       | (Inr fin, t) \<Rightarrow> (Inr fin, t))))))"

section \<open>Reconciliation and the loop\<close>

definition venue_account :: "('v, 'b) runtime_env \<Rightarrow> ('v, venue_snapshot) action \<Rightarrow> (('v, 'b) runtime, venue_snapshot) action" where
  "venue_account E fetch =
     sbind (on_oms (on_venue fetch)) (\<lambda>view.
     sbind (sget (\<lambda>s. v_open_orders (rt_oms_env E) (om_venue (rt_oms s)))) (\<lambda>acks.
       sreturn (view\<lparr>vv_open_orders := Some (remdups (map ack_order_id acks))\<rparr>)))"

definition on_reconciliation ::
  "('v, 'b) runtime_env \<Rightarrow> venue_snapshot option \<Rightarrow> (('v, 'b) runtime, reconciliation) action" where
  "on_reconciliation E view s =
     (let (r, t) = run_reconciliation (rt_rc_env E) (rt_account s) (rt_oms s) (None :: unit acct_ledger option) view
        \<lparr>rs_ledgers = Some (shared s), rs_draws = rt_draws s\<rparr>
      in (r, (set_shared (case rs_ledgers t of None \<Rightarrow> shared s | Some L \<Rightarrow> L) s)\<lparr>rt_draws := rs_draws t\<rparr>))"

definition fetch_view :: "('v, 'b) runtime_env \<Rightarrow> (('v, 'b) runtime, venue_snapshot option) action" where
  "fetch_view E s = (case rt_account_snapshot E of
     None \<Rightarrow> (Inr None, s)
   | Some fetch \<Rightarrow> (case venue_account E fetch s of
       (Inr view, t) \<Rightarrow> (Inr (Some view), t)
     | (Inl e, t) \<Rightarrow> sbind (on_kill (ks_trip (rt_risk_env E) ''paper_venue_reconciliation_error'')) (\<lambda>_. sraise e) t))"

definition reconcile_once :: "('v, 'b) runtime_env \<Rightarrow> venue_snapshot option \<Rightarrow> (('v, 'b) runtime, reconciliation) action" where
  "reconcile_once E view =
     sbind (case view of Some v \<Rightarrow> sreturn (Some v) | None \<Rightarrow> fetch_view E) (\<lambda>v.
     sbind (on_reconciliation E v) (\<lambda>result.
       if rec_reconciled result then sreturn result
       else sbind (on_kill (ks_trip (rt_risk_env E) ''paper_reconciliation_mismatch'')) (\<lambda>_. sreturn result)))"

text \<open>
  The scheduler: one cycle for the last closed hour per reading of the clock, at most \<open>n\<close> cycles, until the
  runtime is stopped.  Sleeping only advances the clock.
\<close>

definition last_closed_hour :: "utc \<Rightarrow> utc" where
  "last_closed_hour now = now - now mod micros_per_hour - micros_per_hour"

fun run_forever :: "('v, 'b) runtime_env \<Rightarrow> (nat \<Rightarrow> utc) \<Rightarrow> nat \<Rightarrow> (('v, 'b) runtime, runtime_cycle list) action" where
  "run_forever E clock 0 s = (Inr [], s)"
| "run_forever E clock (Suc n) s =
     (if rt_stopped s then (Inr [], s)
      else sbind (run_once E (Aware (last_closed_hour (clock (rt_draws s))) 0)) (\<lambda>c.
           sbind (run_forever E clock n) (\<lambda>cs. sreturn (c # cs))) s)"

definition new_runtime ::
  "('v, 'b) runtime_env \<Rightarrow> ('v, 'b) oms \<Rightarrow> account \<Rightarrow> learning option \<Rightarrow> nat \<Rightarrow> (('v, 'b) runtime, unit) action" where
  "new_runtime E o' a l n = (\<lambda>_. sync_dashboard_control E
     \<lparr>rt_oms = o', rt_kill = new_kill_switch (Some (om_ledgers o')) n, rt_learning = l, rt_account = a, rt_stopped = False,
      rt_draws = n\<rparr>)"



end
