(* ===== verification/Runtime_Facts.thy ===== *)
theory Runtime_Facts
  imports Paper_Runtime Oms_Submission
begin

text \<open>
  What a cycle of the paper runtime does to the order manager and to the venue: each part leaves the venue
  alone or sends orders that the risk kernel cleared.  The venue keeps a log of the orders it was sent.
\<close>

type_synonym ('v, 'b) logged = "('v \<times> uuid list, 'b) runtime"
type_synonym ('v, 'b) logged_env = "('v \<times> uuid list, 'b) runtime_env"

section \<open>Parts that send nothing\<close>

definition silent :: "('v, 'b) logged_env \<Rightarrow> ('v, 'b) logged \<Rightarrow> ('v, 'b) logged \<Rightarrow> bool" where
  "silent E s t \<longleftrightarrow> oms_path (rt_oms_env E) False (rt_oms s) (rt_oms t) \<and> sent (rt_oms t) = sent (rt_oms s) \<and>
     rt_account t = rt_account s"

definition steady :: "('v, 'b) logged_env \<Rightarrow> ('v, 'b) logged \<Rightarrow> ('v, 'b) logged \<Rightarrow> bool" where
  "steady E s t \<longleftrightarrow> silent E s t \<and> rt_kill t = rt_kill s"

lemma silent_props [simp]: "reflp (silent E)" "transp (silent E)"
  by (auto simp: reflp_def transp_def silent_def)

lemma steady_props [simp]: "reflp (steady E)" "transp (steady E)"
proof -
  show "reflp (steady E)" using reflpD [OF silent_props(1)] by (auto simp: reflp_def steady_def)
  show "transp (steady E)" using transpD [OF silent_props(2)] by (auto simp: transp_def steady_def)
qed

lemmas steady_intros = moves_sbind [OF steady_props(2)]
lemmas silent_intros = moves_sbind [OF silent_props(2)]

lemma moves_weaken: "moves R m \<Longrightarrow> (\<And>s t. R s t \<Longrightarrow> Q s t) \<Longrightarrow> moves Q m"
  by (simp add: moves_def)

lemma steady_silent: "moves (steady E) m \<Longrightarrow> moves (silent E) m"
  by (erule moves_weaken) (simp add: steady_def)

lemma steady_draw [simp]: "moves (steady E) draw"
  by (auto intro!: movesI simp: draw_def steady_def silent_def)

lemma steady_modify [simp]:
  "(\<And>s. rt_oms (g s) = rt_oms s \<and> rt_account (g s) = rt_account s \<and> rt_kill (g s) = rt_kill s) \<Longrightarrow> moves (steady E) (smodify g)"
  by (auto intro!: movesI simp: steady_def silent_def)

lemma silent_modify [simp]:
  "(\<And>s. rt_oms (g s) = rt_oms s \<and> rt_account (g s) = rt_account s) \<Longrightarrow> moves (silent E) (smodify g)"
  by (auto intro!: movesI simp: silent_def)

lemma steady_oms: "moves same_sent m \<Longrightarrow> moves (oms_path (rt_oms_env E) False) m \<Longrightarrow> moves (steady E) (on_oms m)"
  by (auto intro!: movesI simp: on_oms_def steady_def silent_def same_sent_def moves_def split: prod.splits) (metis snd_conv)+

text \<open>Writing to the ledgers of the other namespaces.\<close>

lemma set_shared_silent: "L NS_ORDER = shared s NS_ORDER \<Longrightarrow> silent E s (set_shared L s)"
  by (auto simp: silent_def set_shared_def shared_def sent_def same_core_def intro!: path_same_core)

lemma ledger_append_other: "ledger_append ev L = (r, M) \<Longrightarrow> ev_namespace ev \<noteq> ns \<Longrightarrow> M ns = L ns"
  by (auto simp: ledger_append_def split: prod.splits)

lemma steady_ledger: "ev_namespace ev \<noteq> NS_ORDER \<Longrightarrow> moves (steady E) (on_ledger (ledger_append ev))"
  for E :: "('v, 'b) logged_env"
proof (rule movesI)
  fix s :: "('v, 'b) logged"
  assume "ev_namespace ev \<noteq> NS_ORDER"
  then obtain r L where "ledger_append ev (shared s) = (r, L)" "L NS_ORDER = shared s NS_ORDER"
    using ledger_append_other by (metis surj_pair)
  then show "steady E s (snd (on_ledger (ledger_append ev) s))"
    using set_shared_silent [of L s] by (simp add: on_ledger_def steady_def set_shared_def)
qed

lemma steady_record [simp]: "moves (steady E) (record_cycle E' c)"
  unfolding record_cycle_def by (auto intro!: steady_intros steady_ledger simp: cycle_event_def)

lemma steady_finish [simp]: "moves (steady E) (finish E' c stage reasons snap ids)"
  unfolding finish_def by (auto intro!: steady_intros)

lemma learning_append_other:
  "learning_append E ns etype key p l = (r, l') \<Longrightarrow> ns \<noteq> ns' \<Longrightarrow> lp_ledgers l' ns' = lp_ledgers l ns'"
  by (auto simp: learning_append_def Let_def split: prod.splits dest: ledger_append_other)

lemma record_decision_orders: "record_decision E d l = (r, l') \<Longrightarrow> lp_ledgers l' NS_ORDER = lp_ledgers l NS_ORDER"
  by (auto simp: record_decision_def sbind_apply [of "learning_append E a b c e" for a b c e] split: if_splits prod.splits sum.splits
      dest!: learning_append_other [of _ _ _ _ _ _ _ _ NS_ORDER])

lemma steady_learning [simp]: "moves (steady E) (on_learning (record_decision E' d))"
  for E :: "('v, 'b) logged_env"
proof (rule movesI)
  fix s :: "('v, 'b) logged"
  show "steady E s (snd (on_learning (record_decision E' d) s))"
  proof (cases "rt_learning s")
    case None
    then show ?thesis using steady_props(1) by (simp add: on_learning_def reflpD)
  next
    case (Some l)
    obtain r l' where "record_decision E' d (l\<lparr>lp_ledgers := shared s\<rparr>) = (r, l')" by fastforce
    with record_decision_orders [OF this] Some set_shared_silent [of "lp_ledgers l'" s E] show ?thesis
      by (simp add: on_learning_def steady_def silent_def set_shared_def)
  qed
qed

lemma steady_learning_decision [simp]: "moves (steady E) (record_learning_decision E' d snap risk ids)"
  unfolding record_learning_decision_def by (auto intro!: steady_intros)

section \<open>The kill switch\<close>

lemma ks_record_orders:
  assumes "ks_record E etype p k = (r, k')" "ks_ledgers k = Some L"
  obtains M where "ks_ledgers k' = Some M" "M NS_ORDER = L NS_ORDER"
  using assms by (auto simp: ks_record_def ks_event_def Let_def split: prod.splits sum.splits dest!: ledger_append_other [of _ _ _ _ NS_ORDER])

lemma ks_trip_orders:
  assumes "ks_trip E reason k = (r, k')" "ks_ledgers k = Some L"
  obtains M where "ks_ledgers k' = Some M" "M NS_ORDER = L NS_ORDER"
proof (cases "blank reason \<or> (ks_tripped k \<and> ks_reason k = Some (strip reason))")
  case True
  then show thesis using assms that by (auto simp: ks_trip_def split: if_splits)
next
  case False
  obtain q k1 where q: "ks_record E ''kill_switch_tripped'' [(''reason'', PText (strip reason))] k = (q, k1)" by fastforce
  obtain M where "ks_ledgers k1 = Some M" "M NS_ORDER = L NS_ORDER" using ks_record_orders [OF q assms(2)] .
  then show thesis using assms(1) False q that by (cases q) (auto simp: ks_trip_def sbind_def split: if_splits)
qed

lemma ks_reset_orders:
  assumes "ks_reset E approver k = (r, k')" "ks_ledgers k = Some L"
  obtains M where "ks_ledgers k' = Some M" "M NS_ORDER = L NS_ORDER"
proof (cases "blank approver \<or> \<not> ks_tripped k")
  case True
  then show thesis using assms that by (auto simp: ks_reset_def split: if_splits)
next
  case False
  obtain q k1 where q: "ks_record E ''kill_switch_reset'' [(''approved_by'', PText (strip approver))] k = (q, k1)" by fastforce
  obtain M where "ks_ledgers k1 = Some M" "M NS_ORDER = L NS_ORDER" using ks_record_orders [OF q assms(2)] .
  then show thesis using assms(1) False q that by (cases q) (auto simp: ks_reset_def sbind_def split: if_splits)
qed

lemma silent_kill:
  fixes E :: "('v, 'b) logged_env"
  assumes "\<And>k r k' L. m k = (r, k') \<Longrightarrow> ks_ledgers k = Some L \<Longrightarrow> \<exists>M. ks_ledgers k' = Some M \<and> M NS_ORDER = L NS_ORDER"
  shows "moves (silent E) (on_kill m)"
proof (rule movesI)
  fix s :: "('v, 'b) logged"
  obtain r k where m: "m ((rt_kill s)\<lparr>ks_ledgers := Some (shared s)\<rparr>) = (r, k)" by fastforce
  with assms [OF m] obtain M where "ks_ledgers k = Some M" "M NS_ORDER = shared s NS_ORDER" by auto
  with m set_shared_silent [of M s E] show "silent E s (snd (on_kill m s))"
    by (simp add: on_kill_def silent_def set_shared_def)
qed

lemma silent_trip [simp]: "moves (silent E) (on_kill (ks_trip E' reason))"
  by (rule silent_kill) (metis ks_trip_orders)

lemma silent_reset [simp]: "moves (silent E) (on_kill (ks_reset E' approver))"
  by (rule silent_kill) (metis ks_reset_orders)

lemma silent_sync [simp]: "moves (silent E) (sync_dashboard_control E')"
  unfolding sync_dashboard_control_def stop_runtime_def by (auto intro!: silent_intros split: option.split)

section \<open>Orders that were sent\<close>

text \<open>An order that the kernel cleared: the order manager holds it, and the check of that very order passed.\<close>

definition cleared ::
  "('v, 'b) runtime_env \<Rightarrow> kill_switch \<Rightarrow> account \<Rightarrow> market \<Rightarrow> (uuid, order) dict \<Rightarrow> uuid \<Rightarrow> bool" where
  "cleared E k a m orders i \<longleftrightarrow>
     (\<exists>ord chk st. artifact_id ord = i \<and> map_of orders i = Some (ord\<lparr>ord_state := st\<rparr>) \<and>
        check_order (rt_risk_env E) (rt_market_sha E) k ord a m (rt_policy E) = Inr chk \<and> chk_approved chk)"

lemma cleared_evolves: "cleared E k a m d i \<Longrightarrow> evolves d d' \<Longrightarrow> cleared E k a m d' i"
  unfolding cleared_def evolves_def by fastforce

definition sends ::
  "('v, 'b) logged_env \<Rightarrow> kill_switch \<Rightarrow> account \<Rightarrow> ((uuid, order) dict \<Rightarrow> uuid list \<Rightarrow> bool) \<Rightarrow>
   (('v, 'b) logged, 'a) action \<Rightarrow> bool" where
  "sends E k a P m \<longleftrightarrow>
     (\<forall>s r t. m s = (r, t) \<longrightarrow> oms_ok (rt_oms s) \<longrightarrow> rt_kill s = k \<longrightarrow> rt_account s = a \<longrightarrow>
        oms_path (rt_oms_env E) False (rt_oms s) (rt_oms t) \<and> rt_kill t = k \<and> rt_account t = a \<and>
        (\<exists>ids. sent (rt_oms t) = sent (rt_oms s) @ ids \<and> (ids \<noteq> [] \<longrightarrow> P (om_orders (rt_oms t)) ids)))"

lemma sendsI:
  assumes "\<And>s r t. m s = (r, t) \<Longrightarrow> oms_ok (rt_oms s) \<Longrightarrow> rt_kill s = k \<Longrightarrow> rt_account s = a \<Longrightarrow>
     oms_path (rt_oms_env E) False (rt_oms s) (rt_oms t) \<and> rt_kill t = k \<and> rt_account t = a \<and>
     (\<exists>ids. sent (rt_oms t) = sent (rt_oms s) @ ids \<and> (ids \<noteq> [] \<longrightarrow> P (om_orders (rt_oms t)) ids))"
  shows "sends E k a P m"
  using assms unfolding sends_def by blast

lemma sendsD:
  assumes "sends E k a P m" "m s = (r, t)" "oms_ok (rt_oms s)" "rt_kill s = k" "rt_account s = a"
  obtains ids where "oms_path (rt_oms_env E) False (rt_oms s) (rt_oms t)" "rt_kill t = k" "rt_account t = a"
    "sent (rt_oms t) = sent (rt_oms s) @ ids" "ids \<noteq> [] \<longrightarrow> P (om_orders (rt_oms t)) ids"
  using assms unfolding sends_def by blast

lemma sends_steady: "moves (steady E) m \<Longrightarrow> sends E k a P m"
  by (rule sendsI) (auto dest!: movesD simp: steady_def silent_def)

lemma sends_bind:
  assumes m: "moves (steady E) m"
    and f: "\<And>x s s'. m s = (Inr x, s') \<Longrightarrow> rt_kill s = k \<Longrightarrow> rt_account s = a \<Longrightarrow> sends E k a P (f x)"
  shows "sends E k a P (sbind m f)"
proof (rule sendsI)
  fix s :: "('a, 'b) logged" and r t
  assume run: "sbind m f s = (r, t)" and s: "oms_ok (rt_oms s)" "rt_kill s = k" "rt_account s = a"
  obtain x s1 where x: "m s = (x, s1)" by fastforce
  have st: "steady E s s1" using m x by (rule movesD)
  then have s1: "rt_kill s1 = k" "rt_account s1 = a" "sent (rt_oms s1) = sent (rt_oms s)"
      "oms_path (rt_oms_env E) False (rt_oms s) (rt_oms s1)" "oms_ok (rt_oms s1)"
    using s path_oms_ok by (auto simp: steady_def silent_def)
  show "oms_path (rt_oms_env E) False (rt_oms s) (rt_oms t) \<and> rt_kill t = k \<and> rt_account t = a \<and>
     (\<exists>ids. sent (rt_oms t) = sent (rt_oms s) @ ids \<and> (ids \<noteq> [] \<longrightarrow> P (om_orders (rt_oms t)) ids))"
  proof (cases x)
    case (Inl e)
    then show ?thesis using run x s1 by (auto simp: sbind_err)
  next
    case (Inr y)
    then have "f y s1 = (r, t)" using run x by (simp add: sbind_ok)
    with f [of s y s1] x Inr s s1 show ?thesis
      by (auto elim!: sendsD intro: rtranclp_trans)
  qed
qed

text \<open>Parts after the last order keep what is known of the orders sent.\<close>

lemma sends_then:
  assumes m: "sends E k a P m" and f: "\<And>x. moves (steady E) (f x)"
    and mono: "\<And>d d' ids. P d ids \<Longrightarrow> evolves d d' \<Longrightarrow> P d' ids"
  shows "sends E k a P (sbind m f)"
proof (rule sendsI)
  fix s :: "('a, 'b) logged" and r t
  assume run: "sbind m f s = (r, t)" and s: "oms_ok (rt_oms s)" "rt_kill s = k" "rt_account s = a"
  obtain x s1 where x: "m s = (x, s1)" by fastforce
  obtain ids where s1: "oms_path (rt_oms_env E) False (rt_oms s) (rt_oms s1)" "rt_kill s1 = k" "rt_account s1 = a"
      "sent (rt_oms s1) = sent (rt_oms s) @ ids" "ids \<noteq> [] \<longrightarrow> P (om_orders (rt_oms s1)) ids"
    using sendsD [OF m x s] .
  show "oms_path (rt_oms_env E) False (rt_oms s) (rt_oms t) \<and> rt_kill t = k \<and> rt_account t = a \<and>
     (\<exists>ids. sent (rt_oms t) = sent (rt_oms s) @ ids \<and> (ids \<noteq> [] \<longrightarrow> P (om_orders (rt_oms t)) ids))"
  proof (cases x)
    case (Inl e)
    then show ?thesis using run x s1 by (auto simp: sbind_err)
  next
    case (Inr y)
    then have "f y s1 = (r, t)" using run x by (simp add: sbind_ok)
    then have "steady E s1 t" using f movesD by metis
    then have t: "oms_path (rt_oms_env E) False (rt_oms s1) (rt_oms t)" "sent (rt_oms t) = sent (rt_oms s1)"
        "rt_kill t = k" "rt_account t = a" using s1 by (auto simp: steady_def silent_def)
    have "ids \<noteq> [] \<longrightarrow> P (om_orders (rt_oms t)) ids" using s1(5) mono path_evolves [OF t(1)] by blast
    with s1 t show ?thesis by (auto intro: rtranclp_trans)
  qed
qed

lemma sends_mono: "sends E k a P m \<Longrightarrow> (\<And>d ids. P d ids \<Longrightarrow> Q d ids) \<Longrightarrow> sends E k a Q m"
  unfolding sends_def by blast

section \<open>The orders of a cycle\<close>

lemma create_result:
  assumes "create_order V r s = (Inr x, s')" "oms_ids_ok s"
  shows "map_of (om_orders s') (artifact_id x) = Some x"
proof (cases "map_of (om_orders s) (artifact_id r)")
  case (Some y)
  have q: "moves same_core (republish_key V (order_key y ''order_created'') ''order_created'' (artifact_id y))" by simp
  obtain u s1 where u: "republish_key V (order_key y ''order_created'') ''order_created'' (artifact_id y) s = (u, s1)" by fastforce
  with assms(1) Some have "x = y" "s' = s1"
    by (auto simp: create_order_def sbind_def split: if_splits sum.splits)
  with Some u movesD [OF q u] oms_ids [OF assms(2) Some] show ?thesis by (simp add: same_core_def)
next
  case None
  show ?thesis
  proof (cases "find (\<lambda>p. idempotency_key p = idempotency_key r) (map snd (om_orders s))")
    case (Some y)
    have q: "moves same_core (republish_key V (order_key r ''order_created'') ''order_created'' (artifact_id y))" by simp
    obtain u s1 where u: "republish_key V (order_key r ''order_created'') ''order_created'' (artifact_id y) s = (u, s1)" by fastforce
    with assms(1) None Some have "x = y" "s' = s1"
      by (auto simp: create_order_def sbind_def split: if_splits sum.splits)
    moreover obtain i where i: "(i, y) \<in> set (om_orders s)" using Some by (auto simp: find_Some_iff) (metis nth_mem prod.collapse)
    then have "map_of (om_orders s) i = Some y" "artifact_id y = i"
      using assms(2) by (auto simp: oms_ids_ok_def dict_ok_def)
    ultimately show ?thesis using movesD [OF q u] by (simp add: same_core_def)
  next
    case new: None
    from assms(1) None new obtain s1 s2 u where "x = r" "s1 = s2\<lparr>om_orders := dict_set (artifact_id r) r (om_orders s2)\<rparr>"
        "publish_event V u ''order_created'' (artifact_id r) s1 = (Inr (), s')"
      by (auto simp: create_order_def sbind_eq_Inr set_order_def)
    with movesD [OF moves_publish_event] show ?thesis by (fastforce simp: same_core_def)
  qed
qed

lemma route_round:
  assumes E: "rt_oms_env E = with_log V" and run: "on_oms (route (rt_oms_env E) oid) s = (r, t)"
    and ok: "oms_ok (rt_oms s)" and ord: "map_of (om_orders (rt_oms s)) oid = Some x"
  obtains "oms_path (rt_oms_env E) False (rt_oms s) (rt_oms t)" "rt_kill t = rt_kill s" "rt_account t = rt_account s"
    "sent (rt_oms t) = sent (rt_oms s) \<or> sent (rt_oms t) = sent (rt_oms s) @ [oid]"
proof -
  obtain o' where o': "route (with_log V) oid (rt_oms s) = (r, o')" "t = s\<lparr>rt_oms := o'\<rparr>"
    using run E by (auto simp: on_oms_def split: prod.splits)
  have path: "oms_path (with_log V) False (rt_oms s) o'" using moves_route o'(1) by (rule movesD)
  have "sent o' = sent (rt_oms s) \<or> sent o' = sent (rt_oms s) @ [oid]"
    using o'(1)
  proof (cases rule: route_sent)
    case (sends y s1)
    obtain st where "map_of (om_orders s1) oid = Some (x\<lparr>ord_state := st\<rparr>)"
    proof -
      have "moves (oms_path (with_log V) False) (transition (with_log V) oid ROUTED)" by (rule moves_transition) simp
      with sends(3) have "oms_path (with_log V) False (rt_oms s) s1" by (blast dest: movesD)
      with ord that show thesis using path_evolves unfolding evolves_def by metis
    qed
    moreover have "map_of (om_orders s1) oid = Some y" using transition_result [OF sends(3)] by simp
    ultimately have "artifact_id y = artifact_id x" by simp
    also have "\<dots> = oid" using ok ord oms_ids by (auto simp: oms_ok_def)
    finally show ?thesis using sends by simp
  qed simp
  with path o' E that show thesis by simp
qed

lemma steady_create [simp]:
  assumes "rt_oms_env E = with_log V" shows "moves (steady E) (on_oms (create_order (rt_oms_env E) ord))"
proof (rule steady_oms)
  show "moves same_sent (create_order (rt_oms_env E) ord)" using assms by simp
  show "moves (oms_path (rt_oms_env E) False) (create_order (rt_oms_env E) ord)"
    by (rule movesI) (metis create_path prod.collapse)
qed

lemma steady_transition [simp]: "st \<noteq> PARTIALLY_FILLED \<Longrightarrow> moves (steady E) (on_oms (transition (rt_oms_env E) oid st))"
  by (intro steady_oms moves_transition) simp_all

lemma steady_approve [simp]: "moves (steady E) (on_oms (approve_risk (rt_oms_env E) oid d c))"
  by (intro steady_oms moves_approve_risk) simp_all

lemma approve_approved: "approve_risk V oid d c s = (Inr x, s') \<Longrightarrow> dec_outcome d = APPROVED"
  by (auto simp: approve_risk_def split: if_splits)

text \<open>Every order that the loop sends had an approved check, under an approved decision.\<close>

definition loop_sends ::
  "('v, 'b) runtime_env \<Rightarrow> kill_switch \<Rightarrow> account \<Rightarrow> risk_decision \<Rightarrow> market \<Rightarrow> nat \<Rightarrow> (uuid, order) dict \<Rightarrow> uuid list \<Rightarrow> bool" where
  "loop_sends E k a risk m n d ids \<longleftrightarrow>
     dec_outcome risk = APPROVED \<and> length ids \<le> n \<and> (\<forall>i \<in> set ids. cleared E k a m d i)"

lemma loop_sends_evolves: "loop_sends E k a risk m n d ids \<Longrightarrow> evolves d d' \<Longrightarrow> loop_sends E k a risk m n d' ids"
  unfolding loop_sends_def using cleared_evolves by blast

text \<open>The same for one run of an action, from a given state.\<close>

definition reach ::
  "('v, 'b) logged_env \<Rightarrow> ((uuid, order) dict \<Rightarrow> uuid list \<Rightarrow> bool) \<Rightarrow> ('v, 'b) logged \<Rightarrow> ('v, 'b) logged \<Rightarrow> bool" where
  "reach E P s t \<longleftrightarrow> oms_path (rt_oms_env E) False (rt_oms s) (rt_oms t) \<and> rt_kill t = rt_kill s \<and> rt_account t = rt_account s \<and>
     (\<exists>ids. sent (rt_oms t) = sent (rt_oms s) @ ids \<and> (ids \<noteq> [] \<longrightarrow> P (om_orders (rt_oms t)) ids))"

lemma sends_reach:
  "sends E k a P m \<longleftrightarrow> (\<forall>s r t. m s = (r, t) \<longrightarrow> oms_ok (rt_oms s) \<longrightarrow> rt_kill s = k \<longrightarrow> rt_account s = a \<longrightarrow> reach E P s t)"
  unfolding sends_def reach_def by (simp cong: imp_cong)

lemma reach_steady: "steady E s t \<Longrightarrow> reach E P s t"
  by (auto simp: reach_def steady_def silent_def)

lemma reach_after: "steady E s s1 \<Longrightarrow> reach E P s1 t \<Longrightarrow> reach E P s t"
  by (auto simp: reach_def steady_def silent_def intro: rtranclp_trans)

lemma steady_ok: "steady E s t \<Longrightarrow> oms_ok (rt_oms s) \<Longrightarrow> oms_ok (rt_oms t)"
  unfolding steady_def silent_def using path_oms_ok by blast

lemma on_oms_result: "on_oms m s = (r, t) \<Longrightarrow> m (rt_oms s) = (r, rt_oms t)"
  by (auto simp: on_oms_def split: prod.splits)

text \<open>A round that routes the order and goes on.\<close>

lemma reach_route:
  assumes E: "rt_oms_env E = with_log V" and run: "on_oms (route (rt_oms_env E) (artifact_id x)) s = (r, s1)"
    and s: "oms_ok (rt_oms s)" "map_of (om_orders (rt_oms s)) (artifact_id x) = Some (x\<lparr>ord_state := st0\<rparr>)"
    and clear: "check_order (rt_risk_env E) (rt_market_sha E) (rt_kill s) x (rt_account s) m (rt_policy E) = Inr chk" "chk_approved chk"
      "dec_outcome risk = APPROVED"
    and rest: "oms_ok (rt_oms s1) \<Longrightarrow> rt_kill s1 = rt_kill s \<Longrightarrow> rt_account s1 = rt_account s \<Longrightarrow> reach E (loop_sends E (rt_kill s) (rt_account s) risk m n) s1 t"
  shows "reach E (loop_sends E (rt_kill s) (rt_account s) risk m (Suc n)) s t"
proof -
  obtain "oms_path (rt_oms_env E) False (rt_oms s) (rt_oms s1)" "rt_kill s1 = rt_kill s" "rt_account s1 = rt_account s"
    "sent (rt_oms s1) = sent (rt_oms s) \<or> sent (rt_oms s1) = sent (rt_oms s) @ [artifact_id x]"
    using route_round [OF E run s] .
  note s1 = this
  have "reach E (loop_sends E (rt_kill s) (rt_account s) risk m n) s1 t" using rest path_oms_ok [OF s1(1) s(1)] s1(2,3) by simp
  then obtain ids where t: "oms_path (rt_oms_env E) False (rt_oms s1) (rt_oms t)" "rt_kill t = rt_kill s" "rt_account t = rt_account s"
      "sent (rt_oms t) = sent (rt_oms s1) @ ids"
      "ids \<noteq> [] \<longrightarrow> loop_sends E (rt_kill s) (rt_account s) risk m n (om_orders (rt_oms t)) ids"
    using s1 by (auto simp: reach_def)
  have path: "oms_path (rt_oms_env E) False (rt_oms s) (rt_oms t)" using s1(1) t(1) by (rule rtranclp_trans)
  obtain st where "map_of (om_orders (rt_oms t)) (artifact_id x) = Some (x\<lparr>ord_state := st\<rparr>)"
    using path_evolves [OF path] s(2) unfolding evolves_def by force
  then have "cleared E (rt_kill s) (rt_account s) m (om_orders (rt_oms t)) (artifact_id x)"
    using clear unfolding cleared_def by blast
  moreover obtain ids1 where "sent (rt_oms s1) = sent (rt_oms s) @ ids1" "ids1 = [] \<or> ids1 = [artifact_id x]" using s1(4) by auto
  ultimately have "sent (rt_oms t) = sent (rt_oms s) @ (ids1 @ ids)"
      "loop_sends E (rt_kill s) (rt_account s) risk m (Suc n) (om_orders (rt_oms t)) (ids1 @ ids)"
    using t(4,5) clear(3) by (auto simp: loop_sends_def)
  with path t(2,3) show ?thesis unfolding reach_def by blast
qed

lemma route_orders_sends:
  assumes E: "rt_oms_env E = with_log V"
  shows "sends E k a (loop_sends E k a risk m (length ords)) (route_orders E risk m ords routed)"
proof (induction ords arbitrary: routed)
  case Nil
  show ?case unfolding route_orders.simps by (intro sends_steady moves_basic steady_props)
next
  case (Cons ord ords)
  have "reach E (loop_sends E (rt_kill s) (rt_account s) risk m (Suc (length ords))) s t"
    if run: "route_orders E risk m (ord # ords) routed s = (r, t)" and s: "oms_ok (rt_oms s)" "rt_kill s = k" "rt_account s = a" for s r t
  proof -
    obtain c s1 where c: "on_oms (create_order (rt_oms_env E) ord) s = (c, s1)" by fastforce
    have st1: "steady E s s1" using steady_create [OF E] c by (rule movesD)
    show ?thesis
    proof (cases c)
      case (Inl e)
      with run c have "t = s1" by (auto simp: sbind_err)
      with st1 show ?thesis by (simp add: reach_steady)
    next
      case (Inr x)
      have x: "map_of (om_orders (rt_oms s1)) (artifact_id x) = Some x"
        using create_result on_oms_result [OF c [unfolded Inr]] s(1) by (auto simp: oms_ok_def)
      have ok1: "oms_ok (rt_oms s1)" using st1 s(1) by (rule steady_ok)
      have same: "rt_kill s1 = rt_kill s" "rt_account s1 = rt_account s" using st1 by (simp_all add: steady_def silent_def)
      let ?K = "check_order (rt_risk_env E) (rt_market_sha E) (rt_kill s1) x (rt_account s1) m (rt_policy E)"
      show ?thesis
      proof (cases "\<exists>chk. ?K = Inr chk \<and> chk_approved chk")
        case False
        have "steady E s1 t"
        proof (cases ?K)
          case (Inl e)
          then have "t = s1" using run c Inr by (simp add: sbind_ok order_check_def)
          then show ?thesis using steady_props(1) by (simp add: reflpD)
        next
          case K: (Inr chk)
          have "moves (steady E) (sbind (on_oms (transition (rt_oms_env E) (artifact_id x) REJECTED)) (\<lambda>_.
              sreturn (STAGE_RISK_REJECTED, chk_reasons chk, routed)))" by (intro steady_intros) simp_all
          with run c Inr K False show ?thesis by (auto simp: sbind_ok order_check_def dest: movesD)
        qed
        with transpD [OF steady_props(2) st1] show ?thesis by (simp add: reach_steady)
      next
        case True
        then obtain chk where K: "?K = Inr chk" "chk_approved chk" by blast
        obtain b s2 where b: "on_oms (approve_risk (rt_oms_env E) (artifact_id x) risk (Some chk)) s1 = (b, s2)" by fastforce
        have st2: "steady E s1 s2" using steady_approve b by (rule movesD)
        show ?thesis
        proof (cases b)
          case (Inl e)
          then have "t = s2" using run c Inr K b by (simp add: sbind_ok sbind_err order_check_def)
          then show ?thesis using transpD [OF steady_props(2) st1 st2] by (simp add: reach_steady)
        next
          case b: (Inr y)
          have appr: "dec_outcome risk = APPROVED" using approve_approved on_oms_result [OF \<open>on_oms _ s1 = _\<close> [unfolded b]] .
          have same2: "rt_kill s2 = rt_kill s" "rt_account s2 = rt_account s"
            using st2 same by (simp_all add: steady_def silent_def)
          have "evolves (om_orders (rt_oms s1)) (om_orders (rt_oms s2))"
            using st2 path_evolves by (auto simp: steady_def silent_def)
          then obtain st0 where x2: "map_of (om_orders (rt_oms s2)) (artifact_id x) = Some (x\<lparr>ord_state := st0\<rparr>)"
            using x unfolding evolves_def by blast
          obtain ack s3 where ack: "on_oms (route (rt_oms_env E) (artifact_id x)) s2 = (ack, s3)" by fastforce
          have rest: "reach E (loop_sends E (rt_kill s2) (rt_account s2) risk m (length ords)) s3 t"
            if s3: "oms_ok (rt_oms s3)" "rt_kill s3 = rt_kill s2" "rt_account s3 = rt_account s2"
          proof (cases "\<exists>ak. ack = Inr (Some ak) \<and> ack_accepted ak")
            case True
            then have "route_orders E risk m ords (routed @ [artifact_id x]) s3 = (r, t)"
              using run c Inr K \<open>on_oms _ s1 = _\<close> b ack by (auto simp: sbind_ok order_check_def)
            with Cons.IH [unfolded sends_reach] s3 s same2 show ?thesis by metis
          next
            case False
            then have "t = s3"
              using run c Inr K \<open>on_oms _ s1 = _\<close> b ack
              by (cases ack) (auto simp: sbind_ok sbind_err order_check_def split: option.splits if_splits)
            then show ?thesis using reach_steady [OF reflpD [OF steady_props(1)]] by simp
          qed
          have "reach E (loop_sends E (rt_kill s2) (rt_account s2) risk m (Suc (length ords))) s2 t"
            using reach_route [OF E ack steady_ok [OF st2 ok1] x2 _ K(2) appr rest] K(1) same same2 by simp
          then show ?thesis using reach_after [OF transpD [OF steady_props(2) st1 st2]] same2 by simp
        qed
      qed
    qed
  qed
  then show ?case by (auto simp: sends_reach)
qed

section \<open>The cycle\<close>

definition admitted_sends ::
  "('v, 'b) runtime_env \<Rightarrow> kill_switch \<Rightarrow> account \<Rightarrow> market \<Rightarrow> decision_bundle \<Rightarrow> (uuid, order) dict \<Rightarrow> uuid list \<Rightarrow> bool" where
  "admitted_sends E k a m d orders ids \<longleftrightarrow>
     (\<exists>aid now risk n. evaluate (rt_risk_env E) (rt_market_sha E) k aid now
          \<lparr>rq_target = db_target d, rq_account = a, rq_market = m, rq_policy = rt_policy E\<rparr> False = Inr risk \<and>
        int n \<le> cf_max_order_count (rt_config E) \<and> loop_sends E k a risk m n orders ids)"

definition decision_sends ::
  "('v, 'b) runtime_env \<Rightarrow> kill_switch \<Rightarrow> account \<Rightarrow> data_snapshot \<Rightarrow> (uuid, order) dict \<Rightarrow> uuid list \<Rightarrow> bool" where
  "decision_sends E k a snap orders ids \<longleftrightarrow>
     (\<exists>n m d. rt_market E n snap = Inr m \<and> rt_decide E n snap a m = Inr d \<and> \<not> db_abstained d \<and> er_passed (db_gate d) \<and>
        admitted_sends E k a m d orders ids)"

definition snapshot_sends ::
  "('v, 'b) runtime_env \<Rightarrow> utc \<Rightarrow> kill_switch \<Rightarrow> account \<Rightarrow> (uuid, order) dict \<Rightarrow> uuid list \<Rightarrow> bool" where
  "snapshot_sends E u k a orders ids \<longleftrightarrow>
     (\<exists>n snap. rt_snapshot E n u = Inr snap \<and> ds_as_of snap \<le> u \<and> quality_admitted (ds_quality snap) \<and>
        decision_sends E k a snap orders ids)"

definition cadence_ready :: "('v, 'b) runtime_env \<Rightarrow> utc \<Rightarrow> bool" where
  "cadence_ready E u \<longleftrightarrow> (case rt_cadence E of
     None \<Rightarrow> True
   | Some (P, observed) \<Rightarrow> \<exists>n obs r. observed n u = Inr obs \<and> check_cadence P (Aware u 0) obs None None = Inr r \<and> rd_passed r)"

lemma admitted_sends_evolves:
  "admitted_sends E k a m d orders ids \<Longrightarrow> evolves orders orders' \<Longrightarrow> admitted_sends E k a m d orders' ids"
  unfolding admitted_sends_def using loop_sends_evolves by blast

lemma run_admitted_sends:
  assumes E: "rt_oms_env E = with_log V" shows "sends E k a (admitted_sends E k a m d) (run_admitted E c snap m d)"
  unfolding run_admitted_def Let_def
proof (rule sends_bind, simp, rule sends_bind, simp)
  fix n risk and s s' :: "('a, 'b) logged"
  assume "spure (\<lambda>s. evaluate (rt_risk_env E) (rt_market_sha E) (rt_kill s) (rt_uuid E n) (rt_now E n)
      \<lparr>rq_target = db_target d, rq_account = rt_account s, rq_market = m, rq_policy = rt_policy E\<rparr> False) s = (Inr risk, s')"
    and "rt_kill s = k" "rt_account s = a"
  then have ev: "evaluate (rt_risk_env E) (rt_market_sha E) k (rt_uuid E n) (rt_now E n)
      \<lparr>rq_target = db_target d, rq_account = a, rq_market = m, rq_policy = rt_policy E\<rparr> False = Inr risk"
    by simp
  have loop: "sends E k a (admitted_sends E k a m d) (sbind (route_orders E risk m ords []) (\<lambda>(stage, reasons, ids).
      sbind (record_learning_decision E d snap (Some risk) ids) (\<lambda>_. finish E c' stage reasons None ids)))"
    if "\<not> int (length ords) > cf_max_order_count (rt_config E)" for ords c'
  proof (rule sends_then)
    show "sends E k a (admitted_sends E k a m d) (route_orders E risk m ords [])"
      using route_orders_sends [OF E] by (rule sends_mono) (use ev that in \<open>auto simp: admitted_sends_def not_less\<close>)
    show "moves (steady E) (case x of (stage, reasons, ids) \<Rightarrow>
        sbind (record_learning_decision E d snap (Some risk) ids) (\<lambda>_. finish E c' stage reasons None ids))" for x
      by (auto intro!: steady_intros split: prod.split)
  qed (rule admitted_sends_evolves)
  have stop: "sends E k a (admitted_sends E k a m d)
      (sbind (record_learning_decision E d snap (Some risk) []) (\<lambda>_. finish E c' stage reasons None []))" for c' stage reasons
    by (intro sends_steady steady_intros) simp_all
  show "sends E k a (admitted_sends E k a m d)
     (if dec_outcome risk = RISK_REJECTED
      then sbind (record_learning_decision E d snap (Some risk) []) (\<lambda>_.
             finish E (c\<lparr>cy_risk_decision_id := Some (artifact_id risk)\<rparr>) STAGE_RISK_REJECTED (dec_reasons risk) None [])
      else sbind draw (\<lambda>k. sbind (spure (\<lambda>s. rt_orders E k d risk (rt_account s) m)) (\<lambda>ords.
        if int (length ords) > cf_max_order_count (rt_config E)
        then sbind (record_learning_decision E d snap (Some risk) []) (\<lambda>_.
               finish E (c\<lparr>cy_risk_decision_id := Some (artifact_id risk)\<rparr>) STAGE_RISK_REJECTED [''max_order_count_per_cycle''] None [])
        else sbind (route_orders E risk m ords []) (\<lambda>(stage, reasons, ids).
             sbind (record_learning_decision E d snap (Some risk) ids) (\<lambda>_.
               finish E (c\<lparr>cy_risk_decision_id := Some (artifact_id risk)\<rparr>) stage reasons None ids)))))"
    using loop stop
    by (auto intro!: sends_bind [OF steady_draw] sends_bind [OF moves_basic(4) [OF steady_props(1)]] simp del: sbind_spure)
qed

lemma run_decision_sends:
  assumes E: "rt_oms_env E = with_log V" shows "sends E k a (decision_sends E k a snap) (run_decision E c snap)"
  unfolding run_decision_def Let_def
proof (rule sends_bind, simp, rule sends_bind, simp, rule sends_bind, simp)
  fix n m d and s s' u u' :: "('a, 'b) logged"
  assume 1: "spure (\<lambda>_. rt_market E n snap) s = (Inr m, s')"
    and 2: "spure (\<lambda>s. rt_decide E n snap (rt_account s) m) u = (Inr d, u')" "rt_account u = a"
  have go: "sends E k a (decision_sends E k a snap) (run_admitted E c' snap m d)" if "\<not> (db_abstained d \<or> \<not> er_passed (db_gate d))" for c'
    using run_admitted_sends [OF E] by (rule sends_mono) (use 1 2 that in \<open>auto simp: decision_sends_def\<close>)
  show "sends E k a (decision_sends E k a snap) (if db_abstained d \<or> \<not> er_passed (db_gate d)
      then sbind (record_learning_decision E d snap None []) (\<lambda>_.
        finish E (decided_cycle E c snap d) STAGE_ABSTAINED
          (if db_missing d \<noteq> [] then db_missing d else er_reasons (db_gate d)) None [])
      else run_admitted E (decided_cycle E c snap d) snap m d)"
    using go by (auto intro!: sends_steady steady_intros)
qed

lemma run_snapshot_sends:
  assumes E: "rt_oms_env E = with_log V" shows "sends E k a (snapshot_sends E (cy_cutoff c) k a) (run_snapshot E c)"
  unfolding run_snapshot_def
proof (rule sends_bind, simp, rule sends_bind, simp)
  fix n snap and s s' :: "('a, 'b) logged"
  assume 1: "spure (\<lambda>_. rt_snapshot E n (cy_cutoff c)) s = (Inr snap, s')"
  have go: "sends E k a (snapshot_sends E (cy_cutoff c) k a) (run_decision E c snap)"
    if "\<not> cy_cutoff c < ds_as_of snap" "quality_admitted (ds_quality snap)"
    using run_decision_sends [OF E]
  proof (rule sends_mono)
    show "snapshot_sends E (cy_cutoff c) k a orders ids" if "decision_sends E k a snap orders ids" for orders ids
      using that 1 \<open>\<not> cy_cutoff c < ds_as_of snap\<close> \<open>quality_admitted (ds_quality snap)\<close>
      unfolding snapshot_sends_def by (auto simp: not_less)
  qed
  show "sends E k a (snapshot_sends E (cy_cutoff c) k a) (if cy_cutoff c < ds_as_of snap
     then finish E c STAGE_ABSTAINED [''snapshot_after_cutoff''] (Some (artifact_id snap)) []
     else if \<not> quality_admitted (ds_quality snap)
     then finish E c STAGE_ABSTAINED [''data_quality:'' @ ds_quality snap] (Some (artifact_id snap)) []
     else run_decision E c snap)"
    using go by (auto intro!: sends_steady)
qed

lemma run_cadence_sends:
  assumes E: "rt_oms_env E = with_log V"
  shows "sends E k a (\<lambda>d ids. cadence_ready E (cy_cutoff c) \<and> snapshot_sends E (cy_cutoff c) k a d ids) (run_cadence E c)"
proof (cases "rt_cadence E")
  case None
  then show ?thesis unfolding run_cadence_def
    by (auto intro: sends_mono [OF run_snapshot_sends [OF E]] simp: cadence_ready_def)
next
  case (Some v)
  then obtain P observed where c: "rt_cadence E = Some (P, observed)" by (cases v) auto
  show ?thesis unfolding run_cadence_def c option.case prod.case
  proof (rule sends_bind, simp, rule sends_bind, simp)
    fix n r and s s' :: "('a, 'b) logged"
    assume 1: "spure (\<lambda>_. rbind (observed n (cy_cutoff c)) (\<lambda>obs. check_cadence P (Aware (cy_cutoff c) 0) obs None None)) s = (Inr r, s')"
    have go: "sends E k a (\<lambda>d ids. cadence_ready E (cy_cutoff c) \<and> snapshot_sends E (cy_cutoff c) k a d ids) (run_snapshot E c)"
      if "rd_passed r"
      using run_snapshot_sends [OF E] by (rule sends_mono) (use 1 that c in \<open>auto simp: cadence_ready_def rbind_eq_Inr\<close>)
    show "sends E k a (\<lambda>d ids. cadence_ready E (cy_cutoff c) \<and> snapshot_sends E (cy_cutoff c) k a d ids)
       (if \<not> rd_passed r then finish E c STAGE_ABSTAINED (rd_reasons r) None [] else run_snapshot E c)"
      using go by (auto intro!: sends_steady)
  qed
qed

end

