(* ===== verification/Runtime_Samples.thy ===== *)
theory Runtime_Samples
  imports Reconcile
begin

text \<open>
  A reconciliation that finds a mismatch, evaluated: the venue reports other cash and an order that an empty
  order manager does not know.
\<close>

abbreviation rn_reconcile :: "rc_service \<Rightarrow> reconciliation res \<times> rc_service" where
  "rn_reconcile \<equiv> run_reconciliation rx_env ex_account (empty_manager empty_ledgers ((), []) () 0 :: (unit \<times> uuid list, unit) oms)
     (None :: unit acct_ledger option) (Some (rx_view 101))"

lemma rn_reconcile: "is_ok (fst (rn_reconcile rx_start))" "\<not> rec_reconciled (the_ok (fst (rn_reconcile rx_start)))"
  by code_simp+

end
