(* ===== verification/Runtime_Properties.thy ===== *)
theory Runtime_Properties
  imports Runtime_Facts Risk_Properties Runtime_Samples
begin

text \<open>
  The properties of the paper runtime: what reaches the venue in a cycle, what a failed reconciliation stops,
  and that a cycle always ends in a recorded verdict.
\<close>

section \<open>What a cycle sends\<close>

lemma run_body_sends:
  assumes E: "rt_oms_env E = with_log V" and run: "run_body E c s = (r, t)" and ok: "oms_ok (rt_oms s)"
  shows "oms_path (rt_oms_env E) False (rt_oms s) (rt_oms t) \<and> rt_account t = rt_account s \<and>
    (\<exists>ids. sent (rt_oms t) = sent (rt_oms s) @ ids \<and> (ids \<noteq> [] \<longrightarrow> \<not> ks_tripped (rt_kill t) \<and> cadence_ready E (cy_cutoff c) \<and>
       snapshot_sends E (cy_cutoff c) (rt_kill t) (rt_account s) (om_orders (rt_oms t)) ids))"
proof -
  obtain x s1 where x: "sync_dashboard_control E s = (x, s1)" by fastforce
  have sil: "silent E s s1" using silent_sync x by (rule movesD)
  then have s1: "oms_path (rt_oms_env E) False (rt_oms s) (rt_oms s1)" "sent (rt_oms s1) = sent (rt_oms s)"
      "rt_account s1 = rt_account s" "oms_ok (rt_oms s1)" using ok path_oms_ok by (auto simp: silent_def)
  show ?thesis
  proof (cases x)
    case (Inl e)
    then have "t = s1" using run x by (simp add: run_body_def sbind_err)
    with s1 show ?thesis by simp
  next
    case (Inr u)
    then have rest: "(if ks_tripped (rt_kill s1) then finish E c STAGE_ABSTAINED [kill_text (rt_kill s1)] None [] else run_cadence E c) s1 = (r, t)"
      using run x by (simp add: run_body_def sbind_ok)
    show ?thesis
    proof (cases "ks_tripped (rt_kill s1)")
      case True
      with rest have "finish E c STAGE_ABSTAINED [kill_text (rt_kill s1)] None [] s1 = (r, t)" by simp
      then have "steady E s1 t" by (rule movesD [OF steady_finish])
      with s1 show ?thesis by (auto simp: steady_def silent_def intro: rtranclp_trans)
    next
      case False
      with rest have "run_cadence E c s1 = (r, t)" by simp
      from sendsD [OF run_cadence_sends [OF E, of "rt_kill s1" "rt_account s1" c] this s1(4) refl refl]
      obtain ids where t: "oms_path (rt_oms_env E) False (rt_oms s1) (rt_oms t)" "rt_kill t = rt_kill s1" "rt_account t = rt_account s1"
        "sent (rt_oms t) = sent (rt_oms s1) @ ids"
        "ids \<noteq> [] \<longrightarrow> cadence_ready E (cy_cutoff c) \<and> snapshot_sends E (cy_cutoff c) (rt_kill s1) (rt_account s1) (om_orders (rt_oms t)) ids" .
      have "oms_path (rt_oms_env E) False (rt_oms s) (rt_oms t)" using s1(1) t(1) by (rule rtranclp_trans)
      with t s1 False show ?thesis by auto
    qed
  qed
qed

text \<open>The incident ledger and the switch stay as they are.\<close>

definition same_incidents :: "('v, 'b) runtime \<Rightarrow> ('v, 'b) runtime \<Rightarrow> bool" where
  "same_incidents s t \<longleftrightarrow> shared t NS_INCIDENT = shared s NS_INCIDENT \<and> rt_kill t = rt_kill s"

lemma same_incidents_props [simp]: "reflp same_incidents" "transp same_incidents"
  by (auto simp: reflp_def transp_def same_incidents_def)

lemma same_incidents_draw: "moves same_incidents draw"
  by (auto intro!: movesI simp: draw_def same_incidents_def shared_def)

lemma same_incidents_ledger: "ev_namespace ev \<noteq> NS_INCIDENT \<Longrightarrow> moves same_incidents (on_ledger (ledger_append ev))"
  by (auto intro!: movesI simp: on_ledger_def same_incidents_def set_shared_def shared_def split: prod.split dest: ledger_append_other)

lemma same_incidents_record: "moves same_incidents (record_cycle E c)"
  unfolding record_cycle_def
  by (intro moves_sbind [OF same_incidents_props(2)] same_incidents_draw same_incidents_ledger) (simp_all add: cycle_event_def)

lemma same_incidents_finish: "moves same_incidents (finish E c stage reasons snap ids)"
  unfolding finish_def by (auto intro!: moves_sbind [OF same_incidents_props(2)] same_incidents_record)

text \<open>The course of a cycle: it ends before its body, or the body runs and its exceptions become a failed cycle.\<close>

lemma run_once_cases:
  assumes run: "run_once E cutoff s = (res, t)"
  obtains (early) e where "res = Inl e" "steady E s t" "same_incidents s t" "closed_cutoff cutoff = Inl e \<or> cf_run_id (rt_config E) = [] \<or>
      (\<exists>c. cy_id c = rt_uuid E (rt_draws s) \<and> cy_stage c = STAGE_STARTED \<and> record_cycle E c (s\<lparr>rt_draws := Suc (rt_draws s)\<rparr>) = (Inl e, t))"
  | (cycle) u c s2 b s3 where "closed_cutoff cutoff = Inr u" "cy_cutoff c = u" "cy_id c = rt_uuid E (rt_draws s)"
      "cy_stage c = STAGE_STARTED" "record_cycle E c (s\<lparr>rt_draws := Suc (rt_draws s)\<rparr>) = (Inr (), s2)"
      "steady E s s2" "run_body E c s2 = (b, s3)"
      "(case b of Inl e \<Rightarrow> finish E c STAGE_FAILED [error_name e] None [] s3 | Inr fin \<Rightarrow> (Inr fin, s3)) = (res, t)"
proof (cases "closed_cutoff cutoff")
  case (Inl e)
  then have "res = Inl e" "t = s" using run by (auto simp: run_once_def)
  then show thesis using early [of e] Inl by (simp add: reflpD [OF steady_props(1)] reflpD [OF same_incidents_props(1)])
next
  case u: (Inr u)
  define s1 where "s1 = s\<lparr>rt_draws := Suc (rt_draws s)\<rparr>"
  have st1: "steady E s s1" by (simp add: s1_def steady_def silent_def)
  have in1: "same_incidents s s1" by (simp add: s1_def same_incidents_def shared_def)
  define c where "c = \<lparr>cy_id = rt_uuid E (rt_draws s), cy_run_id = cf_run_id (rt_config E), cy_cutoff = u, cy_stage = STAGE_STARTED,
    cy_snapshot_id = None, cy_decision_id = None, cy_risk_decision_id = None, cy_order_ids = [], cy_reasons = [],
    cy_created_at = rt_now E (rt_draws s)\<rparr>"
  have mk: "mk_runtime_cycle (rt_uuid E (rt_draws s)) (cf_run_id (rt_config E)) (Aware u 0) STAGE_STARTED (Aware (rt_now E (rt_draws s)) 0) =
      (if cf_run_id (rt_config E) = [] then Inl (ValidationError ''too short'') else Inr c)"
    by (simp add: mk_runtime_cycle_def check_def require_aware_def c_def)
  have rest: "(case mk_runtime_cycle (rt_uuid E (rt_draws s)) (cf_run_id (rt_config E)) (Aware u 0) STAGE_STARTED (Aware (rt_now E (rt_draws s)) 0) of
      Inl e \<Rightarrow> (Inl e, s1)
    | Inr c \<Rightarrow> sbind (record_cycle E c) (\<lambda>_. (\<lambda>s. case run_body E c s of
         (Inl e, t) \<Rightarrow> finish E c STAGE_FAILED [error_name e] None [] t | (Inr fin, t) \<Rightarrow> (Inr fin, t))) s1) = (res, t)"
    using run u unfolding s1_def by (simp add: run_once_def draw_def sbind_apply [of draw])
  show thesis
  proof (cases "cf_run_id (rt_config E) = []")
    case True
    then have "res = Inl (ValidationError ''too short'')" "t = s1" using rest mk by simp_all
    with True st1 in1 show thesis by (intro early) simp_all
  next
    case False
    obtain a s2 where a: "record_cycle E c s1 = (a, s2)" by fastforce
    have st2: "steady E s s2" using transpD [OF steady_props(2) st1 movesD [OF steady_record a]] .
    have in2: "same_incidents s s2" using transpD [OF same_incidents_props(2) in1 movesD [OF same_incidents_record a]] .
    have c: "cy_id c = rt_uuid E (rt_draws s)" "cy_stage c = STAGE_STARTED" "cy_cutoff c = u" by (simp_all add: c_def)
    show thesis
    proof (cases a)
      case (Inl e)
      then have "res = Inl e" "t = s2" using rest mk False a by (simp_all add: sbind_err)
      then show thesis using early st2 in2 a Inl c s1_def by blast
    next
      case (Inr w)
      obtain b s3 where b: "run_body E c s2 = (b, s3)" by fastforce
      have "(case b of Inl e \<Rightarrow> finish E c STAGE_FAILED [error_name e] None [] s3 | Inr fin \<Rightarrow> (Inr fin, s3)) = (res, t)"
        using rest mk False a Inr b by (auto simp: sbind_ok split: sum.splits)
      then show thesis using cycle [OF u c(3,1,2) _ st2 b] a Inr s1_def by simp
    qed
  qed
qed

lemma finish_steady:
  "(case b of Inl e \<Rightarrow> finish E c stage [error_name e] None [] s | Inr fin \<Rightarrow> (Inr fin, s)) = (res, t) \<Longrightarrow> steady E s t"
  by (cases b) (auto dest: movesD [OF steady_finish] intro: reflpD [OF steady_props(1)])

lemma decision_sends_evolves:
  "decision_sends E k a snap orders ids \<Longrightarrow> evolves orders orders' \<Longrightarrow> decision_sends E k a snap orders' ids"
  unfolding decision_sends_def by (blast intro: admitted_sends_evolves)

lemma snapshot_sends_evolves:
  "snapshot_sends E u k a orders ids \<Longrightarrow> evolves orders orders' \<Longrightarrow> snapshot_sends E u k a orders' ids"
  unfolding snapshot_sends_def by (blast intro: decision_sends_evolves)

text \<open>C5: Nothing reaches the venue unless it was cleared.  Whatever the providers return or raise, the orders that one
  cycle newly sends to the venue were sent with the kill switch not tripped, for a closed hourly cutoff whose cadence is
  ready, on a snapshot that is not from the future and of admitted quality, for a decision that did not abstain and passed
  the evidence gate, under a decision of the risk kernel that approved its target, at most as many as the configuration
  allows, and the kernel's check of each of these very orders passed against the same account, market and policy.  The
  account is untouched and the order manager keeps its invariant.\<close>

theorem cycle_sends_cleared:
  assumes E: "rt_oms_env E = with_log V" and ok: "oms_ok (rt_oms s)" and run: "run_once E cutoff s = (res, t)"
  shows "oms_ok (rt_oms t) \<and> rt_account t = rt_account s \<and>
    (\<exists>ids. sent (rt_oms t) = sent (rt_oms s) @ ids \<and>
       (ids = [] \<or> \<not> ks_tripped (rt_kill t) \<and>
          (\<exists>u. closed_cutoff cutoff = Inr u \<and> cadence_ready E u \<and>
             snapshot_sends E u (rt_kill t) (rt_account s) (om_orders (rt_oms t)) ids)))"
  using run
proof (cases rule: run_once_cases)
  case (early e)
  then show ?thesis using ok path_oms_ok by (auto simp: steady_def silent_def)
next
  case (cycle u c s2 b s3)
  have ok2: "oms_ok (rt_oms s2)" using cycle(6) ok by (rule steady_ok)
  obtain ids where s3: "oms_path (rt_oms_env E) False (rt_oms s2) (rt_oms s3)" "rt_account s3 = rt_account s2"
      "sent (rt_oms s3) = sent (rt_oms s2) @ ids"
      "ids \<noteq> [] \<longrightarrow> \<not> ks_tripped (rt_kill s3) \<and> cadence_ready E u \<and>
         snapshot_sends E u (rt_kill s3) (rt_account s2) (om_orders (rt_oms s3)) ids"
    using run_body_sends [OF E cycle(7) ok2] cycle(2) by auto
  have st: "steady E s3 t" using cycle(8) by (rule finish_steady)
  then have path: "oms_path (rt_oms_env E) False (rt_oms s3) (rt_oms t)" and
    t: "sent (rt_oms t) = sent (rt_oms s3)" "rt_account t = rt_account s3" "rt_kill t = rt_kill s3"
    by (simp_all add: steady_def silent_def)
  have s2: "sent (rt_oms s2) = sent (rt_oms s)" "rt_account s2 = rt_account s"
    using cycle(6) by (simp_all add: steady_def silent_def)
  have ok3: "oms_ok (rt_oms t)" using path_oms_ok [OF path] path_oms_ok [OF s3(1) ok2] by blast
  have later: "snapshot_sends E u k' a' (om_orders (rt_oms s3)) ids \<Longrightarrow> snapshot_sends E u k' a' (om_orders (rt_oms t)) ids" for k' a'
    using snapshot_sends_evolves path_evolves [OF path] by blast
  show ?thesis
  proof (intro conjI exI [of _ ids])
    show "sent (rt_oms t) = sent (rt_oms s) @ ids" using s3(3) t s2 by simp
    show "ids = [] \<or> \<not> ks_tripped (rt_kill t) \<and> (\<exists>u. closed_cutoff cutoff = Inr u \<and> cadence_ready E u \<and>
        snapshot_sends E u (rt_kill t) (rt_account s) (om_orders (rt_oms t)) ids)"
    proof (cases "ids = []")
      case False
      then have "\<not> ks_tripped (rt_kill t)" "cadence_ready E u" "snapshot_sends E u (rt_kill t) (rt_account s) (om_orders (rt_oms t)) ids"
        using s3(4) later t(3) s2(2) by simp_all
      with cycle(1) show ?thesis by blast
    qed simp
  qed (use ok3 t s2 s3(2) in simp_all)
qed

section \<open>A failed reconciliation stops the runtime\<close>

lemma trip_recorded:
  assumes trip: "ks_trip E reason k = (Inr u, k')" and L: "ks_ledgers k = Some L" "ks_keys_ok (L NS_INCIDENT)"
    and fresh: "\<not> (ks_tripped k \<and> ks_reason k = Some (strip reason))"
  obtains ev M where "ks_tripped k'" "ks_reason k' = Some (strip reason)" "ks_ledgers k' = Some M"
    "M NS_INCIDENT = L NS_INCIDENT @ [ev]" "event_type ev = ''kill_switch_tripped''"
proof -
  let ?n = "length (L NS_INCIDENT) + 1"
  let ?ev = "ks_event E ''kill_switch_tripped'' [(''reason'', PText (strip reason))] ?n (ks_draws k)"
  obtain q M where a: "ledger_append ?ev L = (q, M)" by fastforce
  have rec: "ks_record E ''kill_switch_tripped'' [(''reason'', PText (strip reason))] k =
      (rbind q (\<lambda>_. Inr ()), k\<lparr>ks_ledgers := Some M, ks_draws := Suc (ks_draws k)\<rparr>)"
    using L(1) a by (cases q) (simp_all add: ks_record_def Let_def ledger_events_def)
  have k': "q \<noteq> Inl e" "k' = k\<lparr>ks_ledgers := Some M, ks_draws := Suc (ks_draws k), ks_tripped := True, ks_reason := Some (strip reason)\<rparr>" for e
    using trip fresh rec by (cases q; auto simp: ks_trip_def sbind_def split: if_splits)+
  from a show thesis
  proof (cases rule: ledger_append_cases)
    case (prior row)
    then have "?n \<le> length (L NS_INCIDENT)" using L(2) unfolding ks_keys_ok_def by (auto simp: ks_event_def)
    then show thesis by simp
  next
    case new
    then show thesis using that [of M "stored ?ev"] k'(2) by (simp add: ks_event_def)
  next
    case (conflict msg)
    with k'(1) [of "IdempotencyConflict msg"] show thesis by simp
  qed
qed

lemma newest_command_tripped:
  "event_type ev = ''kill_switch_tripped'' \<Longrightarrow> newest_command (evs @ [ev]) acc = None"
  by (induction evs arbitrary: acc) simp_all

text \<open>The switch is tripped and no command of the dashboard is newer than the last security event.\<close>

definition held :: "('v, 'b) runtime \<Rightarrow> bool" where
  "held s \<longleftrightarrow> ks_tripped (rt_kill s) \<and> newest_command (shared s NS_INCIDENT) None = None"

lemma finish_result: "finish E c stage reasons snap ids s = (Inr fin, t) \<Longrightarrow> fin = finished_cycle c stage reasons snap ids"
  by (auto simp: finish_def sbind_eq_Inr)

lemma held_body: "held s \<Longrightarrow> run_body E c s = finish E c STAGE_ABSTAINED [kill_text (rt_kill s)] None [] s"
  by (simp add: run_body_def sync_dashboard_control_def held_def ledger_events_def sbind_ok [of "\<lambda>s. (Inr (), s)"] sbind_def)

lemma held_cycle:
  fixes E :: "('v, 'b) logged_env"
  assumes h: "held s" and run: "run_once E cutoff s = (res, t)"
  shows "held t \<and> rt_kill t = rt_kill s \<and> steady E s t \<and> (\<forall>c. res = Inr c \<longrightarrow> cy_stage c \<in> {STAGE_ABSTAINED, STAGE_FAILED} \<and> cy_order_ids c = [])"
  using run
proof (cases rule: run_once_cases)
  case (early e)
  then show ?thesis using h by (auto simp: held_def same_incidents_def)
next
  case (cycle u c s2 b s3)
  have "same_incidents s (s\<lparr>rt_draws := Suc (rt_draws s)\<rparr>)" by (simp add: same_incidents_def shared_def)
  from transpD [OF same_incidents_props(2) this movesD [OF same_incidents_record cycle(5)]]
  have i2: "same_incidents s s2" .
  then have h2: "held s2" using h by (simp add: held_def same_incidents_def)
  have fin: "finish E c STAGE_ABSTAINED [kill_text (rt_kill s2)] None [] s2 = (b, s3)" using cycle(7) held_body [OF h2] by simp
  have i3: "same_incidents s s3" using transpD [OF same_incidents_props(2) i2 movesD [OF same_incidents_finish fin]] .
  have st: "steady E s s3" using transpD [OF steady_props(2) cycle(6) movesD [OF steady_finish fin]] .
  show ?thesis
  proof (cases b)
    case (Inl e)
    then have f: "finish E c STAGE_FAILED [error_name e] None [] s3 = (res, t)" using cycle(8) by simp
    have "same_incidents s t" using transpD [OF same_incidents_props(2) i3 movesD [OF same_incidents_finish f]] .
    moreover have "steady E s t" using transpD [OF steady_props(2) st movesD [OF steady_finish f]] .
    ultimately show ?thesis using h f by (auto simp: held_def same_incidents_def finished_cycle_def dest: finish_result)
  next
    case (Inr d)
    then have "res = Inr d" "t = s3" using cycle(8) by simp_all
    then show ?thesis using i3 st h fin Inr by (auto simp: held_def same_incidents_def finished_cycle_def dest: finish_result)
  qed
qed

lemma held_loop:
  fixes E :: "('v, 'b) logged_env"
  assumes "held s" "run_forever E clock n s = (res, t)"
  shows "held t \<and> rt_kill t = rt_kill s \<and> steady E s t \<and>
    (\<forall>cs. res = Inr cs \<longrightarrow> (\<forall>c \<in> set cs. cy_stage c \<in> {STAGE_ABSTAINED, STAGE_FAILED} \<and> cy_order_ids c = []))"
  using assms
proof (induction n arbitrary: s res t)
  case 0
  then show ?case by (auto simp: reflpD [OF steady_props(1)])
next
  case (Suc n)
  show ?case
  proof (cases "rt_stopped s")
    case True
    then show ?thesis using Suc.prems by (auto simp: reflpD [OF steady_props(1)])
  next
    case False
    obtain a s1 where a: "run_once E (Aware (last_closed_hour (clock (rt_draws s))) 0) s = (a, s1)" by fastforce
    note c = held_cycle [OF Suc.prems(1) a]
    obtain b s2 where b: "run_forever E clock n s1 = (b, s2)" by fastforce
    note l = Suc.IH [OF conjunct1 [OF c] b]
    have tr: "steady E s s2" using c l transpD [OF steady_props(2)] by blast
    show ?thesis
    proof (cases a)
      case (Inl e)
      then show ?thesis using Suc.prems(2) False a c by (auto simp: sbind_err)
    next
      case (Inr x)
      then show ?thesis using Suc.prems(2) False a b c l tr by (cases b) (auto simp: sbind_ok sbind_err)
    qed
  qed
qed

lemma fetch_view_quiet:
  assumes "fetch_view E s = (Inr v, t)" shows "same_incidents s t"
proof (cases "rt_account_snapshot E")
  case None
  then show ?thesis using assms by (simp add: fetch_view_def same_incidents_def)
next
  case (Some fetch)
  obtain r s1 where a: "venue_account E fetch s = (r, s1)" by fastforce
  have "same_incidents s s1"
    using a by (auto simp: venue_account_def sbind_apply [of "on_oms m" for m] on_oms_def on_venue_def same_incidents_def shared_def
        split: prod.splits sum.splits)
  moreover have "t = s1" using assms Some a by (cases r) (auto simp: fetch_view_def sbind_eq_Inr sraise_def)
  ultimately show ?thesis by simp
qed

lemma on_reconciliation_quiet: "on_reconciliation E v s = (r, t) \<Longrightarrow> same_incidents s t"
proof -
  assume run: "on_reconciliation E v s = (r, t)"
  let ?rs = "\<lparr>rs_ledgers = Some (shared s), rs_draws = rt_draws s\<rparr>"
  obtain q u where q: "run_reconciliation (rt_rc_env E) (rt_account s) (rt_oms s) (None :: unit acct_ledger option) v ?rs = (q, u)" by fastforce
  have M: "rs_ledgers ?rs = Some (shared s)" by simp
  have "\<exists>M. rs_ledgers u = Some M \<and> M NS_INCIDENT = shared s NS_INCIDENT"
    using q unfolding run_reconciliation_eq [OF M]
    by (auto simp: Let_def reconciliation_event_def split: sum.splits prod.splits dest!: ledger_append_other [of _ _ _ _ NS_INCIDENT])
  with run q show ?thesis by (auto simp: on_reconciliation_def same_incidents_def set_shared_def shared_def)
qed

lemma mismatch_held:
  assumes rec: "reconcile_once E view s = (Inr r, t)" "\<not> rec_reconciled r"
    and keys: "ks_keys_ok (shared s NS_INCIDENT)"
    and fresh: "\<not> (ks_tripped (rt_kill s) \<and> ks_reason (rt_kill s) = Some ''paper_reconciliation_mismatch'')"
  shows "held t \<and> ks_reason (rt_kill t) = Some ''paper_reconciliation_mismatch''"
proof -
  obtain v s1 where v: "(case view of Some v \<Rightarrow> sreturn (Some v) | None \<Rightarrow> fetch_view E) s = (Inr v, s1)"
    and rest: "sbind (on_reconciliation E v) (\<lambda>result. if rec_reconciled result then sreturn result
       else sbind (on_kill (ks_trip (rt_risk_env E) ''paper_reconciliation_mismatch'')) (\<lambda>_. sreturn result)) s1 = (Inr r, t)"
    using rec(1) by (auto simp: reconcile_once_def sbind_eq_Inr)
  have 1: "same_incidents s s1"
    using v fetch_view_quiet by (cases view) (auto simp: same_incidents_def)
  obtain q s2 where q: "on_reconciliation E v s1 = (Inr q, s2)"
    and end_: "(if rec_reconciled q then sreturn q
       else sbind (on_kill (ks_trip (rt_risk_env E) ''paper_reconciliation_mismatch'')) (\<lambda>_. sreturn q)) s2 = (Inr r, t)"
    using rest by (auto simp: sbind_eq_Inr)
  have 2: "same_incidents s s2" using transpD [OF same_incidents_props(2) 1 on_reconciliation_quiet [OF q]] .
  have "\<not> rec_reconciled q" using end_ rec(2) by (auto split: if_splits)
  then obtain u where "on_kill (ks_trip (rt_risk_env E) ''paper_reconciliation_mismatch'') s2 = (Inr u, t)"
    using end_ by (auto simp: sbind_eq_Inr)
  then obtain k where k: "ks_trip (rt_risk_env E) ''paper_reconciliation_mismatch'' ((rt_kill s2)\<lparr>ks_ledgers := Some (shared s2)\<rparr>) = (Inr u, k)"
      "t = (set_shared (case ks_ledgers k of None \<Rightarrow> shared s2 | Some L \<Rightarrow> L) s2)\<lparr>rt_kill := k\<rparr>"
    by (auto simp: on_kill_def split: prod.splits)
  have strip: "strip ''paper_reconciliation_mismatch'' = ''paper_reconciliation_mismatch''" by code_simp
  have L: "ks_keys_ok (shared s2 NS_INCIDENT)" "\<not> (ks_tripped ((rt_kill s2)\<lparr>ks_ledgers := Some (shared s2)\<rparr>) \<and>
      ks_reason ((rt_kill s2)\<lparr>ks_ledgers := Some (shared s2)\<rparr>) = Some (strip ''paper_reconciliation_mismatch''))"
    using 2 keys fresh strip by (simp_all add: same_incidents_def)
  obtain ev M where M: "ks_tripped k" "ks_reason k = Some (strip ''paper_reconciliation_mismatch'')" "ks_ledgers k = Some M"
      "M NS_INCIDENT = shared s2 NS_INCIDENT @ [ev]" "event_type ev = ''kill_switch_tripped''"
    by (rule trip_recorded [OF k(1), of "shared s2"]) (use L in simp_all)
  then show ?thesis using k(2) strip newest_command_tripped [OF M(5)]
    by (simp add: held_def set_shared_def shared_def)
qed

text \<open>C6: A failed reconciliation stops trading until an operator acts.  When a reconciliation finds a mismatch, and the
  switch was not already tripped for a mismatch, then the scheduler may run any number of cycles: none of them sends an
  order to the venue, each returned cycle abstained or failed without orders, and the switch stays tripped for the
  mismatch.\<close>

theorem mismatch_halts:
  fixes E :: "('v, 'b) logged_env"
  assumes "reconcile_once E view s = (Inr r, t)" "\<not> rec_reconciled r"
    and "ks_keys_ok (shared s NS_INCIDENT)"
    and "\<not> (ks_tripped (rt_kill s) \<and> ks_reason (rt_kill s) = Some ''paper_reconciliation_mismatch'')"
    and "run_forever E clock n t = (res, t')"
  shows "ks_tripped (rt_kill t') \<and> ks_reason (rt_kill t') = Some ''paper_reconciliation_mismatch'' \<and>
    sent (rt_oms t') = sent (rt_oms t) \<and>
    (case res of Inl e \<Rightarrow> True
     | Inr cs \<Rightarrow> list_all (\<lambda>c. cy_stage c \<in> {STAGE_ABSTAINED, STAGE_FAILED} \<and> cy_order_ids c = []) cs)"
  using held_loop [OF conjunct1 [OF mismatch_held [OF assms(1-4)]] assms(5)] mismatch_held [OF assms(1-4)]
  by (auto simp: held_def steady_def silent_def list_all_iff split: sum.split)

text \<open>
  A second mismatch writes no event while the switch is tripped for the first: the newest command of the
  dashboard, if there is one, stays the newest, and a resume is applied by the next cycle.
\<close>

lemma second_mismatch_silent:
  assumes "ks_tripped (rt_kill s)" "ks_reason (rt_kill s) = Some ''paper_reconciliation_mismatch''" "shared s = M"
    and "ks_ledgers (rt_kill s) = Some M"
  shows "on_kill (ks_trip E ''paper_reconciliation_mismatch'') s = (Inr (), s)"
proof -
  have "strip ''paper_reconciliation_mismatch'' = ''paper_reconciliation_mismatch''" "\<not> blank ''paper_reconciliation_mismatch''" by code_simp+
  with assms show ?thesis by (simp add: on_kill_def ks_trip_def set_shared_def shared_def)
qed

section \<open>A runtime\<close>

text \<open>A venue that accepts everything, one decision with one order.\<close>

definition rn_gate :: evidence_gate where
  "rn_gate = \<lparr>er_passed = True, er_origins = [''a''], er_source_families = [''a''], er_factor_families = [''a''], er_discounted = [],
     er_reasons = []\<rparr>"

definition rn_snapshot :: data_snapshot where
  "rn_snapshot = \<lparr>artifact_id = 60, created_at = 0, ds_as_of = 0, ds_purpose = ''decision'', ds_observation_ids = [],
     ds_references = [], ds_quality = ''Validated''\<rparr>"

definition rn_bundle :: decision_bundle where
  "rn_bundle = \<lparr>db_mission_id = 61, db_snapshot_id = 60, db_created_at = 0,
     db_target = rq_target (rk_request (Dec 6 0) ''max_order_notional''), db_evidence_ids = [], db_consensus = ''hold'', db_dissent = [],
     db_missing = [], db_confidence = d1, db_abstained = False, db_expires_at = 1, db_gate = rn_gate\<rparr>"

definition rn_venue :: "(unit, unit) oms_env" where
  "rn_venue = rk_oms_env\<lparr>v_submit := (\<lambda>r v. (mk_ack (artifact_id r) ''venue-1'' True, v))\<rparr>"

definition rn_env :: "(unit \<times> uuid list, unit) runtime_env" where
  "rn_env = \<lparr>rt_config = \<lparr>cf_environment = ''paper'', cf_instruments = [''BTC''], cf_observation_interval = 300,
       cf_decision_interval = 3600, cf_run_id = ''run'', cf_max_order_count = 8\<rparr>,
     rt_oms_env = with_log rn_venue, rt_risk_env = rk_env, rt_market_sha = (\<lambda>_. ''''), rt_policy = rk_policy ''max_order_notional'',
     rt_rc_env = rx_env, rt_learning_env = \<lparr>ln_uuid = (\<lambda>n. 2 * n + 1), ln_now = int, ln_uuid5 = length, ln_incident_hash = (\<lambda>_. ''''),
       ln_outcome_hash = (\<lambda>_. ''''), ln_output_hash = (\<lambda>_. '''')\<rparr>,
     rt_snapshot = (\<lambda>n u. Inr rn_snapshot), rt_market = (\<lambda>n s. Inr rk_market), rt_decide = (\<lambda>n s a m. Inr rn_bundle),
     rt_orders = (\<lambda>n d r a m. Inr [rk_order]), rt_cadence = None, rt_account_snapshot = None, rt_uuid = (\<lambda>n. 2 * n), rt_now = int\<rparr>"

definition rn_start :: "(unit \<times> uuid list, unit) runtime" where
  "rn_start = \<lparr>rt_oms = empty_manager empty_ledgers ((), []) () 0, rt_kill = new_kill_switch (Some empty_ledgers) 0,
     rt_learning = None, rt_account = ex_account, rt_stopped = False, rt_draws = 0\<rparr>"

abbreviation rn_hour :: pydatetime where
  "rn_hour \<equiv> Aware 3600000000 0"

definition rn_cycle :: runtime_cycle where
  "rn_cycle = \<lparr>cy_id = 0, cy_run_id = ''run'', cy_cutoff = 3600000000, cy_stage = STAGE_STARTED, cy_snapshot_id = None,
     cy_decision_id = None, cy_risk_decision_id = None, cy_order_ids = [], cy_reasons = [], cy_created_at = 0\<rparr>"

definition rn_recorded :: "(unit \<times> uuid list, unit) runtime" where
  "rn_recorded = snd (record_cycle rn_env rn_cycle (rn_start\<lparr>rt_draws := 1\<rparr>))"

definition rn_decision :: risk_decision where
  "rn_decision = \<lparr>artifact_id = 8, created_at = 4, dec_target_portfolio_id = 60, dec_risk_policy_id = 70, dec_outcome = APPROVED,
     dec_state_hash = replicate 64 (CHR ''a''), dec_reasons = [], dec_reduced_positions = []\<rparr>"

abbreviation rn_ready :: "(unit \<times> uuid list, unit) runtime" where
  "rn_ready \<equiv> rn_recorded\<lparr>rt_draws := 6\<rparr>"

lemma rn_parts:
  "closed_cutoff rn_hour = Inr 3600000000" "is_ok (fst (record_cycle rn_env rn_cycle (rn_start\<lparr>rt_draws := 1\<rparr>)))"
  "newest_command (ledger_events (shared rn_recorded) NS_INCIDENT) None = None" "\<not> ks_tripped (rt_kill rn_recorded)"
  "rt_draws rn_recorded = 2" "quality_admitted (ds_quality rn_snapshot)"
  by code_simp+

lemma rn_evaluate:
  "evaluate rk_env (\<lambda>_. '''') (rt_kill rn_recorded) 8 4
     \<lparr>rq_target = db_target rn_bundle, rq_account = rt_account rn_recorded, rq_market = rk_market, rq_policy = rk_policy ''max_order_notional''\<rparr>
     False = Inr rn_decision"
  by code_simp

lemma rn_routed:
  "is_ok (fst (route_orders rn_env rn_decision rk_market [rk_order] [] rn_ready))"
  "sent (rt_oms (snd (route_orders rn_env rn_decision rk_market [rk_order] [] rn_ready))) = [80]"
  by code_simp+

lemma sent_then: "(\<And>x. moves (steady E) (f x)) \<Longrightarrow> sent (rt_oms (snd (sbind m f s))) = sent (rt_oms (snd (m s)))"
  for E :: "('v, 'b) logged_env"
  by (auto simp: sbind_def moves_def steady_def silent_def split: prod.split sum.split)

lemma rn_snapshot_sent: "sent (rt_oms (snd (run_snapshot rn_env rn_cycle rn_recorded))) = [80]"
proof -
  let ?c = "(decided_cycle rn_env rn_cycle rn_snapshot rn_bundle)\<lparr>cy_risk_decision_id := Some (artifact_id rn_decision)\<rparr>"
  have env: "rt_snapshot rn_env n u = Inr rn_snapshot" "rt_market rn_env n y = Inr rk_market" "rt_decide rn_env n y a m = Inr rn_bundle"
    "rt_orders rn_env n d r a m = Inr [rk_order]" "rt_risk_env rn_env = rk_env" "rt_market_sha rn_env = (\<lambda>_. '''')"
    "rt_policy rn_env = rk_policy ''max_order_notional''" "rt_uuid rn_env n = 2 * n" "rt_now rn_env n = int n"
    "cf_max_order_count (rt_config rn_env) = 8" "cy_cutoff rn_cycle = 3600000000" "ds_as_of rn_snapshot = 0" "\<not> db_abstained rn_bundle"
    "er_passed (db_gate rn_bundle)" "dec_outcome rn_decision = APPROVED" for n u y a m d r
    by (simp_all add: rn_env_def rn_cycle_def rn_snapshot_def rn_bundle_def rn_gate_def rn_decision_def)
  have "run_snapshot rn_env rn_cycle rn_recorded =
      sbind (route_orders rn_env rn_decision rk_market [rk_order] []) (\<lambda>(stage, reasons, ids).
        sbind (record_learning_decision rn_env rn_bundle rn_snapshot (Some rn_decision) ids) (\<lambda>_. finish rn_env ?c stage reasons None ids)) rn_ready"
    using rn_parts(5,6) rn_evaluate
    by (simp add: run_snapshot_def run_decision_def run_admitted_def draw_def sbind_apply [of draw] Let_def env del: route_orders.simps)
  moreover have "moves (steady rn_env) (case x of (stage, reasons, ids) \<Rightarrow>
      sbind (record_learning_decision rn_env rn_bundle rn_snapshot (Some rn_decision) ids) (\<lambda>_. finish rn_env ?c stage reasons None ids))" for x
    by (auto intro!: steady_intros split: prod.split)
  ultimately show ?thesis using rn_routed(2) by (simp only: sent_then [of rn_env])
qed

lemma rn_sent: "sent (rt_oms (snd (run_once rn_env rn_hour rn_start))) = [80]"
proof -
  have rec: "record_cycle rn_env rn_cycle (rn_start\<lparr>rt_draws := 1\<rparr>) = (Inr (), rn_recorded)"
    using is_ok_the_ok [OF rn_parts(2)] by (simp add: rn_recorded_def prod_eq_iff)
  have start: "mk_runtime_cycle (rt_uuid rn_env 0) (cf_run_id (rt_config rn_env)) (Aware 3600000000 0) STAGE_STARTED (Aware (rt_now rn_env 0) 0) =
      Inr rn_cycle" "rt_draws rn_start = 0" "rt_cadence rn_env = None"
    by (simp_all add: mk_runtime_cycle_def require_aware_def rn_env_def rn_cycle_def rn_start_def)
  have sync: "sync_dashboard_control rn_env rn_recorded = (Inr (), rn_recorded)"
    using rn_parts(3) by (simp add: sync_dashboard_control_def)
  then have body: "run_body rn_env rn_cycle rn_recorded = run_snapshot rn_env rn_cycle rn_recorded"
    using rn_parts(4) by (simp add: run_body_def run_cadence_def sbind_ok start)
  have run: "run_once rn_env rn_hour rn_start = (case run_snapshot rn_env rn_cycle rn_recorded of
      (Inl e, t) \<Rightarrow> finish rn_env rn_cycle STAGE_FAILED [error_name e] None [] t | (Inr fin, t) \<Rightarrow> (Inr fin, t))"
    using rn_parts(1) rec by (simp add: run_once_def draw_def sbind_apply [of draw] start sbind_ok body)
  obtain b t where bt: "run_snapshot rn_env rn_cycle rn_recorded = (b, t)" by fastforce
  have "steady rn_env t (snd (finish rn_env rn_cycle STAGE_FAILED [error_name e] None [] t))" for e
    by (rule moves_apply [OF steady_finish])
  then show ?thesis using rn_snapshot_sent unfolding run bt by (cases b) (simp_all add: steady_def silent_def)
qed

theorem cycle_sends_cleared_witness:
  "sent (rt_oms (snd (run_once rn_env rn_hour rn_start))) = [80] \<and>
   (\<exists>u. closed_cutoff rn_hour = Inr u \<and>
      snapshot_sends rn_env u (rt_kill (snd (run_once rn_env rn_hour rn_start))) ex_account
        (om_orders (rt_oms (snd (run_once rn_env rn_hour rn_start)))) [80])"
proof -
  have E: "rt_oms_env rn_env = with_log rn_venue" by (simp add: rn_env_def)
  have ok: "oms_ok (rt_oms rn_start)" by (simp add: rn_start_def oms_ok_empty empty_ledgers_def)
  have s: "sent (rt_oms (snd (run_once rn_env rn_hour rn_start))) = [80]" by (rule rn_sent)
  have a: "rt_account rn_start = ex_account" "sent (rt_oms rn_start) = []" by (simp_all add: rn_start_def sent_def empty_manager_def)
  from cycle_sends_cleared [OF E ok prod.collapse [symmetric], of rn_hour] s show ?thesis unfolding a by auto
qed

lemma rn_mismatch:
  obtains q s1 where "on_reconciliation rn_env (Some (rx_view 101)) rn_start = (Inr q, s1)" "\<not> rec_reconciled q"
proof -
  obtain q u where "rn_reconcile rx_start = (Inr q, u)" "\<not> rec_reconciled q"
    using rn_reconcile is_ok_the_ok by (metis prod.collapse)
  moreover have "\<lparr>rs_ledgers = Some (shared rn_start), rs_draws = rt_draws rn_start\<rparr> = rx_start"
    by (simp add: rx_start_def shared_def rn_start_def empty_manager_def)
  ultimately show thesis
    using that by (simp add: on_reconciliation_def rn_env_def rn_start_def)
qed

lemma trip_first:
  assumes "shared s NS_INCIDENT = []" "\<not> ks_tripped (rt_kill s)"
  shows "fst (on_kill (ks_trip E ''paper_reconciliation_mismatch'') s) = Inr ()"
proof -
  have "\<not> blank ''paper_reconciliation_mismatch''" by code_simp
  with assms show ?thesis
    by (simp add: on_kill_def ks_trip_def ks_record_def ledger_events_def ledger_append_def append_rows_eq ks_event_def find_key_def find_id_def
        sbind_def Let_def split: prod.split)
qed

theorem mismatch_halts_witness:
  "\<exists>r t. reconcile_once rn_env (Some (rx_view 101)) rn_start = (Inr r, t) \<and> \<not> rec_reconciled r \<and>
     ks_tripped (rt_kill (snd (run_forever rn_env int 3 t))) \<and> sent (rt_oms (snd (run_forever rn_env int 3 t))) = sent (rt_oms t)"
proof -
  obtain q s1 where q: "on_reconciliation rn_env (Some (rx_view 101)) rn_start = (Inr q, s1)" "\<not> rec_reconciled q"
    by (rule rn_mismatch)
  have start: "shared rn_start NS_INCIDENT = []" "\<not> ks_tripped (rt_kill rn_start)"
    by (simp_all add: rn_start_def shared_def empty_manager_def empty_ledgers_def new_kill_switch_def ledger_events_def)
  then have "shared s1 NS_INCIDENT = []" "\<not> ks_tripped (rt_kill s1)"
    using on_reconciliation_quiet [OF q(1)] by (simp_all add: same_incidents_def)
  then obtain t where "on_kill (ks_trip (rt_risk_env rn_env) ''paper_reconciliation_mismatch'') s1 = (Inr (), t)"
    using trip_first by (metis prod.collapse)
  then have R: "reconcile_once rn_env (Some (rx_view 101)) rn_start = (Inr q, t)"
    using q by (simp add: reconcile_once_def sbind_ok)
  have "ks_keys_ok (shared rn_start NS_INCIDENT)" using start by (simp add: ks_keys_ok_def)
  with mismatch_halts [OF R q(2), of int 3] start R q(2) show ?thesis by (metis prod.collapse)
qed

end
