(* ===== verification/Learning_Properties.thy ===== *)
theory Learning_Properties
  imports Learning
begin

text \<open>
  The scorecard store as an idempotent log, the life of an incident, and the immutability of the outcomes of
  the learning loop.
\<close>

section \<open>The scorecard store\<close>

definition cards_ok :: "scorecard list \<Rightarrow> bool" where
  "cards_ok cards \<longleftrightarrow> distinct (map sc_id cards)"

lemma find_card_None: "find_card i cards = None \<longleftrightarrow> i \<notin> sc_id ` set cards"
  by (auto simp: find_card_def find_None_iff)

lemma find_card_SomeD: "find_card i cards = Some c \<Longrightarrow> c \<in> set cards \<and> sc_id c = i"
  by (auto simp: find_card_def find_Some_iff)

lemma find_card_ok: "cards_ok cards \<Longrightarrow> c \<in> set cards \<Longrightarrow> find_card (sc_id c) cards = Some c"
  unfolding cards_ok_def by (metis distinct_map find_card_None find_card_SomeD image_eqI inj_onD not_None_eq)

interpretation cards: idempotent_log store_card "\<lambda>s. s" sc_id sc_id "\<lambda>x c. x = c" cards_ok
proof unfold_locales
  fix s s' :: "scorecard list" and e :: scorecard and r
  assume *: "cards_ok s" "store_card e s = (r, s')"
  then show "cards_ok s'"
    by (auto simp: store_card_def cards_ok_def find_card_None split: option.splits if_splits)
  from *(2) show "s' = s \<or> is_ok r \<and> (\<exists>x. sc_id x = sc_id e \<and> x = e \<and> sc_id e \<notin> sc_id ` set s \<and> s' = s @ [x])"
    by (auto simp: store_card_def is_ok_def find_card_None split: option.splits if_splits)
next
  fix s s' :: "scorecard list" and e :: scorecard and v
  assume "store_card e s = (Inr v, s')"
  then show "\<exists>x\<in>set s'. sc_id x = sc_id e \<and> x = e"
    by (auto simp: store_card_def split: option.splits if_splits dest: find_card_SomeD)
next
  fix s :: "scorecard list" and x e :: scorecard
  assume *: "cards_ok s" "x \<in> set s" "sc_id x = sc_id e"
  then have "find_card (sc_id e) s = Some x" using find_card_ok by metis
  then show "x = e \<Longrightarrow> \<exists>v. store_card e s = (Inr v, s)" "x \<noteq> e \<Longrightarrow> \<exists>err. store_card e s = (Inl err, s)"
    by (simp_all add: store_card_def)
qed

text \<open>The latest card of a subject is one of its cards, and none of its cards is newer.\<close>

lemma latest_card_fold:
  fixes P :: "scorecard \<Rightarrow> bool"
  defines "pick \<equiv> \<lambda>best c. if P c \<and> opt_all (\<lambda>b. sc_recorded_at b \<le> sc_recorded_at c) best then Some c else best"
  shows "case foldl pick None cs of None \<Rightarrow> \<forall>c \<in> set cs. \<not> P c
    | Some b \<Rightarrow> b \<in> set cs \<and> P b \<and> (\<forall>c \<in> set cs. P c \<longrightarrow> sc_recorded_at c \<le> sc_recorded_at b)"
proof (induction cs rule: rev_induct)
  case (snoc c cs)
  have step: "foldl pick None (cs @ [c]) = pick (foldl pick None cs) c" by simp
  show ?case
  proof (cases "foldl pick None cs")
    case None
    with snoc show ?thesis unfolding step by (simp add: pick_def opt_all_def)
  next
    case (Some b)
    with snoc show ?thesis unfolding step by (auto simp: pick_def opt_all_def)
  qed
qed simp

lemma latest_card_newest:
  assumes "latest_card subject version cards = Inr (Some c)"
  shows "c \<in> set cards \<and> sc_subject c = strip subject \<and> sc_subject_version c = strip version \<and>
    (\<forall>x \<in> set cards. sc_subject x = strip subject \<and> sc_subject_version x = strip version \<longrightarrow> sc_recorded_at x \<le> sc_recorded_at c)"
proof -
  let ?P = "\<lambda>c. sc_subject c = strip subject \<and> sc_subject_version c = strip version"
  have "foldl (\<lambda>best c. if ?P c \<and> opt_all (\<lambda>b. sc_recorded_at b \<le> sc_recorded_at c) best then Some c else best) None cards = Some c"
    using assms by (simp add: latest_card_def conj_assoc split: if_splits)
  with latest_card_fold [where P = ?P and cs = cards] show ?thesis by simp
qed

section \<open>Outcomes\<close>

lemma learning_append_cases:
  assumes "learning_append E ns etype key p s = (Inr u, t)"
  obtains L n where "t = s\<lparr>lp_ledgers := L, lp_draws := n\<rparr>" "\<exists>row \<in> set (L ns). ev_key row = key \<and> event_type row = etype \<and> ev_payload row = payload_json p"
proof -
  let ?ev = "\<lparr>event_id = ln_uuid E (lp_draws s), ev_namespace = ns, event_type = etype, ev_key = key, ev_occurred_at = ln_now E (lp_draws s), ev_payload = p\<rparr>"
  obtain r L where a: "ledger_append ?ev (lp_ledgers s) = (r, L)" by fastforce
  with assms have r: "is_ok r" and t: "t = s\<lparr>lp_ledgers := L, lp_draws := Suc (lp_draws s)\<rparr>"
    by (auto simp: learning_append_def Let_def rbind_eq_Inr is_ok_def)
  from a have "\<exists>row \<in> set (L ns). ev_key row = key \<and> event_type row = etype \<and> ev_payload row = payload_json p"
  proof (cases rule: ledger_append_cases)
    case (prior row)
    then show ?thesis by (auto simp: same_content_def)
  next
    case new
    then show ?thesis by (auto intro: bexI [of _ "stored ?ev"])
  next
    case (conflict msg)
    with r show ?thesis by (simp add: is_ok_def)
  qed
  with t that show thesis by blast
qed

lemma store_card_Inr: "store_card c cards = (Inr d, cards') \<Longrightarrow> d = c \<and> c \<in> set cards'"
  by (auto simp: store_card_def split: option.splits if_splits dest: find_card_SomeD)

lemma outcome_card_Inr:
  "outcome_card E d x = Inr c \<Longrightarrow> sc_recorded_at c = oc_as_of x \<and> sc_subject c = strip (pd_subject d) \<and>
     sc_eligible c = (deq (oc_failure_rate x) d0 \<and> dle (Dec 8 (-1)) (oc_data_reliability x)) \<and> sc_net_utility c = oc_net_utility x"
  by (auto simp: outcome_card_def mk_scorecard_def rbind_eq_Inr identity_field_def split: if_splits)

text \<open>C33: An outcome is scored once.  When \<open>record_outcome\<close> returns a scorecard, the decision is known and its forecast
  horizon has closed; recording the same outcome again returns the same card and changes nothing; an outcome with
  another digest for that decision and time is refused, also without a change; and a card that is new carries the time
  of the outcome and the eligibility rule (no failures and data reliability of at least 0.8), is in the store, and
  is on the model ledger with its outcome.\<close>

theorem outcome_scored_once:
  assumes "record_outcome E x s = (Inr c, t)"
  shows "\<exists>d. map_of (lp_decisions s) (oc_decision_id x) = Some d \<and> pd_horizon_end d \<le> oc_as_of x \<and>
    record_outcome E x t = (Inr c, t) \<and>
    (\<forall>y. oc_decision_id y = oc_decision_id x \<and> oc_as_of y = oc_as_of x \<and> ln_outcome_hash E y \<noteq> ln_outcome_hash E x \<longrightarrow>
       record_outcome E y t = (Inl (ValueError ''paper outcome is immutable for a decision and as_of''), t)) \<and>
    (map_of (lp_outcomes s) (oc_decision_id x, oc_as_of x) \<noteq> None \<or>
       sc_recorded_at c = oc_as_of x \<and> c \<in> set (lp_cards t) \<and>
       sc_eligible c = (deq (oc_failure_rate x) d0 \<and> dle (Dec 8 (-1)) (oc_data_reliability x)) \<and>
       (\<exists>row \<in> set (lp_ledgers t NS_MODEL). ev_key row = ''paper-scorecard:'' @ uuid_str (sc_id c) \<and>
          ev_payload row = payload_json [(''scorecard'', PScorecard c), (''decision_id'', PUuid (oc_decision_id x)), (''outcome'', POutcome x)]))"
proof -
  obtain d where d: "map_of (lp_decisions s) (oc_decision_id x) = Some d" "pd_horizon_end d \<le> oc_as_of x"
    using assms by (auto simp: record_outcome_def split: option.splits if_splits)
  have again: "record_outcome E x u = (Inr c, u)"
      "\<And>y. oc_decision_id y = oc_decision_id x \<Longrightarrow> oc_as_of y = oc_as_of x \<Longrightarrow> ln_outcome_hash E y \<noteq> ln_outcome_hash E x \<Longrightarrow>
         record_outcome E y u = (Inl (ValueError ''paper outcome is immutable for a decision and as_of''), u)"
    if "lp_decisions u = lp_decisions s" "map_of (lp_outcomes u) (oc_decision_id x, oc_as_of x) = Some (ln_outcome_hash E x, c)" for u
    using that d by (simp_all add: record_outcome_def not_less [symmetric])
  show ?thesis
  proof (cases "map_of (lp_outcomes s) (oc_decision_id x, oc_as_of x)")
    case (Some v)
    obtain h k where v: "v = (h, k)" by (cases v)
    with assms d Some have "h = ln_outcome_hash E x" "k = c" "t = s"
      by (auto simp: record_outcome_def split: if_splits)
    with again [of t] d Some v show ?thesis by auto
  next
    case None
    with assms d obtain c0 s1 s2 where c0: "outcome_card E d x = Inr c0" "on_cards (store_card c0) s = (Inr c, s1)"
        "learning_append E NS_MODEL ''paper_scorecard_recorded'' (''paper-scorecard:'' @ uuid_str (sc_id c))
           [(''scorecard'', PScorecard c), (''decision_id'', PUuid (oc_decision_id x)), (''outcome'', POutcome x)] s1 = (Inr (), s2)"
        "t = s2\<lparr>lp_outcomes := dict_set (oc_decision_id x, oc_as_of x) (ln_outcome_hash E x, c) (lp_outcomes s2)\<rparr>"
      by (auto simp: record_outcome_def sbind_eq_Inr split: if_splits sum.splits)
    obtain cs where cs: "store_card c0 (lp_cards s) = (Inr c, cs)" "s1 = s\<lparr>lp_cards := cs\<rparr>"
      using c0(2) by (auto simp: on_cards_def split: prod.splits)
    have c: "c = c0" "c \<in> set cs" using store_card_Inr [OF cs(1)] by auto
    obtain L n where s2: "s2 = s1\<lparr>lp_ledgers := L, lp_draws := n\<rparr>"
      "\<exists>row \<in> set (L NS_MODEL). ev_key row = ''paper-scorecard:'' @ uuid_str (sc_id c) \<and> event_type row = ''paper_scorecard_recorded'' \<and>
         ev_payload row = payload_json [(''scorecard'', PScorecard c), (''decision_id'', PUuid (oc_decision_id x)), (''outcome'', POutcome x)]"
      using learning_append_cases [OF c0(3)] .
    have t: "lp_decisions t = lp_decisions s" "map_of (lp_outcomes t) (oc_decision_id x, oc_as_of x) = Some (ln_outcome_hash E x, c)"
        "lp_cards t = cs" "lp_ledgers t = L"
      using c0(4) s2(1) cs(2) by simp_all
    have "sc_recorded_at c = oc_as_of x" "sc_eligible c = (deq (oc_failure_rate x) d0 \<and> dle (Dec 8 (-1)) (oc_data_reliability x))"
      using outcome_card_Inr [OF c0(1)] c(1) by simp_all
    with again [OF t(1,2)] d t(3,4) c(2) s2(2) show ?thesis by auto
  qed
qed

section \<open>Incidents\<close>

lemma rbind_nested: "rbind (rbind r f) g = rbind r (\<lambda>x. rbind (f x) g)"
  by (cases r) (simp_all add: rbind_def)

lemma latest_incidents_append:
  "latest_incidents (evs @ fs) d = rbind (latest_incidents evs d) (latest_incidents fs)"
proof (induction evs arbitrary: d)
  case (Cons ev evs)
  have IH: "latest_incidents (evs @ fs) = (\<lambda>d. rbind (latest_incidents evs d) (latest_incidents fs))"
    using Cons.IH by (rule ext)
  show ?case by (simp add: IH rbind_nested split: option.split pval.split)
qed simp

definition incidents_ok :: "(uuid, incident) dict \<Rightarrow> bool" where
  "incidents_ok d \<longleftrightarrow> (\<forall>i k. map_of d i = Some k \<longrightarrow> in_id k = i \<and> incident_valid k)"

lemma latest_incidents_ok: "latest_incidents evs d = Inr e \<Longrightarrow> incidents_ok d \<Longrightarrow> incidents_ok e"
proof (induction evs arbitrary: d)
  case (Cons ev evs)
  show ?case
  proof (cases "event_type ev = ''incident_recorded''")
    case True
    with Cons.prems(1) obtain i where i: "incident_valid i" "latest_incidents evs (dict_set (in_id i) i d) = Inr e"
      by (auto simp: rbind_eq_Inr revalidate_incident_valid split: option.splits pval.splits if_splits)
    moreover have "incidents_ok (dict_set (in_id i) i d)"
      using i(1) Cons.prems(2) by (auto simp: incidents_ok_def)
    ultimately show ?thesis using Cons.IH by blast
  next
    case False
    with Cons show ?thesis by simp
  qed
qed simp

lemma all_incidents_ok: "all_incidents s = Inr d \<Longrightarrow> incidents_ok d"
  unfolding all_incidents_def by (erule latest_incidents_ok) (simp add: incidents_ok_def)

text \<open>Appending an incident: the ledger has its row afterwards, which is new unless the key was there.\<close>

lemma append_incident_row:
  assumes "append_incident E i s = (Inr u, t)"
  obtains (known) "il_ledgers t = il_ledgers s" "incident_key E i \<in> ev_key ` set (il_ledgers s NS_INCIDENT)"
      "\<exists>row \<in> set (il_ledgers t NS_INCIDENT). ev_key row = incident_key E i \<and> ev_payload row = [(''incident'', PIncident i)]"
  | (new) "il_ledgers t = (il_ledgers s)(NS_INCIDENT := il_ledgers s NS_INCIDENT @ [incident_event E i (il_draws s)])"
      "incident_key E i \<notin> ev_key ` set (il_ledgers s NS_INCIDENT)"
proof -
  let ?ev = "incident_event E i (il_draws s)"
  obtain r L where a: "ledger_append ?ev (il_ledgers s) = (r, L)" by fastforce
  with assms have t: "il_ledgers t = L" "is_ok r" by (auto simp: append_incident_def rbind_eq_Inr is_ok_def)
  have ev: "stored ?ev = ?ev" "ev_namespace ?ev = NS_INCIDENT" "ev_key ?ev = incident_key E i" "ev_payload ?ev = [(''incident'', PIncident i)]"
    by (simp_all add: stored_def incident_event_def payload_json_def)
  from a show thesis
  proof (cases rule: ledger_append_cases)
    case (prior row)
    then have "ev_payload row = [(''incident'', PIncident i)]" by (simp add: same_content_def ev payload_json_def)
    with prior t ev show thesis by (intro known) force+
  next
    case new
    with t ev that(2) show thesis by simp
  next
    case (conflict msg)
    with t show thesis by (simp add: is_ok_def)
  qed
qed

lemma all_incidents_new:
  assumes "all_incidents s = Inr d" "incident_valid k"
    and "il_ledgers t = (il_ledgers s)(NS_INCIDENT := il_ledgers s NS_INCIDENT @ [incident_event E k n])"
  shows "all_incidents t = Inr (dict_set (in_id k) k d)"
proof -
  have "revalidate_incident k = Inr k" using assms(2) by (simp add: revalidate_incident_valid)
  then show ?thesis
    using assms(1,3) by (simp add: all_incidents_def ledger_events_def latest_incidents_append incident_event_def)
qed

text \<open>C34: Closing an open incident yields a valid closed version with the given root cause, corrective test and rollback link
  and a completed reconciliation, and the ledger has a row with it.  If that version was not on the ledger before, the
  ledger shows the incident closed from then on and every other incident as before; closing it again with the same links
  returns it without a change, and with other links is refused.  If it was (the incident had been closed in the same way and
  recorded open again since), the call changes no ledger, and the incident stays open.  The digest is assumed to
  separate closed versions from the open one.\<close>

theorem incident_closed_once:
  assumes all: "all_incidents s = Inr d" "map_of d iid = Some i" "in_closed_at i = None"
    and run: "close_incident E iid cause test link reconciled entry closing s = (Inr j, t)"
    and separates: "\<And>k. incident_hash E k = incident_hash E i \<Longrightarrow> in_closed_at k = in_closed_at i"
  shows "in_id j = iid \<and> in_closed_at j \<noteq> None \<and> incident_valid j \<and>
    in_root_cause j = Some cause \<and> in_corrective_test j = Some test \<and> in_rollback_link j = Some link \<and>
    lower (strip (in_reconciliation j)) \<noteq> ''pending'' \<and>
    (\<exists>row \<in> set (il_ledgers t NS_INCIDENT). ev_key row = incident_key E j \<and> ev_payload row = [(''incident'', PIncident j)]) \<and>
    (if incident_key E j \<in> ev_key ` set (il_ledgers s NS_INCIDENT)
     then il_ledgers t = il_ledgers s \<and> all_incidents t = Inr d
     else all_incidents t = Inr (dict_set iid j d) \<and>
       close_incident E iid cause test link r' e' c' t = (Inr j, t) \<and>
       ((cause', test', link') = (cause, test, link) \<or>
          close_incident E iid cause' test' link' r' e' c' t = (Inl (ValueError ''closed incident is immutable''), t)))"
proof -
  define moment where "moment = (case closing of None \<Rightarrow> Aware (ln_now E (il_draws s)) 0 | Some u \<Rightarrow> u)"
  define lines where "lines = in_timeline i @ (case entry of None \<Rightarrow> [] | Some u \<Rightarrow> if u = [] then [] else [strip u])"
  let ?i = "i\<lparr>in_timeline := lines, in_root_cause := Some cause, in_corrective_test := Some test, in_rollback_link := Some link,
    in_reconciliation := reconciled\<rparr>"
  let ?s = "s\<lparr>il_draws := Suc (il_draws s)\<rparr>"
  obtain k where k: "mk_incident ?i (Aware (in_opened_at i) 0) (Some moment) = Inr k" "record_incident E k ?s = (Inr j, t)"
    using run all by (auto simp: close_incident_def moment_def lines_def Let_def split: sum.splits)
  obtain c where c: "k = ?i\<lparr>in_opened_at := in_opened_at i, in_closed_at := Some c\<rparr>"
    using k(1) by (auto simp: mk_incident_def rbind_eq_Inr)
  have valid: "incident_valid k" using k(1) by (rule mk_incident_valid)
  have id: "in_id i = iid" using all_incidents_ok [OF all(1)] all(2) by (simp add: incidents_ok_def)
  have all': "all_incidents ?s = Inr d" using all(1) by (simp add: all_incidents_def)
  have rev: "revalidate_incident k = Inr k" using valid by (simp add: revalidate_incident_valid)
  have kid: "in_id k = iid" using c id by simp
  have run': "(if incident_hash E i = incident_hash E k then sreturn i else sbind (append_incident E k) (\<lambda>_. sreturn k)) ?s = (Inr j, t)"
    using k(2) all(2) by (simp add: record_incident_def rev all' kid)
  have "incident_hash E i \<noteq> incident_hash E k" using separates [of k] c all(3) by auto
  then have app: "append_incident E k ?s = (Inr (), t)" and j: "j = k" using run' by (auto simp: sbind_eq_Inr)
  have closed: "in_closed_at k = Some c" using c by simp
  from closed_incident [OF valid this] have rec: "lower (strip (in_reconciliation k)) \<noteq> ''pending''" by simp
  from app show ?thesis
  proof (cases rule: append_incident_row)
    case known
    then have "all_incidents t = Inr d" using all(1) by (simp add: all_incidents_def)
    with known j kid c valid rec show ?thesis by simp
  next
    case new
    have now: "all_incidents t = Inr (dict_set iid k d)" using all_incidents_new [OF all' valid new(1)] kid by simp
    have "\<exists>row \<in> set (il_ledgers t NS_INCIDENT). ev_key row = incident_key E k \<and> ev_payload row = [(''incident'', PIncident k)]"
      by (simp add: new(1) incident_event_def)
    with new(2) now j kid c valid rec show ?thesis by (auto simp: close_incident_def)
  qed
qed

text \<open>\<open>record\<close> replaces: recording any valid version of an incident that the ledger does not know yet and whose digest
  differs from the latest one makes it the latest, also when the latest is closed; so a closed incident is reopened by recording
  an open version, although \<open>close\<close> calls it immutable.\<close>

theorem recorded_incident_replaces:
  assumes "all_incidents s = Inr d" "map_of d (in_id k) = Some i" "incident_valid k" "incident_hash E i \<noteq> incident_hash E k"
    and "incident_key E k \<notin> ev_key ` set (il_ledgers s NS_INCIDENT)" "ln_uuid E (il_draws s) \<notin> event_id ` set (il_ledgers s NS_INCIDENT)"
  shows "\<exists>t. record_incident E k s = (Inr k, t) \<and> all_incidents t = Inr (dict_set (in_id k) k d)"
proof -
  let ?ev = "incident_event E k (il_draws s)"
  have ev: "stored ?ev = ?ev" "ev_namespace ?ev = NS_INCIDENT" "ev_key ?ev = incident_key E k" "event_id ?ev = ln_uuid E (il_draws s)"
    by (simp_all add: stored_def incident_event_def payload_json_def)
  have "find_key (incident_key E k) (il_ledgers s NS_INCIDENT) = None" "find_id (ln_uuid E (il_draws s)) (il_ledgers s NS_INCIDENT) = None"
    using assms(5,6) by (simp_all add: find_key_None find_id_None)
  then have "ledger_append ?ev (il_ledgers s) = (Inr ?ev, (il_ledgers s)(NS_INCIDENT := il_ledgers s NS_INCIDENT @ [?ev]))"
    by (simp add: ledger_append_def append_rows_eq ev)
  moreover have rev: "revalidate_incident k = Inr k" using assms(3) by (simp add: revalidate_incident_valid)
  ultimately have "record_incident E k s = (Inr k, s\<lparr>il_ledgers := (il_ledgers s)(NS_INCIDENT := il_ledgers s NS_INCIDENT @ [?ev]), il_draws := Suc (il_draws s)\<rparr>)"
    using assms(1,2,4) rev by (simp add: record_incident_def append_incident_def sbind_def)
  then show ?thesis using all_incidents_new [OF assms(1,3)] by simp
qed

section \<open>Instances\<close>

definition le_env :: learning_env where
  "le_env = \<lparr>ln_uuid = (\<lambda>n. n), ln_now = int, ln_uuid5 = length,
     ln_incident_hash = (\<lambda>i. if in_closed_at i = None then ''open'' else ''closed''),
     ln_outcome_hash = (\<lambda>x. if oc_latency_ms x = 1 then ''fast'' else ''slow''), ln_output_hash = (\<lambda>_. ''00'')\<rparr>"

definition le_decision :: paper_decision where
  "le_decision = \<lparr>pd_decision_id = 1, pd_mission_id = 2, pd_snapshot_id = 3, pd_quality_report_ids = [], pd_evidence_ids = [],
     pd_forecast_ids = [], pd_target_id = None, pd_risk_decision_id = None, pd_order_ids = [], pd_fill_ids = [],
     pd_reconciliation_id = None, pd_tca_id = None, pd_attribution_id = None, pd_subject = ''pipeline'', pd_subject_version = ''1'',
     pd_role = ''synthesizer'', pd_asset = ''BTC'', pd_horizon = ''1h'', pd_regime = ''unknown'', pd_cutoff = 0, pd_horizon_end = 5,
     pd_recorded_at = 0\<rparr>"

definition le_outcome :: "int \<Rightarrow> paper_outcome" where
  "le_outcome ms = \<lparr>oc_decision_id = 1, oc_forecast = Some (Dec 5 (-1)), oc_realized = Some (Dec 4 (-1)), oc_net_utility = Dec 1 0,
     oc_cost_usd = d0, oc_fill_quality = d1, oc_data_reliability = Dec 9 (-1), oc_latency_ms = ms, oc_failure_rate = d0, oc_as_of = 6\<rparr>"

definition le_loop :: learning where
  "le_loop = \<lparr>lp_ledgers = empty_ledgers, lp_decisions = [(1, le_decision)], lp_problems = [], lp_replays = [], lp_outcomes = [],
     lp_cards = [], lp_draws = 0\<rparr>"

lemma learning_append_fresh:
  "lp_ledgers s ns = [] \<Longrightarrow> \<exists>L. learning_append E ns et key p s = (Inr (), s\<lparr>lp_ledgers := L, lp_draws := Suc (lp_draws s)\<rparr>)"
  by (auto simp: learning_append_def ledger_append_def append_rows_def append_race_def find_key_def find_id_def Let_def)

theorem outcome_scored_once_witness:
  "\<exists>c t. record_outcome le_env (le_outcome 1) le_loop = (Inr c, t) \<and> sc_eligible c \<and> c \<in> set (lp_cards t) \<and>
     record_outcome le_env (le_outcome 1) t = (Inr c, t) \<and>
     record_outcome le_env (le_outcome 2) t = (Inl (ValueError ''paper outcome is immutable for a decision and as_of''), t)"
proof -
  have ok: "case outcome_card le_env le_decision (le_outcome 1) of Inl e \<Rightarrow> False | Inr c \<Rightarrow> sc_eligible c" by code_simp
  then obtain c where c: "outcome_card le_env le_decision (le_outcome 1) = Inr c" and eligible: "sc_eligible c" by (auto split: sum.splits)
  have new: "map_of (lp_outcomes le_loop) (oc_decision_id (le_outcome 1), oc_as_of (le_outcome 1)) = None" by (simp add: le_loop_def)
  have known: "map_of (lp_decisions le_loop) (oc_decision_id (le_outcome 1)) = Some le_decision" "lp_cards le_loop = []"
    "\<not> oc_as_of (le_outcome 1) < pd_horizon_end le_decision" by (simp_all add: le_loop_def le_outcome_def le_decision_def)
  have "lp_ledgers (le_loop\<lparr>lp_cards := [c]\<rparr>) NS_MODEL = []" by (simp add: le_loop_def empty_ledgers_def)
  then have new_rows: "\<And>et key p. \<exists>L. learning_append le_env NS_MODEL et key p (le_loop\<lparr>lp_cards := [c]\<rparr>) =
      (Inr (), le_loop\<lparr>lp_cards := [c], lp_ledgers := L, lp_draws := Suc (lp_draws (le_loop\<lparr>lp_cards := [c]\<rparr>))\<rparr>)"
    by (rule learning_append_fresh)
  obtain L where L: "learning_append le_env NS_MODEL ''paper_scorecard_recorded'' (''paper-scorecard:'' @ uuid_str (sc_id c))
      [(''scorecard'', PScorecard c), (''decision_id'', PUuid (oc_decision_id (le_outcome 1))), (''outcome'', POutcome (le_outcome 1))]
      (le_loop\<lparr>lp_cards := [c]\<rparr>) = (Inr (), le_loop\<lparr>lp_cards := [c], lp_ledgers := L, lp_draws := Suc (lp_draws (le_loop\<lparr>lp_cards := [c]\<rparr>))\<rparr>)"
    using new_rows by blast
  obtain t where r: "record_outcome le_env (le_outcome 1) le_loop = (Inr c, t)"
    using L by (simp add: record_outcome_def known new c on_cards_def store_card_def find_card_def sbind_def)
  have other: "oc_decision_id (le_outcome 2) = oc_decision_id (le_outcome 1)" "oc_as_of (le_outcome 2) = oc_as_of (le_outcome 1)"
    "ln_outcome_hash le_env (le_outcome 2) \<noteq> ln_outcome_hash le_env (le_outcome 1)" by (simp_all add: le_outcome_def le_env_def)
  from outcome_scored_once [OF r] new other have
    "record_outcome le_env (le_outcome 1) t = (Inr c, t)"
    "record_outcome le_env (le_outcome 2) t = (Inl (ValueError ''paper outcome is immutable for a decision and as_of''), t)"
    "c \<in> set (lp_cards t)" by blast+
  with r eligible show ?thesis by metis
qed

definition le_incident :: incident where
  "le_incident = \<lparr>in_id = 4, in_severity = SEVERITY_HIGH, in_owner = ''ops'', in_summary = ''venue down'', in_runbook = ''r.md'',
     in_evidence_ids = [], in_timeline = [], in_containment = ''halted'', in_reconciliation = ''pending'', in_root_cause = None,
     in_corrective_test = None, in_rollback_link = None, in_opened_at = 1, in_closed_at = None\<rparr>"

definition le_log :: incident_log where
  "le_log = \<lparr>il_ledgers = empty_ledgers(NS_INCIDENT := [incident_event le_env le_incident 0]), il_draws = 1\<rparr>"

theorem incident_closed_once_witness:
  "\<exists>j t. close_incident le_env 4 ''cause'' ''test'' ''link'' ''verified'' None None le_log = (Inr j, t) \<and>
     all_incidents t = Inr [(4, j)] \<and> in_closed_at j \<noteq> None \<and>
     close_incident le_env 4 ''other'' ''test'' ''link'' ''verified'' None None t = (Inl (ValueError ''closed incident is immutable''), t)"
proof -
  let ?r = "close_incident le_env 4 ''cause'' ''test'' ''link'' ''verified'' None None le_log"
  have ok: "is_ok (fst ?r)" "incident_key le_env (the_ok (fst ?r)) \<noteq> incident_key le_env le_incident" by code_simp+
  have r: "?r = (Inr (the_ok (fst ?r)), snd ?r)" using is_ok_the_ok [OF ok(1)] by (metis prod.collapse)
  have all: "all_incidents le_log = Inr [(4, le_incident)]"
  proof -
    have "revalidate_incident le_incident = Inr le_incident" by code_simp
    then show ?thesis
      by (simp add: all_incidents_def ledger_events_def le_log_def incident_event_def) (simp add: le_incident_def)
  qed
  have i: "map_of [(4, le_incident)] 4 = Some le_incident" "in_closed_at le_incident = None" by (simp_all add: le_incident_def)
  have fresh: "incident_key le_env (the_ok (fst ?r)) \<notin> ev_key ` set (il_ledgers le_log NS_INCIDENT)"
    using ok(2) by (simp add: le_log_def incident_event_def)
  have "in_closed_at k = in_closed_at le_incident" if "incident_hash le_env k = incident_hash le_env le_incident" for k
    using that by (simp add: incident_hash_def le_env_def le_incident_def split: if_splits)
  from incident_closed_once [OF all i r this, of "''verified''" None None "''other''" "''test''" "''link''"] r fresh show ?thesis by auto
qed

definition le_summary_env :: learning_env where
  "le_summary_env = le_env\<lparr>ln_incident_hash := in_summary\<rparr>"

definition le_closed :: incident where
  "le_closed = le_incident\<lparr>in_reconciliation := ''verified'', in_root_cause := Some ''cause'', in_corrective_test := Some ''test'',
     in_rollback_link := Some ''link'', in_closed_at := Some 9\<rparr>"

definition le_closed_log :: incident_log where
  "le_closed_log = \<lparr>il_ledgers = empty_ledgers(NS_INCIDENT := [incident_event le_summary_env le_closed 0]), il_draws = 1\<rparr>"

theorem recorded_incident_replaces_witness:
  "\<exists>t. record_incident le_summary_env (le_incident\<lparr>in_summary := ''again''\<rparr>) le_closed_log =
       (Inr (le_incident\<lparr>in_summary := ''again''\<rparr>), t) \<and>
     all_incidents le_closed_log = Inr [(4, le_closed)] \<and> in_closed_at le_closed = Some 9 \<and>
     all_incidents t = Inr [(4, le_incident\<lparr>in_summary := ''again''\<rparr>)] \<and> in_closed_at (le_incident\<lparr>in_summary := ''again''\<rparr>) = None"
proof -
  let ?k = "le_incident\<lparr>in_summary := ''again''\<rparr>"
  have all: "all_incidents le_closed_log = Inr [(4, le_closed)]"
  proof -
    have "revalidate_incident le_closed = Inr le_closed" by code_simp
    then show ?thesis
      by (simp add: all_incidents_def ledger_events_def le_closed_log_def incident_event_def) (simp add: le_closed_def le_incident_def)
  qed
  have "revalidate_incident ?k = Inr ?k" by code_simp
  then have valid: "incident_valid ?k" by (simp add: revalidate_incident_valid)
  have i: "map_of [(4, le_closed)] (in_id ?k) = Some le_closed" by (simp add: le_incident_def)
  have hash: "incident_hash le_summary_env le_closed \<noteq> incident_hash le_summary_env ?k"
    by (simp add: incident_hash_def le_summary_env_def le_closed_def le_incident_def)
  have key: "incident_key le_summary_env ?k \<notin> ev_key ` set (il_ledgers le_closed_log NS_INCIDENT)"
    using hash by (simp add: le_closed_log_def incident_event_def incident_key_def) (simp add: le_closed_def le_incident_def)
  have uuid: "ln_uuid le_summary_env (il_draws le_closed_log) \<notin> event_id ` set (il_ledgers le_closed_log NS_INCIDENT)"
    by (simp add: le_closed_log_def incident_event_def le_summary_env_def le_env_def)
  from recorded_incident_replaces [OF all i valid hash key uuid] all show ?thesis
    by (auto simp: le_closed_def le_incident_def)
qed

text \<open>
  A decision record whose subject is blank passes its validators, because \<open>min_length\<close> is checked before the text
  is stripped; the stored text is empty, and the restart refuses it.
\<close>

theorem blank_subject_blocks_restart:
  "(case mk_paper_decision (le_decision\<lparr>pd_subject := '' ''\<rparr>) (Aware 0 0) (Aware 5 0) (Aware 0 0) of
      Inl e \<Rightarrow> False
    | Inr d \<Rightarrow> (case record_decision le_env d (le_loop\<lparr>lp_decisions := []\<rparr>) of
        (Inl e, t) \<Rightarrow> False
      | (Inr r, t) \<Rightarrow> (case new_learning le_env (lp_ledgers t) [] 9 of
          Inl e \<Rightarrow> e = ValidationError ''too short'' | Inr u \<Rightarrow> False)))"
  by code_simp

end
