(* ===== verification/Spec2Isabelle.thy ===== *)
theory Spec2Isabelle
  imports Oms_Properties Account_Recovery Risk_Properties Portfolio_Properties Tca Live_Properties Authority Fusion Instruments Reconcile Runtime_Properties Learning_Properties
begin

text \<open>
  The execution core of AdvisorAI: from closed market observations over a target portfolio and the risk kernel to
  orders, fills, accounts and their recovery.  All paths below are relative to \<open>src/src/advisorai/\<close>.

  \<^bold>\<open>The program.\<close>  A decision cycle of the paper runtime (\<open>runtime/paper.py\<close>) waits for a complete cadence
  (\<open>runtime/cadence.py\<close>), takes a data snapshot, lets providers decide, builds orders, has the risk kernel
  (\<open>execution/risk.py\<close>) decide on the target and on each order, and routes the approved orders through the order manager
  (\<open>execution/oms.py\<close>) to a venue (\<open>execution/paper.py\<close>).  Fills are booked in the account
  (\<open>execution/account.py\<close>); the reconciliation service (\<open>execution/reconciliation.py\<close>) compares
  order manager, account ledger and venue, and a mismatch trips the kill switch.  Each component writes what it does to a
  namespace of the append-only ledgers (\<open>ledger/sqlite.py\<close>) before it changes its state, and rebuilds its state
  from the rows on restart.  Phase gates (\<open>gates.py\<close>), the paper soak (\<open>soak/controller.py\<close>) and the
  live guard (\<open>live/guard.py\<close>) decide what may operate at all; the learning loop (\<open>learning/paper.py\<close>,
  \<open>observability/incidents.py\<close>, \<open>memory/scorecards.py\<close>) keeps decisions, outcomes and incidents.

  \<^bold>\<open>Theories.\<close>
  \<^item> \<open>Prelude\<close>: the exceptions of the sources as the datatype of errors, \<open>'a res\<close> (an error or a value), actions
    \<open>('s, 'a) action\<close> that return a result and a state (a failing action keeps what it changed before, as in Python), insertion-ordered
    dictionaries as association lists, the string methods, \<open>preserve_intros\<close> and \<open>model_defs\<close>.
  \<^item> \<open>PyDecimal\<close>: \<open>decimal.Decimal\<close> as coefficient and exponent with the 28-digit half-even context; every operation is shown to be exact
    arithmetic followed by \<open>rnd\<close>, and the locale \<open>rounding\<close> says what the other proofs use of that.
  \<^item> \<open>Contracts\<close>, \<open>Research_Artifacts\<close>, \<open>Authority\<close>: \<open>contracts/core.py\<close>.  Each model class is a record that extends \<open>artifact\<close>, its
    constructor with validators a function \<open>mk_...\<close>; the denylist is \<open>is_forbidden_authority_action\<close>.
  \<^item> \<open>Gate_Records\<close>, \<open>Runtime_Records\<close>, \<open>Learning_Records\<close>: the records that ledger payloads of these components carry.
  \<^item> \<open>Ledger\<close>, \<open>Outbox\<close>: the rows of each namespace (\<open>ledger_append\<close>, \<open>ledger_events\<close>) and the event bus (\<open>publish\<close>, \<open>replay\<close>,
    \<open>mark_delivered\<close>).  The locale \<open>idempotent_log\<close> is their contract; rows, outbox and scorecard store are its interpretations.
  \<^item> \<open>Paper_Venue\<close>: \<open>execution/paper.py\<close>, with the locale \<open>venue\<close> of what order managers may rely on.
  \<^item> \<open>Oms\<close>, \<open>Oms_Spec\<close>, \<open>Oms_Invariant\<close>, \<open>Oms_Recovery\<close>, \<open>Oms_Submission\<close>, \<open>Oms_Methods\<close>, \<open>Oms_Properties\<close>: the order manager.
    \<open>Oms\<close> has one action per method (\<open>create_order\<close>, \<open>approve_risk\<close>, \<open>route\<close>, \<open>record_fill\<close>, \<open>cancel_order\<close>, \<open>reconcile_ambiguous\<close>,
    \<open>hydrate_events\<close> and the others); \<open>Oms_Spec\<close> has the step relation \<open>oms_step\<close> on durable effects and shows each method a path of it;
    the invariants, the replay and the bound of one submission are inductions on these paths.
  \<^item> \<open>Account\<close>, \<open>Account_Facts\<close>, \<open>Account_Properties\<close>: \<open>AccountState\<close>, its accounting identity and its invariant.
    \<open>Account_Ledger\<close>, \<open>Account_Ledger_Facts\<close>, \<open>Account_Recovery\<close>: \<open>AccountLedger\<close>, whose methods all run through \<open>once\<close> and \<open>book\<close>; each call
    appends one row or none, the account is the fold of what the rows record (\<open>rows_account\<close>), and the replay restores it.
  \<^item> \<open>Risk\<close>, \<open>Risk_Facts\<close>, \<open>Risk_Properties\<close>: \<open>RiskKernel.evaluate\<close> with its bisection, \<open>check_order\<close> and \<open>KillSwitch\<close>.
  \<^item> \<open>Portfolio\<close>, \<open>Portfolio_Properties\<close>: \<open>execution/portfolio.py\<close> and \<open>execution/policies.py\<close>; \<open>Tca\<close>: \<open>execution/tca.py\<close>.
  \<^item> \<open>Reconcile\<close>: \<open>execution/reconciliation.py\<close>; \<open>Instruments\<close>: \<open>identity/instruments.py\<close>; \<open>Fusion\<close>: \<open>agents/fusion.py\<close>.
  \<^item> \<open>Gates\<close>, \<open>Gate_Properties\<close>, \<open>Soak\<close>, \<open>Live\<close>, \<open>Live_Properties\<close>: the admission registry, the soak gate and live operation.
  \<^item> \<open>Cadence\<close>, \<open>Paper_Runtime\<close>, \<open>Runtime_Facts\<close>, \<open>Runtime_Samples\<close>, \<open>Runtime_Properties\<close>: one cycle (\<open>run_once\<close>, cut at its early
    returns into \<open>run_cadence\<close>, \<open>run_snapshot\<close>, \<open>run_decision\<close>, \<open>run_admitted\<close> and \<open>route_orders\<close>), reconciliation, scheduler and
    dashboard control over the components above.
  \<^item> \<open>Learning\<close>, \<open>Learning_Properties\<close>: the learning loop, the incident ledger and the scorecard store.
\<close>

text \<open>
  \<^bold>\<open>What is shown.\<close>
  \<^item> Orders: every method is a path of the specification; identities, keys, durability and quantities are invariant; the ledger only
    grows and states move only along the table; each order is sent at most once; the replay of a calm run restores the projection; a lost
    response is resolved by reconciliation.  Two ways into a ledger that cannot be replayed are stated as theorems.
  \<^item> Accounts: accounting identity of a fill, well-formedness, atomicity of a call, refinement of the ledger by the fold of recorded
    events, recovery.
  \<^item> Risk: the kernel approves exactly the targets in policy; a reduction is accepted by the complete kernel and cannot be extended by more
    than 1e-14; an approved order is within every limit; approvals bind target and order to one state; the switch survives a restart.
  \<^item> Targets: positions, band, costs and cash of a built target; agreement of builder and kernel on the limits both know; choices
    become valid orders.
  \<^item> Operation: a cycle sends only cleared orders; after a mismatch nothing is sent; readiness is completeness of the cadence;
    reconciliation agrees with an independent comparison and is in the ledger once; admission, activation and the live order guard; recovery of the live plane.
  \<^item> Evidence and learning: the independence gate counts connected components of shared origin; the denylist is a test on words;
    instrument resolution is unique and stable; outcomes are scored once; when closing an incident is final and when it is not.

  \<^bold>\<open>Parameters.\<close>  What is not under \<open>src/\<close> or not a function of the state is an argument: clocks and drawn identifiers (functions of the
  number of draws, so that two readings may differ), SHA-256 and \<open>uuid5\<close> digests, the iteration order of a set where it shows, the venue and
  the event bus of the order manager (which may raise at any call), the providers of data, decisions, orders and checks of the runtime.  Hypotheses on
  them are named where they are used: \<open>inj\<close> of drawn identifiers, a digest that separates two versions, a venue or bus without the optional
  method.  The clock is never assumed to advance.

  \<^bold>\<open>Bounds.\<close>  The bisection of \<open>evaluate\<close> is the source's loop of 48 steps, a structural recursion; the interval then has width \<open>2 ^ -48\<close> plus the
  rounding of the midpoints, below 1e-14.  \<open>run_forever\<close> takes the number of cycles, the source's \<open>max_cycles\<close>; the properties hold
  for every number, and so for every prefix of an unbounded run.  The regular-expression passes of \<open>Authority\<close> and the merge of \<open>Fusion\<close> are total functions; \<open>admitted\<close> descends along
  the phases and answers False for a prerequisite that is not earlier, which the validators of records exclude.

  \<^bold>\<open>Conventions.\<close>  Strings are lists of 8-bit characters; the \<open>str\<close> methods are those of latin-1.  Times are counted in whole microseconds with an
  offset, and \<open>timestamp()\<close> is taken as exact.  Arguments have the annotated types; pydantic's coercions of other
  types are left out.  \<open>Decimal\<close> has no limits on exponents and no sign of zero; NaN and infinities are one value \<open>NotFinite\<close>.
  All ledgers are one map from namespaces to rows; rows of a namespace are written by the components modelled, in one thread, and a
  transaction is atomic.  Hydration takes the stored record as it was validated when it was written.

  \<^bold>\<open>Not modelled.\<close>  Council, router, gateways, capabilities and services, the dashboard API, collectors, exchange and LLM clients, the data
  lake, forecasting models and floating-point analytics, configuration, secrets and resources, traces, durable soak storage, the Nautilus and native engines,
  and the programs of phases 0 and 4 with their scripts: network, files, processes and numerical libraries around the core, none of which
  may write an order.
\<close>

end
